(* ===== verification/Coactor_Prelude.thy ===== *)
theory Coactor_Prelude
  imports Main "HOL-Library.Word" "HOL-Library.AList"
begin

text \<open>
  Shared vocabulary of the development: Rust's machine integers as words, its
  \<open>Result\<close> as a sum, its \<open>HashMap\<close> as an association list with distinct keys, and
  the outcome of \<open>tokio::time::timeout\<close>.  The interface locale \<open>hash_map\<close> states
  what the registries of the runtime and the client rely on from a hash map; it is
  interpreted here on the association lists every component uses.
\<close>

section \<open>Machine integers, durations, bytes\<close>

type_synonym u8 = "8 word"
type_synonym u16 = "16 word"
type_synonym u32 = "32 word"
type_synonym u64 = "64 word"
type_synonym usize = "64 word"
type_synonym i32 = "32 word"
type_synonym bytes = "8 word list"

text \<open>
  Monotonic instants and durations are counted in nanoseconds, the resolution of Rust's
  \<open>Duration\<close>; instants are counted from the start of the process.
\<close>

type_synonym instant = nat
type_synonym duration = nat

definition as_millis :: "duration \<Rightarrow> nat" where
  "as_millis d = d div 1000000"

definition from_secs :: "nat \<Rightarrow> duration" where
  "from_secs n = n * 1000000000"

definition saturating_add :: "'a::len word \<Rightarrow> 'a word \<Rightarrow> 'a word" where
  "saturating_add a b = (if unat a + unat b < 2 ^ LENGTH('a) then a + b else - 1)"

definition saturating_sub :: "'a::len word \<Rightarrow> 'a word \<Rightarrow> 'a word" where
  "saturating_sub a b = (if b \<le> a then a - b else 0)"

lemma unat_max_word: "unat (- 1 :: 'a::len word) = 2 ^ LENGTH('a) - 1"
  by (simp add: unsigned_minus_1_eq_mask mask_eq_exp_minus_1)

lemma unat_le_max: "unat (a :: 'a::len word) \<le> 2 ^ LENGTH('a) - 1"
  using unsigned_less [of a, where 'a = nat] by linarith

lemma unat_saturating_add:
  "unat (saturating_add a b :: 'a::len word) = min (unat a + unat b) (2 ^ LENGTH('a) - 1)"
proof (cases "unat a + unat b < 2 ^ LENGTH('a)")
  case True
  then show ?thesis by (simp add: saturating_add_def unat_word_ariths)
next
  case False
  then show ?thesis by (simp add: saturating_add_def unat_max_word)
qed

lemma unat_saturating_sub: "unat (saturating_sub a b) = unat a - unat b"
  by (auto simp: saturating_sub_def unat_sub word_le_nat_alt)

lemma saturating_add_one_mono: "a \<le> saturating_add a (1 :: 'a::len word)"
  using unat_le_max [of a] by (simp add: word_le_nat_alt unat_saturating_add)

lemma saturating_add_one_less:
  assumes "a \<noteq> (- 1 :: 'a::len word)"
  shows "a < saturating_add a 1"
proof -
  have "unat a \<noteq> unat (- 1 :: 'a word)"
    using assms by (metis word_unat_eq_iff)
  then have "unat a < 2 ^ LENGTH('a) - 1"
    using unat_le_max [of a] by (simp add: unat_max_word)
  then show ?thesis
    by (simp add: word_less_nat_alt unat_saturating_add)
qed

lemma saturating_add_max [simp]: "saturating_add (- 1) (1 :: 'a::len word) = - 1"
  by (simp add: saturating_add_def unat_max_word)

section \<open>Results and timeouts\<close>

type_synonym ('a, 'e) result = "'e + 'a"

abbreviation Ok :: "'a \<Rightarrow> 'e + 'a" where
  "Ok \<equiv> Inr"

abbreviation Err :: "'e \<Rightarrow> 'e + 'a" where
  "Err \<equiv> Inl"

text \<open>
  \<open>tokio::time::timeout(d, future)\<close>: the future's value, or \<open>Elapsed\<close>.  After
  \<open>Elapsed\<close> the request may still take effect.
\<close>

datatype 'a timed = Elapsed | Done 'a

section \<open>Hash maps\<close>

text \<open>
  A \<open>HashMap\<close> is an association list with distinct keys; its order stands for the
  unspecified iteration order, and no theorem of the development depends on it.
\<close>

named_theorems hm_simps

type_synonym ('k, 'v) hmap = "('k \<times> 'v) list"

definition hm_empty :: "('k, 'v) hmap" where
  "hm_empty = []"

definition hm_get :: "('k, 'v) hmap \<Rightarrow> 'k \<Rightarrow> 'v option" where
  "hm_get m k = map_of m k"

definition hm_insert :: "'k \<Rightarrow> 'v \<Rightarrow> ('k, 'v) hmap \<Rightarrow> ('k, 'v) hmap" where
  "hm_insert k v m = AList.update k v m"

definition hm_remove :: "'k \<Rightarrow> ('k, 'v) hmap \<Rightarrow> ('k, 'v) hmap" where
  "hm_remove k m = filter (\<lambda>(k', _). k' \<noteq> k) m"

definition hm_keys :: "('k, 'v) hmap \<Rightarrow> 'k list" where
  "hm_keys m = map fst m"

definition hm_ok :: "('k, 'v) hmap \<Rightarrow> bool" where
  "hm_ok m \<longleftrightarrow> distinct (hm_keys m)"

locale hash_map =
  fixes empty :: "'m"
    and get :: "'m \<Rightarrow> 'k \<Rightarrow> 'v option"
    and insert :: "'k \<Rightarrow> 'v \<Rightarrow> 'm \<Rightarrow> 'm"
    and remove :: "'k \<Rightarrow> 'm \<Rightarrow> 'm"
    and keys :: "'m \<Rightarrow> 'k list"
    and invar :: "'m \<Rightarrow> bool"
  assumes get_empty: "get empty k = None"
    and get_insert: "get (insert k v m) k' = (if k' = k then Some v else get m k')"
    and get_remove: "get (remove k m) k' = (if k' = k then None else get m k')"
    and keys_dom: "k \<in> set (keys m) \<longleftrightarrow> get m k \<noteq> None"
    and keys_distinct: "invar m \<longleftrightarrow> distinct (keys m)"
    and invar_empty: "invar empty"
    and invar_insert: "invar m \<Longrightarrow> invar (insert k v m)"
    and invar_remove: "invar m \<Longrightarrow> invar (remove k m)"
begin

lemma set_keys: "set (keys m) = dom (get m)"
  by (auto simp: keys_dom)

lemma set_keys_insert: "set (keys (insert k v m)) = Set.insert k (set (keys m))"
  by (auto simp: keys_dom get_insert split: if_splits)

lemma set_keys_remove: "set (keys (remove k m)) = set (keys m) - {k}"
  by (auto simp: keys_dom get_remove split: if_splits)

lemma length_keys: "invar m \<Longrightarrow> length (keys m) = card (dom (get m))"
  by (simp add: keys_distinct distinct_card [symmetric] set_keys)

lemma length_keys_insert_new:
  assumes "invar m" and "get m k = None"
  shows "length (keys (insert k v m)) = Suc (length (keys m))"
proof -
  have fin: "finite (dom (get m))"
    by (metis List.finite_set set_keys)
  have "dom (get (insert k v m)) = Set.insert k (dom (get m))"
    using set_keys_insert [of k v m] by (simp add: set_keys)
  moreover have "k \<notin> dom (get m)" using assms(2) by auto
  ultimately show ?thesis
    using assms(1) fin by (simp add: length_keys invar_insert)
qed

lemma length_keys_remove_present:
  assumes "invar m" and "get m k = Some v"
  shows "Suc (length (keys (remove k m))) = length (keys m)"
proof -
  have fin: "finite (dom (get m))"
    by (metis List.finite_set set_keys)
  have "dom (get (remove k m)) = dom (get m) - {k}"
    using set_keys_remove [of k m] by (simp add: set_keys)
  moreover have "k \<in> dom (get m)" using assms(2) by auto
  ultimately show ?thesis
    using card_Suc_Diff1 [OF fin, of k] assms(1) by (simp add: length_keys invar_remove)
qed

end

lemma hm_remove_map_of: "map_of (hm_remove k m) k' = (if k' = k then None else map_of m k')"
  by (induction m) (auto simp: hm_remove_def)

interpretation hm: hash_map hm_empty hm_get hm_insert hm_remove hm_keys hm_ok
proof unfold_locales
  fix m :: "('k, 'v) hmap" and k k' :: 'k and v :: 'v
  show "hm_get hm_empty k = (None :: 'v option)" by (simp add: hm_get_def hm_empty_def)
  show "hm_get (hm_insert k v m) k' = (if k' = k then Some v else hm_get m k')"
    by (simp add: hm_get_def hm_insert_def update_conv)
  show "hm_get (hm_remove k m) k' = (if k' = k then None else hm_get m k')"
    by (simp add: hm_get_def hm_remove_map_of)
  show "k \<in> set (hm_keys m) \<longleftrightarrow> hm_get m k \<noteq> None"
    by (simp add: hm_get_def hm_keys_def map_of_eq_None_iff)
  show "hm_ok m \<longleftrightarrow> distinct (hm_keys m)" by (simp add: hm_ok_def)
  show "hm_ok (hm_empty :: ('k, 'v) hmap)" by (simp add: hm_ok_def hm_keys_def hm_empty_def)
  show "hm_ok m \<Longrightarrow> hm_ok (hm_insert k v m)"
    by (simp add: hm_ok_def hm_keys_def hm_insert_def distinct_update)
  show "hm_ok m \<Longrightarrow> hm_ok (hm_remove k m)"
    by (simp add: hm_ok_def hm_keys_def hm_remove_def distinct_map_filter)
qed

declare hm.get_empty [simp, hm_simps] hm.get_insert [simp, hm_simps] hm.get_remove [simp, hm_simps]
  hm.invar_empty [simp] hm.invar_insert [simp] hm.invar_remove [simp]

lemma hm_remove_absent: "hm_get m k = None \<Longrightarrow> hm_remove k m = m"
  by (induction m) (auto simp: hm_remove_def hm_get_def split: if_splits)

lemma hm_entry_get: "hm_ok m \<Longrightarrow> (k, v) \<in> set m \<longleftrightarrow> hm_get m k = Some v"
  by (auto simp: hm_ok_def hm_keys_def hm_get_def)

lemma length_hm_keys [simp]: "length (hm_keys m) = length m"
  by (simp add: hm_keys_def)

lemma hm_get_Nil [simp]: "hm_get [] k = None"
  by (simp add: hm_get_def)

lemma hm_get_Cons [simp]: "hm_get ((k, v) # m) k' = (if k' = k then Some v else hm_get m k')"
  by (simp add: hm_get_def)

lemmas hm_exec_simps = hm_insert_def hm_remove_def hm_keys_def hm_empty_def

end
