(* ===== verification/Actor_Address.thy ===== *)
theory Actor_Address
  imports Coactor_Prelude
begin

text \<open>
  Actor addresses (\<open>coactor/src/actor.rs\<close>): the Kubernetes DNS-label syntax shared by
  Actor Types, Actor IDs and Node IDs, the validating constructor \<open>ActorAddress::new\<close>
  and its \<open>Display\<close> form.  A Rust \<open>str\<close> is its sequence of UTF-8 bytes, a \<open>string\<close>
  here.
\<close>

section \<open>Character classes\<close>

definition is_ascii_lowercase :: "char \<Rightarrow> bool" where
  "is_ascii_lowercase c \<longleftrightarrow> 97 \<le> (of_char c :: nat) \<and> (of_char c :: nat) \<le> 122"

definition is_ascii_uppercase :: "char \<Rightarrow> bool" where
  "is_ascii_uppercase c \<longleftrightarrow> 65 \<le> (of_char c :: nat) \<and> (of_char c :: nat) \<le> 90"

definition is_ascii_digit :: "char \<Rightarrow> bool" where
  "is_ascii_digit c \<longleftrightarrow> 48 \<le> (of_char c :: nat) \<and> (of_char c :: nat) \<le> 57"

definition is_ascii_alphanumeric :: "char \<Rightarrow> bool" where
  "is_ascii_alphanumeric c \<longleftrightarrow> is_ascii_lowercase c \<or> is_ascii_uppercase c \<or> is_ascii_digit c"

definition first_char :: "string \<Rightarrow> char option" where
  "first_char s = (case s of [] \<Rightarrow> None | c # _ \<Rightarrow> Some c)"

definition last_char :: "string \<Rightarrow> char option" where
  "last_char s = (case s of [] \<Rightarrow> None | _ \<Rightarrow> Some (last s))"

definition is_some_and :: "('a \<Rightarrow> bool) \<Rightarrow> 'a option \<Rightarrow> bool" where
  "is_some_and p x = (case x of None \<Rightarrow> False | Some v \<Rightarrow> p v)"

lemma is_some_and_simps [simp]:
  "is_some_and p None = False"
  "is_some_and p (Some v) = p v"
  by (simp_all add: is_some_and_def)

section \<open>DNS labels and addresses\<close>

definition is_dns_label :: "string \<Rightarrow> bool" where
  "is_dns_label value \<longleftrightarrow>
     1 \<le> length value \<and> length value \<le> 63
     \<and> is_some_and is_ascii_alphanumeric (first_char value)
     \<and> is_some_and is_ascii_alphanumeric (last_char value)
     \<and> list_all (\<lambda>b. is_ascii_lowercase b \<or> is_ascii_digit b \<or> b = CHR ''-'') value"

record actor_address =
  actor_type :: string
  actor_id :: string

datatype actor_address_error = InvalidActorType | InvalidActorId

definition ActorAddress_new :: "string \<Rightarrow> string \<Rightarrow> actor_address_error + actor_address" where
  "ActorAddress_new ty ident =
     (if \<not> is_dns_label ty then Err InvalidActorType
      else if \<not> is_dns_label ident then Err InvalidActorId
      else Ok \<lparr>actor_type = ty, actor_id = ident\<rparr>)"

definition ActorAddress_display :: "actor_address \<Rightarrow> string" where
  "ActorAddress_display a = actor_type a @ ''/'' @ actor_id a"

text \<open>The type invariant of \<open>ActorAddress\<close>: its fields are private, so every value is built by \<open>new\<close>.\<close>

definition valid_address :: "actor_address \<Rightarrow> bool" where
  "valid_address a \<longleftrightarrow> is_dns_label (actor_type a) \<and> is_dns_label (actor_id a)"

section \<open>Lemmas\<close>

lemma ActorAddress_new_Ok_iff:
  "ActorAddress_new ty ident = Ok a \<longleftrightarrow>
     is_dns_label ty \<and> is_dns_label ident \<and> a = \<lparr>actor_type = ty, actor_id = ident\<rparr>"
  by (auto simp: ActorAddress_new_def)

lemma ActorAddress_new_valid: "valid_address a \<Longrightarrow> ActorAddress_new (actor_type a) (actor_id a) = Ok a"
  by (simp add: ActorAddress_new_def valid_address_def)

lemma dns_label_chars:
  assumes "is_dns_label s" and "c \<in> set s"
  shows "is_ascii_lowercase c \<or> is_ascii_digit c \<or> c = CHR ''-''"
  using assms by (auto simp: is_dns_label_def list_all_iff)

lemma dns_label_no_char:
  assumes "is_dns_label s"
    and "\<not> is_ascii_lowercase c" and "\<not> is_ascii_digit c" and "c \<noteq> CHR ''-''"
  shows "c \<notin> set s"
  using assms dns_label_chars by blast

lemma dns_label_no_slash: "is_dns_label s \<Longrightarrow> CHR ''/'' \<notin> set s"
  by (rule dns_label_no_char) (simp_all add: is_ascii_lowercase_def is_ascii_digit_def)

lemma dns_label_ascii: "is_dns_label s \<Longrightarrow> c \<in> set s \<Longrightarrow> (of_char c :: nat) < 128"
  by (drule (1) dns_label_chars) (auto simp: is_ascii_lowercase_def is_ascii_digit_def)

lemma dns_label_nonempty: "is_dns_label s \<Longrightarrow> s \<noteq> []"
  by (auto simp: is_dns_label_def)

lemma separator_unique:
  assumes "c \<notin> set xs" and "c \<notin> set us" and "xs @ c # ys = us @ c # vs"
  shows "xs = us \<and> ys = vs"
  using assms
proof (induction xs arbitrary: us)
  case Nil
  then show ?case by (cases us) auto
next
  case (Cons x xs)
  then show ?case by (cases us) auto
qed

lemma display_inj:
  assumes "valid_address a" and "valid_address b"
    and "ActorAddress_display a = ActorAddress_display b"
  shows "a = b"
proof -
  have "actor_type a = actor_type b \<and> actor_id a = actor_id b"
    using assms separator_unique [of "CHR ''/''" "actor_type a" "actor_type b"]
    by (simp add: ActorAddress_display_def valid_address_def dns_label_no_slash)
  then show ?thesis by simp
qed

end
