(* ===== verification/Runtime_Errors.thy ===== *)
theory Runtime_Errors
  imports Actor_Address
begin

text \<open>
  The failure values of the runtime (\<open>coactor/src/actor.rs\<close>) and their wire codes
  (\<open>RuntimeFailure\<close> of \<open>coactor/proto/transport.proto\<close>): \<open>SendError\<close>, \<open>OpenError\<close>
  with its \<open>From<SendError>\<close>, and the lossy codec \<open>to_wire\<close>/\<open>from_wire\<close> a Server
  and a Client use for \<open>SessionError\<close> and \<open>SessionOpenedAck\<close>.
\<close>

datatype remote_protocol_error = VersionMismatch | ActorTypeNotRegistered_remote | MalformedMessage

datatype send_error =
    ActorTypeNotRegistered string
  | NotOwner
  | MailboxFull
  | ActivationFailed
  | ActorDeactivating
  | RuntimeAtCapacity
  | RuntimeShuttingDown
  | ActorStopped
  | RuntimeStopped
  | NodeFenced
  | RemoteUnavailable
  | DirectoryUnavailable
  | OwnershipUnavailable
  | RemoteProtocol remote_protocol_error

datatype open_error =
    RuntimeStopped_open
  | DirectoryUnavailable_open
  | AttemptsExhausted
  | RemoteUnavailable_open
  | ActorTypeNotRegistered_open
  | RuntimeAtCapacity_open
  | OwnershipUnavailable_open
  | RemoteProtocol_open

fun OpenError_from :: "send_error \<Rightarrow> open_error" where
  "OpenError_from RuntimeStopped = RuntimeStopped_open"
| "OpenError_from RuntimeShuttingDown = RuntimeStopped_open"
| "OpenError_from DirectoryUnavailable = DirectoryUnavailable_open"
| "OpenError_from (ActorTypeNotRegistered _) = ActorTypeNotRegistered_open"
| "OpenError_from RuntimeAtCapacity = RuntimeAtCapacity_open"
| "OpenError_from OwnershipUnavailable = OwnershipUnavailable_open"
| "OpenError_from (RemoteProtocol _) = RemoteProtocol_open"
| "OpenError_from _ = RemoteUnavailable_open"

datatype deactivation_reason = Idle | Shutdown

section \<open>Wire codes\<close>

datatype runtime_failure =
    RF_UNSPECIFIED
  | RF_MAILBOX_FULL
  | RF_ACTIVATION_FAILED
  | RF_ACTOR_DEACTIVATING
  | RF_RUNTIME_AT_CAPACITY
  | RF_RUNTIME_SHUTTING_DOWN
  | RF_ACTOR_STOPPED
  | RF_RUNTIME_STOPPED
  | RF_PROTOCOL_MISMATCH
  | RF_ACTOR_TYPE_NOT_REGISTERED
  | RF_MALFORMED_PAYLOAD
  | RF_REMOTE_UNAVAILABLE
  | RF_NODE_FENCED
  | RF_OWNERSHIP_UNAVAILABLE
  | RF_NOT_OWNER

text \<open>The numbering of the protocol file, which \<open>as i32\<close> and \<open>TryFrom<i32>\<close> follow.\<close>

definition runtime_failures :: "runtime_failure list" where
  "runtime_failures =
     [RF_UNSPECIFIED, RF_MAILBOX_FULL, RF_ACTIVATION_FAILED, RF_ACTOR_DEACTIVATING,
      RF_RUNTIME_AT_CAPACITY, RF_RUNTIME_SHUTTING_DOWN, RF_ACTOR_STOPPED, RF_RUNTIME_STOPPED,
      RF_PROTOCOL_MISMATCH, RF_ACTOR_TYPE_NOT_REGISTERED, RF_MALFORMED_PAYLOAD,
      RF_REMOTE_UNAVAILABLE, RF_NODE_FENCED, RF_OWNERSHIP_UNAVAILABLE, RF_NOT_OWNER]"

fun failure_code :: "runtime_failure \<Rightarrow> i32" where
  "failure_code RF_UNSPECIFIED = 0"
| "failure_code RF_MAILBOX_FULL = 1"
| "failure_code RF_ACTIVATION_FAILED = 2"
| "failure_code RF_ACTOR_DEACTIVATING = 3"
| "failure_code RF_RUNTIME_AT_CAPACITY = 4"
| "failure_code RF_RUNTIME_SHUTTING_DOWN = 5"
| "failure_code RF_ACTOR_STOPPED = 6"
| "failure_code RF_RUNTIME_STOPPED = 7"
| "failure_code RF_PROTOCOL_MISMATCH = 8"
| "failure_code RF_ACTOR_TYPE_NOT_REGISTERED = 9"
| "failure_code RF_MALFORMED_PAYLOAD = 10"
| "failure_code RF_REMOTE_UNAVAILABLE = 11"
| "failure_code RF_NODE_FENCED = 12"
| "failure_code RF_OWNERSHIP_UNAVAILABLE = 13"
| "failure_code RF_NOT_OWNER = 14"

definition failure_of_code :: "i32 \<Rightarrow> runtime_failure option" where
  "failure_of_code v = find (\<lambda>f. failure_code f = v) runtime_failures"

fun send_failure :: "send_error \<Rightarrow> runtime_failure" where
  "send_failure (ActorTypeNotRegistered _) = RF_ACTOR_TYPE_NOT_REGISTERED"
| "send_failure NotOwner = RF_NOT_OWNER"
| "send_failure MailboxFull = RF_MAILBOX_FULL"
| "send_failure ActivationFailed = RF_ACTIVATION_FAILED"
| "send_failure ActorDeactivating = RF_ACTOR_DEACTIVATING"
| "send_failure RuntimeAtCapacity = RF_RUNTIME_AT_CAPACITY"
| "send_failure RuntimeShuttingDown = RF_RUNTIME_SHUTTING_DOWN"
| "send_failure ActorStopped = RF_ACTOR_STOPPED"
| "send_failure RuntimeStopped = RF_RUNTIME_STOPPED"
| "send_failure NodeFenced = RF_NODE_FENCED"
| "send_failure RemoteUnavailable = RF_REMOTE_UNAVAILABLE"
| "send_failure DirectoryUnavailable = RF_REMOTE_UNAVAILABLE"
| "send_failure OwnershipUnavailable = RF_OWNERSHIP_UNAVAILABLE"
| "send_failure (RemoteProtocol _) = RF_PROTOCOL_MISMATCH"

definition to_wire :: "send_error \<Rightarrow> i32" where
  "to_wire e = failure_code (send_failure e)"

fun failure_error :: "runtime_failure \<Rightarrow> send_error" where
  "failure_error RF_ACTOR_TYPE_NOT_REGISTERED = ActorTypeNotRegistered ''''"
| "failure_error RF_NOT_OWNER = NotOwner"
| "failure_error RF_MAILBOX_FULL = MailboxFull"
| "failure_error RF_ACTIVATION_FAILED = ActivationFailed"
| "failure_error RF_ACTOR_DEACTIVATING = ActorDeactivating"
| "failure_error RF_RUNTIME_AT_CAPACITY = RuntimeAtCapacity"
| "failure_error RF_RUNTIME_SHUTTING_DOWN = RuntimeShuttingDown"
| "failure_error RF_ACTOR_STOPPED = ActorStopped"
| "failure_error RF_RUNTIME_STOPPED = RuntimeStopped"
| "failure_error RF_NODE_FENCED = NodeFenced"
| "failure_error RF_REMOTE_UNAVAILABLE = RemoteUnavailable"
| "failure_error RF_OWNERSHIP_UNAVAILABLE = OwnershipUnavailable"
| "failure_error _ = RemoteProtocol VersionMismatch"

definition from_wire :: "i32 \<Rightarrow> send_error" where
  "from_wire v =
     failure_error (case failure_of_code v of None \<Rightarrow> RF_UNSPECIFIED | Some f \<Rightarrow> f)"

section \<open>Lemmas\<close>

lemma failure_of_code_inverse [simp]: "failure_of_code (failure_code f) = Some f"
  by (cases f) (simp_all add: failure_of_code_def runtime_failures_def)

lemma from_wire_to_wire: "from_wire (to_wire e) = failure_error (send_failure e)"
  by (simp add: from_wire_def to_wire_def)

lemma failure_code_eq_iff [simp]: "failure_code f = failure_code g \<longleftrightarrow> f = g"
  by (metis failure_of_code_inverse option.inject)

text \<open>
  The error codec.  A \<open>SendError\<close> survives the trip over the wire unchanged exactly
  when it is not one of the three values the protocol has no room for: an
  \<open>ActorTypeNotRegistered\<close> with a name, \<open>DirectoryUnavailable\<close>, and a \<open>RemoteProtocol\<close>
  error other than \<open>VersionMismatch\<close>; and the decoded value always re-encodes to the
  same code.
\<close>

theorem wire_roundtrip:
  "(from_wire (to_wire e) = e \<longleftrightarrow>
     (\<forall>name. e = ActorTypeNotRegistered name \<longrightarrow> name = '''')
     \<and> e \<noteq> DirectoryUnavailable
     \<and> (\<forall>p. e = RemoteProtocol p \<longrightarrow> p = VersionMismatch))
   \<and> to_wire (from_wire (to_wire e)) = to_wire e"
  unfolding from_wire_to_wire by (cases e) (auto simp: to_wire_def)

theorem wire_roundtrip_witness:
  "from_wire (to_wire NotOwner) = NotOwner
   \<and> from_wire (to_wire (ActorTypeNotRegistered ''room'')) \<noteq> ActorTypeNotRegistered ''room''"
  using wire_roundtrip [of NotOwner] wire_roundtrip [of "ActorTypeNotRegistered ''room''"]
  by simp

text \<open>
  What a Client reports.  The \<open>OpenError\<close> a Client derives from a Server's failure
  code is the one it would derive from the Server's own \<open>SendError\<close>, for every error
  except \<open>DirectoryUnavailable\<close>, which arrives as \<open>RemoteUnavailable\<close>.
\<close>

theorem open_error_over_wire:
  "OpenError_from (from_wire (to_wire e)) = OpenError_from e \<longleftrightarrow> e \<noteq> DirectoryUnavailable"
  unfolding from_wire_to_wire by (cases e) simp_all

end
