(* ===== verification/Wire_Protocol.thy ===== *)
theory Wire_Protocol
  imports Runtime_Errors
begin

text \<open>
  Envelopes (\<open>coactor/proto/transport.proto\<close>), Session identifiers
  (\<open>coactor/src/runtime/session.rs\<close>) and the functions that build and take apart
  envelopes: \<open>envelope_session_open\<close>, \<open>envelope_action\<close>, \<open>envelope_session_close\<close>
  of the Client (\<open>coactor/src/client/mod.rs\<close>) and \<open>actor_address_from_envelope\<close> of
  the Server (\<open>coactor/src/runtime/core.rs\<close>).
\<close>

section \<open>Bytes and strings\<close>

definition char_of_byte :: "u8 \<Rightarrow> char" where
  "char_of_byte b = char_of (unat b)"

definition byte_of_char :: "char \<Rightarrow> u8" where
  "byte_of_char c = word_of_nat (of_char c)"

definition as_bytes_str :: "string \<Rightarrow> bytes" where
  "as_bytes_str s = map byte_of_char s"

text \<open>
  \<open>String::from_utf8\<close>: the byte sequences of RFC 3629.  Continuation bytes are
  \<open>80..BF\<close>; the second byte is restricted after \<open>E0\<close>, \<open>ED\<close>, \<open>F0\<close> and \<open>F4\<close>.
\<close>

definition in_range :: "nat \<Rightarrow> nat \<Rightarrow> u8 \<Rightarrow> bool" where
  "in_range lo hi b \<longleftrightarrow> lo \<le> unat b \<and> unat b \<le> hi"

fun valid_utf8 :: "bytes \<Rightarrow> bool" where
  "valid_utf8 [] = True"
| "valid_utf8 (a # rest) =
     (if unat a < 128 then valid_utf8 rest
      else case rest of
        [] \<Rightarrow> False
      | b # rest2 \<Rightarrow>
          if in_range 194 223 a then in_range 128 191 b \<and> valid_utf8 rest2
          else case rest2 of
            [] \<Rightarrow> False
          | c # rest3 \<Rightarrow>
              if in_range 224 239 a
              then in_range (if unat a = 224 then 160 else 128) (if unat a = 237 then 159 else 191) b
                   \<and> in_range 128 191 c \<and> valid_utf8 rest3
              else case rest3 of
                [] \<Rightarrow> False
              | d # rest4 \<Rightarrow>
                  in_range 240 244 a
                  \<and> in_range (if unat a = 240 then 144 else 128) (if unat a = 244 then 143 else 191) b
                  \<and> in_range 128 191 c \<and> in_range 128 191 d \<and> valid_utf8 rest4)"

definition String_from_utf8 :: "bytes \<Rightarrow> string option" where
  "String_from_utf8 bs = (if valid_utf8 bs then Some (map char_of_byte bs) else None)"

section \<open>Session identifiers\<close>

datatype session_id = SessionId bytes

fun SessionId_as_bytes :: "session_id \<Rightarrow> bytes" where
  "SessionId_as_bytes (SessionId b) = b"

definition SessionId_from_bytes :: "bytes \<Rightarrow> session_id option" where
  "SessionId_from_bytes b = (if length b = 16 then Some (SessionId b) else None)"

text \<open>A \<open>Uuid\<close> holds exactly sixteen bytes.\<close>

definition valid_session_id :: "session_id \<Rightarrow> bool" where
  "valid_session_id s \<longleftrightarrow> length (SessionId_as_bytes s) = 16"

section \<open>Envelopes\<close>

datatype ack_outcome = AckOk bytes | AckFailure i32

datatype kind =
    Kind_Action bytes
  | Kind_SessionOpen
  | Kind_SessionClose i32
  | Kind_Event bytes
  | Kind_SessionError i32
  | Kind_SessionOpenedAck "ack_outcome option"

record envelope =
  protocol_version :: u32
  env_actor_type :: string
  env_actor_id :: bytes
  env_session_id :: bytes
  env_kind :: "kind option"

definition TRANSPORT_PROTOCOL_VERSION :: u32 where
  "TRANSPORT_PROTOCOL_VERSION = 2"

definition CALLER_DROPPED :: i32 where
  "CALLER_DROPPED = 1"

definition envelope_session_open :: "actor_address \<Rightarrow> session_id \<Rightarrow> envelope" where
  "envelope_session_open address sid =
     \<lparr>protocol_version = TRANSPORT_PROTOCOL_VERSION,
      env_actor_type = actor_type address,
      env_actor_id = as_bytes_str (actor_id address),
      env_session_id = SessionId_as_bytes sid,
      env_kind = Some Kind_SessionOpen\<rparr>"

definition envelope_action :: "actor_address \<Rightarrow> session_id \<Rightarrow> bytes \<Rightarrow> envelope" where
  "envelope_action address sid payload =
     \<lparr>protocol_version = TRANSPORT_PROTOCOL_VERSION,
      env_actor_type = actor_type address,
      env_actor_id = as_bytes_str (actor_id address),
      env_session_id = SessionId_as_bytes sid,
      env_kind = Some (Kind_Action payload)\<rparr>"

definition envelope_session_close :: "actor_address \<Rightarrow> session_id \<Rightarrow> envelope" where
  "envelope_session_close address sid =
     \<lparr>protocol_version = TRANSPORT_PROTOCOL_VERSION,
      env_actor_type = actor_type address,
      env_actor_id = as_bytes_str (actor_id address),
      env_session_id = SessionId_as_bytes sid,
      env_kind = Some (Kind_SessionClose CALLER_DROPPED)\<rparr>"

text \<open>Server replies carry only the Session ID and the kind.\<close>

definition reply_envelope :: "bytes \<Rightarrow> kind \<Rightarrow> envelope" where
  "reply_envelope sid k =
     \<lparr>protocol_version = 0, env_actor_type = '''', env_actor_id = [],
      env_session_id = sid, env_kind = Some k\<rparr>"

definition actor_address_from_envelope :: "string \<Rightarrow> bytes \<Rightarrow> actor_address option" where
  "actor_address_from_envelope ty ident =
     (case String_from_utf8 ident of
        None \<Rightarrow> None
      | Some i \<Rightarrow> (case ActorAddress_new ty i of Err _ \<Rightarrow> None | Ok a \<Rightarrow> Some a))"

section \<open>Lemmas\<close>

lemma unat_byte_of_char [simp]: "unat (byte_of_char c) = of_char c"
  by (simp add: byte_of_char_def unat_of_nat take_bit_nat_eq_self of_char_of)

lemma char_of_byte_of_char [simp]: "char_of_byte (byte_of_char c) = c"
  by (simp add: char_of_byte_def)

lemma ascii_valid_utf8: "list_all (\<lambda>b. unat b < 128) bs \<Longrightarrow> valid_utf8 bs"
  by (induction bs) auto

lemma from_utf8_ascii:
  assumes "\<And>c. c \<in> set s \<Longrightarrow> (of_char c :: nat) < 128"
  shows "String_from_utf8 (as_bytes_str s) = Some s"
proof -
  have "list_all (\<lambda>b. unat b < 128) (as_bytes_str s)"
    using assms by (auto simp: as_bytes_str_def list_all_iff)
  then have "valid_utf8 (as_bytes_str s)"
    by (rule ascii_valid_utf8)
  then show ?thesis
    by (simp add: String_from_utf8_def) (simp add: as_bytes_str_def comp_def)
qed

lemma SessionId_bytes_inverse [simp]:
  "valid_session_id s \<Longrightarrow> SessionId_from_bytes (SessionId_as_bytes s) = Some s"
  by (cases s) (simp add: SessionId_from_bytes_def valid_session_id_def)

lemma SessionId_from_bytes_valid: "SessionId_from_bytes b = Some s \<Longrightarrow> valid_session_id s"
  by (auto simp: SessionId_from_bytes_def valid_session_id_def split: if_splits)

lemma address_from_own_bytes [simp]:
  "valid_address a \<Longrightarrow>
   actor_address_from_envelope (actor_type a) (as_bytes_str (actor_id a)) = Some a"
proof -
  assume a: "valid_address a"
  then have "String_from_utf8 (as_bytes_str (actor_id a)) = Some (actor_id a)"
    by (auto simp: valid_address_def intro: from_utf8_ascii dns_label_ascii)
  with a show ?thesis
    by (simp add: actor_address_from_envelope_def ActorAddress_new_valid)
qed

lemma actor_address_from_envelope_valid:
  assumes "actor_address_from_envelope ty ident = Some a"
  shows "valid_address a"
proof -
  from assms obtain i where "ActorAddress_new ty i = Ok a"
    by (auto simp: actor_address_from_envelope_def split: option.splits sum.splits)
  then show ?thesis
    by (simp add: ActorAddress_new_Ok_iff valid_address_def)
qed

text \<open>
  Client envelopes decode on the Server to what the Client addressed: for a valid
  Actor Address and Session ID, each of the three envelopes a Client sends carries the
  current protocol version, and the Server's decoders give back exactly that address and
  that Session ID.
\<close>

theorem envelope_roundtrip:
  assumes "valid_address a" and "valid_session_id sid"
    and "e \<in> {envelope_session_open a sid, envelope_action a sid payload,
              envelope_session_close a sid}"
  shows "protocol_version e = TRANSPORT_PROTOCOL_VERSION
     \<and> actor_address_from_envelope (env_actor_type e) (env_actor_id e) = Some a
     \<and> SessionId_from_bytes (env_session_id e) = Some sid"
  using assms
  by (auto simp: envelope_session_open_def envelope_action_def envelope_session_close_def)

theorem envelope_roundtrip_witness:
  "protocol_version (envelope_action \<lparr>actor_type = ''room'', actor_id = ''room-7''\<rparr>
      (SessionId (replicate 16 7)) [1]) = TRANSPORT_PROTOCOL_VERSION"
  using envelope_roundtrip [of "\<lparr>actor_type = ''room'', actor_id = ''room-7''\<rparr>"
      "SessionId (replicate 16 7)"
      "envelope_action \<lparr>actor_type = ''room'', actor_id = ''room-7''\<rparr>
        (SessionId (replicate 16 7)) [1]" "[1]"]
  by (simp add: valid_address_def valid_session_id_def is_dns_label_def first_char_def
      last_char_def is_ascii_alphanumeric_def is_ascii_lowercase_def is_ascii_digit_def)

end
