(* ===== verification/Session_Registry.thy ===== *)
theory Session_Registry
  imports Wire_Protocol
begin

text \<open>
  The Server-side Session registry (\<open>coactor/src/runtime/session.rs\<close>): for every Actor
  Address, the live Sessions and the transport sender each is bound to.  The transport
  itself is a parameter \<open>tx\<close> (a sender identity, an envelope and the state of the
  outside world give a result and the next world); \<open>Arc::ptr_eq\<close> on senders is equality
  of identities.  The interface locale \<open>session_directory\<close> is what the runtime relies
  on; it is interpreted on the registry.
\<close>

section \<open>State and operations\<close>

type_synonym sender_id = nat

datatype transport_error = ConnectFailed string | BindFailed string | TransportClosed | TransportFull

type_synonym 'w transport = "sender_id \<Rightarrow> envelope \<Rightarrow> 'w \<Rightarrow> (transport_error + unit) \<times> 'w"

datatype event_sink = Remote (sink_sender: sender_id)

type_synonym sessions = "(session_id, event_sink) hmap"
type_synonym registry = "(actor_address, sessions) hmap"

definition SessionRegistry_new :: registry where
  "SessionRegistry_new = hm_empty"

definition register_actor ::
  "registry \<Rightarrow> actor_address \<Rightarrow> session_id \<Rightarrow> event_sink \<Rightarrow> bool \<times> registry" where
  "register_actor by_actor address sid sink =
     (let sessions = (case hm_get by_actor address of None \<Rightarrow> hm_empty | Some m \<Rightarrow> m)
      in case hm_get sessions sid of
           None \<Rightarrow> (True, hm_insert address (hm_insert sid sink sessions) by_actor)
         | Some _ \<Rightarrow> (False, hm_insert address sessions by_actor))"

definition unregister_actor :: "registry \<Rightarrow> actor_address \<Rightarrow> session_id \<Rightarrow> bool \<times> registry" where
  "unregister_actor by_actor address sid =
     (case hm_get by_actor address of
        None \<Rightarrow> (False, by_actor)
      | Some sessions \<Rightarrow>
          (case hm_get sessions sid of
             None \<Rightarrow> (False, by_actor)
           | Some _ \<Rightarrow>
               let sessions' = hm_remove sid sessions;
                   by_actor' = hm_insert address sessions' by_actor
               in (True, if sessions' = [] then hm_remove address by_actor' else by_actor')))"

definition session_count :: "registry \<Rightarrow> actor_address \<Rightarrow> nat" where
  "session_count by_actor address =
     (case hm_get by_actor address of None \<Rightarrow> 0 | Some sessions \<Rightarrow> length sessions)"

definition by_actor_snapshot :: "registry \<Rightarrow> actor_address \<Rightarrow> session_id list" where
  "by_actor_snapshot by_actor address =
     (case hm_get by_actor address of None \<Rightarrow> [] | Some sessions \<Rightarrow> hm_keys sessions)"

definition by_sender_snapshot :: "registry \<Rightarrow> sender_id \<Rightarrow> (actor_address \<times> session_id) list" where
  "by_sender_snapshot by_actor sender =
     concat (map (\<lambda>(address, sessions).
        List.map_filter (\<lambda>(sid, sink). if sink_sender sink = sender then Some (address, sid) else None)
          sessions) by_actor)"

definition by_actor_addresses :: "registry \<Rightarrow> actor_address list" where
  "by_actor_addresses by_actor = hm_keys by_actor"

definition sink :: "registry \<Rightarrow> actor_address \<Rightarrow> session_id \<Rightarrow> event_sink option" where
  "sink by_actor address sid =
     (case hm_get by_actor address of None \<Rightarrow> None | Some sessions \<Rightarrow> hm_get sessions sid)"

definition is_bound_to :: "registry \<Rightarrow> actor_address \<Rightarrow> session_id \<Rightarrow> sender_id \<Rightarrow> bool" where
  "is_bound_to by_actor address sid sender =
     (case (case hm_get by_actor address of None \<Rightarrow> None | Some sessions \<Rightarrow> hm_get sessions sid) of
        Some (Remote bound) \<Rightarrow> bound = sender
      | None \<Rightarrow> False)"

definition deliver_event ::
  "'w transport \<Rightarrow> registry \<Rightarrow> actor_address \<Rightarrow> session_id \<Rightarrow> bytes \<Rightarrow> 'w \<Rightarrow> (send_error + unit) \<times> 'w" where
  "deliver_event tx by_actor address sid payload w =
     (case sink by_actor address sid of
        Some (Remote sender) \<Rightarrow>
          (case tx sender (reply_envelope (SessionId_as_bytes sid) (Kind_Event payload)) w of
             (Ok _, w') \<Rightarrow> (Ok (), w')
           | (Err _, w') \<Rightarrow> (Err RemoteUnavailable, w'))
      | None \<Rightarrow> (Err ActorStopped, w))"

definition terminate ::
  "'w transport \<Rightarrow> actor_address \<Rightarrow> send_error \<Rightarrow> session_id \<Rightarrow> registry \<times> 'w \<Rightarrow> registry \<times> 'w" where
  "terminate tx address error sid = (\<lambda>(by_actor, w).
     let target = sink by_actor address sid;
         by_actor' = snd (unregister_actor by_actor address sid)
     in case target of
          Some (Remote sender) \<Rightarrow>
            (by_actor', snd (tx sender (reply_envelope (SessionId_as_bytes sid)
               (Kind_SessionError (to_wire error))) w))
        | None \<Rightarrow> (by_actor', w))"

definition terminate_all ::
  "'w transport \<Rightarrow> actor_address \<Rightarrow> send_error \<Rightarrow> registry \<times> 'w \<Rightarrow> registry \<times> 'w" where
  "terminate_all tx address error = (\<lambda>(by_actor, w).
     fold (terminate tx address error) (by_actor_snapshot by_actor address) (by_actor, w))"

section \<open>Invariant and abstraction\<close>

text \<open>No duplicate keys at either level, and no address is kept with an empty Session map.\<close>

definition registry_ok :: "registry \<Rightarrow> bool" where
  "registry_ok r \<longleftrightarrow> hm_ok r \<and> (\<forall>a m. hm_get r a = Some m \<longrightarrow> hm_ok m \<and> m \<noteq> [])"

definition registry_abs :: "registry \<Rightarrow> actor_address \<times> session_id \<Rightarrow> event_sink option" where
  "registry_abs r = (\<lambda>(a, s). sink r a s)"

lemma registry_ok_new: "registry_ok SessionRegistry_new"
  by (simp add: registry_ok_def SessionRegistry_new_def)

lemma hm_insert_nonempty [simp]: "hm_insert k v m \<noteq> []"
  by (cases m) (auto simp: hm_insert_def split: if_splits)

lemma register_actor_ok: "registry_ok r \<Longrightarrow> registry_ok (snd (register_actor r a sid k))"
  by (auto simp: registry_ok_def register_actor_def Let_def split: option.splits if_splits)

lemma unregister_actor_ok: "registry_ok r \<Longrightarrow> registry_ok (snd (unregister_actor r a sid))"
  by (auto simp: registry_ok_def unregister_actor_def Let_def split: option.splits if_splits)

lemma sink_register:
  "sink (snd (register_actor r a sid k)) a' s' =
     (if (a', s') = (a, sid) \<and> sink r a sid = None then Some k else sink r a' s')"
  by (auto simp: sink_def register_actor_def Let_def split: option.splits)

lemma register_fresh_iff: "fst (register_actor r a sid k) \<longleftrightarrow> sink r a sid = None"
  by (auto simp: sink_def register_actor_def Let_def split: option.splits)

lemma sink_unregister:
  "sink (snd (unregister_actor r a sid)) a' s' = (if (a', s') = (a, sid) then None else sink r a' s')"
proof (cases "hm_get r a")
  case None
  then show ?thesis by (auto simp: sink_def unregister_actor_def)
next
  case (Some m)
  show ?thesis
  proof (cases "hm_remove sid m = []")
    case True
    then have "hm_get m s = None" if "s \<noteq> sid" for s
      using that hm.get_remove [of sid m s] by simp
    with Some show ?thesis
      by (auto simp: sink_def unregister_actor_def Let_def split: option.splits)
  next
    case False
    with Some show ?thesis
      by (auto simp: sink_def unregister_actor_def Let_def split: option.splits)
  qed
qed

lemma unregister_present_iff: "fst (unregister_actor r a sid) \<longleftrightarrow> sink r a sid \<noteq> None"
  by (auto simp: sink_def unregister_actor_def Let_def split: option.splits)

lemma is_bound_to_iff: "is_bound_to r a sid s \<longleftrightarrow> sink r a sid = Some (Remote s)"
  by (auto simp: is_bound_to_def sink_def split: option.splits event_sink.splits)

lemma snapshot_mem: "s \<in> set (by_actor_snapshot r a) \<longleftrightarrow> sink r a s \<noteq> None"
  by (auto simp: by_actor_snapshot_def sink_def hm.keys_dom split: option.splits)

lemma snapshot_distinct: "registry_ok r \<Longrightarrow> distinct (by_actor_snapshot r a)"
  by (auto simp: by_actor_snapshot_def registry_ok_def hm.keys_distinct split: option.splits)

lemma session_count_snapshot: "session_count r a = length (by_actor_snapshot r a)"
  by (simp add: session_count_def by_actor_snapshot_def split: option.splits)

section \<open>The interface the runtime uses\<close>

locale session_directory =
  fixes register :: "'d \<Rightarrow> 'a \<Rightarrow> 's \<Rightarrow> 'k \<Rightarrow> bool \<times> 'd"
    and unregister :: "'d \<Rightarrow> 'a \<Rightarrow> 's \<Rightarrow> bool \<times> 'd"
    and lookup :: "'d \<Rightarrow> 'a \<Rightarrow> 's \<Rightarrow> 'k option"
    and snapshot :: "'d \<Rightarrow> 'a \<Rightarrow> 's list"
    and live_count :: "'d \<Rightarrow> 'a \<Rightarrow> nat"
    and invar :: "'d \<Rightarrow> bool"
  assumes register_result: "fst (register d a s k) \<longleftrightarrow> lookup d a s = None"
    and lookup_register:
      "lookup (snd (register d a s k)) a' s' =
        (if (a', s') = (a, s) \<and> lookup d a s = None then Some k else lookup d a' s')"
    and unregister_result: "fst (unregister d a s) \<longleftrightarrow> lookup d a s \<noteq> None"
    and lookup_unregister:
      "lookup (snd (unregister d a s)) a' s' = (if (a', s') = (a, s) then None else lookup d a' s')"
    and snapshot_lookup: "s \<in> set (snapshot d a) \<longleftrightarrow> lookup d a s \<noteq> None"
    and snapshot_distinct_invar: "invar d \<Longrightarrow> distinct (snapshot d a)"
    and live_count_snapshot: "live_count d a = length (snapshot d a)"
    and register_invar: "invar d \<Longrightarrow> invar (snd (register d a s k))"
    and unregister_invar: "invar d \<Longrightarrow> invar (snd (unregister d a s))"
begin

lemma lookup_unregister_fold:
  "lookup (fold (\<lambda>s d. snd (unregister d a s)) ss d) a' s' =
     (if a' = a \<and> s' \<in> set ss then None else lookup d a' s')"
  by (induction ss arbitrary: d) (auto simp: lookup_unregister)

lemma unregister_fold_invar: "invar d \<Longrightarrow> invar (fold (\<lambda>s d. snd (unregister d a s)) ss d)"
  by (induction ss arbitrary: d) (auto simp: unregister_invar)

lemma live_count_card: "invar d \<Longrightarrow> live_count d a = card {s. lookup d a s \<noteq> None}"
proof -
  assume d: "invar d"
  have "{s. lookup d a s \<noteq> None} = set (snapshot d a)"
    by (auto simp: snapshot_lookup)
  then show ?thesis
    using d by (simp add: live_count_snapshot distinct_card snapshot_distinct_invar)
qed

lemma live_count_zero_iff: "live_count d a = 0 \<longleftrightarrow> (\<forall>s. lookup d a s = None)"
  by (metis length_0_conv live_count_snapshot list.set_intros(1) neq_Nil_conv snapshot_lookup
      empty_iff list.set(1))

end

interpretation sr: session_directory register_actor unregister_actor sink by_actor_snapshot
  session_count registry_ok
  by unfold_locales
    (rule register_fresh_iff sink_register unregister_present_iff sink_unregister snapshot_mem
      snapshot_distinct session_count_snapshot register_actor_ok unregister_actor_ok; assumption?)+

section \<open>Termination of Sessions\<close>

text \<open>The one \<open>SessionError\<close> a terminated Session is sent over its own connection.\<close>

definition notify_terminated ::
  "'w transport \<Rightarrow> registry \<Rightarrow> actor_address \<Rightarrow> send_error \<Rightarrow> session_id \<Rightarrow> 'w \<Rightarrow> 'w" where
  "notify_terminated tx r address error sid w =
     (case sink r address sid of
        Some (Remote sender) \<Rightarrow>
          snd (tx sender (reply_envelope (SessionId_as_bytes sid) (Kind_SessionError (to_wire error))) w)
      | None \<Rightarrow> w)"

lemma terminate_eq:
  "terminate tx a e sid (r, w) =
     (snd (unregister_actor r a sid), notify_terminated tx r a e sid w)"
  by (simp add: terminate_def notify_terminated_def Let_def split: option.splits event_sink.splits)

lemma terminate_fold_registry:
  "fst (fold (terminate tx a e) ss (r, w)) = fold (\<lambda>s d. snd (unregister_actor d a s)) ss r"
  by (induction ss arbitrary: r w) (simp_all add: terminate_eq)

lemma notify_terminated_unregister:
  "s \<noteq> s' \<Longrightarrow> notify_terminated tx (snd (unregister_actor r a s')) a e s w = notify_terminated tx r a e s w"
  by (simp add: notify_terminated_def sink_unregister)

lemma fold_notify_unregister:
  "s' \<notin> set ss \<Longrightarrow>
   fold (notify_terminated tx (snd (unregister_actor r a s')) a e) ss w = fold (notify_terminated tx r a e) ss w"
  by (induction ss arbitrary: w) (auto simp: notify_terminated_unregister)

lemma terminate_fold_world:
  "distinct ss \<Longrightarrow> snd (fold (terminate tx a e) ss (r, w)) = fold (notify_terminated tx r a e) ss w"
  by (induction ss arbitrary: r w) (simp_all add: terminate_eq fold_notify_unregister)

lemma terminate_all_eq:
  assumes "registry_ok r"
  shows "terminate_all tx a e (r, w) =
     (fold (\<lambda>s d. snd (unregister_actor d a s)) (by_actor_snapshot r a) r,
      fold (notify_terminated tx r a e) (by_actor_snapshot r a) w)"
  using assms
  by (simp add: terminate_all_def prod_eq_iff terminate_fold_registry terminate_fold_world snapshot_distinct)

lemma terminate_all_registry:
  "fst (terminate_all tx a e rw) =
     fold (\<lambda>s d. snd (unregister_actor d a s)) (by_actor_snapshot (fst rw) a) (fst rw)"
  by (cases rw) (simp add: terminate_all_def terminate_fold_registry)

lemma sink_terminate_all:
  "sink (fst (terminate_all tx a e rw)) a' s = (if a' = a then None else sink (fst rw) a' s)"
proof -
  have "sink (fst rw) a s = None" if "s \<notin> set (by_actor_snapshot (fst rw) a)"
    using that by (simp add: snapshot_mem)
  then show ?thesis
    by (auto simp: terminate_all_registry sr.lookup_unregister_fold)
qed

lemma terminate_all_ok: "registry_ok (fst rw) \<Longrightarrow> registry_ok (fst (terminate_all tx a e rw))"
  by (simp add: terminate_all_registry sr.unregister_fold_invar)

section \<open>Sessions of one connection\<close>

lemma by_sender_snapshot_mem:
  assumes "registry_ok r"
  shows "(a, s) \<in> set (by_sender_snapshot r c) \<longleftrightarrow> sink r a s = Some (Remote c)"
proof -
  have inner: "(s, k) \<in> set m \<longleftrightarrow> hm_get m s = Some k" if "hm_get r a = Some m" for m k
    using assms that by (auto simp: registry_ok_def hm_entry_get)
  have "(a, s) \<in> set (by_sender_snapshot r c) \<longleftrightarrow>
      (\<exists>m. (a, m) \<in> set r \<and> (s, Remote c) \<in> set m)"
    by (force simp: by_sender_snapshot_def List.map_filter_def split: if_splits)
  also have "\<dots> \<longleftrightarrow> (\<exists>m. hm_get r a = Some m \<and> (s, Remote c) \<in> set m)"
    using assms by (simp add: registry_ok_def hm_entry_get)
  also have "\<dots> \<longleftrightarrow> sink r a s = Some (Remote c)"
    using inner by (auto simp: sink_def split: option.splits)
  finally show ?thesis .
qed

section \<open>Properties\<close>

text \<open>
  C31. The registry refines the obvious abstract object, a partial map from (address,
  Session) to the connection it is bound to.  Registration inserts only when the key is
  absent (so a duplicate \<open>SessionOpen\<close> never rebinds a Session to another connection) and
  reports whether it did; unregistration deletes the key and reports whether it was there;
  the live count is the number of bound Sessions of the address; and both operations keep
  the representation invariant.
\<close>

theorem registry_refines_map:
  assumes "registry_ok r"
  shows "registry_abs (snd (register_actor r a s k)) =
           (if registry_abs r (a, s) = None then (registry_abs r)((a, s) \<mapsto> k) else registry_abs r)
     \<and> (fst (register_actor r a s k) \<longleftrightarrow> registry_abs r (a, s) = None)
     \<and> registry_abs (snd (unregister_actor r a s)) = (registry_abs r)((a, s) := None)
     \<and> (fst (unregister_actor r a s) \<longleftrightarrow> registry_abs r (a, s) \<noteq> None)
     \<and> session_count r a = card {s. registry_abs r (a, s) \<noteq> None}
     \<and> registry_ok (snd (register_actor r a s k))
     \<and> registry_ok (snd (unregister_actor r a s))"
proof -
  have "registry_abs (snd (register_actor r a s k)) =
      (if registry_abs r (a, s) = None then (registry_abs r)((a, s) \<mapsto> k) else registry_abs r)"
    by (auto simp: registry_abs_def fun_eq_iff sink_register)
  moreover have "registry_abs (snd (unregister_actor r a s)) = (registry_abs r)((a, s) := None)"
    by (auto simp: registry_abs_def fun_eq_iff sink_unregister)
  ultimately show ?thesis
    using assms(1)
    by (simp add: registry_abs_def register_fresh_iff unregister_present_iff sr.live_count_card
        register_actor_ok unregister_actor_ok)
qed

theorem registry_refines_map_witness:
  "registry_ok SessionRegistry_new
   \<and> session_count SessionRegistry_new \<lparr>actor_type = ''a'', actor_id = ''b''\<rparr> =
     card {s. registry_abs SessionRegistry_new (\<lparr>actor_type = ''a'', actor_id = ''b''\<rparr>, s) \<noteq> None}"
  using registry_refines_map [OF registry_ok_new,
      of "\<lparr>actor_type = ''a'', actor_id = ''b''\<rparr>" "SessionId (replicate 16 0)" "Remote 0"]
    registry_ok_new
  by simp

text \<open>
  Terminating an Actor's Sessions removes every Session of that address and no other,
  sends each of them exactly one \<open>SessionError\<close> with the code of the given error over the
  connection it was bound to, and leaves the address with no live Session.
\<close>

theorem terminate_all_spec:
  assumes "registry_ok r" and "terminate_all tx a e (r, w) = (r', w')"
  shows "registry_ok r'
     \<and> (\<forall>a' s. sink r' a' s = (if a' = a then None else sink r a' s))
     \<and> w' = fold (notify_terminated tx r a e) (by_actor_snapshot r a) w
     \<and> distinct (by_actor_snapshot r a)
     \<and> session_count r' a = 0"
proof -
  have r': "r' = fst (terminate_all tx a e (r, w))" using assms(2) by simp
  have "sink r' a' s = (if a' = a then None else sink r a' s)" for a' s
    by (simp add: r' sink_terminate_all)
  moreover have "w' = fold (notify_terminated tx r a e) (by_actor_snapshot r a) w"
    using assms by (simp add: terminate_all_eq)
  moreover have "registry_ok r'"
    using assms(1) by (simp add: r' terminate_all_ok)
  ultimately show ?thesis
    using assms(1) by (simp add: snapshot_distinct sr.live_count_zero_iff)
qed

theorem terminate_all_spec_witness:
  "let a = \<lparr>actor_type = ''a'', actor_id = ''b''\<rparr>;
       r = snd (register_actor SessionRegistry_new a (SessionId [1]) (Remote 7));
       tx = (\<lambda>c env sent. (Ok (), (c, env_kind env) # sent));
       out = terminate_all tx a NodeFenced (r, [])
   in session_count (fst out) a = 0 \<and> snd out = [(7, Some (Kind_SessionError 12))]"
proof -
  define a where "a = \<lparr>actor_type = ''a'', actor_id = ''b''\<rparr>"
  define r where "r = snd (register_actor SessionRegistry_new a (SessionId [1]) (Remote 7))"
  define tx :: "(sender_id \<times> kind option) list transport"
    where "tx = (\<lambda>c env sent. (Ok (), (c, env_kind env) # sent))"
  have r: "registry_ok r" by (simp add: r_def register_actor_ok registry_ok_new)
  obtain r' w' where out: "terminate_all tx a NodeFenced (r, []) = (r', w')" by fastforce
  have "r = [(a, [(SessionId [1], Remote 7)])]"
    by (simp add: r_def register_actor_def SessionRegistry_new_def hm_exec_simps)
  then have "fold (notify_terminated tx r a NodeFenced) (by_actor_snapshot r a) [] =
      [(7, Some (Kind_SessionError 12))]"
    by (simp add: by_actor_snapshot_def hm_keys_def notify_terminated_def sink_def tx_def
        reply_envelope_def to_wire_def)
  with terminate_all_spec [OF r out] out show ?thesis
    by (simp add: Let_def a_def r_def tx_def)
qed

end
