(* ===== verification/Tokio_Interface.thy ===== *)
theory Tokio_Interface
  imports Coactor_Prelude
begin

text \<open>
  The synchronisation primitives the runtime takes from \<open>tokio\<close>, a third-party crate:
  bounded \<open>mpsc\<close> channels and counting semaphores.  They are parameters of the model, a
  record of operations every definition that uses them takes as an argument.  The locales
  state their documented behaviour through an abstraction (the queued messages, whether
  the receiver is closed, the free permits); \<open>bounded_tokio\<close> is a reference instance
  used to evaluate the model on concrete inputs.
\<close>

section \<open>Operations\<close>

text \<open>
  \<open>Semaphore::MAX_PERMITS\<close>, that is \<open>usize::MAX >> 3\<close>.  \<open>Semaphore::new\<close> panics on more permits and
  \<open>mpsc::channel\<close> on a greater capacity; a definition that calls them with a configured number
  tests it first and takes the panic as an outcome of its own.
\<close>

definition MAX_PERMITS :: nat where
  "MAX_PERMITS = 2 ^ 61 - 1"

datatype 'm try_send_result = Sent | SendFull 'm | SendClosed 'm

record ('m, 'c, 's) tokio =
  tk_channel :: "nat \<Rightarrow> 'c"
  tk_try_send :: "'c \<Rightarrow> 'm \<Rightarrow> 'm try_send_result \<times> 'c"
  tk_try_recv :: "'c \<Rightarrow> 'm option \<times> 'c"
  tk_close :: "'c \<Rightarrow> 'c"
  tk_is_closed :: "'c \<Rightarrow> bool"
  tk_capacity :: "'c \<Rightarrow> nat"
  tk_max_capacity :: "'c \<Rightarrow> nat"
  tk_semaphore :: "nat \<Rightarrow> 's"
  tk_try_acquire :: "'s \<Rightarrow> 's option"
  tk_release :: "'s \<Rightarrow> 's"
  tk_available :: "'s \<Rightarrow> nat"

section \<open>Contracts\<close>

locale mpsc_contract =
  fixes T :: "('m, 'c, 's) tokio"
    and queued :: "'c \<Rightarrow> 'm list"
    and closed :: "'c \<Rightarrow> bool"
  assumes channel_new:
      "0 < n \<Longrightarrow> queued (tk_channel T n) = [] \<and> \<not> closed (tk_channel T n)
        \<and> tk_max_capacity T (tk_channel T n) = n"
    and try_send_closed: "closed c \<Longrightarrow> tk_try_send T c m = (SendClosed m, c)"
    and try_send_full:
      "\<not> closed c \<Longrightarrow> tk_max_capacity T c \<le> length (queued c) \<Longrightarrow> tk_try_send T c m = (SendFull m, c)"
    and try_send_room:
      "\<not> closed c \<Longrightarrow> length (queued c) < tk_max_capacity T c \<Longrightarrow>
        fst (tk_try_send T c m) = Sent
        \<and> queued (snd (tk_try_send T c m)) = queued c @ [m]
        \<and> \<not> closed (snd (tk_try_send T c m))
        \<and> tk_max_capacity T (snd (tk_try_send T c m)) = tk_max_capacity T c"
    and try_recv_empty: "queued c = [] \<Longrightarrow> tk_try_recv T c = (None, c)"
    and try_recv_cons:
      "queued c = m # ms \<Longrightarrow> fst (tk_try_recv T c) = Some m
        \<and> queued (snd (tk_try_recv T c)) = ms
        \<and> closed (snd (tk_try_recv T c)) = closed c
        \<and> tk_max_capacity T (snd (tk_try_recv T c)) = tk_max_capacity T c"
    and close_keeps:
      "queued (tk_close T c) = queued c \<and> closed (tk_close T c)
        \<and> tk_max_capacity T (tk_close T c) = tk_max_capacity T c"
    and is_closed_iff: "tk_is_closed T c \<longleftrightarrow> closed c"
    and capacity_free: "tk_capacity T c = tk_max_capacity T c - length (queued c)"
begin

lemma try_send_Sent_iff:
  "fst (tk_try_send T c m) = Sent \<longleftrightarrow> \<not> closed c \<and> length (queued c) < tk_max_capacity T c"
proof (cases "closed c")
  case True
  then show ?thesis by (simp add: try_send_closed)
next
  case False
  then show ?thesis
    by (cases "length (queued c) < tk_max_capacity T c") (simp_all add: try_send_room try_send_full)
qed

lemma try_send_SendClosed_iff: "fst (tk_try_send T c m) = SendClosed x \<longleftrightarrow> closed c \<and> x = m"
proof (cases "closed c")
  case True
  then show ?thesis by (auto simp: try_send_closed)
next
  case False
  then show ?thesis
    by (cases "length (queued c) < tk_max_capacity T c") (simp_all add: try_send_room try_send_full)
qed

lemma try_send_not_sent: "fst (tk_try_send T c m) \<noteq> Sent \<Longrightarrow> snd (tk_try_send T c m) = c"
proof (cases "closed c")
  case True
  then show ?thesis by (simp add: try_send_closed)
next
  case False
  then show "fst (tk_try_send T c m) \<noteq> Sent \<Longrightarrow> snd (tk_try_send T c m) = c"
    by (cases "length (queued c) < tk_max_capacity T c") (simp_all add: try_send_room try_send_full)
qed

lemma try_send_SentD:
  assumes "fst (tk_try_send T c m) = Sent"
  shows "queued (snd (tk_try_send T c m)) = queued c @ [m]"
    and "\<not> closed (snd (tk_try_send T c m))"
  using assms by (simp_all add: try_send_Sent_iff try_send_room)

lemma empty_iff_full_capacity:
  assumes "length (queued c) \<le> tk_max_capacity T c" and "0 < tk_max_capacity T c"
  shows "tk_capacity T c = tk_max_capacity T c \<longleftrightarrow> queued c = []"
  using assms by (cases "queued c") (auto simp: capacity_free)

end

locale semaphore_contract =
  fixes T :: "('m, 'c, 's) tokio"
  assumes semaphore_new: "tk_available T (tk_semaphore T n) = n"
    and try_acquire_None: "tk_try_acquire T s = None \<longleftrightarrow> tk_available T s = 0"
    and try_acquire_Some: "tk_try_acquire T s = Some s' \<Longrightarrow> Suc (tk_available T s') = tk_available T s"
    and release_available: "tk_available T (tk_release T s) = Suc (tk_available T s)"
begin

lemma acquire_release: "tk_try_acquire T s = Some s' \<Longrightarrow> tk_available T (tk_release T s') = tk_available T s"
  by (simp add: release_available try_acquire_Some)

lemma funpow_release: "tk_available T ((tk_release T ^^ n) s) = n + tk_available T s"
  by (induction n) (simp_all add: release_available)

end

locale tokio_contract = mpsc_contract T queued closed + semaphore_contract T
  for T :: "('m, 'c, 's) tokio" and queued :: "'c \<Rightarrow> 'm list" and closed :: "'c \<Rightarrow> bool"

section \<open>A reference instance\<close>

record 'm bounded_channel =
  bc_queue :: "'m list"
  bc_max :: nat
  bc_closed :: bool

definition bounded_try_send :: "'m bounded_channel \<Rightarrow> 'm \<Rightarrow> 'm try_send_result \<times> 'm bounded_channel" where
  "bounded_try_send c m =
     (if bc_closed c then (SendClosed m, c)
      else if bc_max c \<le> length (bc_queue c) then (SendFull m, c)
      else (Sent, c\<lparr>bc_queue := bc_queue c @ [m]\<rparr>))"

definition bounded_try_recv :: "'m bounded_channel \<Rightarrow> 'm option \<times> 'm bounded_channel" where
  "bounded_try_recv c =
     (case bc_queue c of [] \<Rightarrow> (None, c) | m # ms \<Rightarrow> (Some m, c\<lparr>bc_queue := ms\<rparr>))"

definition bounded_tokio :: "('m, 'm bounded_channel, nat) tokio" where
  "bounded_tokio =
     \<lparr>tk_channel = (\<lambda>n. \<lparr>bc_queue = [], bc_max = n, bc_closed = False\<rparr>),
      tk_try_send = bounded_try_send,
      tk_try_recv = bounded_try_recv,
      tk_close = (\<lambda>c. c\<lparr>bc_closed := True\<rparr>),
      tk_is_closed = bc_closed,
      tk_capacity = (\<lambda>c. bc_max c - length (bc_queue c)),
      tk_max_capacity = bc_max,
      tk_semaphore = (\<lambda>n. n),
      tk_try_acquire = (\<lambda>n. if n = 0 then None else Some (n - 1)),
      tk_release = Suc,
      tk_available = (\<lambda>n. n)\<rparr>"

lemma bounded_tokio_simps [simp]:
  "tk_channel bounded_tokio n = \<lparr>bc_queue = [], bc_max = n, bc_closed = False\<rparr>"
  "tk_try_send bounded_tokio = bounded_try_send"
  "tk_try_recv bounded_tokio = bounded_try_recv"
  "tk_close bounded_tokio c = c\<lparr>bc_closed := True\<rparr>"
  "tk_is_closed bounded_tokio = bc_closed"
  "tk_capacity bounded_tokio c = bc_max c - length (bc_queue c)"
  "tk_max_capacity bounded_tokio = bc_max"
  "tk_semaphore bounded_tokio p = p"
  "tk_try_acquire bounded_tokio p = (if p = 0 then None else Some (p - 1))"
  "tk_release bounded_tokio = Suc"
  "tk_available bounded_tokio p = p"
  by (simp_all add: bounded_tokio_def)

interpretation bt: tokio_contract bounded_tokio bc_queue bc_closed
  by unfold_locales (auto simp: bounded_try_send_def bounded_try_recv_def split: if_splits)

end
