(* ===== verification/Node_Authority.thy ===== *)
theory Node_Authority
  imports Coactor_Prelude
begin

text \<open>
  The local view of the Node Lease (\<open>NodeAuthority\<close> of \<open>coactor/src/cluster/node.rs\<close>):
  a validity flag that is lowered once, and a deadline counted from the start of the store
  operation that acquired or renewed the lease.
\<close>

record node_authority =
  na_valid :: bool
  na_deadline :: instant
  na_ttl :: duration
  na_fenced :: bool

definition NodeAuthority_new :: "instant \<Rightarrow> duration \<Rightarrow> node_authority" where
  "NodeAuthority_new operation_started ttl =
     \<lparr>na_valid = True, na_deadline = operation_started + ttl, na_ttl = ttl, na_fenced = False\<rparr>"

definition authority_is_valid :: "node_authority \<Rightarrow> instant \<Rightarrow> bool" where
  "authority_is_valid a now \<longleftrightarrow> na_valid a \<and> now < na_deadline a"

definition authority_renew :: "instant \<Rightarrow> node_authority \<Rightarrow> node_authority" where
  "authority_renew operation_started a = a\<lparr>na_deadline := operation_started + na_ttl a\<rparr>"

text \<open>\<open>checked_duration_since\<close>: \<open>None\<close> once the deadline has passed.\<close>

definition authority_remaining :: "node_authority \<Rightarrow> instant \<Rightarrow> duration option" where
  "authority_remaining a now = (if now \<le> na_deadline a then Some (na_deadline a - now) else None)"

definition authority_fence :: "node_authority \<Rightarrow> node_authority" where
  "authority_fence a = (if na_valid a then a\<lparr>na_valid := False, na_fenced := True\<rparr> else a)"

lemma fenced_never_valid: "\<not> authority_is_valid (authority_fence a) now"
  by (simp add: authority_fence_def authority_is_valid_def)

lemma renew_keeps_fenced: "\<not> na_valid a \<Longrightarrow> \<not> authority_is_valid (authority_renew t a) now"
  by (simp add: authority_renew_def authority_is_valid_def)

end
