(* ===== verification/Decimal_Text.thy ===== *)
theory Decimal_Text
  imports Actor_Address
begin

text \<open>
  Decimal text of unsigned integers, as Rust's \<open>Display\<close> prints and \<open>FromStr\<close> reads it:
  printing never writes a leading zero; parsing takes an optional \<open>+\<close>, needs at least
  one digit, allows leading zeros and fails above the type's maximum.  Also the test for a
  blank string and \<open>str::split\<close>, which the Client, the S3 store and the builder use.
\<close>

definition digit_char :: "nat \<Rightarrow> char" where
  "digit_char d = char_of (48 + d)"

fun show_nat :: "nat \<Rightarrow> string" where
  "show_nat n = (if n < 10 then [digit_char n] else show_nat (n div 10) @ [digit_char (n mod 10)])"

declare show_nat.simps [simp del]

definition digit_value :: "char \<Rightarrow> nat" where
  "digit_value c = of_char c - 48"

definition digits_value :: "string \<Rightarrow> nat" where
  "digits_value s = foldl (\<lambda>acc c. 10 * acc + digit_value c) 0 s"

definition strip_plus :: "string \<Rightarrow> string" where
  "strip_plus s = (case s of c # rest \<Rightarrow> if c = CHR ''+'' then rest else s | [] \<Rightarrow> s)"

definition parse_unsigned :: "nat \<Rightarrow> string \<Rightarrow> nat option" where
  "parse_unsigned maximum s =
     (let ds = strip_plus s in
      if ds \<noteq> [] \<and> list_all is_ascii_digit ds \<and> digits_value ds \<le> maximum
      then Some (digits_value ds) else None)"

section \<open>Lemmas\<close>

lemma of_digit_char: "d < 10 \<Longrightarrow> of_char (digit_char d) = 48 + d"
  by (simp add: digit_char_def)

lemma digit_value_char [simp]: "d < 10 \<Longrightarrow> digit_value (digit_char d) = d"
  by (simp add: digit_value_def of_digit_char)

lemma is_digit_char [simp]: "d < 10 \<Longrightarrow> is_ascii_digit (digit_char d)"
  by (simp add: is_ascii_digit_def of_digit_char)

lemma digits_value_append [simp]: "digits_value (s @ [c]) = 10 * digits_value s + digit_value c"
  by (simp add: digits_value_def)

lemma digits_value_show_nat [simp]: "digits_value (show_nat n) = n"
proof (induction n rule: show_nat.induct)
  case (1 n)
  show ?case
  proof (cases "n < 10")
    case True
    then show ?thesis by (simp add: show_nat.simps [of n] digits_value_def)
  next
    case False
    with "1" show ?thesis by (simp add: show_nat.simps [of n])
  qed
qed

lemma show_nat_digits: "list_all is_ascii_digit (show_nat n)"
proof (induction n rule: show_nat.induct)
  case (1 n)
  show ?case
  proof (cases "n < 10")
    case True
    then show ?thesis by (simp add: show_nat.simps [of n])
  next
    case False
    with "1" show ?thesis by (simp add: show_nat.simps [of n])
  qed
qed

lemma show_nat_nonempty [simp]: "show_nat n \<noteq> []"
  by (simp add: show_nat.simps [of n])

lemma show_nat_inj [simp]: "show_nat m = show_nat n \<longleftrightarrow> m = n"
  by (metis digits_value_show_nat)

lemma digit_not_plus: "is_ascii_digit c \<Longrightarrow> c \<noteq> CHR ''+''"
  by (auto simp: is_ascii_digit_def)

lemma strip_plus_digits: "list_all is_ascii_digit s \<Longrightarrow> strip_plus s = s"
  by (auto simp: strip_plus_def dest: digit_not_plus split: list.splits)

lemma parse_show_nat [simp]: "n \<le> maximum \<Longrightarrow> parse_unsigned maximum (show_nat n) = Some n"
  by (simp add: parse_unsigned_def strip_plus_digits show_nat_digits)

lemma parse_unsigned_bound: "parse_unsigned maximum s = Some n \<Longrightarrow> n \<le> maximum"
  by (auto simp: parse_unsigned_def Let_def split: if_splits)

section \<open>Blank strings\<close>

text \<open>
  \<open>str::trim().is_empty()\<close>: only the characters with the Unicode property \<open>White_Space\<close>, in
  their UTF-8 encoding.
\<close>

fun trim_is_empty :: "string \<Rightarrow> bool" where
  "trim_is_empty [] = True"
| "trim_is_empty (a # rest) =
     (let x = (of_char a :: nat) in
      if (9 \<le> x \<and> x \<le> 13) \<or> x = 32 then trim_is_empty rest
      else case rest of
             [] \<Rightarrow> False
           | b # rest2 \<Rightarrow>
               let y = (of_char b :: nat) in
               if x = 194 \<and> (y = 133 \<or> y = 160) then trim_is_empty rest2
               else case rest2 of
                      [] \<Rightarrow> False
                    | c # rest3 \<Rightarrow>
                        let z = (of_char c :: nat) in
                        ((x = 225 \<and> y = 154 \<and> z = 128)
                          \<or> (x = 226 \<and> y = 128 \<and> ((128 \<le> z \<and> z \<le> 138) \<or> z = 168 \<or> z = 169 \<or> z = 175))
                          \<or> (x = 226 \<and> y = 129 \<and> z = 159)
                          \<or> (x = 227 \<and> y = 128 \<and> z = 128))
                        \<and> trim_is_empty rest3)"

section \<open>Splitting\<close>

text \<open>\<open>str::split\<close>: at least one part, an empty one between two separators.\<close>

fun split_on :: "char \<Rightarrow> string \<Rightarrow> string list" where
  "split_on c [] = [[]]"
| "split_on c (x # xs) =
     (if x = c then [] # split_on c xs
      else case split_on c xs of [] \<Rightarrow> [[x]] | p # ps \<Rightarrow> (x # p) # ps)"

end
