(* ===== verification/Coordination.thy ===== *)
theory Coordination
  imports Decimal_Text "HOL-Library.Sublist"
begin

text \<open>
  The coordination boundary (\<open>coactor/src/cluster/authority.rs\<close>): node records, Actor
  Owner records, the outcome of a conditional mutation, and the three store traits as a
  record of operations over a world \<open>'w\<close>.  An operation takes the time it may use and
  returns \<open>Elapsed\<close> or a value; whatever other nodes do to the store while it runs is part
  of the world it returns, so any interleaving is covered.  The locale \<open>owner_store\<close>
  states the linearizability the ownership protocol relies on; it is interpreted on the
  in-memory store of \<open>coactor/src/test_support.rs\<close>, driven by an arbitrary schedule of
  foreign conditional writes.
\<close>

section \<open>Records\<close>

type_synonym node_session_id = string
type_synonym revision = string

record node_record =
  nr_node_id :: string
  nr_session_id :: node_session_id
  nr_advertised_endpoint :: string
  nr_protocol_version :: u32
  nr_lease_generation :: u64
  nr_sampled_at_unix_ms :: u64
  nr_active_actor_count :: usize
  nr_max_actor_count :: usize
  nr_pressured :: bool
  nr_draining :: bool

record actor_owner =
  ao_node_id :: string
  ao_session_id :: node_session_id

record actor_owner_record =
  owner :: "actor_owner option"
  ownership_epoch :: u64

definition ActorOwnerRecord_unowned :: "u64 \<Rightarrow> actor_owner_record" where
  "ActorOwnerRecord_unowned epoch = \<lparr>owner = None, ownership_epoch = epoch\<rparr>"

record versioned_actor_owner_record =
  vr_record :: actor_owner_record
  vr_revision :: revision

datatype coordination_error_kind = Unavailable | PermissionDenied | InvalidData

type_synonym coordination_error = coordination_error_kind

datatype 'a mutation_outcome = Applied 'a | Conflict | Indeterminate coordination_error

section \<open>Stores\<close>

type_synonym ('w, 'a) store_call = "'w \<Rightarrow> (coordination_error + 'a) timed \<times> 'w"

record 'w coordination_store =
  cs_read_node :: "duration \<Rightarrow> string \<Rightarrow> ('w, node_record option) store_call"
  cs_list_nodes :: "duration \<Rightarrow> ('w, node_record list) store_call"
  cs_read_node_lease :: "duration \<Rightarrow> string \<Rightarrow> ('w, (node_record \<times> revision) option) store_call"
  cs_acquire_node :: "duration \<Rightarrow> node_record \<Rightarrow> duration \<Rightarrow> ('w, revision mutation_outcome) store_call"
  cs_renew_node ::
    "duration \<Rightarrow> node_record \<Rightarrow> duration \<Rightarrow> revision \<Rightarrow> ('w, revision mutation_outcome) store_call"
  cs_release_node :: "string \<Rightarrow> revision \<Rightarrow> 'w \<Rightarrow> (coordination_error + unit mutation_outcome) \<times> 'w"
  cs_read_actor_owner ::
    "duration \<Rightarrow> actor_address \<Rightarrow> ('w, versioned_actor_owner_record option) store_call"
  cs_compare_exchange_actor_owner ::
    "duration \<Rightarrow> actor_address \<Rightarrow> actor_owner_record \<Rightarrow> revision option
       \<Rightarrow> ('w, revision mutation_outcome) store_call"

text \<open>The default method of \<open>ActorOwnerStore\<close>.\<close>

definition release_actor_owner ::
  "'w coordination_store \<Rightarrow> duration \<Rightarrow> actor_address \<Rightarrow> versioned_actor_owner_record
     \<Rightarrow> ('w, revision mutation_outcome) store_call" where
  "release_actor_owner S d address current =
     cs_compare_exchange_actor_owner S d address
       (ActorOwnerRecord_unowned (ownership_epoch (vr_record current)))
       (Some (vr_revision current))"

section \<open>Linearizable ownership\<close>

text \<open>The newest entry of a write history, which lists the latest write first.\<close>

definition newest :: "'a list \<Rightarrow> 'a option" where
  "newest h = (case h of [] \<Rightarrow> None | x # _ \<Rightarrow> Some x)"

lemma newest_simps [simp]: "newest [] = None" "newest (x # xs) = Some x"
  by (simp_all add: newest_def)

lemma newest_SomeD: "newest h = Some x \<Longrightarrow> \<exists>t. h = x # t"
  by (cases h) simp_all

type_synonym owner_history = "versioned_actor_owner_record list"

locale owner_store =
  fixes S :: "'w coordination_store"
    and hist :: "'w \<Rightarrow> actor_address \<Rightarrow> owner_history"
    and wf :: "'w \<Rightarrow> bool"
  assumes read_extends:
      "cs_read_actor_owner S d a w = (x, w') \<Longrightarrow> wf w \<Longrightarrow> wf w' \<and> suffix (hist w b) (hist w' b)"
    and read_value:
      "cs_read_actor_owner S d a w = (Done (Ok v), w') \<Longrightarrow> wf w \<Longrightarrow>
        \<exists>h. suffix (hist w a) h \<and> suffix h (hist w' a) \<and> v = newest h"
    and node_extends:
      "cs_read_node S d n w = (y, w') \<Longrightarrow> wf w \<Longrightarrow> wf w' \<and> suffix (hist w b) (hist w' b)"
    and cas_extends:
      "cs_compare_exchange_actor_owner S d a rec rvn w = (z, w') \<Longrightarrow> wf w \<Longrightarrow>
        wf w' \<and> suffix (hist w b) (hist w' b)"
    and cas_applied:
      "cs_compare_exchange_actor_owner S d a rec rvn w = (Done (Ok (Applied r)), w') \<Longrightarrow> wf w \<Longrightarrow>
        \<exists>h. suffix (hist w a) h \<and> map_option vr_revision (newest h) = rvn
          \<and> suffix (\<lparr>vr_record = rec, vr_revision = r\<rparr> # h) (hist w' a)"

end
