(* ===== verification/Cluster_Routing.thy ===== *)
theory Cluster_Routing
  imports Coordination Runtime_Errors Tokio_Interface
begin

text \<open>
  Ownership resolution on a Server (\<open>coactor/src/cluster/routing.rs\<close>): \<open>resolve\<close> with
  its bounded retries and its confirmation of indeterminate writes, \<open>claim\<close>, and
  \<open>release_local_owner\<close>.  A reservation is one permit taken from the capacity semaphore;
  dropping it returns the permit.  The per-address resolution mutex makes one Server run
  one of these at a time for an address; it holds no data.
\<close>

record router =
  router_node_id :: string
  router_session_id :: node_session_id
  operation_timeout :: duration

text \<open>\<open>Local\<close> says whether the caller now holds a reservation.\<close>

datatype resolved_owner = Local bool | Remote_owner

definition is_local_owner :: "router \<Rightarrow> actor_owner_record \<Rightarrow> bool" where
  "is_local_owner r rec =
     (case owner rec of
        None \<Rightarrow> False
      | Some ow \<Rightarrow> ao_node_id ow = router_node_id r \<and> ao_session_id ow = router_session_id r)"

definition local_claim :: "router \<Rightarrow> u64 \<Rightarrow> actor_owner_record" where
  "local_claim r epoch =
     \<lparr>owner = Some \<lparr>ao_node_id = router_node_id r, ao_session_id = router_session_id r\<rparr>,
      ownership_epoch = epoch\<rparr>"

text \<open>The read-back loop after an indeterminate claim.\<close>

datatype confirmation = Confirmed | Reresolve | Unconfirmed

fun confirm_claim ::
  "nat \<Rightarrow> 'w coordination_store \<Rightarrow> router \<Rightarrow> actor_address \<Rightarrow> actor_owner_record \<Rightarrow> 'w
     \<Rightarrow> confirmation \<times> 'w" where
  "confirm_claim 0 S r address expected w = (Unconfirmed, w)"
| "confirm_claim (Suc n) S r address expected w =
     (case cs_read_actor_owner S (operation_timeout r) address w of
        (Done (Ok (Some confirmed)), w') \<Rightarrow>
          if vr_record confirmed = expected then (Confirmed, w')
          else if owner (vr_record confirmed) \<noteq> None then (Reresolve, w')
          else confirm_claim n S r address expected w'
      | (_, w') \<Rightarrow> confirm_claim n S r address expected w')"

definition next_epoch :: "versioned_actor_owner_record option \<Rightarrow> u64" where
  "next_epoch current =
     (case current of None \<Rightarrow> 1 | Some c \<Rightarrow> saturating_add (ownership_epoch (vr_record c)) 1)"

definition claim ::
  "('m, 'c, 's) tokio \<Rightarrow> 'w coordination_store \<Rightarrow> router \<Rightarrow> actor_address \<Rightarrow> u64 \<Rightarrow> revision option
     \<Rightarrow> 's \<Rightarrow> 'w \<Rightarrow> (send_error + resolved_owner) \<times> 's \<times> 'w" where
  "claim T S r address epoch rvn cap w =
     (let expected = local_claim r epoch in
      case tk_try_acquire T cap of
        None \<Rightarrow> (Err RuntimeAtCapacity, cap, w)
      | Some cap' \<Rightarrow>
          (case cs_compare_exchange_actor_owner S (operation_timeout r) address expected rvn w of
             (Done (Ok (Applied _)), w') \<Rightarrow> (Ok (Local True), cap', w')
           | (Done (Ok Conflict), w') \<Rightarrow> (Ok Remote_owner, tk_release T cap', w')
           | (Done (Ok (Indeterminate _)), w') \<Rightarrow>
               (case cs_read_actor_owner S (operation_timeout r) address w' of
                  (Done (Ok (Some confirmed)), w'') \<Rightarrow>
                    if vr_record confirmed = expected then (Ok (Local True), cap', w'')
                    else (Err OwnershipUnavailable, tk_release T cap', w'')
                | (_, w'') \<Rightarrow> (Err OwnershipUnavailable, tk_release T cap', w''))
           | (_, w') \<Rightarrow> (Err OwnershipUnavailable, tk_release T cap', w')))"

text \<open>
  The end of one round of \<open>resolve\<close>: reserve capacity, write the claim, and either return
  (\<open>Inl\<close>) or go to the next round with the permit given back (\<open>Inr\<close>).
\<close>

definition take_ownership ::
  "('m, 'c, 's) tokio \<Rightarrow> 'w coordination_store \<Rightarrow> router \<Rightarrow> actor_address
     \<Rightarrow> versioned_actor_owner_record option \<Rightarrow> 's \<Rightarrow> 'w
     \<Rightarrow> ((send_error + resolved_owner) \<times> 's \<times> 'w) + ('s \<times> 'w)" where
  "take_ownership T S r address current cap w =
     (let epoch = next_epoch current;
          rvn = map_option vr_revision current;
          expected = local_claim r epoch
      in case tk_try_acquire T cap of
           None \<Rightarrow> Inl (Err RuntimeAtCapacity, cap, w)
         | Some cap' \<Rightarrow>
             (case cs_compare_exchange_actor_owner S (operation_timeout r) address expected rvn w of
                (Done (Ok (Applied _)), w') \<Rightarrow> Inl (Ok (Local True), cap', w')
              | (Done (Ok Conflict), w') \<Rightarrow> Inr (tk_release T cap', w')
              | (Done (Ok (Indeterminate _)), w') \<Rightarrow>
                  (case confirm_claim 3 S r address expected w' of
                     (Confirmed, w'') \<Rightarrow> Inl (Ok (Local True), cap', w'')
                   | (Reresolve, w'') \<Rightarrow> Inr (tk_release T cap', w'')
                   | (Unconfirmed, w'') \<Rightarrow> Inl (Err OwnershipUnavailable, tk_release T cap', w''))
              | (_, w') \<Rightarrow> Inl (Err OwnershipUnavailable, tk_release T cap', w')))"

definition resolve_round ::
  "('m, 'c, 's) tokio \<Rightarrow> 'w coordination_store \<Rightarrow> router \<Rightarrow> actor_address \<Rightarrow> 's \<Rightarrow> 'w
     \<Rightarrow> ((send_error + resolved_owner) \<times> 's \<times> 'w) + ('s \<times> 'w)" where
  "resolve_round T S r address cap w =
     (case cs_read_actor_owner S (operation_timeout r) address w of
        (Done (Ok None), w1) \<Rightarrow> take_ownership T S r address None cap w1
      | (Done (Ok (Some current)), w1) \<Rightarrow>
          if is_local_owner r (vr_record current) then Inl (Ok (Local False), cap, w1)
          else (case owner (vr_record current) of
                  None \<Rightarrow> take_ownership T S r address (Some current) cap w1
                | Some ow \<Rightarrow>
                    if ao_node_id ow = router_node_id r
                    then Inl (claim T S r address
                           (saturating_add (ownership_epoch (vr_record current)) 1)
                           (Some (vr_revision current)) cap w1)
                    else (case cs_read_node S (operation_timeout r) (ao_node_id ow) w1 of
                            (Done (Ok node), w2) \<Rightarrow>
                              if is_some_and (\<lambda>n. nr_session_id n = ao_session_id ow) node
                              then Inl (Ok Remote_owner, cap, w2)
                              else take_ownership T S r address (Some current) cap w2
                          | (_, w2) \<Rightarrow> Inl (Err OwnershipUnavailable, cap, w2)))
      | (_, w1) \<Rightarrow> Inl (Err OwnershipUnavailable, cap, w1))"

fun resolve_rounds ::
  "nat \<Rightarrow> ('m, 'c, 's) tokio \<Rightarrow> 'w coordination_store \<Rightarrow> router \<Rightarrow> actor_address \<Rightarrow> 's \<Rightarrow> 'w
     \<Rightarrow> (send_error + resolved_owner) \<times> 's \<times> 'w" where
  "resolve_rounds 0 T S r address cap w = (Ok Remote_owner, cap, w)"
| "resolve_rounds (Suc n) T S r address cap w =
     (case resolve_round T S r address cap w of
        Inl out \<Rightarrow> out
      | Inr (cap', w') \<Rightarrow> resolve_rounds n T S r address cap' w')"

definition resolve ::
  "('m, 'c, 's) tokio \<Rightarrow> 'w coordination_store \<Rightarrow> router \<Rightarrow> actor_address \<Rightarrow> 's \<Rightarrow> 'w
     \<Rightarrow> (send_error + resolved_owner) \<times> 's \<times> 'w" where
  "resolve T S r address cap w = resolve_rounds 3 T S r address cap w"

fun confirm_release ::
  "nat \<Rightarrow> 'w coordination_store \<Rightarrow> router \<Rightarrow> actor_address \<Rightarrow> versioned_actor_owner_record \<Rightarrow> 'w
     \<Rightarrow> bool \<times> 'w" where
  "confirm_release 0 S r address current w = (False, w)"
| "confirm_release (Suc n) S r address current w =
     (case cs_read_actor_owner S (operation_timeout r) address w of
        (Done (Ok (Some rd)), w') \<Rightarrow>
          if vr_record rd = ActorOwnerRecord_unowned (ownership_epoch (vr_record current)) then (True, w')
          else if vr_record rd \<noteq> vr_record current then (False, w')
          else confirm_release n S r address current w'
      | (_, w') \<Rightarrow> confirm_release n S r address current w')"

definition release_local_owner ::
  "'w coordination_store \<Rightarrow> router \<Rightarrow> actor_address \<Rightarrow> 'w \<Rightarrow> (send_error + unit) \<times> 'w" where
  "release_local_owner S r address w =
     (case cs_read_actor_owner S (operation_timeout r) address w of
        (Done (Ok (Some current)), w1) \<Rightarrow>
          if \<not> is_local_owner r (vr_record current) then (Err OwnershipUnavailable, w1)
          else (case release_actor_owner S (operation_timeout r) address current w1 of
                  (Done (Ok (Applied _)), w2) \<Rightarrow> (Ok (), w2)
                | (Done (Ok _), w2) \<Rightarrow>
                    (case confirm_release 3 S r address current w2 of
                       (True, w3) \<Rightarrow> (Ok (), w3)
                     | (False, w3) \<Rightarrow> (Err OwnershipUnavailable, w3))
                | (_, w2) \<Rightarrow> (Err OwnershipUnavailable, w2))
      | (_, w1) \<Rightarrow> (Err OwnershipUnavailable, w1))"

section \<open>Capacity\<close>

text \<open>A resolution keeps exactly the permit it hands out.\<close>

definition reservation_count :: "send_error + resolved_owner \<Rightarrow> nat" where
  "reservation_count x = (if x = Ok (Local True) then 1 else 0)"

lemmas store_splits = prod.splits timed.splits sum.splits mutation_outcome.splits option.splits
  confirmation.splits if_splits

context semaphore_contract
begin

lemma claim_permits:
  "claim T S r a e rvn cap w = (x, cap', w') \<Longrightarrow>
   tk_available T cap' + reservation_count x = tk_available T cap"
  by (auto simp: claim_def Let_def reservation_count_def acquire_release
      dest: try_acquire_Some split: store_splits)

lemma take_ownership_permits:
  "take_ownership T S r a c cap w = Inl (x, cap', w') \<Longrightarrow>
   tk_available T cap' + reservation_count x = tk_available T cap"
  by (auto simp: take_ownership_def Let_def reservation_count_def acquire_release
      dest: try_acquire_Some split: store_splits)

lemma take_ownership_again_permits:
  "take_ownership T S r a c cap w = Inr (cap', w') \<Longrightarrow> tk_available T cap' = tk_available T cap"
  by (auto simp: take_ownership_def Let_def acquire_release split: store_splits)

lemma resolve_round_permits:
  "resolve_round T S r a cap w = Inl (x, cap', w') \<Longrightarrow>
   tk_available T cap' + reservation_count x = tk_available T cap"
  by (auto simp: resolve_round_def reservation_count_def
      dest: claim_permits take_ownership_permits split: store_splits)

lemma resolve_round_again_permits:
  "resolve_round T S r a cap w = Inr (cap', w') \<Longrightarrow> tk_available T cap' = tk_available T cap"
  by (auto simp: resolve_round_def dest: take_ownership_again_permits split: store_splits)

lemma resolve_rounds_permits:
  "resolve_rounds n T S r a cap w = (x, cap', w') \<Longrightarrow>
   tk_available T cap' + reservation_count x = tk_available T cap"
proof (induction n arbitrary: cap w)
  case 0
  then show ?case by (auto simp: reservation_count_def)
next
  case (Suc n)
  then show ?case
    by (auto dest: resolve_round_permits resolve_round_again_permits split: sum.splits)
qed

end

section \<open>Ownership\<close>

text \<open>At some moment between two states of the history, the router is the recorded owner.\<close>

definition was_owner :: "router \<Rightarrow> owner_history \<Rightarrow> owner_history \<Rightarrow> bool" where
  "was_owner r H H' \<longleftrightarrow>
     (\<exists>h v. suffix H h \<and> suffix h H' \<and> newest h = Some v \<and> is_local_owner r (vr_record v))"

lemma is_local_owner_claim [simp]: "is_local_owner r (local_claim r e)"
  by (simp add: is_local_owner_def local_claim_def)

lemma was_owner_earlier: "suffix H0 H \<Longrightarrow> was_owner r H H' \<Longrightarrow> was_owner r H0 H'"
  unfolding was_owner_def by (meson suffix_order.trans)

lemma was_owner_now:
  "suffix H h \<Longrightarrow> suffix h H' \<Longrightarrow> newest h = Some v \<Longrightarrow> is_local_owner r (vr_record v) \<Longrightarrow> was_owner r H H'"
  unfolding was_owner_def by blast

definition was_record :: "actor_owner_record \<Rightarrow> owner_history \<Rightarrow> owner_history \<Rightarrow> bool" where
  "was_record rec H H' \<longleftrightarrow> (\<exists>h v. suffix H h \<and> suffix h H' \<and> newest h = Some v \<and> vr_record v = rec)"

lemma was_record_earlier: "suffix H0 H \<Longrightarrow> was_record rec H H' \<Longrightarrow> was_record rec H0 H'"
  unfolding was_record_def using suffix_order.trans by metis

lemma was_record_later: "was_record rec H H' \<Longrightarrow> suffix H' H'' \<Longrightarrow> was_record rec H H''"
  unfolding was_record_def using suffix_order.trans by metis

lemma was_record_write:
  "suffix H h \<Longrightarrow> suffix (v # h) H' \<Longrightarrow> vr_record v = rec \<Longrightarrow> was_record rec H H'"
  unfolding was_record_def using newest_simps(2) suffix_ConsI by metis

lemma confirm_claim_SucD:
  assumes "confirm_claim (Suc n) S r a e w = (c, w')"
    and "cs_read_actor_owner S (operation_timeout r) a w = (x, w1)"
  shows "(\<exists>v. x = Done (Ok (Some v)) \<and> vr_record v = e \<and> c = Confirmed \<and> w' = w1)
     \<or> (c = Reresolve \<and> w' = w1) \<or> confirm_claim n S r a e w1 = (c, w')"
  using assms by (simp split: timed.splits sum.splits option.splits if_splits)

lemma claim_caseD:
  assumes "claim T S r a e rvn cap w = (Ok (Local b), cap', w')"
    and "cs_compare_exchange_actor_owner S (operation_timeout r) a (local_claim r e) rvn w = (z, w1)"
  shows "(\<exists>x. z = Done (Ok (Applied x)) \<and> w' = w1)
     \<or> (\<exists>v. cs_read_actor_owner S (operation_timeout r) a w1 = (Done (Ok (Some v)), w')
          \<and> vr_record v = local_claim r e)"
  using assms
  by (cases "cs_read_actor_owner S (operation_timeout r) a w1")
    (auto simp: claim_def Let_def
      split: timed.splits sum.splits option.splits mutation_outcome.splits if_splits)

lemma take_ownership_caseD:
  assumes "take_ownership T S r a c cap w = out"
    and "cs_compare_exchange_actor_owner S (operation_timeout r) a (local_claim r (next_epoch c))
         (map_option vr_revision c) w = (z, w1)"
    and "confirm_claim 3 S r a (local_claim r (next_epoch c)) w1 = (k, w2)"
  shows "out = Inl (Err RuntimeAtCapacity, cap, w)
     \<or> (\<exists>cap' x. out = Inl (Ok (Local True), cap', w1) \<and> z = Done (Ok (Applied x)))
     \<or> (\<exists>cap'. out = Inr (cap', w1))
     \<or> (\<exists>cap'. out = Inl (Ok (Local True), cap', w2) \<and> k = Confirmed)
     \<or> (\<exists>cap'. out = Inr (cap', w2))
     \<or> (\<exists>cap' w'. out = Inl (Err OwnershipUnavailable, cap', w'))"
  using assms
  by (auto simp: take_ownership_def Let_def
      split: timed.splits sum.splits option.splits mutation_outcome.splits confirmation.splits)

lemma confirm_release_SucD:
  assumes "confirm_release (Suc n) S r a c w = (x, w')"
    and "cs_read_actor_owner S (operation_timeout r) a w = (y, w1)"
  shows "(\<exists>v. y = Done (Ok (Some v)) \<and> x \<and> w' = w1
        \<and> vr_record v = ActorOwnerRecord_unowned (ownership_epoch (vr_record c)))
     \<or> (\<not> x \<and> w' = w1) \<or> confirm_release n S r a c w1 = (x, w')"
  using assms by (simp split: timed.splits sum.splits option.splits if_splits)

context owner_store
begin

lemma read_owner_local:
  "cs_read_actor_owner S d a w = (Done (Ok (Some v)), w') \<Longrightarrow> wf w \<Longrightarrow>
   is_local_owner r (vr_record v) \<Longrightarrow> was_owner r (hist w a) (hist w' a)"
  using read_value [of d a w "Some v" w'] was_owner_now by metis

lemma cas_applied_owner:
  assumes "cs_compare_exchange_actor_owner S d a (local_claim r e) rvn w = (Done (Ok (Applied x)), w')"
    and "wf w"
  shows "was_owner r (hist w a) (hist w' a)"
proof -
  obtain h where h: "suffix (hist w a) h"
      "suffix (\<lparr>vr_record = local_claim r e, vr_revision = x\<rparr> # h) (hist w' a)"
    using cas_applied [OF assms] by blast
  then have "suffix (hist w a) (\<lparr>vr_record = local_claim r e, vr_revision = x\<rparr> # h)"
    by (simp add: suffix_ConsI)
  then show ?thesis
    by (rule was_owner_now [OF _ h(2), where v = "\<lparr>vr_record = local_claim r e, vr_revision = x\<rparr>"])
      simp_all
qed

lemma confirm_claim_extends:
  "confirm_claim n S r a e w = (c, w') \<Longrightarrow> wf w \<Longrightarrow> wf w' \<and> suffix (hist w b) (hist w' b)"
proof (induction n arbitrary: w)
  case 0
  then show ?case by simp
next
  case (Suc n)
  obtain x w1 where rd: "cs_read_actor_owner S (operation_timeout r) a w = (x, w1)" by fastforce
  with Suc.prems have w1: "wf w1" "suffix (hist w b) (hist w1 b)"
    by (auto dest: read_extends)
  have "w' = w1 \<or> confirm_claim n S r a e w1 = (c, w')"
    using confirm_claim_SucD [OF Suc.prems(1) rd] by blast
  then show ?case
    using w1 Suc.IH [of w1] by (meson suffix_order.trans)
qed

lemma confirm_claim_owner:
  "confirm_claim n S r a (local_claim r e) w = (Confirmed, w') \<Longrightarrow> wf w \<Longrightarrow>
   was_owner r (hist w a) (hist w' a)"
proof (induction n arbitrary: w)
  case 0
  then show ?case by simp
next
  case (Suc n)
  obtain x w1 where rd: "cs_read_actor_owner S (operation_timeout r) a w = (x, w1)" by fastforce
  with Suc.prems have w1: "wf w1" "suffix (hist w a) (hist w1 a)"
    by (auto dest: read_extends)
  consider v where "x = Done (Ok (Some v))" "vr_record v = local_claim r e" "w' = w1"
    | "confirm_claim n S r a (local_claim r e) w1 = (Confirmed, w')"
    using confirm_claim_SucD [OF Suc.prems(1) rd] by blast
  then show ?case
  proof cases
    case 1
    then show ?thesis using rd Suc.prems(2) by (auto intro: read_owner_local)
  next
    case 2
    then show ?thesis using Suc.IH w1 by (blast intro: was_owner_earlier)
  qed
qed

lemma claim_owner:
  assumes "claim T S r a e rvn cap w = (Ok (Local b), cap', w')" and "wf w"
  shows "was_owner r (hist w a) (hist w' a)"
proof -
  obtain z w1 where cas:
      "cs_compare_exchange_actor_owner S (operation_timeout r) a (local_claim r e) rvn w = (z, w1)"
    by fastforce
  with assms(2) have w1: "wf w1" "suffix (hist w a) (hist w1 a)"
    by (auto dest: cas_extends)
  consider x where "z = Done (Ok (Applied x))" "w' = w1"
    | v where "cs_read_actor_owner S (operation_timeout r) a w1 = (Done (Ok (Some v)), w')"
        "vr_record v = local_claim r e"
    using claim_caseD [OF assms(1) cas] by blast
  then show ?thesis
  proof cases
    case 1
    then show ?thesis using cas assms(2) cas_applied_owner by blast
  next
    case 2
    then have "was_owner r (hist w1 a) (hist w' a)"
      using w1(1) by (auto intro: read_owner_local)
    with w1(2) show ?thesis by (rule was_owner_earlier)
  qed
qed

lemma take_ownership_owner:
  assumes "take_ownership T S r a c cap w = Inl (Ok (Local b), cap', w')" and "wf w"
  shows "was_owner r (hist w a) (hist w' a)"
proof -
  obtain z w1 where cas:
      "cs_compare_exchange_actor_owner S (operation_timeout r) a (local_claim r (next_epoch c))
         (map_option vr_revision c) w = (z, w1)"
    by fastforce
  with assms(2) have w1: "wf w1" "suffix (hist w a) (hist w1 a)"
    by (auto dest: cas_extends)
  obtain k w2 where cf: "confirm_claim 3 S r a (local_claim r (next_epoch c)) w1 = (k, w2)" by fastforce
  consider x where "z = Done (Ok (Applied x))" "w' = w1"
    | "confirm_claim 3 S r a (local_claim r (next_epoch c)) w1 = (Confirmed, w')"
    using take_ownership_caseD [OF assms(1) cas cf] cf by auto
  then show ?thesis
  proof cases
    case 1
    then show ?thesis using cas assms(2) cas_applied_owner by blast
  next
    case 2
    then have "was_owner r (hist w1 a) (hist w' a)"
      using w1(1) by (rule confirm_claim_owner)
    with w1(2) show ?thesis by (rule was_owner_earlier)
  qed
qed

lemma take_ownership_again_extends:
  assumes "take_ownership T S r a c cap w = Inr (cap', w')" and "wf w"
  shows "wf w' \<and> suffix (hist w b) (hist w' b)"
proof -
  obtain z w1 where cas:
      "cs_compare_exchange_actor_owner S (operation_timeout r) a (local_claim r (next_epoch c))
         (map_option vr_revision c) w = (z, w1)"
    by fastforce
  with assms(2) have w1: "wf w1" "suffix (hist w b) (hist w1 b)"
    by (auto dest: cas_extends)
  obtain k w2 where cf: "confirm_claim 3 S r a (local_claim r (next_epoch c)) w1 = (k, w2)" by fastforce
  then have w2: "wf w2" "suffix (hist w b) (hist w2 b)"
    using confirm_claim_extends [OF cf w1(1), of b] w1(2) by (auto intro: suffix_order.trans)
  have "w' = w1 \<or> w' = w2"
    using take_ownership_caseD [OF assms(1) cas cf] by auto
  then show ?thesis using w1 w2 by blast
qed

lemma resolve_round_cases:
  assumes "resolve_round T S r a cap w = out" and "wf w"
  obtains (quick) x w1 where "out = Inl (x, cap, w1)"
      "x = Ok (Local False) \<longrightarrow> was_owner r (hist w a) (hist w1 a)" "\<forall>b. x \<noteq> Ok (Local b) \<or> \<not> b"
    | (own) e rvn w1 where "out = Inl (claim T S r a e rvn cap w1)" "wf w1" "suffix (hist w a) (hist w1 a)"
    | (take) c w1 where "out = take_ownership T S r a c cap w1" "wf w1" "suffix (hist w a) (hist w1 a)"
proof -
  obtain x w1 where rd: "cs_read_actor_owner S (operation_timeout r) a w = (x, w1)" by fastforce
  with assms(2) have w1: "wf w1" "suffix (hist w a) (hist w1 a)" by (auto dest: read_extends)
  have node: "wf w2 \<and> suffix (hist w a) (hist w2 a)" if "cs_read_node S d n w1 = (y, w2)" for d n y w2
    using node_extends [OF that w1(1)] w1(2) by (meson suffix_order.trans)
  show thesis
  proof (cases "\<exists>v. x = Done (Ok (Some v)) \<and> is_local_owner r (vr_record v)")
    case True
    then show thesis
      using assms rd quick [of "Ok (Local False)" w1] read_owner_local
      by (auto simp: resolve_round_def)
  next
    case False
    then show thesis
      using assms(1) rd w1 node
      by (auto simp: resolve_round_def split: store_splits intro: quick own take)
  qed
qed

lemma resolve_rounds_owner:
  "resolve_rounds n T S r a cap w = (Ok (Local b), cap', w') \<Longrightarrow> wf w \<Longrightarrow>
   was_owner r (hist w a) (hist w' a)"
proof (induction n arbitrary: cap w)
  case 0
  then show ?case by simp
next
  case (Suc n)
  show ?case
  proof (rule resolve_round_cases [OF refl \<open>wf w\<close>, of T r a cap])
    fix x w1
    assume "resolve_round T S r a cap w = Inl (x, cap, w1)"
      and "x = Ok (Local False) \<longrightarrow> was_owner r (hist w a) (hist w1 a)" "\<forall>b. x \<noteq> Ok (Local b) \<or> \<not> b"
    with Suc.prems show ?thesis by (cases b) auto
  next
    fix e rvn w1
    assume "resolve_round T S r a cap w = Inl (claim T S r a e rvn cap w1)"
      and w1: "wf w1" "suffix (hist w a) (hist w1 a)"
    with Suc.prems have "claim T S r a e rvn cap w1 = (Ok (Local b), cap', w')" by simp
    then show ?thesis using w1 by (blast intro: claim_owner was_owner_earlier)
  next
    fix c w1
    assume rr: "resolve_round T S r a cap w = take_ownership T S r a c cap w1"
      and w1: "wf w1" "suffix (hist w a) (hist w1 a)"
    show ?thesis
    proof (cases "take_ownership T S r a c cap w1")
      case (Inl out)
      then have "take_ownership T S r a c cap w1 = Inl (Ok (Local b), cap', w')"
        using Suc.prems rr by simp
      then show ?thesis using w1 by (blast intro: take_ownership_owner was_owner_earlier)
    next
      case (Inr next_round)
      then obtain cap2 w2 where t: "take_ownership T S r a c cap w1 = Inr (cap2, w2)"
        by (cases next_round) simp
      then have w2: "wf w2" "suffix (hist w a) (hist w2 a)"
        using take_ownership_again_extends [OF t w1(1)] w1(2) by (meson suffix_order.trans)+
      have "resolve_rounds n T S r a cap2 w2 = (Ok (Local b), cap', w')"
        using Suc.prems rr t by simp
      then show ?thesis using w2 by (blast intro: Suc.IH was_owner_earlier)
    qed
  qed
qed

lemma confirm_release_extends:
  "confirm_release n S r a c w = (x, w') \<Longrightarrow> wf w \<Longrightarrow> wf w' \<and> suffix (hist w b) (hist w' b)"
proof (induction n arbitrary: w)
  case 0
  then show ?case by simp
next
  case (Suc n)
  obtain y w1 where rd: "cs_read_actor_owner S (operation_timeout r) a w = (y, w1)" by fastforce
  with Suc.prems have w1: "wf w1" "suffix (hist w b) (hist w1 b)"
    by (auto dest: read_extends)
  have "w' = w1 \<or> confirm_release n S r a c w1 = (x, w')"
    using Suc.prems(1) rd by (simp split: timed.splits sum.splits option.splits if_splits)
  then show ?case
    using w1 Suc.IH [of w1] by (meson suffix_order.trans)
qed

lemma confirm_release_unowned:
  "confirm_release n S r a c w = (True, w') \<Longrightarrow> wf w \<Longrightarrow>
   was_record (ActorOwnerRecord_unowned (ownership_epoch (vr_record c))) (hist w a) (hist w' a)"
proof (induction n arbitrary: w)
  case 0
  then show ?case by simp
next
  case (Suc n)
  obtain x w1 where rd: "cs_read_actor_owner S (operation_timeout r) a w = (x, w1)" by fastforce
  with Suc.prems have w1: "wf w1" "suffix (hist w a) (hist w1 a)"
    by (auto dest: read_extends)
  consider v where "x = Done (Ok (Some v))" "w' = w1"
        "vr_record v = ActorOwnerRecord_unowned (ownership_epoch (vr_record c))"
    | "confirm_release n S r a c w1 = (True, w')"
    using confirm_release_SucD [OF Suc.prems(1) rd] by blast
  then show ?case
  proof cases
    case 1
    then show ?thesis
      using read_value [OF rd [unfolded 1(1)] Suc.prems(2)] unfolding was_record_def by metis
  next
    case 2
    then show ?thesis using Suc.IH w1 by (blast intro: was_record_earlier)
  qed
qed

lemma release_local_owner_unowned:
  assumes "release_local_owner S r a w = (Ok (), w')" and "wf w"
  shows "\<exists>c :: versioned_actor_owner_record.
       is_local_owner r (vr_record c) \<and> was_record (vr_record c) (hist w a) (hist w' a)
     \<and> was_record (ActorOwnerRecord_unowned (ownership_epoch (vr_record c))) (hist w a) (hist w' a)"
proof -
  obtain c w1 where rd: "cs_read_actor_owner S (operation_timeout r) a w = (Done (Ok (Some c)), w1)"
    and c: "is_local_owner r (vr_record c)"
    using assms(1)
    by (auto simp: release_local_owner_def split: prod.splits timed.splits sum.splits option.splits if_splits)
  have w1: "wf w1" "suffix (hist w a) (hist w1 a)" using read_extends [OF rd assms(2)] by auto
  obtain z w2 where cas: "release_actor_owner S (operation_timeout r) a c w1 = (z, w2)" by fastforce
  note cas' = cas [unfolded release_actor_owner_def]
  have w2: "wf w2" "suffix (hist w1 a) (hist w2 a)" using cas_extends [OF cas' w1(1)] by auto
  have mid: "was_record (vr_record c) (hist w a) (hist w1 a)"
    using read_value [OF rd assms(2)] unfolding was_record_def by metis
  let ?free = "ActorOwnerRecord_unowned (ownership_epoch (vr_record c))"
  consider x where "z = Done (Ok (Applied x))" "w' = w2"
    | "confirm_release 3 S r a c w2 = (True, w')"
    using assms(1) rd c cas
    by (auto simp: release_local_owner_def
        split: prod.splits timed.splits sum.splits mutation_outcome.splits bool.splits)
  then have "was_record ?free (hist w1 a) (hist w' a) \<and> suffix (hist w1 a) (hist w' a)"
  proof cases
    case 1
    obtain h where "suffix (hist w1 a) h"
        "suffix (\<lparr>vr_record = ?free, vr_revision = x\<rparr> # h) (hist w2 a)"
      using cas_applied [OF cas' [unfolded 1(1)] w1(1)] by blast
    then have "was_record ?free (hist w1 a) (hist w2 a)" by (rule was_record_write) simp
    then show ?thesis using w2(2) 1(2) by simp
  next
    case 2
    have "suffix (hist w2 a) (hist w' a)" using confirm_release_extends [OF 2 w2(1)] by simp
    then show ?thesis
      using was_record_earlier [OF w2(2) confirm_release_unowned [OF 2 w2(1)]] w2(2)
      by (blast intro: suffix_order.trans)
  qed
  then have "was_record ?free (hist w a) (hist w' a)" "was_record (vr_record c) (hist w a) (hist w' a)"
    by (auto intro: was_record_later [OF mid] was_record_earlier [OF w1(2)])
  with c show ?thesis by blast
qed

end

section \<open>Properties\<close>

text \<open>
  C9. When \<open>resolve\<close> answers \<open>Local\<close>, this Server's node session was the recorded owner of
  the address at some moment while it ran, whatever the other nodes wrote in between, and
  also when its own claim came back indeterminate.
\<close>

theorem resolve_local_was_owner:
  assumes "owner_store S hist ok" and "ok w"
    and "resolve T S r a cap w = (Ok (Local b), cap', w')"
  shows "was_owner r (hist w a) (hist w' a)"
  using assms(3) unfolding resolve_def
  by (rule owner_store.resolve_rounds_owner [OF assms(1) _ assms(2)])

text \<open>
  A resolution neither leaks nor invents capacity: the free permits afterwards plus
  the reservation it returns are the free permits before, on every path.
\<close>

theorem resolve_keeps_permits:
  assumes "semaphore_contract T" and "resolve T S r a cap w = (x, cap', w')"
  shows "tk_available T cap' + reservation_count x = tk_available T cap"
  using assms(2) unfolding resolve_def
  by (rule semaphore_contract.resolve_rounds_permits [OF assms(1)])

text \<open>
  C29. When \<open>release_local_owner\<close> succeeds, the address named this node session and then,
  at some moment while it ran, was unowned under the same epoch.
\<close>

theorem release_succeeds_unowned:
  assumes "owner_store S hist ok" and "ok w" and "release_local_owner S r a w = (Ok (), w')"
  shows "\<exists>c :: versioned_actor_owner_record.
       is_local_owner r (vr_record c) \<and> was_record (vr_record c) (hist w a) (hist w' a)
     \<and> was_record (ActorOwnerRecord_unowned (ownership_epoch (vr_record c))) (hist w a) (hist w' a)"
  using owner_store.release_local_owner_unowned [OF assms(1,3,2)] .

end
