(* ===== verification/Actor_Routes.thy ===== *)
theory Actor_Routes
  imports Session_Registry Tokio_Interface Node_Authority Cluster_Routing
begin

text \<open>
  The data of one Server (\<open>ServerInner\<close> of \<open>coactor/src/runtime/core.rs\<close>), its Actor
  registrations and mailbox messages (\<open>message.rs\<close>), and the operations on routes that
  the Actor tasks and the dispatcher share (\<open>route.rs\<close>, \<open>spawn_actor\<close>).

  A Route owns its mailbox sender and the Actor task its receiver; both are names for the
  entry of \<open>tasks\<close> the Route points to.  A Route also owns one permit of the capacity
  semaphore, so taking it out of \<open>actors\<close> gives the permit back.  The consumer's Actor
  is the record of callbacks in its \<open>registration\<close>, over the Actor's own state \<open>'a\<close> and
  the outside world \<open>'w\<close>; every callback runs under \<open>catch_unwind\<close>.
\<close>

section \<open>Messages and registrations\<close>

type_synonym oneshot_id = nat

datatype mailbox_message =
    Action session_id bytes
  | SessionOpened session_id oneshot_id
  | SessionClosed session_id

datatype 'v caught = Returned 'v | Unwound

datatype message_outcome = Completed | Panicked

record ('a, 'w) registration =
  reg_name :: string
  reg_create :: "actor_address \<Rightarrow> 'a caught"
  reg_activate :: "registry \<Rightarrow> actor_address \<Rightarrow> 'a \<Rightarrow> 'w \<Rightarrow> (string + unit) caught \<times> 'a \<times> 'w"
  reg_deactivate ::
    "registry \<Rightarrow> actor_address \<Rightarrow> deactivation_reason \<Rightarrow> 'a \<Rightarrow> 'w \<Rightarrow> unit caught timed \<times> 'a \<times> 'w"
  reg_handle ::
    "registry \<Rightarrow> actor_address \<Rightarrow> session_id \<Rightarrow> bytes \<Rightarrow> 'a \<Rightarrow> 'w \<Rightarrow> message_outcome caught \<times> 'a \<times> 'w"
  reg_session_opened :: "registry \<Rightarrow> actor_address \<Rightarrow> session_id \<Rightarrow> 'a \<Rightarrow> 'w \<Rightarrow> unit caught \<times> 'a \<times> 'w"
  reg_session_closed :: "registry \<Rightarrow> actor_address \<Rightarrow> session_id \<Rightarrow> 'a \<Rightarrow> 'w \<Rightarrow> unit caught \<times> 'a \<times> 'w"
  mailbox_capacity :: "usize option"
  idle_timeout :: "duration option"

section \<open>Routes, tasks, the Server\<close>

datatype route_state = Active | Deactivating

type_synonym task_id = nat

record route =
  rt_generation :: u64
  rt_state :: route_state
  rt_task :: task_id

text \<open>
  One spawned Actor task.  \<open>shutdown_changed\<close> is whether the shutdown watch holds a value
  the task has not seen; \<open>task_completed\<close> is the completion watch.
\<close>

record ('a, 'c) actor_task =
  task_address :: actor_address
  task_generation :: u64
  task_actor :: 'a
  mailbox :: 'c
  shutdown_flag :: bool
  shutdown_changed :: bool
  task_aborted :: bool
  task_completed :: bool

record ('a, 'w, 'c, 's) server =
  registrations :: "(string, ('a, 'w) registration) hmap"
  actors :: "(actor_address, route) hmap"
  sessions :: registry
  capacity :: 's
  max_active_actors :: usize
  deactivation_timeout :: duration
  next_generation :: u64
  status :: u8
  shutdown_timeout :: duration
  transport_protocol_version :: u32
  authority :: "node_authority option"
  cluster :: "router option"
  inbound_tasks :: "task_id list"
  tasks :: "(task_id, ('a, 'c) actor_task) hmap"
  next_task :: task_id
  answers :: "(oneshot_id \<times> (send_error + unit)) list"

definition RUNNING :: u8 where "RUNNING = 0"
definition SHUTTING_DOWN :: u8 where "SHUTTING_DOWN = 1"
definition STOPPED :: u8 where "STOPPED = 2"
definition FENCED :: u8 where "FENCED = 3"

lemmas status_defs = RUNNING_def SHUTTING_DOWN_def STOPPED_def FENCED_def

type_synonym ('a, 'w, 'c, 's) server_op = "('a, 'w, 'c, 's) server \<Rightarrow> ('a, 'w, 'c, 's) server"

text \<open>\<open>complete.send(outcome)\<close> on the oneshot of a \<open>SessionOpened\<close> message.\<close>

definition answer :: "mailbox_message \<Rightarrow> send_error + unit \<Rightarrow> ('a, 'w, 'c, 's) server_op" where
  "answer message outcome srv =
     (case message of
        SessionOpened _ complete \<Rightarrow> srv\<lparr>answers := (complete, outcome) # answers srv\<rparr>
      | _ \<Rightarrow> srv)"

definition update_task ::
  "task_id \<Rightarrow> (('a, 'c) actor_task \<Rightarrow> ('a, 'c) actor_task) \<Rightarrow> ('a, 'w, 'c, 's) server_op" where
  "update_task tid f srv =
     (case hm_get (tasks srv) tid of
        None \<Rightarrow> srv
      | Some t \<Rightarrow> srv\<lparr>tasks := hm_insert tid (f t) (tasks srv)\<rparr>)"

section \<open>Operations on routes\<close>

text \<open>Removing a Route drops it, and with it the permit it holds.\<close>

definition drop_route :: "('m, 'c, 's) tokio \<Rightarrow> actor_address \<Rightarrow> ('a, 'w, 'c, 's) server_op" where
  "drop_route T address srv =
     (case hm_get (actors srv) address of
        None \<Rightarrow> srv
      | Some _ \<Rightarrow> srv\<lparr>actors := hm_remove address (actors srv), capacity := tk_release T (capacity srv)\<rparr>)"

definition remove_route ::
  "('m, 'c, 's) tokio \<Rightarrow> actor_address \<Rightarrow> u64 \<Rightarrow> ('a, 'w, 'c, 's) server_op" where
  "remove_route T address generation srv =
     (if is_some_and (\<lambda>route. rt_generation route = generation) (hm_get (actors srv) address)
      then drop_route T address srv
      else srv)"

definition begin_deactivation ::
  "('m, 'c, 's) tokio \<Rightarrow> actor_address \<Rightarrow> u64 \<Rightarrow> 'c \<Rightarrow> ('a, 'w, 'c, 's) server
     \<Rightarrow> bool \<times> ('a, 'w, 'c, 's) server" where
  "begin_deactivation T address generation sender srv =
     (case hm_get (actors srv) address of
        None \<Rightarrow> (False, srv)
      | Some route \<Rightarrow>
          if rt_generation route \<noteq> generation \<or> tk_capacity T sender \<noteq> tk_max_capacity T sender
          then (False, srv)
          else (True, srv\<lparr>actors := hm_insert address (route\<lparr>rt_state := Deactivating\<rparr>) (actors srv)\<rparr>))"

definition has_live_sessions :: "registry \<Rightarrow> actor_address \<Rightarrow> bool" where
  "has_live_sessions registry address \<longleftrightarrow> 0 < session_count registry address"

definition try_send_error :: "'m try_send_result \<Rightarrow> send_error + unit" where
  "try_send_error r = (case r of Sent \<Rightarrow> Ok () | SendFull _ \<Rightarrow> Err MailboxFull | SendClosed _ \<Rightarrow> Err ActorStopped)"

text \<open>\<open>try_send\<close> on the sender of a task.\<close>

definition mailbox_try_send ::
  "(mailbox_message, 'c, 's) tokio \<Rightarrow> ('a, 'c) actor_task \<Rightarrow> task_id \<Rightarrow> mailbox_message
     \<Rightarrow> ('a, 'w, 'c, 's) server \<Rightarrow> mailbox_message try_send_result \<times> ('a, 'w, 'c, 's) server" where
  "mailbox_try_send T t tid message srv =
     (case tk_try_send T (mailbox t) message of
        (r, c) \<Rightarrow> (r, srv\<lparr>tasks := hm_insert tid (t\<lparr>mailbox := c\<rparr>) (tasks srv)\<rparr>))"

text \<open>
  \<open>spawn_actor\<close> up to the spawned task: \<open>None\<close> is a panic (a missing registration or
  configuration, a constructor that panics, a channel of capacity zero or above
  \<open>MAX_PERMITS\<close>).
\<close>

definition spawn_actor ::
  "(mailbox_message, 'c, 's) tokio \<Rightarrow> actor_address \<Rightarrow> u64 \<Rightarrow> ('a, 'w, 'c, 's) server
     \<Rightarrow> ('a, 'c) actor_task option" where
  "spawn_actor T address generation srv =
     (case hm_get (registrations srv) (actor_type address) of
        None \<Rightarrow> None
      | Some registration \<Rightarrow>
          (case (mailbox_capacity registration, idle_timeout registration) of
             (Some cap, Some _) \<Rightarrow>
               (case reg_create registration address of
                  Unwound \<Rightarrow> None
                | Returned actor \<Rightarrow>
                    if cap = 0 \<or> MAX_PERMITS < unat cap then None
                    else Some \<lparr>task_address = address, task_generation = generation, task_actor = actor,
                               mailbox = tk_channel T (unat cap), shutdown_flag = False,
                               shutdown_changed = False, task_aborted = False, task_completed = False\<rparr>)
           | _ \<Rightarrow> None))"

end
