(* ===== verification/Runtime_Core.thy ===== *)
theory Runtime_Core
  imports Actor_Routes
begin

text \<open>
  The dispatcher of a Server (\<open>coactor/src/runtime/core.rs\<close>): admission, delivery to an
  Active Actor or activation of a new one, opening and closing Sessions, inbound envelopes
  of a Client connection, broadcast.

  An operation is split where the code gives other tasks a chance to run: \<open>dispatch_message\<close>
  is its admission check, made before the \<open>actors\<close> lock is taken, and its commit under the
  lock; \<open>open_local_session\<close> is its part up to the await on the oneshot and the part after
  it.  A result \<open>None\<close> is a panic that unwinds to the caller.
\<close>

section \<open>Dispatch\<close>

definition dispatch_admission :: "instant \<Rightarrow> ('a, 'w, 'c, 's) server \<Rightarrow> send_error option" where
  "dispatch_admission now srv =
     (if is_some_and (\<lambda>a. \<not> authority_is_valid a now) (authority srv) then Some NodeFenced
      else if status srv = RUNNING then None
      else if status srv = SHUTTING_DOWN then Some RuntimeShuttingDown
      else if status srv = FENCED then Some NodeFenced
      else Some RuntimeStopped)"

text \<open>A reservation is a permit the caller holds; it is dropped on every path that does not use it.\<close>

definition drop_reservation :: "('m, 'c, 's) tokio \<Rightarrow> bool \<Rightarrow> ('a, 'w, 'c, 's) server_op" where
  "drop_reservation T reservation srv =
     (if reservation then srv\<lparr>capacity := tk_release T (capacity srv)\<rparr> else srv)"

definition fail_message :: "mailbox_message \<Rightarrow> send_error \<Rightarrow> ('a, 'w, 'c, 's) server_op" where
  "fail_message message error srv = answer message (Err error) srv"

text \<open>The end of \<open>dispatch_message\<close>: take a permit, spawn the Actor, send, insert the Route.\<close>

definition activate_route ::
  "(mailbox_message, 'c, 's) tokio \<Rightarrow> actor_address \<Rightarrow> mailbox_message \<Rightarrow> bool
     \<Rightarrow> ('a, 'w, 'c, 's) server \<Rightarrow> (send_error + unit) option \<times> ('a, 'w, 'c, 's) server" where
  "activate_route T address message reservation srv =
     (case (if reservation then Some (capacity srv) else tk_try_acquire T (capacity srv)) of
        None \<Rightarrow> (Some (Err RuntimeAtCapacity), fail_message message RuntimeAtCapacity srv)
      | Some cap \<Rightarrow>
          let generation = next_generation srv;
              tid = next_task srv;
              srv1 = srv\<lparr>capacity := cap, next_generation := generation + 1, next_task := Suc tid\<rparr>
          in case spawn_actor T address generation srv1 of
               None \<Rightarrow> (None, srv1\<lparr>capacity := tk_release T cap\<rparr>)
             | Some t \<Rightarrow>
                 (case tk_try_send T (mailbox t) message of
                    (r, c) \<Rightarrow>
                      (Some (try_send_error r),
                       srv1\<lparr>tasks := hm_insert tid (t\<lparr>mailbox := c\<rparr>) (tasks srv1),
                            actors := hm_insert address
                              \<lparr>rt_generation = generation, rt_state = Active, rt_task = tid\<rparr>
                              (actors srv1)\<rparr>)))"

definition dispatch_commit ::
  "(mailbox_message, 'c, 's) tokio \<Rightarrow> actor_address \<Rightarrow> mailbox_message \<Rightarrow> bool
     \<Rightarrow> ('a, 'w, 'c, 's) server \<Rightarrow> (send_error + unit) option \<times> ('a, 'w, 'c, 's) server" where
  "dispatch_commit T address message reservation srv =
     (case hm_get (actors srv) address of
        None \<Rightarrow> activate_route T address message reservation srv
      | Some route \<Rightarrow>
          (case rt_state route of
             Active \<Rightarrow>
               (case hm_get (tasks srv) (rt_task route) of
                  None \<Rightarrow> activate_route T address message reservation (drop_route T address srv)
                | Some t \<Rightarrow>
                    (case mailbox_try_send T t (rt_task route) message srv of
                       (Sent, srv') \<Rightarrow> (Some (Ok ()), drop_reservation T reservation srv')
                     | (SendFull returned, srv') \<Rightarrow>
                         (Some (Err MailboxFull),
                          drop_reservation T reservation (answer returned (Err MailboxFull) srv'))
                     | (SendClosed returned, srv') \<Rightarrow>
                         activate_route T address returned reservation (drop_route T address srv')))
           | Deactivating \<Rightarrow> (Some (Err ActorDeactivating), drop_reservation T reservation srv)))"

definition dispatch_message ::
  "(mailbox_message, 'c, 's) tokio \<Rightarrow> instant \<Rightarrow> actor_address \<Rightarrow> mailbox_message \<Rightarrow> bool
     \<Rightarrow> ('a, 'w, 'c, 's) server \<Rightarrow> (send_error + unit) option \<times> ('a, 'w, 'c, 's) server" where
  "dispatch_message T now address message reservation srv =
     (case dispatch_admission now srv of
        Some error \<Rightarrow> (Some (Err error), drop_reservation T reservation srv)
      | None \<Rightarrow> dispatch_commit T address message reservation srv)"

definition dispatch_message_if_active ::
  "(mailbox_message, 'c, 's) tokio \<Rightarrow> actor_address \<Rightarrow> mailbox_message
     \<Rightarrow> ('a, 'w, 'c, 's) server \<Rightarrow> (send_error + unit) \<times> ('a, 'w, 'c, 's) server" where
  "dispatch_message_if_active T address message srv =
     (case hm_get (actors srv) address of
        None \<Rightarrow> (Ok (), srv)
      | Some route \<Rightarrow>
          (case rt_state route of
             Deactivating \<Rightarrow> (Ok (), srv)
           | Active \<Rightarrow>
               (case hm_get (tasks srv) (rt_task route) of
                  None \<Rightarrow> (Err ActorStopped, srv)
                | Some t \<Rightarrow>
                    (case mailbox_try_send T t (rt_task route) message srv of
                       (r, srv') \<Rightarrow> (try_send_error r, srv')))))"

section \<open>Sessions\<close>

definition close_local_session ::
  "(mailbox_message, 'c, 's) tokio \<Rightarrow> actor_address \<Rightarrow> session_id \<Rightarrow> ('a, 'w, 'c, 's) server_op" where
  "close_local_session T address sid srv =
     (case unregister_actor (sessions srv) address sid of
        (removed, registry) \<Rightarrow>
          let srv' = srv\<lparr>sessions := registry\<rparr>
          in if removed then snd (dispatch_message_if_active T address (SessionClosed sid) srv') else srv')"

text \<open>
  \<open>open_local_session\<close> until it awaits the oneshot \<open>complete\<close> (\<open>Awaiting\<close>), returns
  (\<open>OpenDone\<close>), or unwinds.
\<close>

datatype open_progress =
    OpenDone "send_error + (send_error + unit)"
  | Awaiting
  | OpenPanicked

definition open_local_session_begin ::
  "(mailbox_message, 'c, 's) tokio \<Rightarrow> instant \<Rightarrow> actor_address \<Rightarrow> session_id \<Rightarrow> event_sink \<Rightarrow> oneshot_id
     \<Rightarrow> bool \<Rightarrow> ('a, 'w, 'c, 's) server \<Rightarrow> open_progress \<times> ('a, 'w, 'c, 's) server" where
  "open_local_session_begin T now address sid snk complete reservation srv =
     (if hm_get (registrations srv) (actor_type address) = None
      then (OpenDone (Ok (Err (ActorTypeNotRegistered (actor_type address)))),
            drop_reservation T reservation srv)
      else case register_actor (sessions srv) address sid snk of
             (False, registry) \<Rightarrow>
               (OpenDone (Ok (Err ActorStopped)), drop_reservation T reservation (srv\<lparr>sessions := registry\<rparr>))
           | (True, registry) \<Rightarrow>
               (case dispatch_message T now address (SessionOpened sid complete) reservation
                       (srv\<lparr>sessions := registry\<rparr>) of
                  (Some (Ok _), srv') \<Rightarrow> (Awaiting, srv')
                | (Some (Err error), srv') \<Rightarrow>
                    (OpenDone (Err error),
                     srv'\<lparr>sessions := snd (unregister_actor (sessions srv') address sid)\<rparr>)
                | (None, srv') \<Rightarrow> (OpenPanicked, srv')))"

text \<open>\<open>receive.await\<close> gives the answer sent on the oneshot, or \<open>None\<close> if its sender was dropped.\<close>

definition open_local_session_finish ::
  "actor_address \<Rightarrow> session_id \<Rightarrow> (send_error + unit) option \<Rightarrow> ('a, 'w, 'c, 's) server
     \<Rightarrow> (send_error + (send_error + unit)) \<times> ('a, 'w, 'c, 's) server" where
  "open_local_session_finish address sid received srv =
     (let srv' = srv\<lparr>sessions := snd (unregister_actor (sessions srv) address sid)\<rparr>
      in case received of
           None \<Rightarrow> (Err ActorStopped, srv')
         | Some (Err error) \<Rightarrow> (Ok (Err error), srv')
         | Some (Ok _) \<Rightarrow> (Ok (Ok ()), srv))"

definition dispatch_remote_message ::
  "(mailbox_message, 'c, 's) tokio \<Rightarrow> instant \<Rightarrow> actor_address \<Rightarrow> session_id \<Rightarrow> bytes option
     \<Rightarrow> ('a, 'w, 'c, 's) server \<Rightarrow> (send_error + unit) option \<times> ('a, 'w, 'c, 's) server" where
  "dispatch_remote_message T now address sid payload srv =
     (case payload of
        Some p \<Rightarrow>
          if sink (sessions srv) address sid = None then (Some (Err ActorStopped), srv)
          else dispatch_message T now address (Action sid p) False srv
      | None \<Rightarrow> (Some (Ok ()), close_local_session T address sid srv))"

definition close_sessions_for_sender ::
  "(mailbox_message, 'c, 's) tokio \<Rightarrow> sender_id \<Rightarrow> ('a, 'w, 'c, 's) server_op" where
  "close_sessions_for_sender T sender srv =
     fold (\<lambda>(address, sid). close_local_session T address sid)
       (by_sender_snapshot (sessions srv) sender) srv"

fun broadcast_to :: "'w transport \<Rightarrow> registry \<Rightarrow> actor_address \<Rightarrow> bytes \<Rightarrow> session_id list \<Rightarrow> 'w \<Rightarrow> 'w" where
  "broadcast_to tx registry address payload [] w = w"
| "broadcast_to tx registry address payload (sid # sids) w =
     broadcast_to tx registry address payload sids (snd (deliver_event tx registry address sid payload w))"

definition broadcast_event ::
  "'w transport \<Rightarrow> actor_address \<Rightarrow> bytes \<Rightarrow> ('a, 'w, 'c, 's) server \<Rightarrow> 'w \<Rightarrow> 'w" where
  "broadcast_event tx address payload srv w =
     broadcast_to tx (sessions srv) address payload (by_actor_snapshot (sessions srv) address) w"

section \<open>Inbound tasks\<close>

text \<open>\<open>finished\<close> is \<open>AbortHandle::is_finished\<close>.\<close>

definition register_inbound_task :: "(task_id \<Rightarrow> bool) \<Rightarrow> task_id \<Rightarrow> ('a, 'w, 'c, 's) server_op" where
  "register_inbound_task finished handle srv =
     srv\<lparr>inbound_tasks := filter (\<lambda>t. \<not> finished t) (inbound_tasks srv) @ [handle]\<rparr>"

definition retain_inbound_tasks :: "(task_id \<Rightarrow> bool) \<Rightarrow> ('a, 'w, 'c, 's) server_op" where
  "retain_inbound_tasks finished srv =
     srv\<lparr>inbound_tasks := filter (\<lambda>t. \<not> finished t) (inbound_tasks srv)\<rparr>"

text \<open>The handles aborted, and the Server without them.\<close>

definition abort_inbound_tasks ::
  "('a, 'w, 'c, 's) server \<Rightarrow> task_id list \<times> ('a, 'w, 'c, 's) server" where
  "abort_inbound_tasks srv = (inbound_tasks srv, srv\<lparr>inbound_tasks := []\<rparr>)"

section \<open>Inbound envelopes\<close>

definition send_session_error ::
  "'w transport \<Rightarrow> sender_id option \<Rightarrow> bytes \<Rightarrow> send_error \<Rightarrow> 'w \<Rightarrow> 'w" where
  "send_session_error tx reply sid error w =
     (case reply of
        None \<Rightarrow> w
      | Some sender \<Rightarrow> snd (tx sender (reply_envelope sid (Kind_SessionError (to_wire error))) w))"

definition send_opened_ack ::
  "'w transport \<Rightarrow> sender_id option \<Rightarrow> bytes \<Rightarrow> send_error + (send_error + unit) \<Rightarrow> 'w \<Rightarrow> 'w" where
  "send_opened_ack tx reply sid result w =
     (case reply of
        None \<Rightarrow> w
      | Some sender \<Rightarrow>
          let outcome = (case result of
                 Ok (Ok _) \<Rightarrow> AckOk []
               | Ok (Err error) \<Rightarrow> AckFailure (to_wire error)
               | Err error \<Rightarrow> AckFailure (to_wire error))
          in snd (tx sender (reply_envelope sid (Kind_SessionOpenedAck (Some outcome))) w))"

text \<open>
  \<open>dispatch_inbound\<close> for one envelope.  A \<open>SessionOpen\<close> that has to wait for the Actor
  ends in \<open>InboundAwaiting\<close>; \<open>inbound_opened\<close> continues when the oneshot resolves.
\<close>

datatype inbound_progress =
    InboundDone
  | InboundAwaiting actor_address session_id oneshot_id
  | InboundPanicked

definition inbound_opening ::
  "'w transport \<Rightarrow> sender_id option \<Rightarrow> bytes \<Rightarrow> actor_address \<Rightarrow> session_id \<Rightarrow> oneshot_id
     \<Rightarrow> open_progress \<times> ('a, 'w, 'c, 's) server \<Rightarrow> 'w
     \<Rightarrow> inbound_progress \<times> ('a, 'w, 'c, 's) server \<times> 'w" where
  "inbound_opening tx reply raw address sid complete = (\<lambda>(progress, srv) w.
     case progress of
       OpenDone result \<Rightarrow> (InboundDone, srv, send_opened_ack tx reply raw result w)
     | Awaiting \<Rightarrow> (InboundAwaiting address sid complete, srv, w)
     | OpenPanicked \<Rightarrow> (InboundPanicked, srv, w))"

definition inbound_session_open ::
  "(mailbox_message, 'c, 's) tokio \<Rightarrow> 'w coordination_store \<Rightarrow> 'w transport \<Rightarrow> instant
     \<Rightarrow> bool \<Rightarrow> sender_id option \<Rightarrow> bytes \<Rightarrow> actor_address \<Rightarrow> session_id \<Rightarrow> oneshot_id
     \<Rightarrow> ('a, 'w, 'c, 's) server \<Rightarrow> 'w \<Rightarrow> inbound_progress \<times> ('a, 'w, 'c, 's) server \<times> 'w" where
  "inbound_session_open T S tx now version_ok reply raw address sid complete srv w =
     (let fail = (\<lambda>error srv w.
            (InboundDone, srv, send_opened_ack tx reply raw (Ok (Err error)) w))
      in if \<not> version_ok then fail (RemoteProtocol VersionMismatch) srv w
         else case reply of
                None \<Rightarrow> fail RemoteUnavailable srv w
              | Some sender \<Rightarrow>
                  (case cluster srv of
                     None \<Rightarrow>
                       inbound_opening tx reply raw address sid complete
                         (open_local_session_begin T now address sid (Remote sender) complete False srv) w
                   | Some r \<Rightarrow>
                       (case resolve T S r address (capacity srv) w of
                          (Ok (Local reservation), cap, w') \<Rightarrow>
                            inbound_opening tx reply raw address sid complete
                              (open_local_session_begin T now address sid (Remote sender) complete
                                 reservation (srv\<lparr>capacity := cap\<rparr>)) w'
                        | (Ok Remote_owner, cap, w') \<Rightarrow> fail NotOwner (srv\<lparr>capacity := cap\<rparr>) w'
                        | (Err error, cap, w') \<Rightarrow> fail error (srv\<lparr>capacity := cap\<rparr>) w')))"

definition inbound_opened ::
  "'w transport \<Rightarrow> sender_id option \<Rightarrow> actor_address \<Rightarrow> session_id \<Rightarrow> (send_error + unit) option
     \<Rightarrow> ('a, 'w, 'c, 's) server \<Rightarrow> 'w \<Rightarrow> ('a, 'w, 'c, 's) server \<times> 'w" where
  "inbound_opened tx reply address sid received srv w =
     (case open_local_session_finish address sid received srv of
        (result, srv') \<Rightarrow> (srv', send_opened_ack tx reply (SessionId_as_bytes sid) result w))"

definition bound_reply :: "('a, 'w, 'c, 's) server \<Rightarrow> actor_address \<Rightarrow> session_id \<Rightarrow> sender_id option \<Rightarrow> bool" where
  "bound_reply srv address sid reply \<longleftrightarrow> is_some_and (is_bound_to (sessions srv) address sid) reply"

definition dispatch_inbound ::
  "(mailbox_message, 'c, 's) tokio \<Rightarrow> 'w coordination_store \<Rightarrow> 'w transport \<Rightarrow> instant
     \<Rightarrow> oneshot_id \<Rightarrow> envelope \<Rightarrow> sender_id option
     \<Rightarrow> ('a, 'w, 'c, 's) server \<Rightarrow> 'w \<Rightarrow> inbound_progress \<times> ('a, 'w, 'c, 's) server \<times> 'w" where
  "dispatch_inbound T S tx now complete envelope reply srv w =
     (case (env_kind envelope, SessionId_from_bytes (env_session_id envelope),
            actor_address_from_envelope (env_actor_type envelope) (env_actor_id envelope)) of
        (Some kind, Some sid, Some address) \<Rightarrow>
          let version_ok = (protocol_version envelope = transport_protocol_version srv);
              raw = env_session_id envelope
          in (case kind of
                Kind_Action payload \<Rightarrow>
                  if \<not> version_ok then (InboundDone, srv, w)
                  else if \<not> bound_reply srv address sid reply
                  then (InboundDone, srv, send_session_error tx reply raw ActorStopped w)
                  else (case dispatch_remote_message T now address sid (Some payload) srv of
                          (Some (Ok _), srv') \<Rightarrow> (InboundDone, srv', w)
                        | (Some (Err error), srv') \<Rightarrow>
                            (InboundDone, srv', send_session_error tx reply raw error w)
                        | (None, srv') \<Rightarrow> (InboundPanicked, srv', w))
              | Kind_SessionOpen \<Rightarrow>
                  inbound_session_open T S tx now version_ok reply raw address sid complete srv w
              | Kind_SessionClose _ \<Rightarrow>
                  if bound_reply srv address sid reply
                  then (InboundDone, close_local_session T address sid srv, w)
                  else (InboundDone, srv, w)
              | _ \<Rightarrow> (InboundDone, srv, w))
      | _ \<Rightarrow> (InboundDone, srv, w))"

end
