(* ===== verification/Actor_Lifecycle.thy ===== *)
theory Actor_Lifecycle
  imports Runtime_Core
begin

text \<open>
  The Actor task (\<open>coactor/src/runtime/lifecycle.rs\<close>): activation, the serving loop with
  its three wake-ups (shutdown, message, idle), idle deactivation with release of the
  ownership record, drain on shutdown, and the drop guard.  \<open>activation\<close> and \<open>serve_once\<close>
  are one run of the task from one wait to the next; \<open>TaskContinues\<close> goes back to the wait
  and \<open>TaskEnded\<close> is a \<open>return\<close>, after which the guard has run.

  The loops over a closed mailbox are bounded by its capacity, which is an upper bound on
  the queued messages.
\<close>

datatype task_progress = TaskContinues | TaskEnded

type_synonym ('a, 'w, 'c, 's) task_state = "('a, 'w, 'c, 's) server \<times> 'w"

section \<open>Messages\<close>

definition set_actor :: "task_id \<Rightarrow> 'a \<Rightarrow> ('a, 'w, 'c, 's) server_op" where
  "set_actor tid actor = update_task tid (\<lambda>t. t\<lparr>task_actor := actor\<rparr>)"

definition execute_message ::
  "('a, 'w) registration \<Rightarrow> task_id \<Rightarrow> ('a, 'c) actor_task \<Rightarrow> mailbox_message
     \<Rightarrow> ('a, 'w, 'c, 's) task_state \<Rightarrow> bool \<times> ('a, 'w, 'c, 's) task_state" where
  "execute_message reg tid t message = (\<lambda>(srv, w).
     case message of
       Action sid payload \<Rightarrow>
         (case reg_handle reg (sessions srv) (task_address t) sid payload (task_actor t) w of
            (outcome, actor, w') \<Rightarrow> (outcome = Returned Completed, set_actor tid actor srv, w'))
     | SessionOpened sid complete \<Rightarrow>
         (case reg_session_opened reg (sessions srv) (task_address t) sid (task_actor t) w of
            (Returned _, actor, w') \<Rightarrow> (True, answer message (Ok ()) (set_actor tid actor srv), w')
          | (Unwound, actor, w') \<Rightarrow>
              (False, answer message (Err ActorStopped) (set_actor tid actor srv), w'))
     | SessionClosed sid \<Rightarrow>
         (case reg_session_closed reg (sessions srv) (task_address t) sid (task_actor t) w of
            (Returned _, actor, w') \<Rightarrow> (True, set_actor tid actor srv, w')
          | (Unwound, actor, w') \<Rightarrow> (False, set_actor tid actor srv, w')))"

text \<open>Taking the next queued message, if any.\<close>

definition receive ::
  "(mailbox_message, 'c, 's) tokio \<Rightarrow> task_id \<Rightarrow> ('a, 'w, 'c, 's) server
     \<Rightarrow> (mailbox_message \<times> ('a, 'c) actor_task) option \<times> ('a, 'w, 'c, 's) server" where
  "receive T tid srv =
     (case hm_get (tasks srv) tid of
        None \<Rightarrow> (None, srv)
      | Some t \<Rightarrow>
          (case tk_try_recv T (mailbox t) of
             (None, _) \<Rightarrow> (None, srv)
           | (Some message, c) \<Rightarrow>
               let t' = t\<lparr>mailbox := c\<rparr>
               in (Some (message, t'), srv\<lparr>tasks := hm_insert tid t' (tasks srv)\<rparr>)))"

fun fail_pending ::
  "nat \<Rightarrow> (mailbox_message, 'c, 's) tokio \<Rightarrow> task_id \<Rightarrow> send_error \<Rightarrow> ('a, 'w, 'c, 's) server_op" where
  "fail_pending 0 T tid error srv = srv"
| "fail_pending (Suc n) T tid error srv =
     (case receive T tid srv of
        (None, srv') \<Rightarrow> srv'
      | (Some (message, _), srv') \<Rightarrow> fail_pending n T tid error (answer message (Err error) srv'))"

section \<open>Ends of the task\<close>

definition terminate_sessions ::
  "'w transport \<Rightarrow> actor_address \<Rightarrow> send_error \<Rightarrow> ('a, 'w, 'c, 's) task_state \<Rightarrow> ('a, 'w, 'c, 's) task_state" where
  "terminate_sessions tx address error = (\<lambda>(srv, w).
     case terminate_all tx address error (sessions srv, w) of
       (registry, w') \<Rightarrow> (srv\<lparr>sessions := registry\<rparr>, w'))"

text \<open>\<open>ActorTaskGuard::drop\<close>, then the receiver goes and takes what is still queued with it.\<close>

definition task_guard_drop ::
  "(mailbox_message, 'c, 's) tokio \<Rightarrow> task_id \<Rightarrow> ('a, 'c) actor_task \<Rightarrow> ('a, 'w, 'c, 's) server_op" where
  "task_guard_drop T tid t srv =
     update_task tid (\<lambda>t. t\<lparr>mailbox := tk_close T (mailbox t)\<rparr>)
       (update_task tid (\<lambda>t. t\<lparr>task_completed := True\<rparr>)
         (remove_route T (task_address t) (task_generation t) srv))"

definition close_mailbox :: "(mailbox_message, 'c, 's) tokio \<Rightarrow> task_id \<Rightarrow> ('a, 'w, 'c, 's) server_op" where
  "close_mailbox T tid = update_task tid (\<lambda>t. t\<lparr>mailbox := tk_close T (mailbox t)\<rparr>)"

definition activation_failed ::
  "(mailbox_message, 'c, 's) tokio \<Rightarrow> 'w transport \<Rightarrow> task_id \<Rightarrow> ('a, 'c) actor_task \<Rightarrow> send_error
     \<Rightarrow> ('a, 'w, 'c, 's) task_state \<Rightarrow> ('a, 'w, 'c, 's) task_state" where
  "activation_failed T tx tid t error = (\<lambda>(srv, w).
     let srv1 = close_mailbox T tid srv;
         srv2 = remove_route T (task_address t) (task_generation t) srv1;
         srv3 = fail_pending (tk_max_capacity T (mailbox t)) T tid error srv2;
         (srv4, w') = terminate_sessions tx (task_address t) error (srv3, w)
     in (task_guard_drop T tid t srv4, w'))"

definition activation ::
  "(mailbox_message, 'c, 's) tokio \<Rightarrow> 'w transport \<Rightarrow> ('a, 'w) registration \<Rightarrow> task_id \<Rightarrow> ('a, 'c) actor_task
     \<Rightarrow> ('a, 'w, 'c, 's) task_state \<Rightarrow> task_progress \<times> ('a, 'w, 'c, 's) task_state" where
  "activation T tx reg tid t = (\<lambda>(srv, w).
     case reg_activate reg (sessions srv) (task_address t) (task_actor t) w of
       (outcome, actor, w') \<Rightarrow>
         let srv' = set_actor tid actor srv
         in (case outcome of
               Returned (Ok _) \<Rightarrow> (TaskContinues, srv', w')
             | Returned (Err _) \<Rightarrow> (TaskEnded, activation_failed T tx tid t ActivationFailed (srv', w'))
             | Unwound \<Rightarrow> (TaskEnded, activation_failed T tx tid t ActorStopped (srv', w'))))"

section \<open>Serving\<close>

definition message_failed ::
  "(mailbox_message, 'c, 's) tokio \<Rightarrow> 'w transport \<Rightarrow> task_id \<Rightarrow> ('a, 'c) actor_task
     \<Rightarrow> ('a, 'w, 'c, 's) task_state \<Rightarrow> ('a, 'w, 'c, 's) task_state" where
  "message_failed T tx tid t st =
     (case terminate_sessions tx (task_address t) ActorStopped st of
        (srv, w) \<Rightarrow> (task_guard_drop T tid t srv, w))"

fun drain ::
  "nat \<Rightarrow> (mailbox_message, 'c, 's) tokio \<Rightarrow> ('a, 'w) registration \<Rightarrow> task_id
     \<Rightarrow> ('a, 'w, 'c, 's) task_state \<Rightarrow> bool \<times> ('a, 'w, 'c, 's) task_state" where
  "drain 0 T reg tid st = (True, st)"
| "drain (Suc n) T reg tid (srv, w) =
     (case receive T tid srv of
        (None, srv') \<Rightarrow> (True, srv', w)
      | (Some (message, t), srv') \<Rightarrow>
          (case execute_message reg tid t message (srv', w) of
             (True, st) \<Rightarrow> drain n T reg tid st
           | (False, st) \<Rightarrow> (False, st)))"

text \<open>The Actor's \<open>on_deactivate\<close>; its outcome is only logged.\<close>

definition run_deactivate ::
  "('a, 'w) registration \<Rightarrow> deactivation_reason \<Rightarrow> task_id \<Rightarrow> actor_address
     \<Rightarrow> ('a, 'w, 'c, 's) task_state \<Rightarrow> ('a, 'w, 'c, 's) task_state" where
  "run_deactivate reg reason tid address = (\<lambda>(srv, w).
     case hm_get (tasks srv) tid of
       None \<Rightarrow> (srv, w)
     | Some t \<Rightarrow>
         (case reg_deactivate reg (sessions srv) address reason (task_actor t) w of
            (_, actor, w') \<Rightarrow> (set_actor tid actor srv, w')))"

definition shutdown_drain ::
  "(mailbox_message, 'c, 's) tokio \<Rightarrow> 'w transport \<Rightarrow> ('a, 'w) registration \<Rightarrow> task_id \<Rightarrow> ('a, 'c) actor_task
     \<Rightarrow> ('a, 'w, 'c, 's) task_state \<Rightarrow> ('a, 'w, 'c, 's) task_state" where
  "shutdown_drain T tx reg tid t = (\<lambda>(srv, w).
     case drain (tk_max_capacity T (mailbox t)) T reg tid (close_mailbox T tid srv, w) of
       (False, st) \<Rightarrow> message_failed T tx tid t st
     | (True, st) \<Rightarrow>
         (case run_deactivate reg Shutdown tid (task_address t)
                 (terminate_sessions tx (task_address t) RuntimeShuttingDown st) of
            (srv', w') \<Rightarrow>
              (task_guard_drop T tid t (remove_route T (task_address t) (task_generation t) srv'), w')))"

text \<open>The idle timeout elapsed with nothing received.\<close>

definition idle_elapsed ::
  "(mailbox_message, 'c, 's) tokio \<Rightarrow> 'w coordination_store \<Rightarrow> ('a, 'w) registration \<Rightarrow> task_id
     \<Rightarrow> ('a, 'c) actor_task \<Rightarrow> ('a, 'w, 'c, 's) task_state \<Rightarrow> task_progress \<times> ('a, 'w, 'c, 's) task_state" where
  "idle_elapsed T S reg tid t = (\<lambda>(srv, w).
     if has_live_sessions (sessions srv) (task_address t) then (TaskContinues, srv, w)
     else case begin_deactivation T (task_address t) (task_generation t) (mailbox t) srv of
            (False, srv') \<Rightarrow> (TaskContinues, srv', w)
          | (True, srv') \<Rightarrow>
              (case run_deactivate reg Idle tid (task_address t) (srv', w) of
                 (srv'', w'') \<Rightarrow>
                   let w3 = (case cluster srv'' of
                               None \<Rightarrow> w''
                             | Some r \<Rightarrow> snd (release_local_owner S r (task_address t) w''))
                   in (TaskEnded,
                       task_guard_drop T tid t
                         (remove_route T (task_address t) (task_generation t) srv''), w3)))"

text \<open>
  One wake-up of the serving loop.  The shutdown watch comes first; once its sender is gone,
  which is when the Route has been dropped, \<open>changed()\<close> fails at once and the loop starts
  over.  Otherwise a queued message is executed; a closed and empty mailbox ends the task; and
  with nothing to receive the wake-up is the idle timeout.
\<close>

definition route_names_task :: "('a, 'w, 'c, 's) server \<Rightarrow> task_id \<Rightarrow> ('a, 'c) actor_task \<Rightarrow> bool" where
  "route_names_task srv tid t \<longleftrightarrow>
     is_some_and (\<lambda>route. rt_task route = tid) (hm_get (actors srv) (task_address t))"

definition serve_once ::
  "(mailbox_message, 'c, 's) tokio \<Rightarrow> 'w coordination_store \<Rightarrow> 'w transport \<Rightarrow> ('a, 'w) registration
     \<Rightarrow> task_id \<Rightarrow> ('a, 'c) actor_task \<Rightarrow> ('a, 'w, 'c, 's) task_state
     \<Rightarrow> task_progress \<times> ('a, 'w, 'c, 's) task_state" where
  "serve_once T S tx reg tid t = (\<lambda>(srv, w).
     if shutdown_changed t
     then (let srv' = update_task tid (\<lambda>t. t\<lparr>shutdown_changed := False\<rparr>) srv
           in if shutdown_flag t then (TaskEnded, shutdown_drain T tx reg tid t (srv', w))
              else (TaskContinues, srv', w))
     else if \<not> route_names_task srv tid t then (TaskContinues, srv, w)
     else (case receive T tid srv of
             (Some (message, t'), srv') \<Rightarrow>
               (case execute_message reg tid t' message (srv', w) of
                  (True, st) \<Rightarrow> (TaskContinues, st)
                | (False, st) \<Rightarrow> (TaskEnded, message_failed T tx tid t st))
           | (None, srv') \<Rightarrow>
               if tk_is_closed T (mailbox t)
               then (TaskEnded,
                     task_guard_drop T tid t
                       (remove_route T (task_address t) (task_generation t) srv'), w)
               else idle_elapsed T S reg tid t (srv', w)))"

end
