(* ===== verification/Server_Builder.thy ===== *)
theory Server_Builder
  imports Actor_Routes
begin

text \<open>
  \<open>ServerBuilderCore\<close> (\<open>coactor/src/runtime.rs\<close>): the defaults, the validation and the
  construction of a Server.  The App State is carried by the Actors' own state here; its
  absence is the panic \<open>State is supplied before build\<close>.
\<close>

datatype server_error =
    InvalidListenAddress
  | MissingAdvertisedEndpoint
  | InvalidActorType_server string
  | DuplicateActorType string
  | InvalidMailboxCapacity
  | InvalidMaxActiveActors
  | InvalidNodeId
  | InvalidAdvertisedEndpoint
  | InvalidNodeLeaseTtl
  | InvalidCoordinationTimeout
  | InvalidDeactivationTimeout
  | InvalidShutdownTimeout
  | BindFailed_server
  | LeaseConflict
  | LeaseUnconfirmed
  | Coordination_failed coordination_error
  | ServiceStopped
  | Fenced
  | ShutdownTimedOut

record actor_config =
  ac_name :: string
  ac_mailbox_capacity :: "usize option"
  ac_idle_timeout :: "duration option"

record ('a, 'w) builder_core =
  bc_registrations :: "('a, 'w) registration list"
  bc_mailbox_capacity :: usize
  bc_max_active_actors :: usize
  bc_idle_timeout :: duration
  bc_deactivation_timeout :: duration
  bc_shutdown_timeout :: duration
  bc_transport_protocol_version :: u32

definition ServerBuilderCore_base :: "('a, 'w) builder_core" where
  "ServerBuilderCore_base =
     \<lparr>bc_registrations = [], bc_mailbox_capacity = 32, bc_max_active_actors = 10000,
      bc_idle_timeout = from_secs 60, bc_deactivation_timeout = from_secs 5,
      bc_shutdown_timeout = from_secs 30, bc_transport_protocol_version = TRANSPORT_PROTOCOL_VERSION\<rparr>"

text \<open>\<open>Registration::of::<A>(name)\<close> is the record \<open>A\<close> of the Actor Type's callbacks under that name.\<close>

definition Registration_of :: "('a, 'w) registration \<Rightarrow> string \<Rightarrow> ('a, 'w) registration" where
  "Registration_of A name = A\<lparr>reg_name := name, mailbox_capacity := None, idle_timeout := None\<rparr>"

definition add_actor ::
  "('a, 'w) registration \<Rightarrow> actor_config \<Rightarrow> ('a, 'w) builder_core \<Rightarrow> ('a, 'w) builder_core" where
  "add_actor A config b =
     (let registration = (Registration_of A (ac_name config))
            \<lparr>mailbox_capacity := ac_mailbox_capacity config, idle_timeout := ac_idle_timeout config\<rparr>
      in b\<lparr>bc_registrations := bc_registrations b @ [registration]\<rparr>)"

fun validate_registrations :: "string list \<Rightarrow> ('a, 'w) registration list \<Rightarrow> server_error + unit" where
  "validate_registrations names [] = Ok ()"
| "validate_registrations names (registration # rest) =
     (if \<not> is_dns_label (reg_name registration)
      then Err (InvalidActorType_server (reg_name registration))
      else if mailbox_capacity registration = Some 0 then Err InvalidMailboxCapacity
      else if reg_name registration \<in> set names then Err (DuplicateActorType (reg_name registration))
      else validate_registrations (reg_name registration # names) rest)"

definition builder_validate :: "('a, 'w) builder_core \<Rightarrow> server_error + unit" where
  "builder_validate b =
     (if bc_mailbox_capacity b = 0 then Err InvalidMailboxCapacity
      else if bc_max_active_actors b = 0 then Err InvalidMaxActiveActors
      else if bc_deactivation_timeout b = 0 then Err InvalidDeactivationTimeout
      else if bc_shutdown_timeout b = 0 then Err InvalidShutdownTimeout
      else validate_registrations [] (bc_registrations b))"

definition configured :: "('a, 'w) builder_core \<Rightarrow> ('a, 'w) registration \<Rightarrow> ('a, 'w) registration" where
  "configured b registration =
     registration
       \<lparr>mailbox_capacity :=
          (case mailbox_capacity registration of None \<Rightarrow> Some (bc_mailbox_capacity b) | Some c \<Rightarrow> Some c),
        idle_timeout :=
          (case idle_timeout registration of None \<Rightarrow> Some (bc_idle_timeout b) | Some d \<Rightarrow> Some d)\<rparr>"

definition initial_server ::
  "(mailbox_message, 'c, 's) tokio \<Rightarrow> ('a, 'w) builder_core \<Rightarrow> node_authority option \<Rightarrow> router option
     \<Rightarrow> ('a, 'w, 'c, 's) server" where
  "initial_server T b au cl =
     \<lparr>registrations =
        fold (\<lambda>r m. hm_insert (reg_name r) (configured b r) m) (bc_registrations b) hm_empty,
      actors = hm_empty, sessions = SessionRegistry_new,
      capacity = tk_semaphore T (unat (bc_max_active_actors b)),
      max_active_actors = bc_max_active_actors b,
      deactivation_timeout = bc_deactivation_timeout b,
      next_generation = 1, status = RUNNING, shutdown_timeout = bc_shutdown_timeout b,
      transport_protocol_version = bc_transport_protocol_version b,
      authority = au, cluster = cl, inbound_tasks = [],
      tasks = hm_empty, next_task = 0, answers = []\<rparr>"

text \<open>\<open>None\<close> is the panic of \<open>Semaphore::new\<close>: \<open>validate\<close> has no upper bound for \<open>max_active_actors\<close>.\<close>

definition build_with_authority ::
  "(mailbox_message, 'c, 's) tokio \<Rightarrow> ('a, 'w) builder_core \<Rightarrow> node_authority option \<Rightarrow> router option
     \<Rightarrow> (server_error + ('a, 'w, 'c, 's) server) option" where
  "build_with_authority T b au cl =
     (case builder_validate b of
        Err error \<Rightarrow> Some (Err error)
      | Ok _ \<Rightarrow>
          if MAX_PERMITS < unat (bc_max_active_actors b) then None
          else Some (Ok (initial_server T b au cl)))"

lemma initial_server_simps [simp]:
  "registrations (initial_server T b au cl) =
     fold (\<lambda>r m. hm_insert (reg_name r) (configured b r) m) (bc_registrations b) hm_empty"
  "actors (initial_server T b au cl) = hm_empty"
  "sessions (initial_server T b au cl) = SessionRegistry_new"
  "capacity (initial_server T b au cl) = tk_semaphore T (unat (bc_max_active_actors b))"
  "max_active_actors (initial_server T b au cl) = bc_max_active_actors b"
  "next_generation (initial_server T b au cl) = 1"
  "status (initial_server T b au cl) = RUNNING"
  "authority (initial_server T b au cl) = au"
  "cluster (initial_server T b au cl) = cl"
  "tasks (initial_server T b au cl) = hm_empty"
  "next_task (initial_server T b au cl) = 0"
  by (simp_all add: initial_server_def)

section \<open>What a built Server guarantees\<close>

text \<open>Every registered type is configured: a non-zero mailbox and an idle timeout.\<close>

definition config_ok :: "('a, 'w, 'c, 's) server \<Rightarrow> bool" where
  "config_ok srv \<longleftrightarrow>
     (\<forall>ty reg. hm_get (registrations srv) ty = Some reg \<longrightarrow>
        is_dns_label ty \<and> reg_name reg = ty \<and> idle_timeout reg \<noteq> None
        \<and> (\<exists>c. mailbox_capacity reg = Some c \<and> c \<noteq> 0))"

lemma validate_registrations_Ok_iff:
  "validate_registrations names rs = Ok () \<longleftrightarrow>
   distinct (map reg_name rs) \<and> set names \<inter> set (map reg_name rs) = {}
   \<and> (\<forall>r \<in> set rs. is_dns_label (reg_name r) \<and> mailbox_capacity r \<noteq> Some 0)"
  by (induction names rs rule: validate_registrations.induct) auto

lemma fold_registrations_get:
  "distinct (map reg_name rs) \<Longrightarrow>
   hm_get (fold (\<lambda>r m. hm_insert (reg_name r) (f r) m) rs m) ty =
     (case find (\<lambda>r. reg_name r = ty) rs of Some r \<Rightarrow> Some (f r) | None \<Rightarrow> hm_get m ty)"
proof (induction rs arbitrary: m)
  case Nil
  then show ?case by simp
next
  case (Cons r rs)
  have "find (\<lambda>x. reg_name x = reg_name r) rs = None"
    using Cons.prems by (force simp: find_None_iff image_iff)
  then show ?case using Cons by (auto split: option.split)
qed

definition builder_ok :: "('a, 'w) builder_core \<Rightarrow> bool" where
  "builder_ok b \<longleftrightarrow>
     bc_mailbox_capacity b \<noteq> 0 \<and> bc_max_active_actors b \<noteq> 0
     \<and> bc_deactivation_timeout b \<noteq> 0 \<and> bc_shutdown_timeout b \<noteq> 0
     \<and> distinct (map reg_name (bc_registrations b))
     \<and> (\<forall>r \<in> set (bc_registrations b). is_dns_label (reg_name r) \<and> mailbox_capacity r \<noteq> Some 0)"

lemma builder_validate_iff: "builder_validate b = Ok () \<longleftrightarrow> builder_ok b"
  by (simp add: builder_validate_def builder_ok_def validate_registrations_Ok_iff)

lemma build_Ok_iff:
  "build_with_authority T b au cl = Some (Ok srv) \<longleftrightarrow>
     builder_ok b \<and> unat (bc_max_active_actors b) \<le> MAX_PERMITS \<and> srv = initial_server T b au cl"
proof (cases "builder_validate b")
  case (Inl e)
  then show ?thesis using builder_validate_iff [of b] by (simp add: build_with_authority_def)
next
  case (Inr u)
  then show ?thesis using builder_validate_iff [of b] by (auto simp: build_with_authority_def)
qed

lemma build_registrations:
  assumes "build_with_authority T b au cl = Some (Ok srv)"
  shows "hm_get (registrations srv) ty =
     map_option (configured b) (find (\<lambda>r. reg_name r = ty) (bc_registrations b))"
proof -
  have "distinct (map reg_name (bc_registrations b))" and srv: "srv = initial_server T b au cl"
    using assms by (simp_all add: build_Ok_iff builder_ok_def)
  then show ?thesis
    by (simp add: fold_registrations_get split: option.splits)
qed

lemma configured_simps [simp]:
  "reg_name (configured b r) = reg_name r" "idle_timeout (configured b r) \<noteq> None"
  "mailbox_capacity (configured b r) =
     Some (case mailbox_capacity r of None \<Rightarrow> bc_mailbox_capacity b | Some c \<Rightarrow> c)"
  by (simp_all add: configured_def split: option.splits)

lemma build_config_ok:
  assumes "build_with_authority T b au cl = Some (Ok srv)"
  shows "config_ok srv"
proof -
  have ok: "builder_ok b" using assms by (simp add: build_Ok_iff)
  show ?thesis
    unfolding config_ok_def
  proof (intro allI impI)
    fix ty reg assume "hm_get (registrations srv) ty = Some reg"
    then obtain r where r: "find (\<lambda>r. reg_name r = ty) (bc_registrations b) = Some r" "reg = configured b r"
      using build_registrations [OF assms] by auto
    then have mem: "r \<in> set (bc_registrations b)" "reg_name r = ty"
      by (auto simp: find_Some_iff)
    then have "is_dns_label ty" "mailbox_capacity r \<noteq> Some 0" using ok by (auto simp: builder_ok_def)
    then show "is_dns_label ty \<and> reg_name reg = ty \<and> idle_timeout reg \<noteq> None
        \<and> (\<exists>c. mailbox_capacity reg = Some c \<and> c \<noteq> 0)"
      using r(2) mem(2) ok by (auto simp: builder_ok_def split: option.splits)
  qed
qed

lemma build_panics_iff:
  "build_with_authority T b au cl = None \<longleftrightarrow> builder_ok b \<and> MAX_PERMITS < unat (bc_max_active_actors b)"
proof (cases "builder_validate b")
  case (Inl e)
  then show ?thesis using builder_validate_iff [of b] by (simp add: build_with_authority_def)
next
  case (Inr u)
  then show ?thesis using builder_validate_iff [of b] by (auto simp: build_with_authority_def)
qed

section \<open>Properties\<close>

text \<open>
  \<open>build_with_authority\<close> fails exactly on an invalid configuration (a zero limit or
  timeout, an Actor Type that is no DNS label or is repeated, an explicit zero mailbox), panics exactly
  on a valid one with more Actors than a semaphore has permits, and otherwise the Server it
  gives hosts exactly the registered types, each with the mailbox and idle timeout of its
  registration or else the default.
\<close>

theorem build_valid:
  "case build_with_authority T b au cl of
     None \<Rightarrow> builder_ok b \<and> MAX_PERMITS < unat (bc_max_active_actors b)
   | Some (Err _) \<Rightarrow> \<not> builder_ok b
   | Some (Ok srv) \<Rightarrow> builder_ok b \<and> config_ok srv
       \<and> (\<forall>ty. hm_get (registrations srv) ty =
            map_option (configured b) (find (\<lambda>r. reg_name r = ty) (bc_registrations b)))"
proof (cases "build_with_authority T b au cl")
  case None
  then show ?thesis using build_panics_iff [of T b au cl] by simp
next
  case (Some r)
  show ?thesis
  proof (cases r)
    case (Inl e)
    then have "\<not> builder_ok b"
      using Some build_Ok_iff [of T b au cl "initial_server T b au cl"] build_panics_iff [of T b au cl]
      by (auto simp: not_less)
    then show ?thesis using Some Inl by simp
  next
    case (Inr srv)
    with Some have b: "build_with_authority T b au cl = Some (Ok srv)" by simp
    then have "builder_ok b" by (simp add: build_Ok_iff)
    then show ?thesis
      unfolding b sum.case option.case using build_config_ok [OF b] build_registrations [OF b] by blast
  qed
qed

end
