(* ===== verification/Runtime_Safety.thy ===== *)
theory Runtime_Safety
  imports Runtime_Core Server_Builder
begin

text \<open>
  Safety of a Server under every interleaving.  \<open>rt_step\<close> has one rule per critical
  section the runtime's tasks execute: taking and dropping reservations, the commit of a
  dispatch (with no admission check, which runs earlier and may be stale), delivery to an
  Active Actor, route removal, the start of an idle deactivation, a task's use of its own
  mailbox, clearing the routes, and the fields no rule here depends on.  The state pairs the
  Server with the number of reservations held outside it.
\<close>

section \<open>Steps\<close>

text \<open>Dropping all Routes, with their permits (\<open>actors.clear()\<close>).\<close>

definition clear_actors :: "('m, 'c, 's) tokio \<Rightarrow> ('a, 'w, 'c, 's) server_op" where
  "clear_actors T srv =
     srv\<lparr>actors := hm_empty, capacity := (tk_release T ^^ length (actors srv)) (capacity srv)\<rparr>"

text \<open>What a task does to its own entry: receive, close, and its watches and Actor state.\<close>

inductive task_change :: "(mailbox_message, 'c, 's) tokio \<Rightarrow> ('a, 'c) actor_task \<Rightarrow> ('a, 'c) actor_task \<Rightarrow> bool"
  for T where
  recv: "task_change T t (t\<lparr>mailbox := snd (tk_try_recv T (mailbox t))\<rparr>)"
| close: "task_change T t (t\<lparr>mailbox := tk_close T (mailbox t)\<rparr>)"
| flags: "task_address t' = task_address t \<Longrightarrow> task_generation t' = task_generation t \<Longrightarrow>
     mailbox t' = mailbox t \<Longrightarrow> task_change T t t'"

inductive rt_step ::
  "(mailbox_message, 'c, 's) tokio \<Rightarrow> nat \<times> ('a, 'w, 'c, 's) server \<Rightarrow> nat \<times> ('a, 'w, 'c, 's) server \<Rightarrow> bool"
  for T where
  reserve: "tk_try_acquire T (capacity srv) = Some cap \<Longrightarrow>
     rt_step T (held, srv) (Suc held, srv\<lparr>capacity := cap\<rparr>)"
| unreserve: "rt_step T (Suc held, srv) (held, srv\<lparr>capacity := tk_release T (capacity srv)\<rparr>)"
| commit: "dispatch_commit T address message reservation srv = (x, srv') \<Longrightarrow>
     held = held' + (if reservation then 1 else 0) \<Longrightarrow>
     rt_step T (held, srv) (held', srv')"
| deliver: "rt_step T (held, srv) (held, snd (dispatch_message_if_active T address message srv))"
| remove: "rt_step T (held, srv) (held, remove_route T address generation srv)"
| deactivate: "hm_get (tasks srv) tid = Some t \<Longrightarrow>
     rt_step T (held, srv)
       (held, snd (begin_deactivation T (task_address t) (task_generation t) (mailbox t) srv))"
| task: "hm_get (tasks srv) tid = Some t \<Longrightarrow> task_change T t t' \<Longrightarrow>
     rt_step T (held, srv) (held, srv\<lparr>tasks := hm_insert tid t' (tasks srv)\<rparr>)"
| clear: "rt_step T (held, srv) (held, clear_actors T srv)"
| other: "rt_step T (held, srv)
     (held, srv\<lparr>sessions := r, status := st, authority := au, inbound_tasks := it, answers := an\<rparr>)"

section \<open>Invariant\<close>

text \<open>The entry a Route names, and what the Routes promise about it.\<close>

definition route_ok :: "('c \<Rightarrow> mailbox_message list) \<Rightarrow> ('a, 'w, 'c, 's) server \<Rightarrow> actor_address \<Rightarrow> route \<Rightarrow> bool" where
  "route_ok queued srv a route \<longleftrightarrow>
     (\<exists>t. hm_get (tasks srv) (rt_task route) = Some t
        \<and> task_address t = a \<and> task_generation t = rt_generation route
        \<and> (rt_state route = Deactivating \<longrightarrow> queued (mailbox t) = []))"

definition routes_ok :: "('c \<Rightarrow> mailbox_message list) \<Rightarrow> ('a, 'w, 'c, 's) server \<Rightarrow> bool" where
  "routes_ok queued srv \<longleftrightarrow>
     hm_ok (actors srv) \<and> (\<forall>a route. hm_get (actors srv) a = Some route \<longrightarrow> route_ok queued srv a route)"

definition tasks_ok ::
  "(mailbox_message, 'c, 's) tokio \<Rightarrow> ('c \<Rightarrow> mailbox_message list) \<Rightarrow> ('a, 'w, 'c, 's) server \<Rightarrow> bool" where
  "tasks_ok T queued srv \<longleftrightarrow>
     next_generation srv = word_of_nat (Suc (next_task srv))
     \<and> (\<forall>tid t. hm_get (tasks srv) tid = Some t \<longrightarrow>
          tid < next_task srv \<and> task_generation t = word_of_nat (Suc tid)
          \<and> length (queued (mailbox t)) \<le> tk_max_capacity T (mailbox t)
          \<and> 0 < tk_max_capacity T (mailbox t))"

definition permits_ok :: "(mailbox_message, 'c, 's) tokio \<Rightarrow> nat \<Rightarrow> ('a, 'w, 'c, 's) server \<Rightarrow> bool" where
  "permits_ok T held srv \<longleftrightarrow>
     tk_available T (capacity srv) + length (actors srv) + held = unat (max_active_actors srv)"

definition server_inv ::
  "(mailbox_message, 'c, 's) tokio \<Rightarrow> ('c \<Rightarrow> mailbox_message list) \<Rightarrow> nat \<times> ('a, 'w, 'c, 's) server \<Rightarrow> bool" where
  "server_inv T queued = (\<lambda>(held, srv).
     routes_ok queued srv \<and> tasks_ok T queued srv \<and> permits_ok T held srv)"

lemmas server_inv_defs = server_inv_def routes_ok_def tasks_ok_def permits_ok_def route_ok_def

section \<open>Generations\<close>

text \<open>Below \<open>2 ^ 64\<close> activations the wrapping generation counter identifies a task.\<close>

lemma generation_inj:
  assumes "i < 2 ^ 64" and "j < 2 ^ 64" and "(word_of_nat (Suc i) :: u64) = word_of_nat (Suc j)"
  shows "i = j"
proof -
  have "(word_of_nat i :: u64) = word_of_nat j" using assms(3) by simp
  then have "unat (word_of_nat i :: u64) = unat (word_of_nat j :: u64)" by simp
  then show ?thesis using assms(1,2) by (simp add: unat_of_nat take_bit_nat_eq_self)
qed

lemma route_of_task:
  assumes "server_inv T queued (held, srv)" and "next_task srv \<le> 2 ^ 64"
    and "hm_get (tasks srv) tid = Some t" and "hm_get (actors srv) (task_address t) = Some route"
    and "rt_generation route = task_generation t"
  shows "rt_task route = tid"
proof -
  obtain t' where t': "hm_get (tasks srv) (rt_task route) = Some t'"
      "task_generation t' = rt_generation route"
    using assms(1,4) by (auto simp: server_inv_def routes_ok_def route_ok_def)
  then have "rt_task route < next_task srv" "tid < next_task srv"
    "(word_of_nat (Suc (rt_task route)) :: u64) = word_of_nat (Suc tid)"
    using assms(1,3,5) by (auto simp: server_inv_def tasks_ok_def)
  then show ?thesis using assms(2) generation_inj [of "rt_task route" tid] by linarith
qed

lemma length_hm_remove: "hm_ok m \<Longrightarrow> hm_get m k = Some v \<Longrightarrow> Suc (length (hm_remove k m)) = length m"
  using hm.length_keys_remove_present by fastforce

lemma length_hm_insert_new: "hm_ok m \<Longrightarrow> hm_get m k = None \<Longrightarrow> length (hm_insert k v m) = Suc (length m)"
  using hm.length_keys_insert_new by fastforce

lemma length_hm_insert_present:
  assumes "hm_ok m" and "hm_get m k = Some u"
  shows "length (hm_insert k v m) = length m"
proof -
  have "set (hm_keys (hm_insert k v m)) = set (hm_keys m)"
    using assms(2) by (auto simp: hm.set_keys_insert hm.keys_dom)
  then show ?thesis
    using assms(1) hm.invar_insert [of m k v] by (metis distinct_card hm.keys_distinct length_hm_keys)
qed

section \<open>Preservation\<close>

lemma inv_route_ok: "server_inv T queued (held, srv) \<Longrightarrow> hm_get (actors srv) a = Some route \<Longrightarrow> route_ok queued srv a route"
  by (simp add: server_inv_def routes_ok_def)

lemma inv_route_task:
  assumes "server_inv T queued (held, srv)" and "hm_get (actors srv) a = Some route"
    and "hm_get (tasks srv) (rt_task route) = Some t"
  shows "task_address t = a" and "task_generation t = rt_generation route"
    and "rt_state route = Deactivating \<Longrightarrow> queued (mailbox t) = []"
  using inv_route_ok [OF assms(1,2)] assms(3) by (auto simp: route_ok_def)

lemma update_task_entry_inv:
  assumes inv: "server_inv T queued (held, srv)" and t: "hm_get (tasks srv) tid = Some t"
    and "task_address t' = task_address t" "task_generation t' = task_generation t"
    and "length (queued (mailbox t')) \<le> tk_max_capacity T (mailbox t')"
    and "0 < tk_max_capacity T (mailbox t')"
    and quiet: "\<And>a route. hm_get (actors srv) a = Some route \<Longrightarrow> rt_task route = tid \<Longrightarrow>
           rt_state route = Deactivating \<Longrightarrow> queued (mailbox t') = []"
  shows "server_inv T queued (held, srv\<lparr>tasks := hm_insert tid t' (tasks srv)\<rparr>)"
proof -
  have "route_ok queued (srv\<lparr>tasks := hm_insert tid t' (tasks srv)\<rparr>) a route"
    if r: "hm_get (actors srv) a = Some route" for a route
  proof (cases "rt_task route = tid")
    case True
    then show ?thesis
      using inv_route_task [OF inv r] t assms(3,4) quiet [OF r True]
      by (auto simp: route_ok_def)
  next
    case False
    then show ?thesis using inv_route_ok [OF inv r] by (auto simp: route_ok_def)
  qed
  moreover have "tasks_ok T queued (srv\<lparr>tasks := hm_insert tid t' (tasks srv)\<rparr>)"
    using inv t assms(4-6) by (auto simp: server_inv_def tasks_ok_def)
  ultimately show ?thesis
    using inv by (auto simp: server_inv_def routes_ok_def permits_ok_def)
qed

lemma other_fields_inv:
  "server_inv T queued (held, srv) \<Longrightarrow>
   server_inv T queued (held, srv\<lparr>sessions := r, status := st, authority := au, inbound_tasks := it, answers := an\<rparr>)"
  by (simp add: server_inv_defs)

locale mailbox_tokio = tokio_contract T queued closed
  for T :: "(mailbox_message, 'c, 's) tokio"
    and queued :: "'c \<Rightarrow> mailbox_message list" and closed :: "'c \<Rightarrow> bool"
begin

lemma drop_route_inv: "server_inv T queued (held, srv) \<Longrightarrow> server_inv T queued (held, drop_route T a srv)"
  by (auto simp: server_inv_defs drop_route_def release_available length_hm_remove
      dest: length_hm_remove split: option.splits)

lemma remove_route_inv: "server_inv T queued (held, srv) \<Longrightarrow> server_inv T queued (held, remove_route T a g srv)"
  by (simp add: remove_route_def drop_route_inv)

lemma clear_actors_inv: "server_inv T queued (held, srv) \<Longrightarrow> server_inv T queued (held, clear_actors T srv)"
  by (simp add: server_inv_defs clear_actors_def funpow_release hm_empty_def [symmetric])
    (simp add: hm_empty_def)

lemma drop_reservation_inv:
  assumes "server_inv T queued (held + (if reservation then 1 else 0), srv)"
  shows "server_inv T queued (held, drop_reservation T reservation srv)"
  using assms
  by (cases reservation) (simp_all add: server_inv_defs drop_reservation_def release_available)

lemma answer_inv: "server_inv T queued (held, srv) \<Longrightarrow> server_inv T queued (held, answer m x srv)"
  by (simp add: server_inv_defs answer_def split: mailbox_message.splits)

lemma mailbox_try_send_inv:
  assumes "mailbox_try_send T t (rt_task route) m srv = (x, srv')"
    and "server_inv T queued (held, srv)" and "hm_get (tasks srv) (rt_task route) = Some t"
    and "hm_get (actors srv) a = Some route" and "rt_state route = Active"
  shows "server_inv T queued (held, srv')"
proof -
  obtain c where c: "tk_try_send T (mailbox t) m = (x, c)"
    and srv': "srv' = srv\<lparr>tasks := hm_insert (rt_task route) (t\<lparr>mailbox := c\<rparr>) (tasks srv)\<rparr>"
    using assms(1) by (auto simp: mailbox_try_send_def split: prod.splits)
  have old: "length (queued (mailbox t)) \<le> tk_max_capacity T (mailbox t)" "0 < tk_max_capacity T (mailbox t)"
    using assms(2,3) by (auto simp: server_inv_def tasks_ok_def)
  have new: "length (queued c) \<le> tk_max_capacity T c \<and> 0 < tk_max_capacity T c"
  proof (cases "x = Sent")
    case True
    then show ?thesis
      using c old try_send_room [of "mailbox t" m] try_send_Sent_iff [of "mailbox t" m] by auto
  next
    case False
    then show ?thesis using c old try_send_not_sent [of "mailbox t" m] by simp
  qed
  have only: "route' = route" if "hm_get (actors srv) a' = Some route'" "rt_task route' = rt_task route" for a' route'
    using inv_route_task(1) [OF assms(2,4,3)] inv_route_task(1) [OF assms(2) that(1)] assms(3,4) that
    by simp
  show ?thesis
    unfolding srv'
  proof (rule update_task_entry_inv [OF assms(2,3)])
    fix a' route' assume "hm_get (actors srv) a' = Some route'" "rt_task route' = rt_task route"
      and "rt_state route' = Deactivating"
    then show "queued (mailbox (t\<lparr>mailbox := c\<rparr>)) = []" using only [of a' route'] assms(5) by simp
  qed (use new in simp_all)
qed

lemma spawn_actor_Some:
  assumes "spawn_actor T a g srv = Some t"
  shows "task_address t = a" "task_generation t = g" "queued (mailbox t) = []" "\<not> closed (mailbox t)"
    "0 < tk_max_capacity T (mailbox t)"
  using assms channel_new
  by (auto simp: spawn_actor_def unat_gt_0 split: option.splits caught.splits if_splits)

lemma first_send:
  assumes "spawn_actor T a g srv = Some t" and "tk_try_send T (mailbox t) m = (x, c)"
  shows "x = Sent" "queued c = [m]" "tk_max_capacity T c = tk_max_capacity T (mailbox t)"
  using try_send_room [of "mailbox t" m] spawn_actor_Some [OF assms(1)] assms(2) by simp_all

lemma activate_route_inv:
  assumes "activate_route T a m reservation srv = (x, srv')"
    and inv: "server_inv T queued (held + (if reservation then 1 else 0), srv)"
    and none: "hm_get (actors srv) a = None"
  shows "server_inv T queued (held, srv')"
proof -
  define cap0 where "cap0 = (if reservation then Some (capacity srv) else tk_try_acquire T (capacity srv))"
  show ?thesis
  proof (cases cap0)
    case None
    then have "srv' = fail_message m RuntimeAtCapacity srv" and "\<not> reservation"
      using assms(1) by (auto simp: activate_route_def cap0_def split: if_splits)
    then show ?thesis using inv by (simp add: fail_message_def answer_inv)
  next
    case (Some cap)
    have avail: "Suc (tk_available T cap + length (actors srv) + held) = unat (max_active_actors srv)"
      using Some inv
      by (cases reservation) (auto simp: cap0_def server_inv_def permits_ok_def dest: try_acquire_Some)
    define srv1 where "srv1 = srv\<lparr>capacity := cap, next_generation := next_generation srv + 1,
      next_task := Suc (next_task srv)\<rparr>"
    show ?thesis
    proof (cases "spawn_actor T a (next_generation srv) srv1")
      case None
      then have "srv' = srv1\<lparr>capacity := tk_release T cap\<rparr>"
        using assms(1) Some by (simp add: activate_route_def cap0_def srv1_def Let_def)
      then show ?thesis
        using inv avail by (auto simp: srv1_def server_inv_defs release_available less_SucI)
    next
      case (Some t)
      obtain y c where c: "tk_try_send T (mailbox t) m = (y, c)" by fastforce
      note sp = spawn_actor_Some [OF Some] first_send [OF Some c]
      have srv': "srv' = srv1\<lparr>tasks := hm_insert (next_task srv) (t\<lparr>mailbox := c\<rparr>) (tasks srv),
           actors := hm_insert a \<lparr>rt_generation = next_generation srv, rt_state = Active,
             rt_task = next_task srv\<rparr> (actors srv)\<rparr>"
        using assms(1) \<open>cap0 = Some cap\<close> Some c
        by (simp add: activate_route_def cap0_def srv1_def Let_def)
      have fresh: "hm_get (tasks srv) (next_task srv) = None"
        using inv by (cases "hm_get (tasks srv) (next_task srv)") (auto simp: server_inv_def tasks_ok_def)
      have "rt_task route \<noteq> next_task srv" if "hm_get (actors srv) b = Some route" for b route
        using inv_route_ok [OF inv that] fresh by (auto simp: route_ok_def)
      then have routes: "routes_ok queued srv'"
        using inv sp by (auto simp: srv' srv1_def server_inv_def routes_ok_def route_ok_def)
      have "tasks_ok T queued srv'"
        using inv sp by (auto simp: srv' srv1_def server_inv_def tasks_ok_def less_SucI)
      moreover have "permits_ok T held srv'"
        using avail none inv
        by (simp add: srv' srv1_def server_inv_def routes_ok_def permits_ok_def length_hm_insert_new)
      ultimately show ?thesis using routes by (simp add: server_inv_def)
    qed
  qed
qed

lemma drop_route_none: "hm_get (actors (drop_route T a srv)) a = None"
  by (simp add: drop_route_def split: option.splits)

lemma dispatch_commit_inv:
  assumes "dispatch_commit T a m reservation srv = (x, srv')"
    and inv: "server_inv T queued (held + (if reservation then 1 else 0), srv)"
  shows "server_inv T queued (held, srv')"
proof (cases "hm_get (actors srv) a")
  case None
  then show ?thesis
    using assms activate_route_inv [OF _ inv None] by (simp add: dispatch_commit_def)
next
  case (Some route)
  note dropped = activate_route_inv [OF _ drop_route_inv drop_route_none]
  show ?thesis
  proof (cases "rt_state route")
    case Deactivating
    then show ?thesis
      using assms Some drop_reservation_inv [OF inv] by (auto simp: dispatch_commit_def)
  next
    case Active
    show ?thesis
    proof (cases "hm_get (tasks srv) (rt_task route)")
      case None
      then show ?thesis
        using assms(1) Some Active dropped [OF _ inv] by (simp add: dispatch_commit_def)
    next
      case t: (Some t)
      obtain y srv1 where send: "mailbox_try_send T t (rt_task route) m srv = (y, srv1)" by fastforce
      note inv1 = mailbox_try_send_inv [OF send inv t Some Active]
      show ?thesis
        using assms(1) Some Active t send dropped [OF _ inv1] drop_reservation_inv [OF inv1]
          drop_reservation_inv [OF answer_inv [OF inv1]]
        by (auto simp: dispatch_commit_def split: try_send_result.splits)
    qed
  qed
qed

lemma dispatch_if_active_inv:
  assumes inv: "server_inv T queued (held, srv)"
  shows "server_inv T queued (held, snd (dispatch_message_if_active T a m srv))"
proof (cases "\<exists>route t. hm_get (actors srv) a = Some route \<and> rt_state route = Active
    \<and> hm_get (tasks srv) (rt_task route) = Some t")
  case True
  then obtain route t where r: "hm_get (actors srv) a = Some route" "rt_state route = Active"
    and t: "hm_get (tasks srv) (rt_task route) = Some t" by blast
  obtain y srv1 where send: "mailbox_try_send T t (rt_task route) m srv = (y, srv1)" by fastforce
  show ?thesis
    using mailbox_try_send_inv [OF send inv t r] r t send by (simp add: dispatch_message_if_active_def)
next
  case False
  then show ?thesis
    using inv by (auto simp: dispatch_message_if_active_def split: option.splits route_state.splits)
qed

lemma begin_deactivation_inv:
  assumes inv: "server_inv T queued (held, srv)" and "next_task srv \<le> 2 ^ 64"
    and t: "hm_get (tasks srv) tid = Some t"
  shows "server_inv T queued
    (held, snd (begin_deactivation T (task_address t) (task_generation t) (mailbox t) srv))"
proof (cases "hm_get (actors srv) (task_address t)")
  case None
  then show ?thesis using inv by (simp add: begin_deactivation_def)
next
  case (Some route)
  show ?thesis
  proof (cases "rt_generation route = task_generation t
      \<and> tk_capacity T (mailbox t) = tk_max_capacity T (mailbox t)")
    case False
    then show ?thesis using inv Some by (auto simp: begin_deactivation_def)
  next
    case True
    have tid: "rt_task route = tid"
      using route_of_task [OF inv assms(2) t Some] True by simp
    have "queued (mailbox t) = []"
      using True inv t empty_iff_full_capacity [of "mailbox t"] by (auto simp: server_inv_def tasks_ok_def)
    then show ?thesis
      using inv Some True t tid
      by (auto simp: begin_deactivation_def server_inv_defs length_hm_insert_present)
  qed
qed

lemma task_change_inv:
  assumes "task_change T t t'" and inv: "server_inv T queued (held, srv)"
    and t: "hm_get (tasks srv) tid = Some t"
  shows "server_inv T queued (held, srv\<lparr>tasks := hm_insert tid t' (tasks srv)\<rparr>)"
proof -
  have bound: "length (queued (mailbox t)) \<le> tk_max_capacity T (mailbox t)" "0 < tk_max_capacity T (mailbox t)"
    using inv t by (auto simp: server_inv_def tasks_ok_def)
  have "task_address t' = task_address t \<and> task_generation t' = task_generation t
     \<and> length (queued (mailbox t')) \<le> length (queued (mailbox t))
     \<and> tk_max_capacity T (mailbox t') = tk_max_capacity T (mailbox t)
     \<and> (queued (mailbox t) = [] \<longrightarrow> queued (mailbox t') = [])"
    using assms(1)
  proof cases
    case recv
    then show ?thesis
      by (cases "queued (mailbox t)") (simp_all add: try_recv_empty try_recv_cons)
  next
    case close
    then show ?thesis by (simp add: close_keeps)
  next
    case flags
    then show ?thesis by simp
  qed
  then show ?thesis
    using update_task_entry_inv [OF inv t] bound inv_route_task(3) [OF inv] t by fastforce
qed

lemma rt_step_inv:
  "rt_step T s s' \<Longrightarrow> server_inv T queued s \<Longrightarrow> next_task (snd s) \<le> 2 ^ 64 \<Longrightarrow> server_inv T queued s'"
proof (induction rule: rt_step.induct)
  case (reserve srv cap held)
  then show ?case by (auto simp: server_inv_defs dest: try_acquire_Some)
next
  case (unreserve held srv)
  then show ?case by (auto simp: server_inv_defs release_available)
next
  case (commit address message reservation srv x srv' held held')
  then show ?case using dispatch_commit_inv [OF commit.hyps(1)] by simp
next
  case (deactivate srv tid t held)
  then show ?case by (simp add: begin_deactivation_inv)
next
  case (task srv tid t t' held)
  then show ?case by (simp add: task_change_inv)
qed (simp_all add: dispatch_if_active_inv remove_route_inv clear_actors_inv other_fields_inv)

end

text \<open>Reachable Servers: built by the builder, then any interleaving of steps.\<close>

inductive rt_reach :: "(mailbox_message, 'c, 's) tokio \<Rightarrow> nat \<times> ('a, 'w, 'c, 's) server \<Rightarrow> bool" for T where
  built: "build_with_authority T b au cl = Some (Ok srv) \<Longrightarrow> rt_reach T (0, srv)"
| next_step: "rt_reach T s \<Longrightarrow> rt_step T s s' \<Longrightarrow> rt_reach T s'"

context mailbox_tokio
begin

lemma built_inv:
  assumes "build_with_authority T b au cl = Some (Ok srv)"
  shows "server_inv T queued (0, srv)"
proof -
  have "srv = initial_server T b au cl" using assms by (simp add: build_Ok_iff)
  then show ?thesis by (simp add: server_inv_defs semaphore_new) (simp add: hm_empty_def)
qed

lemma activate_route_next_task:
  "activate_route T a m reservation srv = (x, srv') \<Longrightarrow> next_task srv \<le> next_task srv'"
  by (auto simp: activate_route_def Let_def fail_message_def answer_def
      split: option.splits prod.splits if_splits mailbox_message.splits)

lemma dispatch_commit_next_task:
  assumes "dispatch_commit T a m reservation srv = (x, srv')"
  shows "next_task srv \<le> next_task srv'"
proof -
  have [simp]: "next_task (drop_route T a s) = next_task s" for s :: "('a, 'w, 'c, 's) server"
    by (simp add: drop_route_def split: option.splits)
  have [simp]: "next_task (drop_reservation T b s) = next_task s" for b and s :: "('a, 'w, 'c, 's) server"
    by (simp add: drop_reservation_def)
  have [simp]: "next_task (answer n y s) = next_task s" for n y and s :: "('a, 'w, 'c, 's) server"
    by (simp add: answer_def split: mailbox_message.splits)
  show ?thesis
    using assms
    by (auto simp: dispatch_commit_def mailbox_try_send_def
        split: option.splits route_state.splits prod.splits try_send_result.splits
        dest: activate_route_next_task)
qed

lemma rt_step_next_task: "rt_step T s s' \<Longrightarrow> next_task (snd s) \<le> next_task (snd s')"
proof (induction rule: rt_step.induct)
  case (commit address message reservation srv x srv' held held')
  then show ?case using dispatch_commit_next_task by simp
next
  case (deliver held srv address message)
  then show ?case
    by (simp add: dispatch_message_if_active_def mailbox_try_send_def
        split: option.splits route_state.splits prod.splits)
qed (auto simp: remove_route_def drop_route_def clear_actors_def begin_deactivation_def
    split: option.splits)

lemma rt_reach_inv: "rt_reach T s \<Longrightarrow> next_task (snd s) \<le> 2 ^ 64 \<Longrightarrow> server_inv T queued s"
proof (induction rule: rt_reach.induct)
  case (built b au cl srv)
  then show ?case by (simp add: built_inv)
next
  case (next_step s s')
  then show ?case using rt_step_next_task [OF next_step.hyps(2)] rt_step_inv by fastforce
qed

end

interpretation bm: mailbox_tokio bounded_tokio bc_queue bc_closed
  by unfold_locales

end
