(* ===== verification/Runtime_Shutdown.thy ===== *)
theory Runtime_Shutdown
  imports Actor_Lifecycle Runtime_Safety
begin

text \<open>
  Graceful shutdown, fencing and the capacity sample (\<open>coactor/src/runtime/shutdown.rs\<close>).
  Both operations take a snapshot of the Routes under the lock, wait for their tasks, and then
  clean up; \<open>_begin\<close> is the critical section, \<open>_finish\<close> what follows the wait.  The sections of the
  clean-up (clearing the Routes, terminating the Sessions of one address after another, aborting the
  inbound tasks) take separate locks; \<open>_finish\<close> runs them with no other task in between, and
  \<open>internal_step\<close> of \<open>Actor_Invariants\<close> has each of them as a step of its own as well.
\<close>

section \<open>Operations\<close>

definition has_authority :: "instant \<Rightarrow> ('a, 'w, 'c, 's) server \<Rightarrow> bool" where
  "has_authority now srv \<longleftrightarrow>
     status srv \<noteq> FENCED
     \<and> (case authority srv of None \<Rightarrow> True | Some a \<Rightarrow> authority_is_valid a now)"

definition update_capacity_sample ::
  "('m, 'c, 's) tokio \<Rightarrow> u64 \<Rightarrow> ('a, 'w, 'c, 's) server \<Rightarrow> node_record \<Rightarrow> node_record" where
  "update_capacity_sample T wall_time_millis srv node =
     (let available = word_of_nat (tk_available T (capacity srv))
      in node\<lparr>nr_sampled_at_unix_ms := wall_time_millis,
              nr_active_actor_count := saturating_sub (max_active_actors srv) available,
              nr_max_actor_count := max_active_actors srv,
              nr_pressured := (available = 0),
              nr_draining := (status srv \<noteq> RUNNING)\<rparr>)"

definition terminate_all_sessions ::
  "'w transport \<Rightarrow> send_error \<Rightarrow> ('a, 'w, 'c, 's) task_state \<Rightarrow> ('a, 'w, 'c, 's) task_state" where
  "terminate_all_sessions tx error = (\<lambda>(srv, w).
     fold (\<lambda>address. terminate_sessions tx address error) (by_actor_addresses (sessions srv)) (srv, w))"

text \<open>The tasks of all Routes.\<close>

definition routed_tasks :: "('a, 'w, 'c, 's) server \<Rightarrow> task_id list" where
  "routed_tasks srv = map (\<lambda>(_, route). rt_task route) (actors srv)"

definition request_shutdown :: "task_id \<Rightarrow> ('a, 'w, 'c, 's) server_op" where
  "request_shutdown tid = update_task tid (\<lambda>t. t\<lparr>shutdown_flag := True, shutdown_changed := True\<rparr>)"

definition abort_task :: "task_id \<Rightarrow> ('a, 'w, 'c, 's) server_op" where
  "abort_task tid = update_task tid (\<lambda>t. t\<lparr>task_aborted := True\<rparr>)"

text \<open>\<open>None\<close>: the Server is not running and \<open>shutdown\<close> returns at once.\<close>

definition shutdown_begin :: "('a, 'w, 'c, 's) server \<Rightarrow> (task_id list \<times> ('a, 'w, 'c, 's) server) option" where
  "shutdown_begin srv =
     (if status srv \<noteq> RUNNING then None
      else Some (routed_tasks srv,
                 fold request_shutdown (routed_tasks srv) (srv\<lparr>status := SHUTTING_DOWN\<rparr>)))"

definition shutdown_finish ::
  "('m, 'c, 's) tokio \<Rightarrow> 'w transport \<Rightarrow> bool \<Rightarrow> task_id list \<Rightarrow> ('a, 'w, 'c, 's) task_state
     \<Rightarrow> (server_error + unit) \<times> ('a, 'w, 'c, 's) task_state" where
  "shutdown_finish T tx timed_out aborts = (\<lambda>(srv, w).
     let srv1 = (if timed_out then clear_actors T (fold abort_task aborts srv) else srv);
         (srv2, w') = terminate_all_sessions tx RuntimeShuttingDown (srv1, w);
         srv3 = snd (abort_inbound_tasks srv2)
     in (if timed_out then Err ShutdownTimedOut else Ok (), srv3\<lparr>status := STOPPED\<rparr>, w'))"

definition fence_begin :: "('a, 'w, 'c, 's) server \<Rightarrow> task_id list \<times> ('a, 'w, 'c, 's) server" where
  "fence_begin srv =
     (routed_tasks srv, fold abort_task (routed_tasks srv) (srv\<lparr>status := FENCED\<rparr>))"

definition fence_finish ::
  "('m, 'c, 's) tokio \<Rightarrow> 'w transport \<Rightarrow> ('a, 'w, 'c, 's) task_state \<Rightarrow> ('a, 'w, 'c, 's) task_state" where
  "fence_finish T tx = (\<lambda>(srv, w).
     let (srv', w') = terminate_all_sessions tx NodeFenced (clear_actors T srv, w)
     in (snd (abort_inbound_tasks srv'), w'))"

text \<open>An aborted task is dropped at its next suspension: its guard runs.\<close>

definition abort_takes_effect :: "(mailbox_message, 'c, 's) tokio \<Rightarrow> task_id \<Rightarrow> ('a, 'w, 'c, 's) server_op" where
  "abort_takes_effect T tid srv =
     (case hm_get (tasks srv) tid of
        None \<Rightarrow> srv
      | Some t \<Rightarrow> if task_aborted t \<and> \<not> task_completed t then task_guard_drop T tid t srv else srv)"

section \<open>Lemmas\<close>

lemma update_task_frame [simp]:
  "actors (update_task tid f srv) = actors srv" "sessions (update_task tid f srv) = sessions srv"
  "capacity (update_task tid f srv) = capacity srv" "status (update_task tid f srv) = status srv"
  "max_active_actors (update_task tid f srv) = max_active_actors srv"
  "next_task (update_task tid f srv) = next_task srv" "cluster (update_task tid f srv) = cluster srv"
  by (simp_all add: update_task_def split: option.splits)

lemma fold_update_frame:
  assumes "\<And>tid srv. g (h tid srv) = g srv"
  shows "g (fold h tids srv) = g srv"
  using assms by (induction tids arbitrary: srv) simp_all

lemma terminate_sessions_frame:
  "fst (terminate_sessions tx a e (srv, w)) = srv\<lparr>sessions := fst (terminate_all tx a e (sessions srv, w))\<rparr>"
  by (simp add: terminate_sessions_def split: prod.splits)

lemma terminate_sessions_fold:
  "\<exists>r. fst (fold (\<lambda>address. terminate_sessions tx address e) as (srv, w)) = srv\<lparr>sessions := r\<rparr>
     \<and> (\<forall>a s. sink r a s = (if a \<in> set as then None else sink (sessions srv) a s))"
proof (induction as arbitrary: srv w)
  case Nil
  show ?case by (rule exI [of _ "sessions srv"]) simp
next
  case (Cons b as)
  obtain srv1 w1 where one: "terminate_sessions tx b e (srv, w) = (srv1, w1)" by fastforce
  then have srv1: "srv1 = srv\<lparr>sessions := fst (terminate_all tx b e (sessions srv, w))\<rparr>"
    using terminate_sessions_frame [of tx b e srv w] by simp
  obtain r where "fst (fold (\<lambda>address. terminate_sessions tx address e) as (srv1, w1)) = srv1\<lparr>sessions := r\<rparr>"
    and "\<forall>a s. sink r a s = (if a \<in> set as then None else sink (sessions srv1) a s)"
    using Cons.IH by blast
  then show ?case
    by (intro exI [of _ r]) (auto simp: one srv1 sink_terminate_all)
qed

lemma sink_address: "sink r a s \<noteq> None \<Longrightarrow> a \<in> set (by_actor_addresses r)"
  by (auto simp: sink_def by_actor_addresses_def hm.keys_dom split: option.splits)

lemma terminate_all_sessions_frame:
  "\<exists>r. fst (terminate_all_sessions tx e (srv, w)) = srv\<lparr>sessions := r\<rparr> \<and> (\<forall>a s. sink r a s = None)"
proof -
  obtain r where "fst (terminate_all_sessions tx e (srv, w)) = srv\<lparr>sessions := r\<rparr>"
    and "\<forall>a s. sink r a s = (if a \<in> set (by_actor_addresses (sessions srv)) then None else sink (sessions srv) a s)"
    using terminate_sessions_fold [of tx e "by_actor_addresses (sessions srv)" srv w]
    by (auto simp: terminate_all_sessions_def)
  then show ?thesis using sink_address by (metis option.exhaust)
qed

end
