(* ===== verification/Handler_Invariants.thy ===== *)
theory Handler_Invariants
  imports Runtime_Shutdown
begin

text \<open>
  Every handler of the runtime keeps the Server invariant of \<open>Runtime_Safety\<close>: dispatch,
  Session opening and closing, inbound envelopes, the Actor task, shutdown and fencing.
  \<open>held\<close> counts the reservations other callers hold meanwhile.
\<close>

section \<open>Fields the invariant does not read\<close>

lemma sessions_inv [simp]: "server_inv T queued (held, srv\<lparr>sessions := r\<rparr>) = server_inv T queued (held, srv)"
  by (simp add: server_inv_defs)

lemma status_inv [simp]: "server_inv T queued (held, srv\<lparr>status := x\<rparr>) = server_inv T queued (held, srv)"
  by (simp add: server_inv_defs)

lemma inbound_inv [simp]: "server_inv T queued (held, srv\<lparr>inbound_tasks := x\<rparr>) = server_inv T queued (held, srv)"
  by (simp add: server_inv_defs)

lemma terminate_sessions_inv:
  "server_inv T queued (held, fst (terminate_sessions tx a e st)) = server_inv T queued (held, fst st)"
  by (cases st) (simp add: terminate_sessions_frame)

lemma terminate_all_sessions_inv:
  "server_inv T queued (held, fst (terminate_all_sessions tx e st)) = server_inv T queued (held, fst st)"
proof (cases st)
  case (Pair srv w)
  then show ?thesis using terminate_all_sessions_frame [of tx e srv w] by auto
qed

context mailbox_tokio
begin

section \<open>Dispatch and Sessions\<close>

lemma dispatch_message_inv:
  assumes "dispatch_message T now a m reservation srv = (x, srv')"
    and "server_inv T queued (held + (if reservation then 1 else 0), srv)"
  shows "server_inv T queued (held, srv')"
  using assms dispatch_commit_inv drop_reservation_inv [OF assms(2)]
  by (auto simp: dispatch_message_def split: option.splits)

lemma close_local_session_inv:
  "server_inv T queued (held, srv) \<Longrightarrow> server_inv T queued (held, close_local_session T a sid srv)"
  using dispatch_if_active_inv [of held "srv\<lparr>sessions := r\<rparr>" for r]
  by (simp add: close_local_session_def Let_def split: prod.splits)

lemma close_sessions_fold_inv:
  "server_inv T queued (held, srv) \<Longrightarrow>
   server_inv T queued (held, fold (\<lambda>(a, sid). close_local_session T a sid) xs srv)"
  by (induction xs arbitrary: srv) (auto simp: close_local_session_inv)

lemma open_local_session_begin_inv:
  assumes "open_local_session_begin T now a sid snk c reservation srv = (p, srv')"
    and inv: "server_inv T queued (held + (if reservation then 1 else 0), srv)"
  shows "server_inv T queued (held, srv')"
proof (cases "hm_get (registrations srv) (actor_type a) = None")
  case True
  then show ?thesis
    using assms drop_reservation_inv [OF inv] by (simp add: open_local_session_begin_def)
next
  case False
  obtain fresh r where reg: "register_actor (sessions srv) a sid snk = (fresh, r)" by fastforce
  have invr: "server_inv T queued (held + (if reservation then 1 else 0), srv\<lparr>sessions := r\<rparr>)"
    using inv by simp
  obtain x srv1 where d: "dispatch_message T now a (SessionOpened sid c) reservation (srv\<lparr>sessions := r\<rparr>) = (x, srv1)"
    by fastforce
  have "srv' = drop_reservation T reservation (srv\<lparr>sessions := r\<rparr>) \<or> (\<exists>r'. srv' = srv1\<lparr>sessions := r'\<rparr>)"
    using assms(1) False reg d
    by (auto simp: open_local_session_begin_def split: bool.splits option.splits sum.splits
        intro: exI [of _ "sessions srv1"])
  then show ?thesis
    using drop_reservation_inv [OF invr] dispatch_message_inv [OF d invr] by auto
qed

lemma resolve_inv:
  assumes "resolve T S r a (capacity srv) w = (x, cap, w')" and "server_inv T queued (held, srv)"
  shows "server_inv T queued (held + reservation_count x, srv\<lparr>capacity := cap\<rparr>)"
  using assms(2) resolve_rounds_permits [OF assms(1) [unfolded resolve_def]]
  by (simp add: server_inv_defs)

lemma inbound_opening_server: "fst (snd (inbound_opening tx reply raw a sid c (p, srv) w)) = srv"
  by (simp add: inbound_opening_def split: open_progress.splits)

lemma inbound_session_open_inv:
  assumes inv: "server_inv T queued (held, srv)"
  shows "server_inv T queued
     (held, fst (snd (inbound_session_open T S tx now v reply raw a sid c srv w)))"
proof (cases "v \<and> reply \<noteq> None")
  case False
  then show ?thesis using inv by (auto simp: inbound_session_open_def)
next
  case True
  then obtain snd_id where reply: "reply = Some snd_id" and v by auto
  show ?thesis
  proof (cases "cluster srv")
    case None
    obtain p srv1 where o: "open_local_session_begin T now a sid (Remote snd_id) c False srv = (p, srv1)"
      by fastforce
    show ?thesis
      using open_local_session_begin_inv [OF o, of held] inv \<open>v\<close> reply None o
      by (simp add: inbound_session_open_def inbound_opening_server)
  next
    case (Some r)
    obtain x cap w' where res: "resolve T S r a (capacity srv) w = (x, cap, w')" by (metis prod_cases3)
    note inv' = resolve_inv [OF res inv]
    show ?thesis
    proof (cases x)
      case (Inl e)
      then show ?thesis
        using inv' \<open>v\<close> reply Some res by (simp add: inbound_session_open_def reservation_count_def)
    next
      case (Inr owner)
      show ?thesis
      proof (cases owner)
        case Remote_owner
        then show ?thesis
          using inv' \<open>v\<close> reply Some res Inr by (simp add: inbound_session_open_def reservation_count_def)
      next
        case (Local b)
        obtain p srv1 where o:
            "open_local_session_begin T now a sid (Remote snd_id) c b (srv\<lparr>capacity := cap\<rparr>) = (p, srv1)"
          by fastforce
        have "server_inv T queued (held + (if b then 1 else 0), srv\<lparr>capacity := cap\<rparr>)"
          using inv' Inr Local by (simp add: reservation_count_def split: if_splits)
        from open_local_session_begin_inv [OF o this]
        show ?thesis
          using \<open>v\<close> reply Some res Inr Local o by (simp add: inbound_session_open_def inbound_opening_server)
      qed
    qed
  qed
qed

lemma dispatch_remote_message_inv:
  assumes "dispatch_remote_message T now a sid p srv = (x, srv')" and "server_inv T queued (held, srv)"
  shows "server_inv T queued (held, srv')"
  using assms close_local_session_inv [of held srv] dispatch_message_inv [where reservation = False and held = held]
  by (auto simp: dispatch_remote_message_def split: option.splits if_splits)

lemma dispatch_inbound_inv:
  assumes inv: "server_inv T queued (held, srv)"
  shows "server_inv T queued (held, fst (snd (dispatch_inbound T S tx now c env reply srv w)))"
proof -
  have action: "server_inv T queued (held, fst (snd
      (case dispatch_remote_message T now a sid p srv of
         (Some (Ok _), srv') \<Rightarrow> (InboundDone, srv', w)
       | (Some (Err error), srv') \<Rightarrow> (InboundDone, srv', f error)
       | (None, srv') \<Rightarrow> (InboundPanicked, srv', w))))" for a sid p f
    using dispatch_remote_message_inv [OF _ inv]
    by (cases "dispatch_remote_message T now a sid p srv") (auto split: option.splits sum.splits)
  show ?thesis
  proof (cases "\<exists>k sid a. env_kind env = Some k \<and> SessionId_from_bytes (env_session_id env) = Some sid
      \<and> actor_address_from_envelope (env_actor_type env) (env_actor_id env) = Some a")
    case False
    then have "fst (snd (dispatch_inbound T S tx now c env reply srv w)) = srv"
      by (auto simp: dispatch_inbound_def split: option.splits)
    then show ?thesis using inv by simp
  next
    case True
    then obtain k sid a where parsed: "env_kind env = Some k" "SessionId_from_bytes (env_session_id env) = Some sid"
      "actor_address_from_envelope (env_actor_type env) (env_actor_id env) = Some a" by blast
    show ?thesis
    proof (cases k)
      case (Kind_Action p)
      then show ?thesis
        using inv action [where a = a and sid = sid and p = "Some p"] parsed by (simp add: dispatch_inbound_def Let_def)
    next
      case Kind_SessionOpen
      then show ?thesis
        using inbound_session_open_inv [OF inv] parsed by (simp add: dispatch_inbound_def Let_def)
    next
      case (Kind_SessionClose x)
      then show ?thesis
        using inv close_local_session_inv [OF inv] parsed by (simp add: dispatch_inbound_def Let_def)
    qed (use inv parsed in \<open>simp_all add: dispatch_inbound_def\<close>)
  qed
qed

section \<open>The Actor task\<close>

lemma update_task_inv:
  assumes "server_inv T queued (held, srv)" and "\<And>t. task_change T t (f t)"
  shows "server_inv T queued (held, update_task tid f srv)"
  using assms task_change_inv [OF assms(2) assms(1)] by (simp add: update_task_def split: option.splits)

lemma flag_change:
  "task_change T t (t\<lparr>task_actor := a\<rparr>)" "task_change T t (t\<lparr>shutdown_changed := b\<rparr>)"
  "task_change T t (t\<lparr>shutdown_flag := d, shutdown_changed := b\<rparr>)"
  "task_change T t (t\<lparr>task_aborted := b\<rparr>)" "task_change T t (t\<lparr>task_completed := b\<rparr>)"
  by (rule task_change.flags; simp)+

lemma set_actor_inv: "server_inv T queued (held, srv) \<Longrightarrow> server_inv T queued (held, set_actor tid a srv)"
  unfolding set_actor_def by (rule update_task_inv [OF _ flag_change(1)])

lemma close_mailbox_inv: "server_inv T queued (held, srv) \<Longrightarrow> server_inv T queued (held, close_mailbox T tid srv)"
  unfolding close_mailbox_def by (rule update_task_inv [OF _ task_change.close])

lemma task_guard_drop_inv:
  "server_inv T queued (held, srv) \<Longrightarrow> server_inv T queued (held, task_guard_drop T tid t srv)"
  unfolding task_guard_drop_def
  by (intro update_task_inv remove_route_inv task_change.close flag_change)

lemma receive_inv:
  assumes "receive T tid srv = (x, srv')" and "server_inv T queued (held, srv)"
  shows "server_inv T queued (held, srv')"
proof (cases "hm_get (tasks srv) tid")
  case None
  then show ?thesis using assms by (simp add: receive_def)
next
  case (Some t)
  then show ?thesis
    using assms task_change_inv [OF task_change.recv assms(2) Some]
    by (cases "tk_try_recv T (mailbox t)") (auto simp: receive_def Let_def split: option.splits)
qed

lemma execute_message_inv:
  assumes "execute_message reg tid t m st = (x, st')" and "server_inv T queued (held, fst st)"
  shows "server_inv T queued (held, fst st')"
  using assms
  by (cases st)
    (auto simp: execute_message_def split: mailbox_message.splits prod.splits caught.splits
      intro!: set_actor_inv answer_inv)

lemma fail_pending_inv:
  "server_inv T queued (held, srv) \<Longrightarrow> server_inv T queued (held, fail_pending n T tid e srv)"
proof (induction n arbitrary: srv)
  case 0
  then show ?case by simp
next
  case (Suc n)
  obtain x srv1 where r: "receive T tid srv = (x, srv1)" by fastforce
  have "server_inv T queued (held, srv1)" using receive_inv [OF r Suc.prems] .
  then show ?case using r Suc.IH by (auto split: option.splits intro!: answer_inv)
qed

lemma drain_inv:
  "drain n T reg tid st = (x, st') \<Longrightarrow> server_inv T queued (held, fst st) \<Longrightarrow> server_inv T queued (held, fst st')"
proof (induction n arbitrary: st)
  case 0
  then show ?case by simp
next
  case (Suc n)
  obtain srv w where st: "st = (srv, w)" by fastforce
  obtain y srv1 where r: "receive T tid srv = (y, srv1)" by fastforce
  have inv1: "server_inv T queued (held, srv1)" using receive_inv [OF r] Suc.prems(2) st by simp
  show ?case
  proof (cases y)
    case None
    then show ?thesis using Suc.prems(1) st r inv1 by auto
  next
    case (Some mt)
    obtain m t where mt: "mt = (m, t)" by fastforce
    obtain ok st1 where ex: "execute_message reg tid t m (srv1, w) = (ok, st1)" by (meson surj_pair)
    have "server_inv T queued (held, fst st1)" using execute_message_inv [OF ex] inv1 by simp
    then show ?thesis
      using Suc st r Some mt ex by (auto split: bool.splits)
  qed
qed

lemma message_failed_inv:
  "server_inv T queued (held, fst st) \<Longrightarrow> server_inv T queued (held, fst (message_failed T tx tid t st))"
  using terminate_sessions_inv [of T queued held tx "task_address t" ActorStopped st]
  by (auto simp: message_failed_def task_guard_drop_inv split: prod.splits)

lemma activation_failed_inv:
  assumes "server_inv T queued (held, fst st)"
  shows "server_inv T queued (held, fst (activation_failed T tx tid t e st))"
proof -
  obtain srv w where st: "st = (srv, w)" by fastforce
  let ?srv3 = "fail_pending (tk_max_capacity T (mailbox t)) T tid e
    (remove_route T (task_address t) (task_generation t) (close_mailbox T tid srv))"
  have "server_inv T queued (held, ?srv3)"
    using assms st by (simp add: fail_pending_inv remove_route_inv close_mailbox_inv)
  then have "server_inv T queued (held, fst (terminate_sessions tx (task_address t) e (?srv3, w)))"
    by (simp add: terminate_sessions_inv)
  then show ?thesis
    by (auto simp: activation_failed_def st Let_def task_guard_drop_inv split: prod.splits)
qed

lemma activation_inv:
  assumes "activation T tx reg tid t st = (p, st')" and "server_inv T queued (held, fst st)"
  shows "server_inv T queued (held, fst st')"
  using assms
  by (cases st)
    (auto simp: activation_def Let_def split: prod.splits caught.splits sum.splits
      intro!: set_actor_inv activation_failed_inv)

lemma run_deactivate_inv:
  "server_inv T queued (held, fst st) \<Longrightarrow> server_inv T queued (held, fst (run_deactivate reg why tid a st))"
  by (cases st) (auto simp: run_deactivate_def set_actor_inv split: option.splits prod.splits)

lemma shutdown_drain_inv:
  assumes "server_inv T queued (held, fst st)"
  shows "server_inv T queued (held, fst (shutdown_drain T tx reg tid t st))"
proof -
  obtain srv w where st: "st = (srv, w)" by fastforce
  obtain ok st1 where d:
      "drain (tk_max_capacity T (mailbox t)) T reg tid (close_mailbox T tid srv, w) = (ok, st1)" by (meson surj_pair)
  have inv1: "server_inv T queued (held, fst st1)"
    using drain_inv [OF d] assms st by (simp add: close_mailbox_inv)
  have "server_inv T queued (held, fst (run_deactivate reg Shutdown tid (task_address t)
      (terminate_sessions tx (task_address t) RuntimeShuttingDown st1)))"
    using inv1 by (simp add: run_deactivate_inv terminate_sessions_inv)
  then show ?thesis
    using d inv1 message_failed_inv [OF inv1]
    by (auto simp: shutdown_drain_def st task_guard_drop_inv remove_route_inv split: bool.splits prod.splits)
qed

lemma idle_elapsed_inv:
  assumes "idle_elapsed T S reg tid t st = (p, st')" and inv: "server_inv T queued (held, fst st)"
    and t: "hm_get (tasks (fst st)) tid = Some t" and "next_task (fst st) \<le> 2 ^ 64"
  shows "server_inv T queued (held, fst st')"
proof -
  obtain srv w where st: "st = (srv, w)" by fastforce
  obtain b srv1 where d:
      "begin_deactivation T (task_address t) (task_generation t) (mailbox t) srv = (b, srv1)" by fastforce
  have inv1: "server_inv T queued (held, srv1)"
    using begin_deactivation_inv [of held srv tid t] inv t assms(4) st d by simp
  have "server_inv T queued (held, fst (run_deactivate reg Idle tid (task_address t) (srv1, w)))"
    using inv1 by (simp add: run_deactivate_inv)
  then show ?thesis
    using assms(1) inv inv1 d st
    by (auto simp: idle_elapsed_def Let_def task_guard_drop_inv remove_route_inv
        split: if_splits bool.splits prod.splits)
qed

lemma serve_once_inv:
  assumes "serve_once T S tx reg tid t st = (p, st')" and inv: "server_inv T queued (held, fst st)"
    and t: "hm_get (tasks (fst st)) tid = Some t" and bound: "next_task (fst st) \<le> 2 ^ 64"
  shows "server_inv T queued (held, fst st')"
proof -
  obtain srv w where st: "st = (srv, w)" by fastforce
  have seen: "server_inv T queued (held, update_task tid (\<lambda>t. t\<lparr>shutdown_changed := False\<rparr>) srv)"
    using inv st by (intro update_task_inv flag_change) simp
  obtain x srv1 where r: "receive T tid srv = (x, srv1)" by fastforce
  have inv1: "server_inv T queued (held, srv1)" using receive_inv [OF r] inv st by simp
  show ?thesis
  proof (cases "shutdown_changed t \<or> \<not> route_names_task srv tid t")
    case True
    then show ?thesis
      using assms(1) inv seen shutdown_drain_inv [of held "(update_task tid (\<lambda>t. t\<lparr>shutdown_changed := False\<rparr>) srv, w)" tx reg tid t] st
      by (auto simp: serve_once_def Let_def split: if_splits)
  next
    case serving: False
    show ?thesis
    proof (cases x)
      case None
      have "srv1 = srv" using r None by (auto simp: receive_def Let_def split: option.splits prod.splits)
      then show ?thesis
        using assms(1) serving None r st inv idle_elapsed_inv [of S reg tid t "(srv, w)" p st' held] t bound
        by (auto simp: serve_once_def task_guard_drop_inv remove_route_inv split: if_splits)
    next
      case (Some mt)
      obtain m t' where mt: "mt = (m, t')" by fastforce
      obtain ok st1 where ex: "execute_message reg tid t' m (srv1, w) = (ok, st1)" by (meson surj_pair)
      have "server_inv T queued (held, fst st1)" using execute_message_inv [OF ex] inv1 by simp
      then show ?thesis
        using assms(1) serving Some mt r st ex message_failed_inv [of held st1 tx tid t]
        by (auto simp: serve_once_def split: bool.splits)
    qed
  qed
qed

end

end
