(* ===== verification/Runtime_Properties.thy ===== *)
theory Runtime_Properties
  imports Handler_Invariants
begin

text \<open>
  The properties of one Server: conservation of capacity and quiet deactivation under every
  interleaving, the outcome of a dispatch, isolation of Sessions between connections and absence
  of panics.
\<close>

section \<open>Dispatch\<close>

text \<open>The mailbox contents of every task.\<close>

definition queues :: "('c \<Rightarrow> mailbox_message list) \<Rightarrow> ('a, 'w, 'c, 's) server \<Rightarrow> task_id \<Rightarrow> mailbox_message list option" where
  "queues queued srv tid = map_option (\<lambda>t. queued (mailbox t)) (hm_get (tasks srv) tid)"

text \<open>An Actor of the address takes messages: an Active Route to a task with an open mailbox.\<close>

definition live_route :: "('c \<Rightarrow> bool) \<Rightarrow> actor_address \<Rightarrow> ('a, 'w, 'c, 's) server \<Rightarrow> route \<Rightarrow> bool" where
  "live_route closed a srv route \<longleftrightarrow>
     hm_get (actors srv) a = Some route \<and> rt_state route = Active
     \<and> is_some_and (\<lambda>t. \<not> closed (mailbox t)) (hm_get (tasks srv) (rt_task route))"

text \<open>
  How a message arrives: appended to the mailbox of the address's live Actor, which keeps its Route;
  or, where the address has no live Actor and no Deactivating one, as the only message of a new
  task whose Route takes the place of whatever there was.  No other mailbox changes.
\<close>

definition delivered_to ::
  "('c \<Rightarrow> mailbox_message list) \<Rightarrow> ('c \<Rightarrow> bool) \<Rightarrow> actor_address \<Rightarrow> mailbox_message
     \<Rightarrow> ('a, 'w, 'c, 's) server \<Rightarrow> ('a, 'w, 'c, 's) server \<Rightarrow> bool" where
  "delivered_to queued closed a m srv srv' \<longleftrightarrow>
     (\<exists>route old. live_route closed a srv route \<and> live_route closed a srv' route
        \<and> queues queued srv (rt_task route) = Some old
        \<and> queues queued srv' = (queues queued srv)(rt_task route \<mapsto> old @ [m]))
     \<or> ((\<forall>route. hm_get (actors srv) a = Some route \<longrightarrow> rt_state route = Active \<and> \<not> live_route closed a srv route)
        \<and> (\<exists>route. live_route closed a srv' route \<and> rt_task route = next_task srv
             \<and> rt_generation route = next_generation srv
             \<and> queues queued srv' = (queues queued srv)(next_task srv \<mapsto> [m])))"

text \<open>Nothing arrived: every task is as before, and so is the Route unless it was dropped.\<close>

definition refused :: "actor_address \<Rightarrow> ('a, 'w, 'c, 's) server \<Rightarrow> ('a, 'w, 'c, 's) server \<Rightarrow> bool" where
  "refused a srv srv' \<longleftrightarrow>
     (\<forall>tid. hm_get (tasks srv') tid = hm_get (tasks srv) tid)
     \<and> (hm_get (actors srv') a = None \<or> hm_get (actors srv') a = hm_get (actors srv) a)"

text \<open>What a delivery amounts to at the address: the message is the last one of an open mailbox.\<close>

definition accepted ::
  "('c \<Rightarrow> mailbox_message list) \<Rightarrow> ('c \<Rightarrow> bool) \<Rightarrow> actor_address \<Rightarrow> mailbox_message \<Rightarrow> ('a, 'w, 'c, 's) server \<Rightarrow> bool" where
  "accepted queued closed a m srv \<longleftrightarrow>
     (\<exists>route t old. hm_get (actors srv) a = Some route \<and> rt_state route = Active
        \<and> hm_get (tasks srv) (rt_task route) = Some t \<and> \<not> closed (mailbox t)
        \<and> queued (mailbox t) = old @ [m])"

lemma delivered_accepted: "delivered_to queued closed a m srv srv' \<Longrightarrow> accepted queued closed a m srv'"
proof -
  assume "delivered_to queued closed a m srv srv'"
  then obtain route old where r: "live_route closed a srv' route" "queues queued srv' (rt_task route) = Some (old @ [m])"
    unfolding delivered_to_def by (metis append_Nil fun_upd_same)
  then obtain t where "hm_get (tasks srv') (rt_task route) = Some t" "\<not> closed (mailbox t)" "queued (mailbox t) = old @ [m]"
    by (auto simp: live_route_def is_some_and_def queues_def split: option.splits)
  then show ?thesis using r(1) unfolding accepted_def live_route_def by blast
qed

lemma refused_queues: "refused a srv srv' \<Longrightarrow> queues queued srv' = queues queued srv"
  by (simp add: refused_def queues_def fun_eq_iff)

lemma refused_not_delivered: "refused a srv srv' \<Longrightarrow> \<not> delivered_to queued closed a m srv srv'"
proof
  assume r: "refused a srv srv'" and "delivered_to queued closed a m srv srv'"
  moreover have "queues queued srv \<noteq> (queues queued srv)(tid \<mapsto> old @ [m])"
    if "queues queued srv tid = Some old" for tid old
    using that by (metis append_self_conv fun_upd_same list.distinct(1) option.inject)
  ultimately obtain route where "live_route closed a srv' route" "\<not> live_route closed a srv route"
    unfolding delivered_to_def refused_queues [OF r] by (metis live_route_def refused_def option.distinct(1))
  then show False using r by (auto simp: live_route_def refused_def)
qed

lemma server_op_queues [simp]:
  "queues queued (drop_route T a srv) = queues queued srv"
  "queues queued (drop_reservation T b srv) = queues queued srv"
  "queues queued (answer m x srv) = queues queued srv"
  by (simp_all add: queues_def fun_eq_iff drop_route_def drop_reservation_def answer_def
      split: option.splits mailbox_message.splits)

lemma drop_reservation_frame [simp]:
  "actors (drop_reservation T b srv) = actors srv" "tasks (drop_reservation T b srv) = tasks srv"
  by (simp_all add: drop_reservation_def)

lemma answer_frame [simp]:
  "actors (answer m x srv) = actors srv" "tasks (answer m x srv) = tasks srv"
  by (simp_all add: answer_def split: mailbox_message.splits)

context mailbox_tokio
begin

lemma activate_route_outcome:
  assumes "activate_route T a m reservation srv = (x, srv')" and none: "hm_get (actors srv) a = None"
  shows "x = Some (Ok ()) \<and> (\<exists>route. live_route closed a srv' route \<and> rt_task route = next_task srv
         \<and> rt_generation route = next_generation srv
         \<and> queues queued srv' = (queues queued srv)(next_task srv \<mapsto> [m]))
     \<or> (x \<noteq> Some (Ok ()) \<and> refused a srv srv')"
proof -
  define cap0 where "cap0 = (if reservation then Some (capacity srv) else tk_try_acquire T (capacity srv))"
  show ?thesis
  proof (cases cap0)
    case None
    then show ?thesis
      using assms by (auto simp: activate_route_def cap0_def fail_message_def refused_def)
  next
    case (Some cap)
    define srv1 where "srv1 = srv\<lparr>capacity := cap, next_generation := next_generation srv + 1,
      next_task := Suc (next_task srv)\<rparr>"
    show ?thesis
    proof (cases "spawn_actor T a (next_generation srv) srv1")
      case None
      then have "x = None \<and> srv' = srv1\<lparr>capacity := tk_release T cap\<rparr>"
        using assms Some by (simp add: activate_route_def cap0_def srv1_def Let_def)
      then show ?thesis using none by (simp add: srv1_def refused_def)
    next
      case sp: (Some t)
      obtain y c where c: "tk_try_send T (mailbox t) m = (y, c)" by fastforce
      note fs = first_send [OF sp c]
      have "\<not> closed c"
        using try_send_room [of "mailbox t" m] spawn_actor_Some [OF sp] c by simp
      moreover have "x = Some (Ok ()) \<and> srv' = srv1\<lparr>tasks := hm_insert (next_task srv) (t\<lparr>mailbox := c\<rparr>) (tasks srv),
           actors := hm_insert a \<lparr>rt_generation = next_generation srv, rt_state = Active,
             rt_task = next_task srv\<rparr> (actors srv)\<rparr>"
        using assms(1) Some sp c fs(1)
        by (simp add: activate_route_def cap0_def srv1_def Let_def try_send_error_def)
      ultimately show ?thesis
        using fs(2) by (simp add: live_route_def is_some_and_def queues_def fun_eq_iff)
    qed
  qed
qed

text \<open>The same after the Route of a closed mailbox, or of no task, has been dropped.\<close>

lemma reactivate_route_outcome:
  assumes "activate_route T a m reservation (drop_route T a srv1) = (x, srv')"
    and "hm_get (actors srv) a = Some route" and "rt_state route = Active" and "\<not> live_route closed a srv route"
    and "\<And>tid. hm_get (tasks srv1) tid = hm_get (tasks srv) tid"
    and "next_task srv1 = next_task srv" and "next_generation srv1 = next_generation srv"
  shows "x = Some (Ok ()) \<and> delivered_to queued closed a m srv srv'
     \<or> (x \<noteq> Some (Ok ()) \<and> refused a srv srv')"
proof -
  have none: "hm_get (actors (drop_route T a srv1)) a = None"
    by (simp add: drop_route_def split: option.splits)
  have same: "queues queued srv1 = queues queued srv" "next_task (drop_route T a srv1) = next_task srv"
    "next_generation (drop_route T a srv1) = next_generation srv" "tasks (drop_route T a srv1) = tasks srv1"
    using assms(5-7) by (simp_all add: queues_def fun_eq_iff drop_route_def split: option.splits)
  from activate_route_outcome [OF assms(1) none] show ?thesis
  proof (elim disjE conjE)
    assume "x \<noteq> Some (Ok ())" and "refused a (drop_route T a srv1) srv'"
    then show ?thesis using none same(4) assms(5) by (simp add: refused_def)
  next
    assume "x = Some (Ok ())" and "\<exists>route. live_route closed a srv' route
         \<and> rt_task route = next_task (drop_route T a srv1)
         \<and> rt_generation route = next_generation (drop_route T a srv1)
         \<and> queues queued srv' = (queues queued (drop_route T a srv1))(next_task (drop_route T a srv1) \<mapsto> [m])"
    then show ?thesis
      using assms(2-4) unfolding delivered_to_def by (simp add: same)
  qed
qed

lemma mailbox_try_send_not_sent:
  assumes "mailbox_try_send T t tid m srv = (x, srv')" and "hm_get (tasks srv) tid = Some t" and "x \<noteq> Sent"
  shows "hm_get (tasks srv') tid' = hm_get (tasks srv) tid'"
    and "next_task srv' = next_task srv" and "next_generation srv' = next_generation srv"
  using assms try_send_not_sent [of "mailbox t" m]
  by (auto simp: mailbox_try_send_def split: prod.splits)

lemma mailbox_try_send_frame:
  "mailbox_try_send T t tid m srv = (x, srv') \<Longrightarrow> actors srv' = actors srv"
  by (auto simp: mailbox_try_send_def split: prod.splits)

lemma mailbox_try_send_returns:
  "mailbox_try_send T t tid m srv = (x, srv') \<Longrightarrow> x \<in> {Sent, SendFull m, SendClosed m}"
  using try_send_closed [of "mailbox t" m] try_send_full [of "mailbox t" m] try_send_room [of "mailbox t" m]
  by (cases "closed (mailbox t)"; cases "length (queued (mailbox t)) < tk_max_capacity T (mailbox t)")
    (auto simp: mailbox_try_send_def split: prod.splits)

lemma mailbox_try_send_delivered:
  assumes "mailbox_try_send T t (rt_task route) m srv = (Sent, srv')" and "hm_get (actors srv) a = Some route"
    and "rt_state route = Active" and "hm_get (tasks srv) (rt_task route) = Some t"
  shows "delivered_to queued closed a m srv srv'"
proof -
  obtain c where c: "tk_try_send T (mailbox t) m = (Sent, c)"
    and srv': "srv' = srv\<lparr>tasks := hm_insert (rt_task route) (t\<lparr>mailbox := c\<rparr>) (tasks srv)\<rparr>"
    using assms(1) by (auto simp: mailbox_try_send_def split: prod.splits)
  then have q: "queued c = queued (mailbox t) @ [m]" "\<not> closed c" "\<not> closed (mailbox t)"
    using try_send_SentD [of "mailbox t" m] try_send_Sent_iff [of "mailbox t" m] by simp_all
  then have "live_route closed a srv route" "live_route closed a srv' route"
    "queues queued srv (rt_task route) = Some (queued (mailbox t))"
    "queues queued srv' = (queues queued srv)(rt_task route \<mapsto> queued (mailbox t) @ [m])"
    using assms(2-4) srv' by (simp_all add: live_route_def is_some_and_def queues_def fun_eq_iff)
  then show ?thesis unfolding delivered_to_def by blast
qed

lemma delivered_to_frame [simp]:
  "delivered_to queued closed a m srv (drop_reservation T b srv') = delivered_to queued closed a m srv srv'"
  "refused a srv (drop_reservation T b srv') = refused a srv srv'"
  "refused a srv (answer k x srv') = refused a srv srv'"
  by (simp_all add: delivered_to_def live_route_def refused_def)

lemma dispatch_commit_outcome:
  assumes "dispatch_commit T a m reservation srv = (x, srv')"
  shows "x = Some (Ok ()) \<and> delivered_to queued closed a m srv srv'
     \<or> (x \<noteq> Some (Ok ()) \<and> refused a srv srv')"
proof (cases "hm_get (actors srv) a")
  case None
  then show ?thesis
    using assms activate_route_outcome [of a m reservation srv x srv']
    by (auto simp: dispatch_commit_def delivered_to_def)
next
  case (Some route)
  show ?thesis
  proof (cases "rt_state route")
    case Deactivating
    then show ?thesis using assms Some by (auto simp: dispatch_commit_def refused_def)
  next
    case active: Active
    show ?thesis
    proof (cases "hm_get (tasks srv) (rt_task route)")
      case None
      then have "\<not> live_route closed a srv route" by (simp add: live_route_def is_some_and_def)
      with reactivate_route_outcome [OF _ Some active this, of m reservation srv x srv'] show ?thesis
        using assms Some active None by (simp add: dispatch_commit_def)
    next
      case t: (Some t)
      obtain y srv1 where send: "mailbox_try_send T t (rt_task route) m srv = (y, srv1)" by fastforce
      note kept = mailbox_try_send_not_sent [OF send t] mailbox_try_send_frame [OF send]
      consider "y = Sent" | "y = SendFull m" | "y = SendClosed m"
        using mailbox_try_send_returns [OF send] by auto
      then show ?thesis
      proof cases
        case 1
        then show ?thesis
          using assms Some t active send mailbox_try_send_delivered [OF send [unfolded 1] Some active t]
          by (auto simp: dispatch_commit_def)
      next
        case 2
        then have "refused a srv srv1" using kept by (simp add: refused_def)
        then show ?thesis using assms Some t active send 2 by (auto simp: dispatch_commit_def)
      next
        case 3
        then have "tk_try_send T (mailbox t) m = (SendClosed m, snd (tk_try_send T (mailbox t) m))"
          using send by (auto simp: mailbox_try_send_def split: prod.splits)
        then have "closed (mailbox t)" using try_send_SendClosed_iff [of "mailbox t" m m] by (metis fst_conv)
        then have "\<not> live_route closed a srv route" using Some t by (simp add: live_route_def is_some_and_def)
        with reactivate_route_outcome [OF _ Some active this, of m reservation srv1 x srv'] show ?thesis
          using assms Some t active send 3 kept by (simp add: dispatch_commit_def)
      qed
    qed
  qed
qed

lemma dispatch_message_outcome:
  assumes "dispatch_message T now a m reservation srv = (x, srv')"
  shows "x = Some (Ok ()) \<and> delivered_to queued closed a m srv srv'
     \<or> (x \<noteq> Some (Ok ()) \<and> refused a srv srv')"
  using assms dispatch_commit_outcome [of a m reservation srv x srv']
  by (auto simp: dispatch_message_def refused_def split: option.splits)

end

section \<open>What dispatch leaves alone\<close>

lemma drop_route_frame [simp]:
  "sessions (drop_route T a srv) = sessions srv" "registrations (drop_route T a srv) = registrations srv"
  by (simp_all add: drop_route_def split: option.splits)

lemma small_op_frame [simp]:
  "sessions (drop_reservation T b srv) = sessions srv"
  "registrations (drop_reservation T b srv) = registrations srv"
  "sessions (answer m x srv) = sessions srv" "registrations (answer m x srv) = registrations srv"
  by (simp_all add: drop_reservation_def answer_def split: mailbox_message.splits)

lemma activate_route_frame:
  "activate_route T a m b srv = (x, srv') \<Longrightarrow> sessions srv' = sessions srv \<and> registrations srv' = registrations srv"
  by (auto simp: activate_route_def Let_def fail_message_def
      split: option.splits prod.splits if_splits)

lemma mailbox_try_send_other:
  "mailbox_try_send T t tid m srv = (x, srv') \<Longrightarrow>
   sessions srv' = sessions srv \<and> registrations srv' = registrations srv"
  by (auto simp: mailbox_try_send_def split: prod.splits)

lemma dispatch_commit_frame:
  assumes "dispatch_commit T a m b srv = (x, srv')"
  shows "sessions srv' = sessions srv \<and> registrations srv' = registrations srv"
  using assms
  by (auto simp: dispatch_commit_def
      split: option.splits route_state.splits prod.splits try_send_result.splits
      dest!: activate_route_frame mailbox_try_send_other)

lemma dispatch_message_frame:
  assumes "dispatch_message T now a m b srv = (x, srv')"
  shows "sessions srv' = sessions srv \<and> registrations srv' = registrations srv"
  using assms by (auto simp: dispatch_message_def split: option.splits dest!: dispatch_commit_frame)

lemma dispatch_if_active_frame [simp]:
  "sessions (snd (dispatch_message_if_active T a m srv)) = sessions srv"
  "registrations (snd (dispatch_message_if_active T a m srv)) = registrations srv"
  by (auto simp: dispatch_message_if_active_def split: option.splits route_state.splits prod.splits
      dest!: mailbox_try_send_other)

lemma close_local_session_sink:
  "sink (sessions (close_local_session T a sid srv)) a' s' =
     (if (a', s') = (a, sid) then None else sink (sessions srv) a' s')"
proof -
  obtain b r where u: "unregister_actor (sessions srv) a sid = (b, r)" by fastforce
  have "sessions (close_local_session T a sid srv) = r"
    using u by (simp add: close_local_session_def Let_def)
  then show ?thesis using sink_unregister [of "sessions srv" a sid a' s'] u by simp
qed

lemma close_local_session_registrations [simp]:
  "registrations (close_local_session T a sid srv) = registrations srv"
  by (simp add: close_local_session_def Let_def split: prod.splits)

lemma open_begin_sink:
  assumes "open_local_session_begin T now a sid snk c b srv = (p, srv')"
  shows "registrations srv' = registrations srv"
    and "sink (sessions srv) a' s' \<noteq> None \<Longrightarrow> sink (sessions srv') a' s' = sink (sessions srv) a' s'"
    and "sink (sessions srv') a' s' \<noteq> None \<Longrightarrow>
         sink (sessions srv) a' s' \<noteq> None \<or> hm_get (registrations srv) (actor_type a') \<noteq> None"
proof -
  obtain fresh r where reg: "register_actor (sessions srv) a sid snk = (fresh, r)" by fastforce
  obtain x srv1 where d: "dispatch_message T now a (SessionOpened sid c) b (srv\<lparr>sessions := r\<rparr>) = (x, srv1)"
    by fastforce
  note fr = dispatch_message_frame [OF d]
  have r: "sink r a' s' = (if (a', s') = (a, sid) \<and> sink (sessions srv) a sid = None then Some snk
      else sink (sessions srv) a' s')" for a' s'
    using sink_register [of "sessions srv" a sid snk a' s'] reg by simp
  have fresh: "fresh \<longleftrightarrow> sink (sessions srv) a sid = None"
    using register_fresh_iff [of "sessions srv" a sid snk] reg by simp
  consider (unregistered) "hm_get (registrations srv) (actor_type a) = None" "srv' = drop_reservation T b srv"
    | (duplicate) "\<not> fresh" "srv' = drop_reservation T b (srv\<lparr>sessions := r\<rparr>)"
    | (sent) "hm_get (registrations srv) (actor_type a) \<noteq> None" "fresh" "srv' = srv1"
    | (failed) "fresh" "srv' = srv1\<lparr>sessions := snd (unregister_actor (sessions srv1) a sid)\<rparr>"
    using assms reg d
    by (auto simp: open_local_session_begin_def
        split: if_splits bool.splits option.splits sum.splits)
  then show "registrations srv' = registrations srv"
    and "sink (sessions srv) a' s' \<noteq> None \<Longrightarrow> sink (sessions srv') a' s' = sink (sessions srv) a' s'"
    and "sink (sessions srv') a' s' \<noteq> None \<Longrightarrow>
         sink (sessions srv) a' s' \<noteq> None \<or> hm_get (registrations srv) (actor_type a') \<noteq> None"
    using fr fresh r by (cases; auto simp: sink_unregister split: if_splits)+
qed

text \<open>Opening a Session either leaves the registries alone or begins the Session locally.\<close>

lemma inbound_session_open_begins:
  fixes srv :: "('a, 'w, 'c, 's) server"
  assumes "inbound_session_open T S tx now v reply raw a sid c srv w = (p, srv', w')"
  shows "(sessions srv' = sessions srv \<and> registrations srv' = registrations srv)
    \<or> (\<exists>snk b cap q. open_local_session_begin T now a sid snk c b (srv\<lparr>capacity := cap\<rparr>) = (q, srv'))"
proof (cases "v \<and> reply \<noteq> None")
  case False
  then have "srv' = srv" using assms by (cases v) (auto simp: inbound_session_open_def)
  then show ?thesis by simp
next
  case True
  then obtain k where k: "reply = Some k" and v by auto
  have begun: "\<exists>q. st = (q, srv')" if "inbound_opening tx reply raw a sid c st w1 = (p, srv', w')"
    for st :: "open_progress \<times> ('a, 'w, 'c, 's) server" and w1
    using that by (cases st) (auto simp: inbound_opening_def split: open_progress.splits)
  show ?thesis
  proof (cases "cluster srv")
    case None
    then obtain q where "open_local_session_begin T now a sid (Remote k) c False srv = (q, srv')"
      using assms begun [of "open_local_session_begin T now a sid (Remote k) c False srv" w] \<open>v\<close> k
      by (auto simp: inbound_session_open_def)
    then have "open_local_session_begin T now a sid (Remote k) c False
        (srv\<lparr>capacity := capacity srv\<rparr>) = (q, srv')" by simp
    then show ?thesis by blast
  next
    case (Some r)
    obtain x cap w1 where res: "resolve T S r a (capacity srv) w = (x, cap, w1)" by (metis prod_cases3)
    show ?thesis
    proof (cases "\<exists>b. x = Ok (Local b)")
      case False
      then have "srv' = srv\<lparr>capacity := cap\<rparr>"
        using assms \<open>v\<close> k Some res
        by (auto simp: inbound_session_open_def split: sum.splits resolved_owner.splits)
      then show ?thesis by simp
    next
      case True
      then obtain b where "x = Ok (Local b)" by blast
      then show ?thesis
        using assms begun [of "open_local_session_begin T now a sid (Remote k) c b (srv\<lparr>capacity := cap\<rparr>)" w1]
          \<open>v\<close> k Some res
        by (simp add: inbound_session_open_def) blast
    qed
  qed
qed

lemma inbound_session_open_sink:
  fixes srv :: "('a, 'w, 'c, 's) server"
  assumes "inbound_session_open T S tx now v reply raw a sid c srv w = (p, srv', w')"
  shows "registrations srv' = registrations srv"
    and "sink (sessions srv) a' s' \<noteq> None \<Longrightarrow> sink (sessions srv') a' s' = sink (sessions srv) a' s'"
    and "sink (sessions srv') a' s' \<noteq> None \<Longrightarrow>
         sink (sessions srv) a' s' \<noteq> None \<or> hm_get (registrations srv) (actor_type a') \<noteq> None"
  using inbound_session_open_begins [OF assms]
    open_begin_sink(1) open_begin_sink(2) [of T now a sid _ c _ "srv\<lparr>capacity := _\<rparr>" _ srv' a' s']
    open_begin_sink(3) [of T now a sid _ c _ "srv\<lparr>capacity := _\<rparr>" _ srv' a' s']
  by fastforce+

section \<open>Isolation of connections\<close>

lemma dispatch_remote_action_frame:
  assumes "dispatch_remote_message T now a sid (Some p) srv = (x, srv')"
  shows "sessions srv' = sessions srv \<and> registrations srv' = registrations srv"
  using assms by (auto simp: dispatch_remote_message_def split: if_splits dest!: dispatch_message_frame)

text \<open>How one inbound envelope changes the Server, by kind.\<close>

lemma dispatch_inbound_cases:
  assumes "dispatch_inbound T S tx now c env reply srv w = (q, srv', w')"
  obtains (frame) "sessions srv' = sessions srv" "registrations srv' = registrations srv"
      "q = InboundPanicked \<longrightarrow> (\<exists>a sid p. sink (sessions srv) a sid \<noteq> None
         \<and> fst (dispatch_message T now a (Action sid p) False srv) = None)"
    | (session_open) v raw a sid where "inbound_session_open T S tx now v reply raw a sid c srv w = (q, srv', w')"
    | (closing) a sid where "bound_reply srv a sid reply" "srv' = close_local_session T a sid srv" "q = InboundDone"
proof (cases "\<exists>k sid a. env_kind env = Some k \<and> SessionId_from_bytes (env_session_id env) = Some sid
      \<and> actor_address_from_envelope (env_actor_type env) (env_actor_id env) = Some a")
  case False
  then have "srv' = srv" "q = InboundDone"
    using assms by (auto simp: dispatch_inbound_def split: option.splits)
  then show thesis by (intro frame) simp_all
next
  case True
  then obtain k sid a where parsed: "env_kind env = Some k" "SessionId_from_bytes (env_session_id env) = Some sid"
    "actor_address_from_envelope (env_actor_type env) (env_actor_id env) = Some a" by blast
  note def = dispatch_inbound_def Let_def parsed
  show thesis
  proof (cases k)
    case (Kind_Action p)
    show thesis
    proof (cases "protocol_version env = transport_protocol_version srv \<and> bound_reply srv a sid reply")
      case False
      then have "srv' = srv" "q = InboundDone"
        using assms Kind_Action by (auto simp: def split: if_splits)
      then show thesis by (intro frame) simp_all
    next
      case True
      obtain x srv1 where d: "dispatch_remote_message T now a sid (Some p) srv = (x, srv1)" by fastforce
      have "srv' = srv1" "q = InboundPanicked \<longrightarrow> x = None"
        using assms Kind_Action True d by (auto simp: def split: option.splits sum.splits)
      moreover have "x = None \<longrightarrow> sink (sessions srv) a sid \<noteq> None
          \<and> fst (dispatch_message T now a (Action sid p) False srv) = None"
        using d by (auto simp: dispatch_remote_message_def split: if_splits)
      ultimately show thesis using frame dispatch_remote_action_frame [OF d] by metis
    qed
  next
    case Kind_SessionOpen
    then show thesis using assms by (intro session_open) (simp add: def)
  next
    case (Kind_SessionClose x)
    then show thesis
      using assms closing [of a sid] frame by (auto simp: def split: if_splits)
  qed (use assms frame in \<open>auto simp: def\<close>)
qed

lemma bound_reply_iff: "bound_reply srv a sid (Some k) \<longleftrightarrow> sink (sessions srv) a sid = Some (Remote k)"
  by (simp add: bound_reply_def is_bound_to_iff is_some_and_def)

text \<open>Sessions belong to registered types, registered types can be activated.\<close>

definition mailboxes_fit :: "('a, 'w, 'c, 's) server \<Rightarrow> bool" where
  "mailboxes_fit srv \<longleftrightarrow>
     (\<forall>ty reg cap. hm_get (registrations srv) ty = Some reg \<longrightarrow> mailbox_capacity reg = Some cap \<longrightarrow>
        unat cap \<le> MAX_PERMITS)"

definition hosting_ok :: "('a, 'w, 'c, 's) server \<Rightarrow> bool" where
  "hosting_ok srv \<longleftrightarrow>
     config_ok srv \<and> mailboxes_fit srv
     \<and> (\<forall>ty reg a. hm_get (registrations srv) ty = Some reg \<longrightarrow> reg_create reg a \<noteq> Unwound)
     \<and> (\<forall>a s. sink (sessions srv) a s \<noteq> None \<longrightarrow> hm_get (registrations srv) (actor_type a) \<noteq> None)"

lemma spawn_actor_hosted:
  assumes "hosting_ok srv" and "hm_get (registrations srv) (actor_type a) = Some reg"
    and "registrations srv1 = registrations srv"
  shows "spawn_actor T a g srv1 \<noteq> None"
proof -
  have reg: "idle_timeout reg \<noteq> None \<and> (\<exists>c. mailbox_capacity reg = Some c \<and> c \<noteq> 0)"
    using assms(1,2) unfolding hosting_ok_def config_ok_def mailboxes_fit_def by blast
  then obtain d c where "idle_timeout reg = Some d" "mailbox_capacity reg = Some c" "c \<noteq> 0" by blast
  moreover have "\<not> MAX_PERMITS < unat c"
    using assms(1,2) calculation(2) unfolding hosting_ok_def mailboxes_fit_def by (metis not_less)
  moreover obtain actor where "reg_create reg a = Returned actor"
    using assms(1,2) by (metis caught.exhaust hosting_ok_def)
  ultimately show ?thesis using assms(2,3) by (simp add: spawn_actor_def)
qed

lemma activate_route_hosted:
  assumes "hosting_ok srv" and "hm_get (registrations srv) (actor_type a) = Some reg"
    and "registrations srv1 = registrations srv"
  shows "fst (activate_route T a m b srv1) \<noteq> None"
proof (cases "if b then Some (capacity srv1) else tk_try_acquire T (capacity srv1)")
  case None
  then show ?thesis by (simp add: activate_route_def)
next
  case (Some cap)
  obtain t where "spawn_actor T a (next_generation srv1) (srv1\<lparr>capacity := cap,
      next_generation := next_generation srv1 + 1, next_task := Suc (next_task srv1)\<rparr>) = Some t"
    using spawn_actor_hosted [OF assms(1,2), of "srv1\<lparr>capacity := cap,
      next_generation := next_generation srv1 + 1, next_task := Suc (next_task srv1)\<rparr>"] assms(3)
    by fastforce
  then show ?thesis using Some by (simp add: activate_route_def Let_def split: prod.splits)
qed

lemma dispatch_message_hosted:
  assumes "hosting_ok srv" and "hm_get (registrations srv) (actor_type a) = Some reg"
  shows "fst (dispatch_message T now a m b srv) \<noteq> None"
proof -
  note act = activate_route_hosted [OF assms]
  have "fst (dispatch_commit T a m b srv) \<noteq> None"
  proof (cases "\<exists>route t. hm_get (actors srv) a = Some route \<and> rt_state route = Active
      \<and> hm_get (tasks srv) (rt_task route) = Some t")
    case True
    then obtain route t where r: "hm_get (actors srv) a = Some route" "rt_state route = Active"
      "hm_get (tasks srv) (rt_task route) = Some t" by blast
    obtain y srv1 where send: "mailbox_try_send T t (rt_task route) m srv = (y, srv1)" by fastforce
    have "registrations (drop_route T a srv1) = registrations srv"
      using mailbox_try_send_other [OF send] by simp
    then show ?thesis
      using r send act [of "drop_route T a srv1"] by (cases y) (auto simp: dispatch_commit_def)
  next
    case False
    then show ?thesis
      using act [of srv] act [of "drop_route T a srv"]
      by (auto simp: dispatch_commit_def split: option.splits route_state.splits)
  qed
  then show ?thesis by (simp add: dispatch_message_def split: option.splits)
qed

lemma open_begin_hosted:
  assumes "hosting_ok srv"
  shows "fst (open_local_session_begin T now a sid snk c b srv) \<noteq> OpenPanicked"
proof (cases "hm_get (registrations srv) (actor_type a)")
  case None
  then show ?thesis by (simp add: open_local_session_begin_def)
next
  case (Some reg)
  obtain fresh r where reg: "register_actor (sessions srv) a sid snk = (fresh, r)" by fastforce
  have ok: "hosting_ok (srv\<lparr>sessions := r\<rparr>)"
  proof -
    have "hm_get (registrations srv) (actor_type a') \<noteq> None" if "sink r a' s' \<noteq> None" for a' s'
      using that assms Some sink_register [of "sessions srv" a sid snk a' s'] reg
      unfolding hosting_ok_def by (metis (no_types, lifting) option.distinct(1) prod.inject snd_conv)
    then show ?thesis using assms by (simp add: hosting_ok_def config_ok_def mailboxes_fit_def)
  qed
  have "fst (dispatch_message T now a (SessionOpened sid c) b (srv\<lparr>sessions := r\<rparr>)) \<noteq> None"
    using dispatch_message_hosted [OF ok] Some by simp
  then show ?thesis
    using Some reg
    by (auto simp: open_local_session_begin_def split: bool.splits prod.splits option.splits sum.splits)
qed

lemma hosting_ok_capacity [simp]: "hosting_ok (srv\<lparr>capacity := x\<rparr>) = hosting_ok srv"
  by (simp add: hosting_ok_def config_ok_def mailboxes_fit_def)

lemma inbound_session_open_hosted:
  assumes "hosting_ok srv"
  shows "fst (inbound_session_open T S tx now v reply raw a sid c srv w) \<noteq> InboundPanicked"
proof -
  have [simp]: "fst (inbound_opening tx reply' raw a sid c
      (open_local_session_begin T now a sid snk c b (srv\<lparr>capacity := x\<rparr>)) w1) \<noteq> InboundPanicked" for reply' snk b x w1
    using open_begin_hosted [of "srv\<lparr>capacity := x\<rparr>" T now a sid snk c b] assms
    by (cases "open_local_session_begin T now a sid snk c b (srv\<lparr>capacity := x\<rparr>)")
      (auto simp: inbound_opening_def split: open_progress.splits)
  have [simp]: "fst (inbound_opening tx reply' raw a sid c
      (open_local_session_begin T now a sid snk c b srv) w1) \<noteq> InboundPanicked" for reply' snk b w1
    using open_begin_hosted [of srv T now a sid snk c b] assms
    by (cases "open_local_session_begin T now a sid snk c b srv")
      (auto simp: inbound_opening_def split: open_progress.splits)
  show ?thesis
    by (simp add: inbound_session_open_def split: option.splits prod.splits sum.splits resolved_owner.splits)
qed

section \<open>Properties\<close>

text \<open>
  C7. Capacity is conserved under every interleaving of the runtime's tasks: at any moment the
  free permits, the Routes and the reservations in flight add up to \<open>max_active_actors\<close>, so
  no path leaks a permit or admits an Actor too many (as long as the process has activated
  fewer than \<open>2 ^ 64\<close> Actors, when the generation counter would repeat).
\<close>

theorem capacity_conserved:
  assumes "mailbox_tokio T queued closed" and "rt_reach T (held, srv)" and "next_task srv \<le> 2 ^ 64"
  shows "tk_available T (capacity srv) + length (actors srv) + held = unat (max_active_actors srv)"
  using mailbox_tokio.rt_reach_inv [OF assms(1,2)] assms(3) by (simp add: server_inv_def permits_ok_def)

text \<open>
  C8. Idle deactivation loses no accepted message: under every interleaving, a Route that is
  \<open>Deactivating\<close> has an empty mailbox, the one of the very task that set the state, and
  every dispatch to the address, with a reservation or without, is refused: past admission with
  \<open>ActorDeactivating\<close>, else with the error of the admission check.  Either way the Server stays as
  it is, but for the permit of a reservation, which is given back.
\<close>

theorem deactivation_loses_nothing:
  assumes "mailbox_tokio T queued closed" and "rt_reach T (held, srv)" and "next_task srv \<le> 2 ^ 64"
    and "hm_get (actors srv) a = Some route" and "rt_state route = Deactivating"
  shows "(\<exists>t. hm_get (tasks srv) (rt_task route) = Some t \<and> task_address t = a
       \<and> task_generation t = rt_generation route \<and> queued (mailbox t) = [])
     \<and> dispatch_commit T a m reservation srv =
         (Some (Err ActorDeactivating), drop_reservation T reservation srv)
     \<and> dispatch_message T now a m reservation srv =
         (Some (Err (case dispatch_admission now srv of Some e \<Rightarrow> e | None \<Rightarrow> ActorDeactivating)),
          drop_reservation T reservation srv)"
  using mailbox_tokio.rt_reach_inv [OF assms(1,2)] assms(3-5)
  by (auto simp: server_inv_def routes_ok_def route_ok_def dispatch_commit_def dispatch_message_def
      split: option.splits)

text \<open>
  C15. A dispatch is all or nothing.  It answers \<open>Ok\<close> exactly when the message has been appended to
  the open mailbox of the address's live Actor, whose Route is kept, or has become the only message
  of a newly started Actor, which happens only where the address had no live and no Deactivating
  one; all other mailboxes are as before.  On every error all mailboxes are as before.
\<close>

theorem dispatch_all_or_nothing:
  assumes "mailbox_tokio T queued closed" and "dispatch_message T now a m reservation srv = (x, srv')"
  shows "(x = Some (Ok ()) \<longleftrightarrow> delivered_to queued closed a m srv srv')
     \<and> (x \<noteq> Some (Ok ()) \<longrightarrow> queues queued srv' = queues queued srv)"
  using mailbox_tokio.dispatch_message_outcome [OF assms] refused_queues refused_not_delivered by blast

lemma inbound_opened_sink:
  "sink (sessions (fst (inbound_opened tx reply b sid received srv w))) a s =
     (if (a, s) = (b, sid) \<and> received \<noteq> Some (Ok ()) then None else sink (sessions srv) a s)"
  by (auto simp: inbound_opened_def open_local_session_finish_def Let_def sink_unregister
      split: option.splits sum.splits)

text \<open>
  C17. Sessions are isolated between connections while an envelope is handled.  Whatever envelope one
  connection sends, a live Session bound to another connection stays registered and bound to it up
  to the point where an open waits for its Actor.  When the wait ends, a successful open leaves every
  Session alone, and a failed one removes the address and Session ID it had registered and no
  other; it does so without a look at whom that entry is bound to by then.
\<close>

theorem session_isolation:
  assumes "sink (sessions srv) a s = Some (Remote k')" and "k' \<noteq> k"
  shows "(dispatch_inbound T S tx now c env (Some k) srv w = (q, srv', w') \<longrightarrow>
       sink (sessions srv') a s = Some (Remote k'))
     \<and> sink (sessions (fst (inbound_opened tx (Some k) b sid received srv w))) a s =
         (if (a, s) = (b, sid) \<and> received \<noteq> Some (Ok ()) then None else Some (Remote k'))"
proof (intro conjI impI)
  show "sink (sessions (fst (inbound_opened tx (Some k) b sid received srv w))) a s =
      (if (a, s) = (b, sid) \<and> received \<noteq> Some (Ok ()) then None else Some (Remote k'))"
    using assms(1) by (simp add: inbound_opened_sink)
next
  assume "dispatch_inbound T S tx now c env (Some k) srv w = (q, srv', w')"
  then show "sink (sessions srv') a s = Some (Remote k')"
  proof (cases rule: dispatch_inbound_cases)
    case frame
    then show ?thesis using assms(1) by simp
  next
    case (session_open v raw b sid)
    then show ?thesis using inbound_session_open_sink(2) [OF session_open, of a s] assms(1) by simp
  next
    case (closing b sid)
    then have "(a, s) \<noteq> (b, sid)" using assms(1,2) by (auto simp: bound_reply_iff)
    then show ?thesis using closing assms(1) by (simp add: close_local_session_sink)
  qed
qed

text \<open>A capacity the builder lets pass and \<open>mpsc::channel\<close> does not.\<close>

lemma oversized_mailbox_panics:
  assumes "hm_get (registrations srv) (actor_type a) = Some reg" and "mailbox_capacity reg = Some cap"
    and "MAX_PERMITS < unat cap"
  shows "spawn_actor T a g srv = None"
  using assms by (auto simp: spawn_actor_def split: option.splits caught.splits)

text \<open>
  C28. No inbound envelope can make the dispatcher panic on a Server with the configuration the
  builder gives, if the consumer's constructors return and no configured mailbox capacity exceeds
  \<open>MAX_PERMITS\<close>, which the builder does not check: the \<open>expect\<close>s of \<open>spawn_actor\<close> cannot fail, because
  Sessions, and so Actions, exist for registered types only, its channel can be made; and this stays so.
\<close>

theorem dispatch_inbound_no_panic:
  assumes "hosting_ok srv" and "dispatch_inbound T S tx now c env reply srv w = (q, srv', w')"
  shows "q \<noteq> InboundPanicked \<and> hosting_ok srv'"
  using assms(2)
proof (cases rule: dispatch_inbound_cases)
  case frame
  have "fst (dispatch_message T now a (Action sid p) False srv) \<noteq> None"
    if "sink (sessions srv) a sid \<noteq> None" for a sid p
    using dispatch_message_hosted [OF assms(1)] that assms(1) unfolding hosting_ok_def by blast
  then have "q \<noteq> InboundPanicked" using frame(3) by blast
  moreover have "hosting_ok srv'" using frame(1,2) assms(1) by (simp add: hosting_ok_def config_ok_def mailboxes_fit_def)
  ultimately show ?thesis by blast
next
  case (session_open v raw b sid)
  have "hm_get (registrations srv) (actor_type a) \<noteq> None" if "sink (sessions srv') a s \<noteq> None" for a s
    using inbound_session_open_sink(3) [OF session_open that] assms(1) unfolding hosting_ok_def by blast
  then have "hosting_ok srv'"
    using inbound_session_open_sink(1) [OF session_open] assms(1) by (simp add: hosting_ok_def config_ok_def mailboxes_fit_def)
  then show ?thesis
    using inbound_session_open_hosted [OF assms(1), of T S tx now v reply raw b sid c w] session_open by simp
next
  case (closing b sid)
  have "sink (sessions srv) a s \<noteq> None" if "sink (sessions srv') a s \<noteq> None" for a s
    using that closing(2) close_local_session_sink [of T b sid srv a s] by (simp split: if_splits)
  moreover have regs: "registrations srv' = registrations srv" using closing(2) by simp
  ultimately have "hosting_ok srv'"
    using assms(1) unfolding hosting_ok_def config_ok_def mailboxes_fit_def regs by blast
  then show ?thesis using closing(3) by simp
qed

section \<open>A concrete Server\<close>

text \<open>An Actor Type that counts its Actions and fails on an empty one; mailbox of two.\<close>

type_synonym sent = "(sender_id \<times> envelope) list"

definition record_tx :: "sent transport" where
  "record_tx k env w = (Ok (), (k, env) # w)"

definition counting :: "(nat, sent) registration" where
  "counting =
     \<lparr>reg_name = '''', reg_create = (\<lambda>_. Returned 0),
      reg_activate = (\<lambda>_ _ n w. (Returned (Ok ()), n, w)),
      reg_deactivate = (\<lambda>_ _ _ n w. (Done (Returned ()), n, w)),
      reg_handle = (\<lambda>_ _ _ p n w.
         if p = [] then (Unwound, n, w) else (Returned Completed, Suc n, w)),
      reg_session_opened = (\<lambda>_ _ _ n w. (Returned (), n, w)),
      reg_session_closed = (\<lambda>_ _ _ n w. (Returned (), n, w)),
      mailbox_capacity = None, idle_timeout = None\<rparr>"

definition counting_builder :: "(nat, sent) builder_core" where
  "counting_builder =
     add_actor counting \<lparr>ac_name = ''room'', ac_mailbox_capacity = Some 2, ac_idle_timeout = None\<rparr>
       ServerBuilderCore_base"

abbreviation room :: actor_address where
  "room \<equiv> \<lparr>actor_type = ''room'', actor_id = ''1''\<rparr>"

abbreviation sid0 :: session_id where
  "sid0 \<equiv> SessionId (replicate 16 0)"

abbreviation mbox_tokio :: "(mailbox_message, mailbox_message bounded_channel, nat) tokio" where
  "mbox_tokio \<equiv> bounded_tokio"

definition fresh_server :: "(nat, sent, mailbox_message bounded_channel, nat) server" where
  "fresh_server = initial_server mbox_tokio counting_builder None None"

text \<open>The same Server after a Session has been opened and its message is queued.\<close>

definition busy_server :: "(nat, sent, mailbox_message bounded_channel, nat) server" where
  "busy_server =
     snd (dispatch_commit mbox_tokio room (SessionOpened sid0 0) False
       (fresh_server\<lparr>sessions := snd (register_actor SessionRegistry_new room sid0 (Remote 7))\<rparr>))"

lemmas demo_exec = counting_def counting_builder_def add_actor_def Registration_of_def
  ServerBuilderCore_base_def Let_def configured_def hm_exec_simps

lemma dns_label_room: "is_dns_label ''room''"
  by code_simp

lemma builder_ok_counting: "builder_ok counting_builder"
  by (simp add: builder_ok_def demo_exec from_secs_def dns_label_room)

lemma build_fresh: "build_with_authority mbox_tokio counting_builder None None = Some (Ok fresh_server)"
  by (simp add: build_Ok_iff builder_ok_counting fresh_server_def) (simp add: demo_exec MAX_PERMITS_def)

lemma fresh_server_eq:
  "fresh_server =
     \<lparr>registrations = [(''room'', counting\<lparr>reg_name := ''room'', mailbox_capacity := Some 2,
        idle_timeout := Some (from_secs 60)\<rparr>)],
      actors = [], sessions = [], capacity = 10000, max_active_actors = 10000,
      deactivation_timeout = from_secs 5, next_generation = 1, status = 0,
      shutdown_timeout = from_secs 30, transport_protocol_version = TRANSPORT_PROTOCOL_VERSION,
      authority = None, cluster = None, inbound_tasks = [], tasks = [], next_task = 0, answers = []\<rparr>"
  by (simp add: fresh_server_def initial_server_def demo_exec RUNNING_def SessionRegistry_new_def)

lemma busy_server_eq:
  "busy_server =
     fresh_server\<lparr>actors := [(room, \<lparr>rt_generation = 1, rt_state = Active, rt_task = 0\<rparr>)],
       sessions := [(room, [(sid0, Remote 7)])], capacity := 9999, next_generation := 2,
       tasks := [(0, \<lparr>task_address = room, task_generation = 1, task_actor = 0,
          mailbox = \<lparr>bc_queue = [SessionOpened sid0 0], bc_max = 2, bc_closed = False\<rparr>,
          shutdown_flag = False, shutdown_changed = False, task_aborted = False,
          task_completed = False\<rparr>)],
       next_task := 1\<rparr>"
  by (simp add: busy_server_def fresh_server_eq dispatch_commit_def activate_route_def spawn_actor_def
      Let_def bounded_try_send_def register_actor_def SessionRegistry_new_def hm_exec_simps counting_def MAX_PERMITS_def)

lemma busy_reach: "rt_reach mbox_tokio (0, busy_server)"
proof -
  let ?reg = "fresh_server\<lparr>sessions := snd (register_actor SessionRegistry_new room sid0 (Remote 7))\<rparr>"
  have "rt_reach mbox_tokio (0, ?reg)"
    using rt_reach.next_step [OF rt_reach.built [OF build_fresh] rt_step.other [where held = 0 and srv = fresh_server
        and r = "snd (register_actor SessionRegistry_new room sid0 (Remote 7))" and st = "status fresh_server"
        and au = "authority fresh_server" and it = "inbound_tasks fresh_server" and an = "answers fresh_server"]]
    by simp
  moreover obtain x where "dispatch_commit mbox_tokio room (SessionOpened sid0 0) False ?reg = (x, busy_server)"
    by (metis busy_server_def prod.collapse)
  then have "rt_step mbox_tokio (0, ?reg) (0, busy_server)"
    by (rule rt_step.commit) simp
  ultimately show ?thesis by (rule rt_reach.next_step)
qed

text \<open>The Session has gone, the message was served, and the task starts to deactivate.\<close>

abbreviation served_task :: "(nat, mailbox_message bounded_channel) actor_task" where
  "served_task \<equiv>
     \<lparr>task_address = room, task_generation = 1, task_actor = 0,
      mailbox = \<lparr>bc_queue = [], bc_max = 2, bc_closed = False\<rparr>,
      shutdown_flag = False, shutdown_changed = False, task_aborted = False, task_completed = False\<rparr>"

definition idle_server :: "(nat, sent, mailbox_message bounded_channel, nat) server" where
  "idle_server =
     busy_server\<lparr>actors := [(room, \<lparr>rt_generation = 1, rt_state = Deactivating, rt_task = 0\<rparr>)],
       tasks := [(0, served_task)]\<rparr>"

lemma idle_reach: "rt_reach mbox_tokio (0, idle_server)"
proof -
  let ?served = "busy_server\<lparr>tasks := [(0, served_task)]\<rparr>"
  have "rt_step mbox_tokio (0, busy_server) (0, ?served)"
    using rt_step.task [of busy_server 0 _ mbox_tokio _ 0, OF _ task_change.recv]
    by (fastforce simp: busy_server_eq bounded_try_recv_def hm_exec_simps)
  then have "rt_reach mbox_tokio (0, ?served)" by (rule rt_reach.next_step [OF busy_reach])
  moreover have "rt_step mbox_tokio (0, ?served) (0, idle_server)"
    using rt_step.deactivate [of ?served 0 served_task mbox_tokio 0]
    by (simp add: idle_server_def busy_server_eq fresh_server_eq begin_deactivation_def hm_exec_simps)
  ultimately show ?thesis by (rule rt_reach.next_step)
qed

theorem capacity_conserved_witness:
  "tk_available mbox_tokio (capacity busy_server) + length (actors busy_server) = 10000"
  using capacity_conserved [OF bm.mailbox_tokio_axioms busy_reach]
  by (simp add: busy_server_eq fresh_server_eq)

theorem deactivation_loses_nothing_witness:
  "dispatch_message mbox_tokio 0 room (Action sid0 [1]) True idle_server =
     (Some (Err ActorDeactivating), drop_reservation mbox_tokio True idle_server)"
proof -
  have "dispatch_admission 0 idle_server = None"
    by (simp add: dispatch_admission_def idle_server_def busy_server_eq fresh_server_eq RUNNING_def)
  then show ?thesis
    using deactivation_loses_nothing [OF bm.mailbox_tokio_axioms idle_reach,
        of room "\<lparr>rt_generation = 1, rt_state = Deactivating, rt_task = 0\<rparr>" "Action sid0 [1]" True 0]
    by (simp add: idle_server_def busy_server_eq)
qed

theorem dispatch_all_or_nothing_witness:
  "delivered_to bc_queue bc_closed room (Action sid0 [1]) busy_server
     (snd (dispatch_message mbox_tokio 0 room (Action sid0 [1]) False busy_server))"
proof -
  have "fst (dispatch_message mbox_tokio 0 room (Action sid0 [1]) False busy_server) = Some (Ok ())"
    by (simp add: dispatch_message_def dispatch_admission_def dispatch_commit_def busy_server_eq
        fresh_server_eq RUNNING_def mailbox_try_send_def bounded_try_send_def)
  then show ?thesis
    using dispatch_all_or_nothing [OF bm.mailbox_tokio_axioms prod.collapse [symmetric]] by blast
qed

text \<open>Another connection tries to close the Session.\<close>

abbreviation nowhere :: "'w coordination_store" where
  "nowhere \<equiv>
     \<lparr>cs_read_node = (\<lambda>_ _ w. (Elapsed, w)), cs_list_nodes = (\<lambda>_ w. (Elapsed, w)),
      cs_read_node_lease = (\<lambda>_ _ w. (Elapsed, w)), cs_acquire_node = (\<lambda>_ _ _ w. (Elapsed, w)),
      cs_renew_node = (\<lambda>_ _ _ _ w. (Elapsed, w)), cs_release_node = (\<lambda>_ _ w. (Err Unavailable, w)),
      cs_read_actor_owner = (\<lambda>_ _ w. (Elapsed, w)),
      cs_compare_exchange_actor_owner = (\<lambda>_ _ _ _ w. (Elapsed, w))\<rparr>"

theorem session_isolation_witness:
  "sink (sessions (fst (snd (dispatch_inbound mbox_tokio nowhere record_tx 0 1
       (envelope_session_close room sid0) (Some 8) busy_server [])))) room sid0 = Some (Remote 7)
   \<and> sink (sessions (fst (inbound_opened record_tx (Some 8) room sid0 (Some (Err ActorStopped)) busy_server []))) room sid0 = None"
proof -
  obtain q srv' w' where d: "dispatch_inbound mbox_tokio nowhere record_tx 0 1
       (envelope_session_close room sid0) (Some 8) busy_server [] = (q, srv', w')"
    by (metis prod_cases3)
  have s: "sink (sessions busy_server) room sid0 = Some (Remote 7)"
    by (simp add: busy_server_eq fresh_server_eq sink_def)
  show ?thesis
    using session_isolation [OF s, of 8 mbox_tokio nowhere record_tx 0 1 "envelope_session_close room sid0" "[]" q srv' w'
        room sid0 "Some (Err ActorStopped)"] d by simp
qed

theorem dispatch_inbound_no_panic_witness:
  "fst (dispatch_inbound mbox_tokio nowhere record_tx 0 1
       (envelope_session_open room sid0) (Some 8) fresh_server []) \<noteq> InboundPanicked"
proof -
  have "hosting_ok fresh_server"
    using build_config_ok [OF build_fresh]
    by (simp add: hosting_ok_def fresh_server_eq sink_def counting_def mailboxes_fit_def MAX_PERMITS_def)
  then show ?thesis
    using dispatch_inbound_no_panic [of fresh_server mbox_tokio nowhere record_tx 0 1
        "envelope_session_open room sid0" "Some 8" "[]"] by (metis prod.collapse)
qed

end
