(* ===== verification/Lifecycle_Properties.thy ===== *)
theory Lifecycle_Properties
  imports Runtime_Properties
begin

text \<open>
  What the Actor task and the end of a Server guarantee: a failed activation answers every
  waiting caller and leaves nothing behind; a drain runs the consumer's handlers over the
  queued messages in order; an Actor deactivates for idleness only without Sessions and
  messages; shutdown and fence leave no Route, no Session and all capacity; the capacity a
  node reports is exact; and the commit of a dispatch admitted before a fence revives an
  Actor after it.
\<close>

section \<open>Small frames\<close>

lemma answer_answers:
  "answers (answer m x srv) =
     (case m of SessionOpened _ c \<Rightarrow> (c, x) # answers srv | _ \<Rightarrow> answers srv)"
  by (simp add: answer_def split: mailbox_message.splits)

lemma update_task_get [simp]:
  "hm_get (tasks (update_task tid f srv)) tid' =
     (if tid' = tid then map_option f (hm_get (tasks srv) tid) else hm_get (tasks srv) tid')"
  by (simp add: update_task_def split: option.splits)

lemma update_task_answers [simp]: "answers (update_task tid f srv) = answers srv"
  by (simp add: update_task_def split: option.splits)

lemma remove_route_other [simp]:
  "tasks (remove_route T a g srv) = tasks srv" "answers (remove_route T a g srv) = answers srv"
  "sessions (remove_route T a g srv) = sessions srv" "status (remove_route T a g srv) = status srv"
  by (simp_all add: remove_route_def drop_route_def split: option.splits)

lemma remove_route_get:
  "hm_get (actors (remove_route T a g srv)) b =
     (if b = a \<and> is_some_and (\<lambda>r. rt_generation r = g) (hm_get (actors srv) a) then None
      else hm_get (actors srv) b)"
  by (auto simp: remove_route_def drop_route_def split: option.splits)

lemma remove_route_gone [simp]:
  "\<not> is_some_and (\<lambda>r. rt_generation r = g) (hm_get (actors (remove_route T a g srv)) a)"
  by (simp add: remove_route_get)

lemma guard_drop_frame [simp]:
  "sessions (task_guard_drop T tid t srv) = sessions srv" "answers (task_guard_drop T tid t srv) = answers srv"
  "actors (task_guard_drop T tid t srv) = actors (remove_route T (task_address t) (task_generation t) srv)"
  "hm_get (tasks (task_guard_drop T tid t srv)) tid =
     map_option (\<lambda>t. t\<lparr>task_completed := True, mailbox := tk_close T (mailbox t)\<rparr>) (hm_get (tasks srv) tid)"
  by (simp_all add: task_guard_drop_def option.map_comp comp_def)

lemma terminate_sessions_snd:
  assumes "terminate_sessions tx a e (srv, w) = (srv', w')"
  shows "actors srv' = actors srv" "tasks srv' = tasks srv" "answers srv' = answers srv"
    "sink (sessions srv') b s = (if b = a then None else sink (sessions srv) b s)"
  using assms sink_terminate_all [of tx a e "(sessions srv, w)" b s]
  by (auto simp: terminate_sessions_def split: prod.splits)

section \<open>Failed activation\<close>

text \<open>The answers a list of messages gets when all of it is failed with one error.\<close>

definition failures :: "send_error \<Rightarrow> mailbox_message list \<Rightarrow> (oneshot_id \<times> (send_error + unit)) list" where
  "failures e ms = List.map_filter (\<lambda>m. case m of SessionOpened _ c \<Rightarrow> Some (c, Err e) | _ \<Rightarrow> None) ms"

context mailbox_tokio
begin

lemma receive_cons:
  assumes "hm_get (tasks srv) tid = Some t" and "queued (mailbox t) = m # ms"
  obtains c where "receive T tid srv =
      (Some (m, t\<lparr>mailbox := c\<rparr>), srv\<lparr>tasks := hm_insert tid (t\<lparr>mailbox := c\<rparr>) (tasks srv)\<rparr>)"
    and "queued c = ms" and "closed c = closed (mailbox t)"
proof -
  obtain x c where r: "tk_try_recv T (mailbox t) = (x, c)" by fastforce
  then show thesis
    using that [of c] assms try_recv_cons [OF assms(2)] by (simp add: receive_def Let_def)
qed

lemma receive_empty:
  "hm_get (tasks srv) tid = Some t \<Longrightarrow> queued (mailbox t) = [] \<Longrightarrow> receive T tid srv = (None, srv)"
  by (simp add: receive_def try_recv_empty)

lemma fail_pending_spec:
  assumes "hm_get (tasks srv) tid = Some t" and "length (queued (mailbox t)) \<le> n"
  shows "\<exists>c. hm_get (tasks (fail_pending n T tid e srv)) tid = Some (t\<lparr>mailbox := c\<rparr>)
     \<and> queued c = [] \<and> closed c = closed (mailbox t)
     \<and> set (answers (fail_pending n T tid e srv)) = set (failures e (queued (mailbox t))) \<union> set (answers srv)
     \<and> actors (fail_pending n T tid e srv) = actors srv \<and> sessions (fail_pending n T tid e srv) = sessions srv"
  using assms
proof (induction n arbitrary: srv t)
  case 0
  then show ?case by (intro exI [of _ "mailbox t"]) (simp add: failures_def)
next
  case (Suc n)
  show ?case
  proof (cases "queued (mailbox t)")
    case Nil
    then show ?thesis
      using Suc.prems receive_empty [of srv tid t] by (intro exI [of _ "mailbox t"]) (simp add: failures_def)
  next
    case (Cons m ms)
    obtain c where r: "receive T tid srv =
        (Some (m, t\<lparr>mailbox := c\<rparr>), srv\<lparr>tasks := hm_insert tid (t\<lparr>mailbox := c\<rparr>) (tasks srv)\<rparr>)"
      and c: "queued c = ms" "closed c = closed (mailbox t)"
      using receive_cons [OF Suc.prems(1) Cons] by blast
    let ?srv1 = "answer m (Err e) (srv\<lparr>tasks := hm_insert tid (t\<lparr>mailbox := c\<rparr>) (tasks srv)\<rparr>)"
    have "hm_get (tasks ?srv1) tid = Some (t\<lparr>mailbox := c\<rparr>)" by simp
    from Suc.IH [OF this] show ?thesis
      using Suc.prems(2) Cons c r
      by (auto simp: answer_answers failures_def map_filter_simps split: mailbox_message.splits)
  qed
qed

lemma activation_failed_spec:
  assumes inv: "server_inv T queued (held, srv)" and t: "hm_get (tasks srv) tid = Some t"
    and run: "activation_failed T tx tid t e (srv, w) = (srv', w')"
  shows "set (failures e (queued (mailbox t))) \<subseteq> set (answers srv')"
    and "\<not> is_some_and (\<lambda>r. rt_generation r = task_generation t) (hm_get (actors srv') (task_address t))"
    and "sink (sessions srv') (task_address t) s = None"
    and "\<exists>t'. hm_get (tasks srv') tid = Some t' \<and> task_completed t' \<and> queued (mailbox t') = [] \<and> closed (mailbox t')"
proof -
  let ?srv2 = "remove_route T (task_address t) (task_generation t) (close_mailbox T tid srv)"
  let ?srv3 = "fail_pending (tk_max_capacity T (mailbox t)) T tid e ?srv2"
  obtain srv4 w4 where tr: "terminate_sessions tx (task_address t) e (?srv3, w) = (srv4, w4)" by fastforce
  note tm = terminate_sessions_snd [OF tr]
  have srv': "srv' = task_guard_drop T tid t srv4"
    using run tr by (simp add: activation_failed_def Let_def)
  have t2: "hm_get (tasks ?srv2) tid = Some (t\<lparr>mailbox := tk_close T (mailbox t)\<rparr>)"
    using t by (simp add: close_mailbox_def)
  have "length (queued (mailbox (t\<lparr>mailbox := tk_close T (mailbox t)\<rparr>))) \<le> tk_max_capacity T (mailbox t)"
    using inv t by (auto simp: close_keeps server_inv_def tasks_ok_def)
  from fail_pending_spec [OF t2 this, of e]
  obtain c where c: "hm_get (tasks ?srv3) tid = Some (t\<lparr>mailbox := c\<rparr>)" "queued c = []"
    and ans: "set (failures e (queued (mailbox t))) \<subseteq> set (answers ?srv3)"
    and act: "actors ?srv3 = actors ?srv2"
    by (auto simp: close_keeps)
  show "set (failures e (queued (mailbox t))) \<subseteq> set (answers srv')" using ans tm(3) srv' by simp
  show "\<not> is_some_and (\<lambda>r. rt_generation r = task_generation t) (hm_get (actors srv') (task_address t))"
    using srv' by simp
  show "sink (sessions srv') (task_address t) s = None" using tm(4) srv' by simp
  show "\<exists>t'. hm_get (tasks srv') tid = Some t' \<and> task_completed t' \<and> queued (mailbox t') = [] \<and> closed (mailbox t')"
    using c tm(2) srv' by (simp add: close_keeps)
qed

end

section \<open>Drain\<close>

text \<open>
  The reference: the consumer's handlers folded over the messages in order, over the Actor's
  state, the answers given and the outside world, stopping at the first panic.
\<close>

fun run_message ::
  "('a, 'w) registration \<Rightarrow> registry \<Rightarrow> actor_address \<Rightarrow> mailbox_message
     \<Rightarrow> 'a \<times> (oneshot_id \<times> (send_error + unit)) list \<times> 'w
     \<Rightarrow> bool \<times> 'a \<times> (oneshot_id \<times> (send_error + unit)) list \<times> 'w" where
  "run_message reg r a (Action sid p) (x, an, w) =
     (case reg_handle reg r a sid p x w of (outcome, x', w') \<Rightarrow> (outcome = Returned Completed, x', an, w'))"
| "run_message reg r a (SessionOpened sid c) (x, an, w) =
     (case reg_session_opened reg r a sid x w of
        (Returned _, x', w') \<Rightarrow> (True, x', (c, Ok ()) # an, w')
      | (Unwound, x', w') \<Rightarrow> (False, x', (c, Err ActorStopped) # an, w'))"
| "run_message reg r a (SessionClosed sid) (x, an, w) =
     (case reg_session_closed reg r a sid x w of
        (Returned _, x', w') \<Rightarrow> (True, x', an, w')
      | (Unwound, x', w') \<Rightarrow> (False, x', an, w'))"

fun run_queue ::
  "('a, 'w) registration \<Rightarrow> registry \<Rightarrow> actor_address \<Rightarrow> mailbox_message list
     \<Rightarrow> 'a \<times> (oneshot_id \<times> (send_error + unit)) list \<times> 'w
     \<Rightarrow> bool \<times> 'a \<times> (oneshot_id \<times> (send_error + unit)) list \<times> 'w" where
  "run_queue reg r a [] st = (True, st)"
| "run_queue reg r a (m # ms) st =
     (case run_message reg r a m st of
        (True, st') \<Rightarrow> run_queue reg r a ms st'
      | (False, st') \<Rightarrow> (False, st'))"

lemma set_actor_get:
  "hm_get (tasks srv) tid = Some t \<Longrightarrow> hm_get (tasks (set_actor tid x srv)) tid = Some (t\<lparr>task_actor := x\<rparr>)"
  by (simp add: set_actor_def)

lemma set_actor_frame [simp]:
  "answers (set_actor tid x srv) = answers srv" "sessions (set_actor tid x srv) = sessions srv"
  "actors (set_actor tid x srv) = actors srv"
  by (simp_all add: set_actor_def)

lemma execute_message_runs:
  assumes "hm_get (tasks srv) tid = Some t" and "execute_message reg tid t m (srv, w) = (ok, srv', w')"
  shows "\<exists>x. hm_get (tasks srv') tid = Some (t\<lparr>task_actor := x\<rparr>) \<and> sessions srv' = sessions srv
     \<and> run_message reg (sessions srv) (task_address t) m (task_actor t, answers srv, w)
         = (ok, x, answers srv', w')"
  using assms
  by (cases m)
    (auto simp: execute_message_def answer_answers set_actor_get split: prod.splits caught.splits)

context mailbox_tokio
begin

lemma drain_runs:
  assumes "hm_get (tasks srv) tid = Some t" and "length (queued (mailbox t)) \<le> n"
    and "drain n T reg tid (srv, w) = (ok, srv', w')"
  shows "\<exists>x c. hm_get (tasks srv') tid = Some (t\<lparr>task_actor := x, mailbox := c\<rparr>)
     \<and> run_queue reg (sessions srv) (task_address t) (queued (mailbox t)) (task_actor t, answers srv, w)
         = (ok, x, answers srv', w')
     \<and> (ok \<longrightarrow> queued c = [])"
  using assms
proof (induction n arbitrary: srv t w)
  case 0
  then show ?case by (intro exI [of _ "task_actor t"] exI [of _ "mailbox t"]) simp
next
  case (Suc n)
  show ?case
  proof (cases "queued (mailbox t)")
    case Nil
    then have "drain (Suc n) T reg tid (srv, w) = (True, srv, w)"
      using receive_empty [OF Suc.prems(1) Nil] by simp
    then show ?thesis
      using Suc.prems Nil by (intro exI [of _ "task_actor t"] exI [of _ "mailbox t"]) simp
  next
    case (Cons m ms)
    obtain c where r: "receive T tid srv =
        (Some (m, t\<lparr>mailbox := c\<rparr>), srv\<lparr>tasks := hm_insert tid (t\<lparr>mailbox := c\<rparr>) (tasks srv)\<rparr>)"
      and c: "queued c = ms"
      using receive_cons [OF Suc.prems(1) Cons] by blast
    let ?srv1 = "srv\<lparr>tasks := hm_insert tid (t\<lparr>mailbox := c\<rparr>) (tasks srv)\<rparr>"
    obtain ok1 srv2 w2 where ex: "execute_message reg tid (t\<lparr>mailbox := c\<rparr>) m (?srv1, w) = (ok1, srv2, w2)"
      by (metis prod_cases3)
    have "hm_get (tasks ?srv1) tid = Some (t\<lparr>mailbox := c\<rparr>)" by simp
    from execute_message_runs [OF this ex]
    obtain x where x: "hm_get (tasks srv2) tid = Some (t\<lparr>task_actor := x, mailbox := c\<rparr>)"
        "sessions srv2 = sessions srv"
        "run_message reg (sessions srv) (task_address t) m (task_actor t, answers srv, w) = (ok1, x, answers srv2, w2)"
      by auto
    show ?thesis
    proof (cases ok1)
      case True
      have "length (queued (mailbox (t\<lparr>task_actor := x, mailbox := c\<rparr>))) \<le> n"
        using Suc.prems(2) Cons c by simp
      moreover have "drain n T reg tid (srv2, w2) = (ok, srv', w')"
        using Suc.prems(3) r ex True by simp
      ultimately obtain y d where
          "hm_get (tasks srv') tid = Some (t\<lparr>task_actor := y, mailbox := d\<rparr>)"
          "run_queue reg (sessions srv) (task_address t) ms (x, answers srv2, w2) = (ok, y, answers srv', w')"
          "ok \<longrightarrow> queued d = []"
        using Suc.IH [OF x(1), of w2] x(2) c by auto
      then show ?thesis using Cons x(3) True by auto
    next
      case False
      then show ?thesis using Suc.prems(3) r ex x Cons by auto
    qed
  qed
qed

end

section \<open>Idle deactivation\<close>

lemma begin_deactivation_frame:
  assumes "begin_deactivation T a g c srv = (b, srv')"
  shows "tasks srv' = tasks srv" "capacity srv' = capacity srv" "sessions srv' = sessions srv"
    "\<not> b \<Longrightarrow> srv' = srv"
  using assms by (auto simp: begin_deactivation_def split: option.splits if_splits)

lemma run_deactivate_frame:
  assumes "run_deactivate reg why tid a (srv, w) = (srv', w')"
  shows "actors srv' = actors srv" "capacity srv' = capacity srv" "cluster srv' = cluster srv"
  using assms by (auto simp: run_deactivate_def set_actor_def split: option.splits prod.splits)

lemma guard_drop_capacity [simp]:
  "capacity (task_guard_drop T tid t srv) = capacity (remove_route T (task_address t) (task_generation t) srv)"
  by (simp add: task_guard_drop_def)

lemma remove_route_idem [simp]: "remove_route T a g (remove_route T a g srv) = remove_route T a g srv"
  by (simp add: remove_route_def drop_route_def split: option.splits)

context mailbox_tokio
begin

lemma idle_elapsed_continues:
  "idle_elapsed T S reg tid t (srv, w) = (TaskContinues, srv', w') \<Longrightarrow> srv' = srv \<and> w' = w"
  by (auto simp: idle_elapsed_def Let_def split: if_splits prod.splits bool.splits
      dest: begin_deactivation_frame(4))

lemma idle_elapsed_ends:
  assumes run: "idle_elapsed T S reg tid t (srv, w) = (TaskEnded, srv', w')"
    and inv: "server_inv T queued (held, srv)" and t: "hm_get (tasks srv) tid = Some t"
  shows "session_count (sessions srv) (task_address t) = 0" and "queued (mailbox t) = []"
    and "\<not> is_some_and (\<lambda>r. rt_generation r = task_generation t) (hm_get (actors srv') (task_address t))"
    and "Suc (length (actors srv')) = length (actors srv)"
    and "tk_available T (capacity srv') = Suc (tk_available T (capacity srv))"
proof -
  let ?a = "task_address t" and ?g = "task_generation t"
  have live: "\<not> has_live_sessions (sessions srv) ?a" using run by (auto simp: idle_elapsed_def split: if_splits)
  obtain srv1 where d: "begin_deactivation T ?a ?g (mailbox t) srv = (True, srv1)"
    using run live by (auto simp: idle_elapsed_def split: prod.splits bool.splits)
  then obtain route where r: "hm_get (actors srv) ?a = Some route" "rt_generation route = ?g"
    and cap: "tk_capacity T (mailbox t) = tk_max_capacity T (mailbox t)"
    and srv1: "srv1 = srv\<lparr>actors := hm_insert ?a (route\<lparr>rt_state := Deactivating\<rparr>) (actors srv)\<rparr>"
    by (auto simp: begin_deactivation_def split: option.splits if_splits)
  obtain srv2 w2 where rd: "run_deactivate reg Idle tid ?a (srv1, w) = (srv2, w2)" by fastforce
  note fr = run_deactivate_frame [OF rd]
  have ok: "hm_ok (actors srv)" using inv by (simp add: server_inv_def routes_ok_def)
  have srv': "srv' = task_guard_drop T tid t (remove_route T ?a ?g srv2)"
    using run live d rd by (auto simp: idle_elapsed_def Let_def)
  have get2: "hm_get (actors srv2) ?a = Some (route\<lparr>rt_state := Deactivating\<rparr>)"
    using fr(1) srv1 by simp
  show "session_count (sessions srv) ?a = 0" using live by (simp add: has_live_sessions_def)
  show "queued (mailbox t) = []"
    using cap inv t empty_iff_full_capacity [of "mailbox t"] by (auto simp: server_inv_def tasks_ok_def)
  show "\<not> is_some_and (\<lambda>r. rt_generation r = ?g) (hm_get (actors srv') ?a)" using srv' by simp
  have act: "actors srv' = hm_remove ?a (actors srv2)" and capa: "capacity srv' = tk_release T (capacity srv)"
    using srv' get2 r(2) fr(2) srv1 by (simp_all add: remove_route_def drop_route_def)
  have "Suc (length (hm_remove ?a (actors srv2))) = length (actors srv2)"
    using get2 ok fr(1) srv1 by (intro length_hm_remove) simp_all
  then show "Suc (length (actors srv')) = length (actors srv)"
    using act fr(1) srv1 length_hm_insert_present [OF ok r(1)] by simp
  show "tk_available T (capacity srv') = Suc (tk_available T (capacity srv))"
    using capa by (simp add: release_available)
qed

end

section \<open>The end of a Server\<close>

lemma update_task_registrations [simp]: "registrations (update_task tid f srv) = registrations srv"
  by (simp add: update_task_def split: option.splits)

lemma fold_abort_frame:
  "actors (fold abort_task tids srv) = actors srv" "capacity (fold abort_task tids srv) = capacity srv"
  "max_active_actors (fold abort_task tids srv) = max_active_actors srv"
  "sessions (fold abort_task tids srv) = sessions srv" "status (fold abort_task tids srv) = status srv"
  "registrations (fold abort_task tids srv) = registrations srv"
  by (rule fold_update_frame; simp add: abort_task_def)+

lemma fence_begin_frame:
  "status (snd (fence_begin srv)) = FENCED" "registrations (snd (fence_begin srv)) = registrations srv"
  "max_active_actors (snd (fence_begin srv)) = max_active_actors srv"
  by (simp_all add: fence_begin_def fold_abort_frame)

context mailbox_tokio
begin

lemma clear_actors_permits:
  assumes "server_inv T queued (held, srv)" and "actors srv1 = actors srv" and "capacity srv1 = capacity srv"
  shows "tk_available T (capacity (clear_actors T srv1)) + held = unat (max_active_actors srv)"
  using assms by (simp add: clear_actors_def funpow_release server_inv_def permits_ok_def)

lemma fence_finish_spec:
  assumes "server_inv T queued (held, srv)" and "fence_finish T tx (srv, w) = (srv', w')"
  shows "actors srv' = hm_empty" "sink (sessions srv') a s = None" "inbound_tasks srv' = []"
    "tk_available T (capacity srv') + held = unat (max_active_actors srv)" "status srv' = status srv"
    "registrations srv' = registrations srv"
proof -
  obtain r where r: "fst (terminate_all_sessions tx NodeFenced (clear_actors T srv, w)) = (clear_actors T srv)\<lparr>sessions := r\<rparr>"
    "\<forall>a s. sink r a s = None"
    using terminate_all_sessions_frame [of tx NodeFenced "clear_actors T srv" w] by blast
  then have srv': "srv' = (clear_actors T srv)\<lparr>sessions := r, inbound_tasks := []\<rparr>"
    using assms(2) by (auto simp: fence_finish_def abort_inbound_tasks_def split: prod.splits)
  show "actors srv' = hm_empty" "sink (sessions srv') a s = None" "inbound_tasks srv' = []"
    "status srv' = status srv" "registrations srv' = registrations srv"
    using srv' r(2) by (simp_all add: clear_actors_def)
  show "tk_available T (capacity srv') + held = unat (max_active_actors srv)"
    using clear_actors_permits [OF assms(1) refl refl] srv' by simp
qed

lemma shutdown_finish_spec:
  assumes inv: "server_inv T queued (held, srv)" and gone: "timed_out \<or> actors srv = hm_empty"
    and run: "shutdown_finish T tx timed_out aborts (srv, w) = (x, srv', w')"
  shows "actors srv' = hm_empty" "sink (sessions srv') a s = None" "inbound_tasks srv' = []"
    "tk_available T (capacity srv') + held = unat (max_active_actors srv)" "status srv' = STOPPED"
    "x = (if timed_out then Err ShutdownTimedOut else Ok ())"
proof -
  define srv1 where "srv1 = (if timed_out then clear_actors T (fold abort_task aborts srv) else srv)"
  obtain r where r: "fst (terminate_all_sessions tx RuntimeShuttingDown (srv1, w)) = srv1\<lparr>sessions := r\<rparr>"
    "\<forall>a s. sink r a s = None"
    using terminate_all_sessions_frame [of tx RuntimeShuttingDown srv1 w] by blast
  then have srv': "srv' = srv1\<lparr>sessions := r, inbound_tasks := [], status := STOPPED\<rparr>"
    and x: "x = (if timed_out then Err ShutdownTimedOut else Ok ())"
    using run by (auto simp: shutdown_finish_def srv1_def Let_def abort_inbound_tasks_def split: prod.splits)
  have "actors srv1 = hm_empty" using gone by (auto simp: srv1_def clear_actors_def)
  then show "actors srv' = hm_empty" "sink (sessions srv') a s = None" "inbound_tasks srv' = []"
    "status srv' = STOPPED" "x = (if timed_out then Err ShutdownTimedOut else Ok ())"
    using srv' r(2) x by simp_all
  have "tk_available T (capacity srv1) + held = unat (max_active_actors srv)"
  proof (cases timed_out)
    case True
    then show ?thesis
      using clear_actors_permits [OF inv, of "fold abort_task aborts srv"] by (simp add: srv1_def fold_abort_frame)
  next
    case False
    then show ?thesis
      using inv gone by (simp add: srv1_def server_inv_def permits_ok_def hm_empty_def)
  qed
  then show "tk_available T (capacity srv') + held = unat (max_active_actors srv)" using srv' by simp
qed

lemma fold_abort_inv:
  "server_inv T queued (held, srv) \<Longrightarrow> server_inv T queued (held, fold abort_task tids srv)"
  by (induction tids arbitrary: srv) (simp_all add: abort_task_def update_task_inv flag_change)

lemma fence_begin_inv:
  "server_inv T queued (held, srv) \<Longrightarrow> server_inv T queued (held, snd (fence_begin srv))"
  by (simp add: fence_begin_def fold_abort_inv)

lemma stale_commit:
  assumes none: "hm_get (actors srv) a = None" and free: "0 < tk_available T (capacity srv)"
    and host: "hosting_ok srv" "hm_get (registrations srv) (actor_type a) \<noteq> None"
    and run: "dispatch_commit T a m False srv = (x, srv')"
  shows "x = Some (Ok ())" and "status srv' = status srv"
    and "\<exists>route t. hm_get (actors srv') a = Some route \<and> rt_state route = Active
       \<and> hm_get (tasks srv') (rt_task route) = Some t \<and> \<not> task_aborted t \<and> \<not> task_completed t
       \<and> \<not> shutdown_flag t"
proof -
  obtain cap where cap: "tk_try_acquire T (capacity srv) = Some cap"
    using free try_acquire_None [of "capacity srv"] by (cases "tk_try_acquire T (capacity srv)") auto
  define srv1 where "srv1 = srv\<lparr>capacity := cap, next_generation := next_generation srv + 1,
    next_task := Suc (next_task srv)\<rparr>"
  obtain reg where reg: "hm_get (registrations srv) (actor_type a) = Some reg" using host(2) by blast
  obtain t where t: "spawn_actor T a (next_generation srv) srv1 = Some t"
    using spawn_actor_hosted [OF host(1) reg, of srv1 T "next_generation srv"] by (auto simp: srv1_def)
  have flags: "\<not> task_aborted t \<and> \<not> task_completed t \<and> \<not> shutdown_flag t"
    using t by (auto simp: spawn_actor_def split: option.splits caught.splits if_splits)
  obtain y c where c: "tk_try_send T (mailbox t) m = (y, c)" by fastforce
  have "y = Sent" using first_send [OF t c] by simp
  then have *: "x = Some (Ok ()) \<and> srv' = srv1\<lparr>tasks := hm_insert (next_task srv) (t\<lparr>mailbox := c\<rparr>) (tasks srv),
       actors := hm_insert a \<lparr>rt_generation = next_generation srv, rt_state = Active,
         rt_task = next_task srv\<rparr> (actors srv)\<rparr>"
    using run none cap t c
    by (simp add: dispatch_commit_def activate_route_def srv1_def Let_def try_send_error_def)
  then show "x = Some (Ok ())" and "status srv' = status srv" by (simp_all add: srv1_def)
  show "\<exists>route t. hm_get (actors srv') a = Some route \<and> rt_state route = Active
       \<and> hm_get (tasks srv') (rt_task route) = Some t \<and> \<not> task_aborted t \<and> \<not> task_completed t
       \<and> \<not> shutdown_flag t"
    using * flags by simp
qed

end

section \<open>Properties\<close>

text \<open>
  When \<open>on_activate\<close> fails or panics, every caller waiting for its Session to open is
  answered with the error, the Route is gone (unless a newer activation has replaced it), no
  Session of the address remains, and the mailbox is closed and empty.
\<close>

theorem failed_activation_answers_all:
  assumes "mailbox_tokio T queued closed" and "server_inv T queued (held, srv)"
    and "hm_get (tasks srv) tid = Some t"
    and "activation_failed T tx tid t e (srv, w) = (srv', w')"
  shows "(\<forall>sid c. SessionOpened sid c \<in> set (queued (mailbox t)) \<longrightarrow> (c, Err e) \<in> set (answers srv'))
     \<and> \<not> is_some_and (\<lambda>r. rt_generation r = task_generation t) (hm_get (actors srv') (task_address t))
     \<and> (\<forall>s. sink (sessions srv') (task_address t) s = None)
     \<and> (\<exists>t'. hm_get (tasks srv') tid = Some t' \<and> task_completed t'
          \<and> queued (mailbox t') = [] \<and> closed (mailbox t'))"
proof -
  note spec = mailbox_tokio.activation_failed_spec [OF assms]
  have "(c, Err e) \<in> set (failures e (queued (mailbox t)))"
    if "SessionOpened sid c \<in> set (queued (mailbox t))" for sid c
    using that by (force simp: failures_def List.map_filter_def)
  then show ?thesis using spec by blast
qed

text \<open>
  C33. Draining a closed mailbox runs the consumer's handlers over exactly the queued messages,
  in the order they were accepted, up to the first panic: the same Actor state, the same
  answers and the same effects as the reference fold; without a panic the mailbox is empty
  afterwards.
\<close>

theorem drain_refines_fold:
  assumes "mailbox_tokio T queued closed" and "hm_get (tasks srv) tid = Some t"
    and "length (queued (mailbox t)) \<le> tk_max_capacity T (mailbox t)"
    and "drain (tk_max_capacity T (mailbox t)) T reg tid (srv, w) = (ok, srv', w')"
  shows "\<exists>x c. hm_get (tasks srv') tid = Some (t\<lparr>task_actor := x, mailbox := c\<rparr>)
     \<and> run_queue reg (sessions srv) (task_address t) (queued (mailbox t)) (task_actor t, answers srv, w)
         = (ok, x, answers srv', w')
     \<and> (ok \<longrightarrow> queued c = [])"
  using mailbox_tokio.drain_runs [OF assms] .

text \<open>
  An idle wake-up ends the Actor only if its address has no live Session and its mailbox is
  empty; exactly its Route is then gone and its permit is free again.  Otherwise nothing has
  changed.
\<close>

theorem idle_deactivation_is_safe:
  assumes "mailbox_tokio T queued closed" and "server_inv T queued (held, srv)"
    and "hm_get (tasks srv) tid = Some t"
    and "idle_elapsed T S reg tid t (srv, w) = (p, srv', w')"
  shows "(p = TaskContinues \<longrightarrow> srv' = srv \<and> w' = w)
     \<and> (p = TaskEnded \<longrightarrow> session_count (sessions srv) (task_address t) = 0 \<and> queued (mailbox t) = []
          \<and> \<not> is_some_and (\<lambda>r. rt_generation r = task_generation t) (hm_get (actors srv') (task_address t))
          \<and> Suc (length (actors srv')) = length (actors srv)
          \<and> tk_available T (capacity srv') = Suc (tk_available T (capacity srv)))"
proof (cases p)
  case TaskContinues
  then show ?thesis
    using mailbox_tokio.idle_elapsed_continues [OF assms(1) assms(4) [unfolded TaskContinues]] by simp
next
  case TaskEnded
  then show ?thesis
    using mailbox_tokio.idle_elapsed_ends [OF assms(1) assms(4) [unfolded TaskEnded] assms(2,3)] by simp
qed

text \<open>
  Fencing leaves no Route, no Session and no inbound task; every permit nobody else holds is
  free again, and the status stays what it was.
\<close>

theorem fence_leaves_nothing:
  assumes "mailbox_tokio T queued closed" and "server_inv T queued (held, srv)"
    and "fence_finish T tx (srv, w) = (srv', w')"
  shows "actors srv' = hm_empty \<and> (\<forall>a s. sink (sessions srv') a s = None) \<and> inbound_tasks srv' = []
     \<and> tk_available T (capacity srv') + held = unat (max_active_actors srv) \<and> status srv' = status srv"
  using mailbox_tokio.fence_finish_spec [OF assms] by blast

text \<open>
  The clean-up of a shutdown, reached when every Actor task has ended or when the timeout
  aborted them, leaves no Route, no Session and no inbound task, all free permits, and the
  Server \<open>STOPPED\<close>; the caller learns of a timeout and of nothing else.
\<close>

theorem shutdown_leaves_nothing:
  assumes "mailbox_tokio T queued closed" and "server_inv T queued (held, srv)"
    and "timed_out \<or> actors srv = hm_empty"
    and "shutdown_finish T tx timed_out aborts (srv, w) = (x, srv', w')"
  shows "actors srv' = hm_empty \<and> (\<forall>a s. sink (sessions srv') a s = None) \<and> inbound_tasks srv' = []
     \<and> tk_available T (capacity srv') + held = unat (max_active_actors srv) \<and> status srv' = STOPPED
     \<and> x = (if timed_out then Err ShutdownTimedOut else Ok ())"
  using mailbox_tokio.shutdown_finish_spec [OF assms] by blast

text \<open>
  The capacity a node reports with its lease is exact: the active count is the number of
  Routes plus the reservations in flight, and the node is pressured exactly when it can take
  no further Actor.
\<close>

theorem capacity_sample_exact:
  assumes "server_inv T queued (held, srv)"
  shows "unat (nr_active_actor_count (update_capacity_sample T now srv node)) = length (actors srv) + held
     \<and> nr_max_actor_count (update_capacity_sample T now srv node) = max_active_actors srv
     \<and> (nr_pressured (update_capacity_sample T now srv node)
          \<longleftrightarrow> length (actors srv) + held = unat (max_active_actors srv))"
proof -
  let ?n = "tk_available T (capacity srv)"
  have sum: "?n + length (actors srv) + held = unat (max_active_actors srv)"
    using assms by (simp add: server_inv_def permits_ok_def)
  then have "?n \<le> unat (max_active_actors srv)" by simp
  then have n: "unat (word_of_nat ?n :: usize) = ?n"
    using unsigned_less [of "max_active_actors srv", where 'a = nat] by (simp add: unat_of_nat take_bit_nat_eq_self)
  then have "(word_of_nat ?n :: usize) = 0 \<longleftrightarrow> ?n = 0" by (metis unat_eq_zero)
  then show ?thesis
    using sum n by (simp add: update_capacity_sample_def Let_def unat_saturating_sub) linarith
qed

text \<open>
  C32. A dispatch admitted while the Server was running may commit after the fence has finished:
  the commit succeeds and puts an Active Route with a running task, neither aborted nor asked
  to shut down, on a Server whose status is \<open>FENCED\<close>.  The admission check reads the status
  before the lock, and nothing reads it again.
\<close>

theorem stale_commit_revives_fenced_server:
  assumes "mailbox_tokio T queued closed" and "server_inv T queued (0, srv)" and "hosting_ok srv"
    and "hm_get (registrations srv) (actor_type a) \<noteq> None" and "max_active_actors srv \<noteq> 0"
    and "dispatch_admission now srv = None"
    and "fence_finish T tx (snd (fence_begin srv), w) = (fenced, w')"
    and "dispatch_commit T a m False fenced = (x, srv')"
  shows "x = Some (Ok ()) \<and> status srv' = FENCED
     \<and> (\<exists>route t. hm_get (actors srv') a = Some route \<and> rt_state route = Active
          \<and> hm_get (tasks srv') (rt_task route) = Some t \<and> \<not> task_aborted t \<and> \<not> task_completed t
          \<and> \<not> shutdown_flag t)"
proof -
  note inv = mailbox_tokio.fence_begin_inv [OF assms(1,2)]
  note fr = fence_begin_frame [of srv]
  note ff = mailbox_tokio.fence_finish_spec [OF assms(1) inv assms(7)]
  have "0 < unat (max_active_actors srv)" using assms(5) by (simp add: unat_gt_0)
  then have "hm_get (actors fenced) a = None" "0 < tk_available T (capacity fenced)"
    using ff(1,4) fr(3) by simp_all
  moreover have "hosting_ok fenced"
    using assms(3) ff(2,6) fr(2) by (simp add: hosting_ok_def config_ok_def mailboxes_fit_def)
  moreover have "hm_get (registrations fenced) (actor_type a) \<noteq> None" using assms(4) ff(6) fr(2) by simp
  ultimately show ?thesis
    using mailbox_tokio.stale_commit [OF assms(1) _ _ _ _ assms(8)] ff(5) fr(1) by simp
qed

section \<open>Concrete runs\<close>

lemma busy_inv: "server_inv mbox_tokio bc_queue (0, busy_server)"
  using bm.rt_reach_inv [OF busy_reach] by (simp add: busy_server_eq)

abbreviation busy_task :: "(nat, mailbox_message bounded_channel) actor_task" where
  "busy_task \<equiv>
     \<lparr>task_address = room, task_generation = 1, task_actor = 0,
      mailbox = \<lparr>bc_queue = [SessionOpened sid0 0], bc_max = 2, bc_closed = False\<rparr>,
      shutdown_flag = False, shutdown_changed = False, task_aborted = False, task_completed = False\<rparr>"

lemma busy_get: "hm_get (tasks busy_server) 0 = Some busy_task"
  by (simp add: busy_server_eq)

theorem failed_activation_answers_all_witness:
  "(0, Err ActivationFailed) \<in> set (answers (fst
     (activation_failed mbox_tokio record_tx 0 busy_task ActivationFailed (busy_server, []))))"
proof -
  obtain srv' w' where run:
      "activation_failed mbox_tokio record_tx 0 busy_task ActivationFailed (busy_server, []) = (srv', w')"
    by fastforce
  show ?thesis
    using failed_activation_answers_all [OF bm.mailbox_tokio_axioms busy_inv busy_get run] run by simp
qed

theorem drain_refines_fold_witness:
  "fst (drain 2 mbox_tokio counting 0 (busy_server, []))
     = fst (run_queue counting (sessions busy_server) room [SessionOpened sid0 0] (0, [], []))"
proof -
  obtain ok srv' w' where run: "drain (tk_max_capacity mbox_tokio (mailbox busy_task)) mbox_tokio counting 0
      (busy_server, []) = (ok, srv', w')"
    by (metis prod_cases3)
  show ?thesis
    using drain_refines_fold [OF bm.mailbox_tokio_axioms busy_get _ run] run
    by (auto simp: busy_server_eq fresh_server_eq)
qed

text \<open>A task that has served everything, on a Server without Sessions, goes idle.\<close>

definition quiet_server :: "(nat, sent, mailbox_message bounded_channel, nat) server" where
  "quiet_server = busy_server\<lparr>sessions := [], tasks := [(0, served_task)]\<rparr>"

lemma quiet_inv: "server_inv mbox_tokio bc_queue (0, quiet_server)"
  by (simp add: server_inv_defs quiet_server_def busy_server_eq fresh_server_eq hm_ok_def hm_keys_def)

theorem idle_deactivation_is_safe_witness:
  "let (p, srv', w') = idle_elapsed mbox_tokio nowhere counting 0 served_task (quiet_server, [])
   in p = TaskEnded \<and> Suc (length (actors srv')) = length (actors quiet_server)"
proof -
  obtain p srv' w' where run:
      "idle_elapsed mbox_tokio nowhere counting 0 served_task (quiet_server, []) = (p, srv', w')"
    by (metis prod_cases3)
  moreover have "fst (idle_elapsed mbox_tokio nowhere counting 0 served_task (quiet_server, [])) = TaskEnded"
    by (simp add: idle_elapsed_def has_live_sessions_def session_count_def quiet_server_def busy_server_eq
        fresh_server_eq begin_deactivation_def run_deactivate_def counting_def Let_def)
  moreover have "hm_get (tasks quiet_server) 0 = Some served_task" by (simp add: quiet_server_def)
  ultimately show ?thesis
    using idle_deactivation_is_safe [OF bm.mailbox_tokio_axioms quiet_inv _ run] by simp
qed

theorem fence_leaves_nothing_witness:
  "actors (fst (fence_finish mbox_tokio record_tx (busy_server, []))) = []
   \<and> tk_available mbox_tokio (capacity (fst (fence_finish mbox_tokio record_tx (busy_server, [])))) = 10000"
proof -
  obtain srv' w' where run: "fence_finish mbox_tokio record_tx (busy_server, []) = (srv', w')" by fastforce
  show ?thesis
    using fence_leaves_nothing [OF bm.mailbox_tokio_axioms busy_inv run] run
    by (simp add: hm_empty_def busy_server_eq fresh_server_eq)
qed

theorem shutdown_leaves_nothing_witness:
  "fst (shutdown_finish mbox_tokio record_tx True [0] (busy_server, [])) = Err ShutdownTimedOut
   \<and> status (fst (snd (shutdown_finish mbox_tokio record_tx True [0] (busy_server, [])))) = STOPPED"
proof -
  obtain x srv' w' where run: "shutdown_finish mbox_tokio record_tx True [0] (busy_server, []) = (x, srv', w')"
    by (metis prod_cases3)
  show ?thesis
    using shutdown_leaves_nothing [OF bm.mailbox_tokio_axioms busy_inv _ run] run by simp
qed

theorem capacity_sample_exact_witness:
  "unat (nr_active_actor_count (update_capacity_sample mbox_tokio 5 busy_server
     \<lparr>nr_node_id = ''n'', nr_session_id = ''s'', nr_advertised_endpoint = ''h:1'', nr_protocol_version = 2,
      nr_lease_generation = 0, nr_sampled_at_unix_ms = 0, nr_active_actor_count = 0, nr_max_actor_count = 0,
      nr_pressured = False, nr_draining = False\<rparr>)) = 1"
  using capacity_sample_exact [OF busy_inv] by (simp add: busy_server_eq)

theorem stale_commit_revives_fenced_server_witness:
  "fst (dispatch_commit mbox_tokio room (Action sid0 [1]) False
     (fst (fence_finish mbox_tokio record_tx (snd (fence_begin fresh_server), [])))) = Some (Ok ())"
proof -
  have inv: "server_inv mbox_tokio bc_queue (0, fresh_server)" using bm.built_inv [OF build_fresh] .
  have host: "hosting_ok fresh_server"
    using build_config_ok [OF build_fresh]
    by (simp add: hosting_ok_def fresh_server_eq sink_def counting_def mailboxes_fit_def MAX_PERMITS_def)
  obtain fenced w' where f: "fence_finish mbox_tokio record_tx (snd (fence_begin fresh_server), []) = (fenced, w')"
    by fastforce
  obtain x srv' where d: "dispatch_commit mbox_tokio room (Action sid0 [1]) False fenced = (x, srv')" by fastforce
  have "x = Some (Ok ())"
    using stale_commit_revives_fenced_server [OF bm.mailbox_tokio_axioms inv host _ _ _ f d, of 0]
    by (simp add: fresh_server_eq dispatch_admission_def RUNNING_def)
  then show ?thesis using f d by simp
qed

end
