(* ===== verification/Memory_Store.thy ===== *)
theory Memory_Store
  imports Cluster_Routing
begin

text \<open>
  The in-memory Coordination Store of \<open>coactor/src/test_support.rs\<close>
  (\<open>TestCoordinationStore\<close>) as a world: leases, owners, the revision counter and the wall
  clock.  Two ghost components make it an environment: the write history per address, and
  a schedule of conditional writes by other nodes, one batch of which runs before every
  operation.  Interpreting \<open>owner_store\<close> on it discharges the laws the ownership proofs
  rest on, for every schedule.
\<close>

section \<open>State\<close>

record test_node_lease =
  tl_node :: node_record
  tl_revision :: revision
  tl_expires_at_unix_ms :: u64

record test_store =
  ts_leases :: "(string, test_node_lease) hmap"
  ts_owners :: "(actor_address, versioned_actor_owner_record) hmap"
  ts_next_revision :: nat
  ts_wall_time_millis :: u64
  ts_history :: "actor_address \<Rightarrow> owner_history"
  ts_foreign :: "(actor_address \<times> actor_owner_record \<times> revision option) list list"

definition TestCoordinationStore_default :: test_store where
  "TestCoordinationStore_default =
     \<lparr>ts_leases = hm_empty, ts_owners = hm_empty, ts_next_revision = 0, ts_wall_time_millis = 0,
      ts_history = (\<lambda>_. []), ts_foreign = []\<rparr>"

definition test_revision :: "nat \<Rightarrow> revision" where
  "test_revision n = ''test-revision-'' @ show_nat n"

section \<open>Owners\<close>

definition test_compare_exchange ::
  "actor_address \<Rightarrow> actor_owner_record \<Rightarrow> revision option \<Rightarrow> test_store
     \<Rightarrow> revision mutation_outcome \<times> test_store" where
  "test_compare_exchange address rec rvn w =
     (let matches = (case (hm_get (ts_owners w) address, rvn) of
                       (None, None) \<Rightarrow> True
                     | (Some current, Some rv) \<Rightarrow> vr_revision current = rv
                     | _ \<Rightarrow> False)
      in if \<not> matches then (Conflict, w)
         else let n = Suc (ts_next_revision w);
                  v = \<lparr>vr_record = rec, vr_revision = test_revision n\<rparr>
              in (Applied (test_revision n),
                  w\<lparr>ts_next_revision := n,
                    ts_owners := hm_insert address v (ts_owners w),
                    ts_history := (ts_history w)(address := v # ts_history w address)\<rparr>))"

fun foreign_writes ::
  "(actor_address \<times> actor_owner_record \<times> revision option) list \<Rightarrow> test_store \<Rightarrow> test_store" where
  "foreign_writes [] w = w"
| "foreign_writes ((address, rec, rvn) # rest) w =
     foreign_writes rest (snd (test_compare_exchange address rec rvn w))"

definition interfere :: "test_store \<Rightarrow> test_store" where
  "interfere w =
     (case ts_foreign w of
        [] \<Rightarrow> w
      | batch # later \<Rightarrow> foreign_writes batch (w\<lparr>ts_foreign := later\<rparr>))"

section \<open>Leases\<close>

definition live_lease :: "test_store \<Rightarrow> string \<Rightarrow> test_node_lease option" where
  "live_lease w n =
     (case hm_get (ts_leases w) n of
        None \<Rightarrow> None
      | Some l \<Rightarrow> if ts_wall_time_millis w < tl_expires_at_unix_ms l then Some l else None)"

definition test_put_lease :: "node_record \<Rightarrow> duration \<Rightarrow> test_store \<Rightarrow> revision \<times> test_store" where
  "test_put_lease node ttl w =
     (let n = Suc (ts_next_revision w);
          l = \<lparr>tl_node = node, tl_revision = test_revision n,
               tl_expires_at_unix_ms = ts_wall_time_millis w + word_of_nat (as_millis ttl)\<rparr>
      in (test_revision n,
          w\<lparr>ts_next_revision := n, ts_leases := hm_insert (nr_node_id node) l (ts_leases w)\<rparr>))"

definition test_acquire_node ::
  "node_record \<Rightarrow> duration \<Rightarrow> test_store \<Rightarrow> revision mutation_outcome \<times> test_store" where
  "test_acquire_node node ttl w =
     (if live_lease w (nr_node_id node) \<noteq> None then (Conflict, w)
      else (case test_put_lease node ttl w of (rv, w') \<Rightarrow> (Applied rv, w')))"

definition test_renew_node ::
  "node_record \<Rightarrow> duration \<Rightarrow> revision \<Rightarrow> test_store \<Rightarrow> revision mutation_outcome \<times> test_store" where
  "test_renew_node node ttl rvn w =
     (if \<not> is_some_and (\<lambda>l. tl_revision l = rvn) (hm_get (ts_leases w) (nr_node_id node))
      then (Conflict, w)
      else (case test_put_lease node ttl w of (rv, w') \<Rightarrow> (Applied rv, w')))"

definition test_release_node ::
  "string \<Rightarrow> revision \<Rightarrow> test_store \<Rightarrow> unit mutation_outcome \<times> test_store" where
  "test_release_node n rvn w =
     (if \<not> is_some_and (\<lambda>l. tl_revision l = rvn) (hm_get (ts_leases w) n) then (Conflict, w)
      else (Applied (), w\<lparr>ts_leases := hm_remove n (ts_leases w)\<rparr>))"

section \<open>The store\<close>

definition memory_store :: "test_store coordination_store" where
  "memory_store =
     \<lparr>cs_read_node = (\<lambda>d n w. let w' = interfere w in (Done (Ok (map_option tl_node (live_lease w' n))), w')),
      cs_list_nodes = (\<lambda>d w. let w' = interfere w in
         (Done (Ok (map (\<lambda>(_, l). tl_node l)
            (filter (\<lambda>(_, l). ts_wall_time_millis w' < tl_expires_at_unix_ms l) (ts_leases w')))), w')),
      cs_read_node_lease = (\<lambda>d n w. let w' = interfere w in
         (Done (Ok (map_option (\<lambda>l. (tl_node l, tl_revision l)) (live_lease w' n))), w')),
      cs_acquire_node = (\<lambda>d node ttl w.
         case test_acquire_node node ttl (interfere w) of (x, w') \<Rightarrow> (Done (Ok x), w')),
      cs_renew_node = (\<lambda>d node ttl rvn w.
         case test_renew_node node ttl rvn (interfere w) of (x, w') \<Rightarrow> (Done (Ok x), w')),
      cs_release_node = (\<lambda>n rvn w.
         case test_release_node n rvn (interfere w) of (x, w') \<Rightarrow> (Ok x, w')),
      cs_read_actor_owner = (\<lambda>d a w. let w' = interfere w in (Done (Ok (hm_get (ts_owners w') a)), w')),
      cs_compare_exchange_actor_owner = (\<lambda>d a rec rvn w.
         case test_compare_exchange a rec rvn (interfere w) of (x, w') \<Rightarrow> (Done (Ok x), w'))\<rparr>"

section \<open>The laws\<close>

definition history_wf :: "nat \<Rightarrow> versioned_actor_owner_record option \<Rightarrow> owner_history \<Rightarrow> bool" where
  "history_wf n cur h \<longleftrightarrow>
     cur = newest h \<and> distinct (map vr_revision h)
     \<and> (\<forall>v \<in> set h. \<exists>k \<le> n. vr_revision v = test_revision k)"

definition store_wf :: "test_store \<Rightarrow> bool" where
  "store_wf w \<longleftrightarrow>
     (\<forall>a. history_wf (ts_next_revision w) (hm_get (ts_owners w) a) (ts_history w a))"

lemma store_wf_default: "store_wf TestCoordinationStore_default"
  by (simp add: store_wf_def history_wf_def TestCoordinationStore_default_def)

lemma test_revision_inj [simp]: "test_revision m = test_revision n \<longleftrightarrow> m = n"
  by (simp add: test_revision_def)

lemma history_wf_write:
  assumes "history_wf n cur h"
  shows "history_wf (Suc n) (Some \<lparr>vr_record = rec, vr_revision = test_revision (Suc n)\<rparr>)
     (\<lparr>vr_record = rec, vr_revision = test_revision (Suc n)\<rparr> # h)"
  using assms by (force simp: history_wf_def)

lemma history_wf_Suc: "history_wf n cur h \<Longrightarrow> history_wf (Suc n) cur h"
  using le_SucI by (fastforce simp: history_wf_def)

lemma store_wf_foreign [simp]: "store_wf (w\<lparr>ts_foreign := f\<rparr>) = store_wf w"
  by (simp add: store_wf_def)

lemma test_compare_exchange_cases:
  assumes "test_compare_exchange a rec rvn w = (x, w')" and "store_wf w"
  shows "(x = Conflict \<and> w' = w)
     \<or> (\<exists>rv. x = Applied rv \<and> map_option vr_revision (newest (ts_history w a)) = rvn
          \<and> rv = test_revision (Suc (ts_next_revision w))
          \<and> ts_history w' = (ts_history w)(a := \<lparr>vr_record = rec, vr_revision = rv\<rparr> # ts_history w a)
          \<and> ts_next_revision w' = Suc (ts_next_revision w)
          \<and> ts_owners w' = hm_insert a \<lparr>vr_record = rec, vr_revision = rv\<rparr> (ts_owners w))"
proof -
  have "hm_get (ts_owners w) a = newest (ts_history w a)"
    using assms(2) by (simp add: store_wf_def history_wf_def)
  then show ?thesis
    using assms(1)
    by (auto simp: test_compare_exchange_def Let_def split: option.splits if_splits)
qed

lemma test_compare_exchange_wf:
  assumes "store_wf w"
  shows "store_wf (snd (test_compare_exchange a rec rvn w))"
proof -
  obtain x w' where cas: "test_compare_exchange a rec rvn w = (x, w')" by fastforce
  from test_compare_exchange_cases [OF cas assms] show ?thesis
  proof
    assume "x = Conflict \<and> w' = w"
    then show ?thesis using cas assms by simp
  next
    assume "\<exists>rv. x = Applied rv \<and> map_option vr_revision (newest (ts_history w a)) = rvn
          \<and> rv = test_revision (Suc (ts_next_revision w))
          \<and> ts_history w' = (ts_history w)(a := \<lparr>vr_record = rec, vr_revision = rv\<rparr> # ts_history w a)
          \<and> ts_next_revision w' = Suc (ts_next_revision w)
          \<and> ts_owners w' = hm_insert a \<lparr>vr_record = rec, vr_revision = rv\<rparr> (ts_owners w)"
    then have "store_wf w'"
      using assms by (auto simp: store_wf_def intro: history_wf_write history_wf_Suc)
    then show ?thesis using cas by simp
  qed
qed

lemma test_compare_exchange_suffix:
  assumes "store_wf w"
  shows "suffix (ts_history w b) (ts_history (snd (test_compare_exchange a rec rvn w)) b)"
proof -
  obtain x w' where cas: "test_compare_exchange a rec rvn w = (x, w')" by fastforce
  then show ?thesis
    using test_compare_exchange_cases [OF cas assms] by (auto simp: suffix_ConsI)
qed

lemma foreign_writes_wf:
  "store_wf w \<Longrightarrow>
   store_wf (foreign_writes b w) \<and> suffix (ts_history w a) (ts_history (foreign_writes b w) a)"
proof (induction b w rule: foreign_writes.induct)
  case (1 w)
  then show ?case by simp
next
  case (2 address rec rvn rest w)
  then show ?case
    using test_compare_exchange_wf [of w address rec rvn]
      test_compare_exchange_suffix [of w a address rec rvn]
    by (auto intro: suffix_order.trans)
qed

lemma interfere_wf: "store_wf w \<Longrightarrow> store_wf (interfere w)"
  by (auto simp: interfere_def foreign_writes_wf split: list.splits)

lemma interfere_suffix: "store_wf w \<Longrightarrow> suffix (ts_history w a) (ts_history (interfere w) a)"
  using foreign_writes_wf [of "w\<lparr>ts_foreign := tl (ts_foreign w)\<rparr>"]
  by (auto simp: interfere_def split: list.splits)

lemma store_wf_owners: "store_wf w \<Longrightarrow> hm_get (ts_owners w) a = newest (ts_history w a)"
  by (simp add: store_wf_def history_wf_def)

interpretation ms: owner_store memory_store ts_history store_wf
proof unfold_locales
  fix w w' :: test_store and d :: duration and a b :: actor_address and n :: string
  fix x :: "(coordination_error + versioned_actor_owner_record option) timed"
  fix y :: "(coordination_error + node_record option) timed"
  fix z :: "(coordination_error + revision mutation_outcome) timed"
  fix v and rec :: actor_owner_record and rvn :: "revision option" and r :: revision
  assume w: "store_wf w"
  note iw = interfere_wf [OF w] and sfx = interfere_suffix [OF w]
  show "cs_read_actor_owner memory_store d a w = (x, w') \<Longrightarrow>
      store_wf w' \<and> suffix (ts_history w b) (ts_history w' b)"
    using iw sfx by (auto simp: memory_store_def Let_def)
  show "cs_read_actor_owner memory_store d a w = (Done (Ok v), w') \<Longrightarrow>
      \<exists>h. suffix (ts_history w a) h \<and> suffix h (ts_history w' a) \<and> v = newest h"
    using iw sfx by (auto simp: memory_store_def Let_def store_wf_owners)
  show "cs_read_node memory_store d n w = (y, w') \<Longrightarrow>
      store_wf w' \<and> suffix (ts_history w b) (ts_history w' b)"
    using iw sfx by (auto simp: memory_store_def Let_def)
  show "cs_compare_exchange_actor_owner memory_store d a rec rvn w = (z, w') \<Longrightarrow>
      store_wf w' \<and> suffix (ts_history w b) (ts_history w' b)"
    using test_compare_exchange_wf [OF iw, of a rec rvn]
      test_compare_exchange_suffix [OF iw, of b a rec rvn] sfx [of b]
    by (auto simp: memory_store_def split: prod.splits intro: suffix_order.trans)
  show "cs_compare_exchange_actor_owner memory_store d a rec rvn w = (Done (Ok (Applied r)), w') \<Longrightarrow>
      \<exists>h. suffix (ts_history w a) h \<and> map_option vr_revision (newest h) = rvn
        \<and> suffix (\<lparr>vr_record = rec, vr_revision = r\<rparr> # h) (ts_history w' a)"
    using test_compare_exchange_cases [OF _ iw, of a rec rvn "Applied r" w'] sfx [of a]
    by (auto simp: memory_store_def split: prod.splits)
qed

section \<open>Concrete runs\<close>

text \<open>A node, an address, and a store in which another node writes first.\<close>

abbreviation node_a :: router where
  "node_a \<equiv> \<lparr>router_node_id = ''a'', router_session_id = ''s1'', operation_timeout = 5\<rparr>"

abbreviation node_b :: router where
  "node_b \<equiv> \<lparr>router_node_id = ''b'', router_session_id = ''s2'', operation_timeout = 5\<rparr>"

abbreviation room_1 :: actor_address where
  "room_1 \<equiv> \<lparr>actor_type = ''room'', actor_id = ''1''\<rparr>"

abbreviation contested :: test_store where
  "contested \<equiv>
     TestCoordinationStore_default\<lparr>ts_foreign := [[], [(room_1, local_claim node_b 1, None)]]\<rparr>"

lemmas memory_exec = TestCoordinationStore_default_def memory_store_def interfere_def
  test_compare_exchange_def live_lease_def hm_exec_simps Let_def local_claim_def is_local_owner_def
  next_epoch_def

abbreviation tokio_nat :: "(nat, nat bounded_channel, nat) tokio" where
  "tokio_nat \<equiv> bounded_tokio"

lemma store_wf_contested: "store_wf contested"
  by (simp add: store_wf_default)

lemma resolve_contested:
  "fst (resolve tokio_nat memory_store node_a room_1 1 contested) = Ok (Local True)"
  by (simp add: resolve_def resolve_round_def take_ownership_def memory_exec eval_nat_numeral)

lemma release_contested:
  "fst (release_local_owner memory_store node_b room_1 (interfere (interfere contested))) = Ok ()"
  by (simp add: release_local_owner_def release_actor_owner_def memory_exec)

theorem resolve_local_was_owner_witness:
  "was_owner node_a []
     (ts_history (snd (snd (resolve tokio_nat memory_store node_a room_1 1 contested))) room_1)"
proof -
  obtain cap' w' where r:
      "resolve tokio_nat memory_store node_a room_1 1 contested = (Ok (Local True), cap', w')"
    using resolve_contested by (metis prod.collapse)
  show ?thesis
    using resolve_local_was_owner [OF ms.owner_store_axioms store_wf_contested r] r
    by (simp add: TestCoordinationStore_default_def)
qed

theorem resolve_keeps_permits_witness:
  "tk_available tokio_nat (fst (snd (resolve tokio_nat memory_store node_a room_1 1 contested))) = 0"
proof -
  obtain cap' w' where r:
      "resolve tokio_nat memory_store node_a room_1 1 contested = (Ok (Local True), cap', w')"
    using resolve_contested by (metis prod.collapse)
  show ?thesis
    using resolve_keeps_permits [OF bt.semaphore_contract_axioms r] r
    by (simp add: reservation_count_def)
qed

theorem release_succeeds_unowned_witness:
  "\<exists>c :: versioned_actor_owner_record. is_local_owner node_b (vr_record c)
     \<and> was_record (ActorOwnerRecord_unowned (ownership_epoch (vr_record c)))
         (ts_history (interfere (interfere contested)) room_1)
         (ts_history (snd (release_local_owner memory_store node_b room_1
            (interfere (interfere contested)))) room_1)"
proof -
  obtain w' where r:
      "release_local_owner memory_store node_b room_1 (interfere (interfere contested)) = (Ok (), w')"
    using release_contested by (metis prod.collapse)
  show ?thesis
    using release_succeeds_unowned [OF ms.owner_store_axioms _ r] interfere_wf store_wf_contested r
    by auto
qed

end
