(* ===== verification/Ownership_Protocol.thy ===== *)
theory Ownership_Protocol
  imports Memory_Store
begin

text \<open>
  The ownership protocol across Servers.  First the store calls one Server makes while it
  resolves or releases: a store wrapped to record them (\<open>traced\<close>) shows that every
  conditional write of a resolution is a claim that follows at once on the lookups that allow it
  (\<open>resolve_claims_after_lookup\<close>), and so the kind of write, claim or release of a record
  that was read, that the protocol below admits (\<open>resolve_disciplined\<close>,
  \<open>release_disciplined\<close>).  Then any number of Servers making
  such calls in any interleaving, as a step relation over the write history of one address
  (\<open>own_step\<close>): epochs never decrease and an epoch has one owner.
\<close>

section \<open>The calls of one Server\<close>

datatype owner_call =
    ReadOwner actor_address "versioned_actor_owner_record option"
  | ReadNode string "node_record option"
  | WriteOwner actor_address actor_owner_record "revision option"

type_synonym 'w traced_world = "'w \<times> owner_call list"

definition traced :: "'w coordination_store \<Rightarrow> 'w traced_world coordination_store" where
  "traced S =
     \<lparr>cs_read_node = (\<lambda>d n (w, log). case cs_read_node S d n w of
         (Done (Ok v), w') \<Rightarrow> (Done (Ok v), w', ReadNode n v # log)
       | (x, w') \<Rightarrow> (x, w', log)),
      cs_list_nodes = (\<lambda>d (w, log). case cs_list_nodes S d w of (x, w') \<Rightarrow> (x, w', log)),
      cs_read_node_lease = (\<lambda>d n (w, log). case cs_read_node_lease S d n w of (x, w') \<Rightarrow> (x, w', log)),
      cs_acquire_node = (\<lambda>d n t (w, log). case cs_acquire_node S d n t w of (x, w') \<Rightarrow> (x, w', log)),
      cs_renew_node = (\<lambda>d n t rvn (w, log). case cs_renew_node S d n t rvn w of (x, w') \<Rightarrow> (x, w', log)),
      cs_release_node = (\<lambda>n rvn (w, log). case cs_release_node S n rvn w of (x, w') \<Rightarrow> (x, w', log)),
      cs_read_actor_owner = (\<lambda>d a (w, log). case cs_read_actor_owner S d a w of
         (Done (Ok v), w') \<Rightarrow> (Done (Ok v), w', ReadOwner a v # log)
       | (x, w') \<Rightarrow> (x, w', log)),
      cs_compare_exchange_actor_owner = (\<lambda>d a rec rvn (w, log).
         case cs_compare_exchange_actor_owner S d a rec rvn w of
           (x, w') \<Rightarrow> (x, w', WriteOwner a rec rvn # log))\<rparr>"

text \<open>
  What a claim needs: no record, an unowned record, a record of this node's earlier process,
  or an owner whose lease the Server has looked up and not found under the recorded session.
\<close>

definition may_take :: "router \<Rightarrow> owner_call list \<Rightarrow> versioned_actor_owner_record option \<Rightarrow> bool" where
  "may_take r log current \<longleftrightarrow>
     (case current of
        None \<Rightarrow> True
      | Some c \<Rightarrow> (case owner (vr_record c) of
           None \<Rightarrow> True
         | Some ow \<Rightarrow>
             if ao_node_id ow = router_node_id r then ao_session_id ow \<noteq> router_session_id r
             else (\<exists>n. ReadNode (ao_node_id ow) n \<in> set log
                    \<and> \<not> is_some_and (\<lambda>n. nr_session_id n = ao_session_id ow) n)))"

definition disciplined_write ::
  "router \<Rightarrow> owner_call list \<Rightarrow> actor_address \<Rightarrow> actor_owner_record \<Rightarrow> revision option \<Rightarrow> bool" where
  "disciplined_write r log a rec rvn \<longleftrightarrow>
     (\<exists>current. ReadOwner a current \<in> set log \<and> rvn = map_option vr_revision current
        \<and> ((rec = local_claim r (next_epoch current) \<and> may_take r log current)
           \<or> (\<exists>c. current = Some c \<and> is_local_owner r (vr_record c)
                \<and> rec = ActorOwnerRecord_unowned (ownership_epoch (vr_record c)))))"

text \<open>A condition on every write of a log, given the calls before it, latest first.\<close>

type_synonym write_rule = "owner_call list \<Rightarrow> actor_address \<Rightarrow> actor_owner_record \<Rightarrow> revision option \<Rightarrow> bool"

fun all_writes :: "write_rule \<Rightarrow> owner_call list \<Rightarrow> bool" where
  "all_writes W [] = True"
| "all_writes W (WriteOwner a rec rvn # log) = (W log a rec rvn \<and> all_writes W log)"
| "all_writes W (_ # log) = all_writes W log"

abbreviation disciplined :: "router \<Rightarrow> owner_call list \<Rightarrow> bool" where
  "disciplined r \<equiv> all_writes (disciplined_write r)"

text \<open>
  The lookups of one round: the last call read the record, which is absent, unowned or of an
  earlier process of this node; or the last two calls read the record and then the lease of
  the node it names, which is not held by the session it names.
\<close>

fun just_read :: "router \<Rightarrow> actor_address \<Rightarrow> owner_call list \<Rightarrow> versioned_actor_owner_record option \<Rightarrow> bool" where
  "just_read r a (ReadOwner b u # log) v =
     (b = a \<and> u = v
      \<and> (case v of
           None \<Rightarrow> True
         | Some c \<Rightarrow> (case owner (vr_record c) of
             None \<Rightarrow> True
           | Some ow \<Rightarrow> ao_node_id ow = router_node_id r \<and> ao_session_id ow \<noteq> router_session_id r)))"
| "just_read r a (ReadNode n x # ReadOwner b u # log) v =
     (b = a \<and> u = v
      \<and> (case v of
           None \<Rightarrow> False
         | Some c \<Rightarrow> (case owner (vr_record c) of
             None \<Rightarrow> False
           | Some ow \<Rightarrow> ao_node_id ow \<noteq> router_node_id r \<and> n = ao_node_id ow
               \<and> \<not> is_some_and (\<lambda>n. nr_session_id n = ao_session_id ow) x)))"
| "just_read r a _ v = False"

definition claim_after_lookup :: "router \<Rightarrow> actor_address \<Rightarrow> write_rule" where
  "claim_after_lookup r a log b rec rvn \<longleftrightarrow>
     b = a \<and> (\<exists>v. just_read r a log v \<and> rvn = map_option vr_revision v
       \<and> rec = \<lparr>owner = Some \<lparr>ao_node_id = router_node_id r, ao_session_id = router_session_id r\<rparr>,
           ownership_epoch = (case v of None \<Rightarrow> 1 | Some c \<Rightarrow> saturating_add (ownership_epoch (vr_record c)) 1)\<rparr>)"

text \<open>A rule that every claim made right after its lookups satisfies.\<close>

definition allows_claims :: "router \<Rightarrow> actor_address \<Rightarrow> write_rule \<Rightarrow> bool" where
  "allows_claims r a W \<longleftrightarrow>
     (\<forall>log v. just_read r a log v \<longrightarrow> W log a (local_claim r (next_epoch v)) (map_option vr_revision v))"

lemma allows_claimsD:
  "allows_claims r a W \<Longrightarrow> just_read r a log v \<Longrightarrow> W log a (local_claim r (next_epoch v)) (map_option vr_revision v)"
  by (simp add: allows_claims_def)

lemma just_read_may_take: "just_read r a log v \<Longrightarrow> ReadOwner a v \<in> set log \<and> may_take r log v"
  by (induction r a log v rule: just_read.induct) (auto simp: may_take_def split: option.splits)

lemma just_read_disciplined:
  "allows_claims r a (disciplined_write r)"
  using just_read_may_take unfolding allows_claims_def disciplined_write_def by blast

lemma just_read_claim:
  "allows_claims r a (claim_after_lookup r a)"
  unfolding allows_claims_def claim_after_lookup_def local_claim_def next_epoch_def by (auto split: option.splits)

lemma traced_read_owner:
  assumes "cs_read_actor_owner (traced S) d a (w, log) = (x, w', log')"
  shows "(\<exists>v. x = Done (Ok v) \<and> log' = ReadOwner a v # log) \<or> ((\<nexists>v. x = Done (Ok v)) \<and> log' = log)"
  using assms by (auto simp: traced_def split: prod.splits timed.splits sum.splits)

lemma traced_read_node:
  assumes "cs_read_node (traced S) d n (w, log) = (x, w', log')"
  shows "(\<exists>v. x = Done (Ok v) \<and> log' = ReadNode n v # log) \<or> ((\<nexists>v. x = Done (Ok v)) \<and> log' = log)"
  using assms by (auto simp: traced_def split: prod.splits timed.splits sum.splits)

lemma traced_write:
  assumes "cs_compare_exchange_actor_owner (traced S) d a rec rvn (w, log) = (x, w', log')"
  shows "log' = WriteOwner a rec rvn # log"
  using assms by (auto simp: traced_def split: prod.splits)

lemma confirm_claim_writes:
  "confirm_claim n (traced S) r a e (w, log) = (c, w', log') \<Longrightarrow> all_writes W log \<Longrightarrow> all_writes W log'"
proof (induction n arbitrary: w log)
  case 0
  then show ?case by simp
next
  case (Suc n)
  obtain x w1 log1 where rd:
      "cs_read_actor_owner (traced S) (operation_timeout r) a (w, log) = (x, w1, log1)"
    by (metis prod_cases3)
  then have log1: "all_writes W log1"
    using traced_read_owner [OF rd] Suc.prems(2) by auto
  show ?case
    using confirm_claim_SucD [OF Suc.prems(1) rd] log1 Suc.IH [of w1 log1] by auto
qed

lemma claim_writes:
  assumes "claim T (traced S) r a e rvn cap (w, log) = (x, cap', w', log')"
    and "all_writes W log" and "W log a (local_claim r e) rvn"
  shows "all_writes W log'"
proof -
  obtain z w1 log1 where cas:
      "cs_compare_exchange_actor_owner (traced S) (operation_timeout r) a (local_claim r e) rvn (w, log)
       = (z, w1, log1)"
    by (metis prod_cases3)
  obtain y w2 log2 where rd:
      "cs_read_actor_owner (traced S) (operation_timeout r) a (w1, log1) = (y, w2, log2)"
    by (metis prod_cases3)
  have log1: "all_writes W log1"
    using traced_write [OF cas] assms(2,3) by simp
  then have log2: "all_writes W log2"
    using traced_read_owner [OF rd] by auto
  have "log' = log \<or> log' = log1 \<or> log' = log2"
    using assms(1) cas rd
    by (auto simp: claim_def Let_def
        split: timed.splits sum.splits option.splits mutation_outcome.splits if_splits)
  then show ?thesis using assms(2) log1 log2 by blast
qed

definition all_logged :: "write_rule \<Rightarrow> ('x \<times> 's \<times> 'w traced_world) + ('s \<times> 'w traced_world) \<Rightarrow> bool" where
  "all_logged W out =
     (case out of Inl (_, _, _, log) \<Rightarrow> all_writes W log | Inr (_, _, log) \<Rightarrow> all_writes W log)"

lemma take_ownership_writes:
  assumes "take_ownership T (traced S) r a c cap (w, log) = out"
    and "all_writes W log"
    and "W log a (local_claim r (next_epoch c)) (map_option vr_revision c)"
  shows "all_logged W out"
proof -
  obtain z w1 log1 where cas:
      "cs_compare_exchange_actor_owner (traced S) (operation_timeout r) a
         (local_claim r (next_epoch c)) (map_option vr_revision c) (w, log) = (z, w1, log1)"
    by (metis prod_cases3)
  obtain k w2 log2 where cf:
      "confirm_claim 3 (traced S) r a (local_claim r (next_epoch c)) (w1, log1) = (k, w2, log2)"
    by (metis prod_cases3)
  have log1: "all_writes W log1"
    using traced_write [OF cas] assms(2,3) by simp
  then have log2: "all_writes W log2"
    using confirm_claim_writes [OF cf] by simp
  have "(\<forall>x cap' w' log'. out = Inl (x, cap', w', log') \<longrightarrow> log' \<in> {log, log1, log2})
     \<and> (\<forall>cap' w' log'. out = Inr (cap', w', log') \<longrightarrow> log' \<in> {log1, log2})"
    using assms(1) cas cf
    by (auto simp: take_ownership_def Let_def
        split: timed.splits sum.splits option.splits mutation_outcome.splits confirmation.splits)
  then show ?thesis
    using assms(2) log1 log2 by (cases out) (auto simp: all_logged_def)
qed

text \<open>After the first read, a round ends at once, claims, or takes over.\<close>

lemma resolve_round_next:
  assumes "resolve_round T S r a cap w = out"
    and "cs_read_actor_owner S (operation_timeout r) a w = (Done (Ok v), w1)"
  shows "(\<exists>x. out = Inl (x, cap, w1))
     \<or> (out = take_ownership T S r a v cap w1 \<and> is_some_and (\<lambda>c. owner (vr_record c) \<noteq> None) v = False)
     \<or> (\<exists>c ow. v = Some c \<and> owner (vr_record c) = Some ow \<and> \<not> is_local_owner r (vr_record c)
          \<and> ao_node_id ow = router_node_id r
          \<and> out = Inl (claim T S r a (next_epoch v) (map_option vr_revision v) cap w1))
     \<or> (\<exists>c ow y w2. v = Some c \<and> owner (vr_record c) = Some ow \<and> ao_node_id ow \<noteq> router_node_id r
          \<and> cs_read_node S (operation_timeout r) (ao_node_id ow) w1 = (y, w2)
          \<and> ((\<exists>x. out = Inl (x, cap, w2))
             \<or> (\<exists>n. y = Done (Ok n) \<and> \<not> is_some_and (\<lambda>n. nr_session_id n = ao_session_id ow) n
                  \<and> out = take_ownership T S r a v cap w2)))"
proof (cases v)
  case None
  then show ?thesis using assms by (simp add: resolve_round_def)
next
  case (Some c)
  show ?thesis
  proof (cases "owner (vr_record c)")
    case None
    then show ?thesis
      using assms Some by (simp add: resolve_round_def is_local_owner_def)
  next
    case ow: (Some ow)
    show ?thesis
    proof (cases "is_local_owner r (vr_record c) \<or> ao_node_id ow = router_node_id r")
      case True
      then show ?thesis
        using assms Some ow by (auto simp: resolve_round_def next_epoch_def)
    next
      case False
      obtain y w2 where nd: "cs_read_node S (operation_timeout r) (ao_node_id ow) w1 = (y, w2)"
        by fastforce
      have "(\<exists>x. out = Inl (x, cap, w2))
         \<or> (\<exists>n. y = Done (Ok n) \<and> \<not> is_some_and (\<lambda>n. nr_session_id n = ao_session_id ow) n
              \<and> out = take_ownership T S r a v cap w2)"
        using assms Some ow False nd
        by (auto simp: resolve_round_def split: timed.splits sum.splits)
      then show ?thesis using Some ow False nd by blast
    qed
  qed
qed

lemma take_ownership_all_writes:
  assumes "allows_claims r a W"
    and "all_writes W log" and "just_read r a log v"
  shows "all_logged W (take_ownership T (traced S) r a v cap (w, log))"
  using take_ownership_writes [OF refl assms(2) allows_claimsD [OF assms(1,3)]] .

text \<open>The previous owner's node is looked up before its record is taken.\<close>

lemma lookup_take_writes:
  assumes "allows_claims r a W"
    and "all_writes W log1" and "log1 = ReadOwner a v # log"
    and "v = Some c" and "owner (vr_record c) = Some ow" and "ao_node_id ow \<noteq> router_node_id r"
    and nd: "cs_read_node (traced S) (operation_timeout r) (ao_node_id ow) (w1, log1) = (Done (Ok n), w2, log2)"
    and "\<not> is_some_and (\<lambda>n. nr_session_id n = ao_session_id ow) n"
  shows "all_logged W (take_ownership T (traced S) r a v cap (w2, log2))"
proof -
  have log2: "log2 = ReadNode (ao_node_id ow) n # log1" using traced_read_node [OF nd] by auto
  then have "just_read r a log2 v" using assms(3-6,8) by simp
  then show ?thesis using take_ownership_all_writes [OF assms(1), of log2] log2 assms(2) by simp
qed

lemma resolve_round_writes:
  assumes W: "allows_claims r a W"
    and "all_writes W log"
  shows "all_logged W (resolve_round T (traced S) r a cap (w, log))"
proof -
  define out where "out = resolve_round T (traced S) r a cap (w, log)"
  obtain x w1 log1 where rd:
      "cs_read_actor_owner (traced S) (operation_timeout r) a (w, log) = (x, w1, log1)"
    by (metis prod_cases3)
  have log1: "all_writes W log1"
    using traced_read_owner [OF rd] assms(2) by auto
  show ?thesis
  proof (cases "\<exists>v. x = Done (Ok v)")
    case False
    then have "\<exists>e. out = Inl (Err e, cap, w1, log1)"
      using rd by (auto simp: out_def resolve_round_def split: timed.splits sum.splits)
    then show ?thesis using log1 by (auto simp: out_def all_logged_def)
  next
    case True
    then obtain v where v: "x = Done (Ok v)" by blast
    then have seen: "log1 = ReadOwner a v # log"
      using traced_read_owner [OF rd] by auto
    from resolve_round_next [OF out_def [symmetric] rd [unfolded v]] show ?thesis
    proof (elim disjE exE conjE)
      fix y assume "out = Inl (y, cap, w1, log1)"
      then show ?thesis using log1 by (simp add: out_def all_logged_def)
    next
      assume "out = take_ownership T (traced S) r a v cap (w1, log1)"
        and free: "is_some_and (\<lambda>c. owner (vr_record c) \<noteq> None) v = False"
      moreover have "just_read r a log1 v"
        using free seen by (cases v) simp_all
      ultimately show ?thesis
        using take_ownership_all_writes [OF W log1] by (simp add: out_def)
    next
      fix c ow assume c: "v = Some c" "owner (vr_record c) = Some ow" "\<not> is_local_owner r (vr_record c)"
        "ao_node_id ow = router_node_id r"
        and o: "out = Inl (claim T (traced S) r a (next_epoch v) (map_option vr_revision v) cap (w1, log1))"
      then have "just_read r a log1 v" using seen by (simp add: is_local_owner_def)
      then show ?thesis
        using o claim_writes [OF _ log1 allows_claimsD [OF W]]
        by (fastforce simp: out_def all_logged_def)
    next
      fix c ow y w2' z assume c: "v = Some c" "owner (vr_record c) = Some ow"
        "ao_node_id ow \<noteq> router_node_id r"
        and nd: "cs_read_node (traced S) (operation_timeout r) (ao_node_id ow) (w1, log1) = (y, w2')"
        and o: "out = Inl (z, cap, w2')"
      obtain w2 log2 where w2: "w2' = (w2, log2)" by fastforce
      then show ?thesis
        using traced_read_node [OF nd [unfolded w2]] log1 o by (auto simp: out_def all_logged_def)
    next
      fix c ow y w2' n assume c: "v = Some c" "owner (vr_record c) = Some ow"
        "ao_node_id ow \<noteq> router_node_id r"
        and nd: "cs_read_node (traced S) (operation_timeout r) (ao_node_id ow) (w1, log1) = (y, w2')"
        and n: "y = Done (Ok n)" "\<not> is_some_and (\<lambda>n. nr_session_id n = ao_session_id ow) n"
        and o: "out = take_ownership T (traced S) r a v cap w2'"
      obtain w2 log2 where w2: "w2' = (w2, log2)" by fastforce
      then show ?thesis
        using lookup_take_writes [OF W log1 seen c nd [unfolded w2 n(1)] n(2)] o by (simp add: out_def)
    qed
  qed
qed

lemma resolve_rounds_writes:
  assumes W: "allows_claims r a W"
  shows "resolve_rounds n T (traced S) r a cap (w, log) = (x, cap', w', log') \<Longrightarrow> all_writes W log \<Longrightarrow>
   all_writes W log'"
proof (induction n arbitrary: cap w log)
  case 0
  then show ?case by simp
next
  case (Suc n)
  note step = resolve_round_writes [OF W Suc.prems(2), of T S cap w]
  show ?case
  proof (cases "resolve_round T (traced S) r a cap (w, log)")
    case (Inl out)
    then show ?thesis using Suc.prems(1) step by (cases out) (auto simp: all_logged_def)
  next
    case (Inr next_round)
    then show ?thesis using Suc step by (cases next_round) (auto simp: all_logged_def)
  qed
qed

lemma confirm_release_disciplined:
  "confirm_release n (traced S) r a c (w, log) = (b, w', log') \<Longrightarrow> disciplined r log \<Longrightarrow> disciplined r log'"
proof (induction n arbitrary: w log)
  case 0
  then show ?case by simp
next
  case (Suc n)
  obtain x w1 log1 where rd:
      "cs_read_actor_owner (traced S) (operation_timeout r) a (w, log) = (x, w1, log1)"
    by (metis prod_cases3)
  then have log1: "disciplined r log1"
    using traced_read_owner [OF rd] Suc.prems(2) by auto
  have "log' = log1 \<or> confirm_release n (traced S) r a c (w1, log1) = (b, w', log')"
    using Suc.prems(1) rd by (simp split: timed.splits sum.splits option.splits if_splits)
  then show ?case using log1 Suc.IH [of w1 log1] by blast
qed

lemma release_local_owner_disciplined:
  assumes "release_local_owner (traced S) r a (w, log) = (x, w', log')" and "disciplined r log"
  shows "disciplined r log'"
proof -
  obtain y w1 log1 where rd:
      "cs_read_actor_owner (traced S) (operation_timeout r) a (w, log) = (y, w1, log1)"
    by (metis prod_cases3)
  have log1: "disciplined r log1"
    using traced_read_owner [OF rd] assms(2) by auto
  show ?thesis
  proof (cases "\<exists>c. y = Done (Ok (Some c)) \<and> is_local_owner r (vr_record c)")
    case False
    then have "log' = log1"
      using assms(1) rd
      by (auto simp: release_local_owner_def split: timed.splits sum.splits option.splits if_splits)
    then show ?thesis using log1 by simp
  next
    case True
    then obtain c where c: "y = Done (Ok (Some c))" "is_local_owner r (vr_record c)" by blast
    obtain z w2 log2 where cas:
        "release_actor_owner (traced S) (operation_timeout r) a c (w1, log1) = (z, w2, log2)"
      by (metis prod_cases3)
    obtain b w3 log3 where cf: "confirm_release 3 (traced S) r a c (w2, log2) = (b, w3, log3)"
      by (metis prod_cases3)
    have "disciplined_write r log1 a (ActorOwnerRecord_unowned (ownership_epoch (vr_record c)))
        (Some (vr_revision c))"
      using traced_read_owner [OF rd] c by (auto simp: disciplined_write_def)
    then have log2: "disciplined r log2"
      using traced_write [OF cas [unfolded release_actor_owner_def]] log1 by simp
    then have log3: "disciplined r log3"
      using confirm_release_disciplined [OF cf] by simp
    have "log' = log2 \<or> log' = log3"
      using assms(1) rd c cas cf
      by (auto simp: release_local_owner_def
          split: timed.splits sum.splits mutation_outcome.splits bool.splits)
    then show ?thesis using log2 log3 by blast
  qed
qed

section \<open>Many Servers, one address\<close>

text \<open>
  \<open>os_history\<close> is the write history of one address, newest first; \<open>os_log r\<close> the calls
  Server \<open>r\<close> has made.  A step is one completed store call of one Server; conditional
  writes take effect exactly when the revision still matches, and the store gives every
  write a revision the address has not had.
\<close>

record own_state =
  os_history :: owner_history
  os_log :: "router \<Rightarrow> owner_call list"

definition own_start :: own_state where
  "own_start = \<lparr>os_history = [], os_log = (\<lambda>_. [])\<rparr>"

definition log_call :: "router \<Rightarrow> owner_call \<Rightarrow> own_state \<Rightarrow> own_state" where
  "log_call r c s = s\<lparr>os_log := (os_log s)(r := c # os_log s r)\<rparr>"

lemma log_call_simps [simp]:
  "os_history (log_call r c s) = os_history s"
  "os_log (log_call r c s) r' = (if r' = r then c # os_log s r else os_log s r')"
  by (simp_all add: log_call_def)

inductive own_step :: "actor_address \<Rightarrow> own_state \<Rightarrow> own_state \<Rightarrow> bool" for a where
  read_owner: "own_step a s (log_call r (ReadOwner a (newest (os_history s))) s)"
| read_node: "own_step a s (log_call r (ReadNode n v) s)"
| write_rejected:
    "disciplined_write r (os_log s r) a rec rvn \<Longrightarrow> own_step a s (log_call r (WriteOwner a rec rvn) s)"
| write_applied:
    "disciplined_write r (os_log s r) a rec rvn \<Longrightarrow>
     map_option vr_revision (newest (os_history s)) = rvn \<Longrightarrow>
     rv \<notin> vr_revision ` set (os_history s) \<Longrightarrow>
     own_step a s (log_call r (WriteOwner a rec rvn)
       (s\<lparr>os_history := \<lparr>vr_record = rec, vr_revision = rv\<rparr> # os_history s\<rparr>))"

inductive own_reach :: "actor_address \<Rightarrow> own_state \<Rightarrow> bool" for a where
  start: "own_reach a own_start"
| step: "own_reach a s \<Longrightarrow> own_step a s s' \<Longrightarrow> own_reach a s'"

text \<open>Adjacent writes of a history: a claim one epoch up, or the release of an owned record.\<close>

abbreviation epoch_of :: "versioned_actor_owner_record \<Rightarrow> u64" where
  "epoch_of v \<equiv> ownership_epoch (vr_record v)"

abbreviation owned :: "versioned_actor_owner_record \<Rightarrow> bool" where
  "owned v \<equiv> owner (vr_record v) \<noteq> None"

fun chain_ok :: "owner_history \<Rightarrow> bool" where
  "chain_ok [] = True"
| "chain_ok [v] = (owned v \<and> epoch_of v = 1)"
| "chain_ok (v # u # t) =
     (chain_ok (u # t)
      \<and> (if owned v then epoch_of v = saturating_add (epoch_of u) 1
         else owned u \<and> epoch_of v = epoch_of u))"

definition own_inv :: "actor_address \<Rightarrow> own_state \<Rightarrow> bool" where
  "own_inv a s \<longleftrightarrow>
     chain_ok (os_history s) \<and> distinct (map vr_revision (os_history s))
     \<and> (\<forall>r v. ReadOwner a (Some v) \<in> set (os_log s r) \<longrightarrow> v \<in> set (os_history s))"

lemma distinct_revision_head:
  assumes "distinct (map vr_revision h)" and "v \<in> set h"
    and "map_option vr_revision (newest h) = Some (vr_revision v)"
  shows "newest h = Some v"
  using assms by (cases h) (auto simp: image_iff)

lemma chain_ok_write:
  assumes "chain_ok h" and "newest h = current"
    and "(rec = local_claim r (next_epoch current))
       \<or> (\<exists>c. current = Some c \<and> is_local_owner r (vr_record c)
            \<and> rec = ActorOwnerRecord_unowned (ownership_epoch (vr_record c)))"
  shows "chain_ok (\<lparr>vr_record = rec, vr_revision = rv\<rparr> # h)"
  using assms
  by (cases h)
    (auto simp: local_claim_def next_epoch_def ActorOwnerRecord_unowned_def is_local_owner_def
      split: option.splits)

lemma own_inv_start: "own_inv a own_start"
  by (simp add: own_inv_def own_start_def)

lemma disciplined_write_chain:
  assumes "disciplined_write r (os_log s r) a rec rvn"
    and "map_option vr_revision (newest (os_history s)) = rvn" and "own_inv a s"
  shows "chain_ok (\<lparr>vr_record = rec, vr_revision = rv\<rparr> # os_history s)"
proof -
  obtain current where rd: "ReadOwner a current \<in> set (os_log s r)"
    and rvn: "rvn = map_option vr_revision current"
    and rec: "(rec = local_claim r (next_epoch current))
       \<or> (\<exists>c. current = Some c \<and> is_local_owner r (vr_record c)
            \<and> rec = ActorOwnerRecord_unowned (ownership_epoch (vr_record c)))"
    using assms(1) unfolding disciplined_write_def by blast
  have "newest (os_history s) = current"
  proof (cases current)
    case None
    then show ?thesis using assms(2) rvn by simp
  next
    case (Some v)
    then show ?thesis
      using assms rd rvn by (auto simp: own_inv_def intro: distinct_revision_head)
  qed
  then show ?thesis
    using assms(3) rec by (simp add: own_inv_def chain_ok_write)
qed

lemma own_step_inv: "own_step a s s' \<Longrightarrow> own_inv a s \<Longrightarrow> own_inv a s'"
proof (induction rule: own_step.induct)
  case (read_owner s r)
  then show ?case
    by (auto simp: own_inv_def dest!: newest_SomeD [OF sym])
next
  case (read_node s r n v)
  then show ?case by (auto simp: own_inv_def split: if_splits)
next
  case (write_rejected r s rec rvn)
  then show ?case by (auto simp: own_inv_def split: if_splits)
next
  case (write_applied r s rec rvn rv)
  then have "chain_ok (\<lparr>vr_record = rec, vr_revision = rv\<rparr> # os_history s)"
    by (blast intro: disciplined_write_chain)
  then show ?case
    using write_applied by (auto simp: own_inv_def split: if_splits)
qed

lemma own_reach_inv: "own_reach a s \<Longrightarrow> own_inv a s"
  by (induction rule: own_reach.induct) (auto intro: own_inv_start own_step_inv)

lemma chain_ok_tl: "chain_ok (v # t) \<Longrightarrow> chain_ok t"
  by (cases t) auto

lemma chain_ok_le: "chain_ok (v # t) \<Longrightarrow> u \<in> set t \<Longrightarrow> epoch_of u \<le> epoch_of v"
proof (induction t arbitrary: v)
  case Nil
  then show ?case by simp
next
  case (Cons x t)
  have x: "epoch_of x \<le> epoch_of v"
    using Cons.prems(1) by (auto simp: saturating_add_one_mono split: if_splits)
  show ?case
  proof (cases "u = x")
    case True
    then show ?thesis using x by simp
  next
    case False
    then have "epoch_of u \<le> epoch_of x"
      using Cons.IH [OF chain_ok_tl [OF Cons.prems(1)]] Cons.prems(2) by simp
    then show ?thesis using x by (rule order_trans)
  qed
qed

lemma chain_ok_claim_less:
  assumes "chain_ok (v # t)" and "owned v" and "epoch_of v \<noteq> - 1" and "u \<in> set t"
  shows "epoch_of u < epoch_of v"
proof (cases t)
  case Nil
  then show ?thesis using assms(4) by simp
next
  case (Cons x t')
  have tail: "chain_ok (x # t')" and epoch: "epoch_of v = saturating_add (epoch_of x) 1"
    using assms(1,2) Cons by simp_all
  have "epoch_of x \<noteq> - 1"
    using assms(3) epoch by auto
  then have x: "epoch_of x < epoch_of v"
    unfolding epoch by (rule saturating_add_one_less)
  have "epoch_of u \<le> epoch_of x"
    using assms(4) Cons chain_ok_le [OF tail, of u] by (cases "u = x") simp_all
  then show ?thesis using x by (rule order.strict_trans1)
qed

lemma chain_ok_unique:
  "chain_ok h \<Longrightarrow> v \<in> set h \<Longrightarrow> u \<in> set h \<Longrightarrow> owned v \<Longrightarrow> owned u \<Longrightarrow>
   epoch_of v = epoch_of u \<Longrightarrow> epoch_of v \<noteq> - 1 \<Longrightarrow> v = u"
proof (induction h)
  case Nil
  then show ?case by simp
next
  case (Cons x t)
  note less = chain_ok_claim_less [OF Cons.prems(1)]
  consider "v = x" "u = x" | "v = x" "u \<in> set t" | "u = x" "v \<in> set t" | "v \<in> set t" "u \<in> set t"
    using Cons.prems(2,3) by auto
  then show ?case
  proof cases
    case 2
    then show ?thesis using less [of u] Cons.prems(4,6,7) by simp
  next
    case 3
    then show ?thesis using less [of v] Cons.prems(5,6,7) by simp
  next
    case 4
    then show ?thesis using Cons.IH [OF chain_ok_tl [OF Cons.prems(1)]] Cons.prems(4-7) by blast
  qed simp
qed

lemma chain_ok_sorted: "chain_ok h \<Longrightarrow> sorted_wrt (\<lambda>v u. epoch_of u \<le> epoch_of v) h"
proof (induction h)
  case Nil
  then show ?case by simp
next
  case (Cons v t)
  then show ?case using chain_ok_le [OF Cons.prems] chain_ok_tl [OF Cons.prems] by simp
qed

section \<open>Stores whose revision is a function of the content\<close>

text \<open>
  An S3 ETag is determined by the object's bytes, so a record that came back would carry its
  old revision.  \<open>tag_step\<close> is \<open>own_step\<close> with that revision and without the freshness the
  store would otherwise have to give.
\<close>

inductive tag_step ::
  "(actor_owner_record \<Rightarrow> revision) \<Rightarrow> actor_address \<Rightarrow> own_state \<Rightarrow> own_state \<Rightarrow> bool" for tag a where
  tag_read_owner: "tag_step tag a s (log_call r (ReadOwner a (newest (os_history s))) s)"
| tag_read_node: "tag_step tag a s (log_call r (ReadNode n v) s)"
| tag_write_rejected:
    "disciplined_write r (os_log s r) a rec rvn \<Longrightarrow>
     tag_step tag a s (log_call r (WriteOwner a rec rvn) s)"
| tag_write_applied:
    "disciplined_write r (os_log s r) a rec rvn \<Longrightarrow>
     map_option vr_revision (newest (os_history s)) = rvn \<Longrightarrow>
     tag_step tag a s (log_call r (WriteOwner a rec rvn)
       (s\<lparr>os_history := \<lparr>vr_record = rec, vr_revision = tag rec\<rparr> # os_history s\<rparr>))"

inductive tag_reach :: "(actor_owner_record \<Rightarrow> revision) \<Rightarrow> actor_address \<Rightarrow> own_state \<Rightarrow> bool" for tag a where
  tag_start: "tag_reach tag a own_start"
| tag_next: "tag_reach tag a s \<Longrightarrow> tag_step tag a s s' \<Longrightarrow> tag_reach tag a s'"

definition unsaturated :: "own_state \<Rightarrow> bool" where
  "unsaturated s \<longleftrightarrow> (\<forall>v \<in> set (os_history s). epoch_of v \<noteq> - 1)"

definition tagged :: "(actor_owner_record \<Rightarrow> revision) \<Rightarrow> own_state \<Rightarrow> bool" where
  "tagged tag s \<longleftrightarrow> (\<forall>v \<in> set (os_history s). vr_revision v = tag (vr_record v))"

lemma chain_ok_fresh:
  assumes "chain_ok (v # t)" and "epoch_of v \<noteq> - 1" and "u \<in> set t"
  shows "vr_record u \<noteq> vr_record v"
proof (cases "owned v")
  case True
  then show ?thesis using chain_ok_claim_less [OF assms(1) True assms(2,3)] by auto
next
  case False
  then obtain x t' where t: "t = x # t'" using assms(1,3) by (cases t) auto
  then have x: "owned x" "epoch_of x = epoch_of v" "chain_ok (x # t')"
    using assms(1) False by simp_all
  show ?thesis
  proof (cases "u = x")
    case True
    then show ?thesis using x(1) False by auto
  next
    case u: False
    then have "epoch_of u < epoch_of v"
      using chain_ok_claim_less [OF x(3,1)] assms(2,3) x(2) t by simp
    then show ?thesis by auto
  qed
qed

lemma tag_step_tagged: "tag_step tag a s s' \<Longrightarrow> tagged tag s \<Longrightarrow> tagged tag s'"
  by (induction rule: tag_step.induct) (simp_all add: tagged_def)

lemma tag_step_own_step:
  assumes "tag_step tag a s s'" and "inj_on tag (vr_record ` set (os_history s'))" and "tagged tag s" and "own_inv a s"
    and "unsaturated s'"
  shows "own_step a s s' \<and> unsaturated s"
  using assms
proof (induction rule: tag_step.induct)
  case (tag_write_applied r s rec rvn)
  let ?v = "\<lparr>vr_record = rec, vr_revision = tag rec\<rparr>"
  have "chain_ok (?v # os_history s)"
    using disciplined_write_chain [OF tag_write_applied.hyps(1) tag_write_applied.hyps(2)]
      tag_write_applied.prems(3) by simp
  then have "vr_record u \<noteq> rec" if "u \<in> set (os_history s)" for u
    using chain_ok_fresh [of ?v "os_history s" u] that tag_write_applied.prems(4)
    by (simp add: unsaturated_def)
  then have "tag rec \<notin> vr_revision ` set (os_history s)"
    using tag_write_applied.prems(1,2) by (auto simp: tagged_def inj_on_def)
  then show ?case
    using tag_write_applied by (auto intro: own_step.write_applied simp: unsaturated_def)
qed (auto intro: own_step.intros simp: unsaturated_def)

section \<open>Properties\<close>

text \<open>
  C27. Every conditional write of a resolution is a claim of this address for this very node
  session, under the revision the same round read, at the saturating successor of the epoch it
  read (one for an absent record); and the calls right before it are the lookups that allow it: the record
  is absent, unowned, or of an earlier session of the same node; or it names a session of
  another node, whose lease was read next and was not held by that session.
\<close>

theorem resolve_claims_after_lookup:
  "all_writes (claim_after_lookup r a) (snd (snd (snd (resolve T (traced S) r a cap (w, [])))))"
proof -
  obtain x cap' w' log' where run: "resolve T (traced S) r a cap (w, []) = (x, cap', w', log')" by (metis prod_cases4)
  then show ?thesis
    using resolve_rounds_writes [OF just_read_claim, of 3 T S r a cap w "[]" x cap' w' log'] by (simp add: resolve_def)
qed

text \<open>So a resolution only makes the writes the protocol admits, whatever the Server did before.\<close>

theorem resolve_disciplined:
  assumes "disciplined r log"
  shows "disciplined r (snd (snd (snd (resolve T (traced S) r a cap (w, log)))))"
  using resolve_rounds_writes [OF just_read_disciplined _ assms]
  by (cases "resolve T (traced S) r a cap (w, log)") (simp add: resolve_def)

text \<open>
  Every conditional write a release makes replaces, under the revision it read, a
  record that names this very node session by the unowned record of the same epoch.
\<close>

theorem release_disciplined:
  assumes "disciplined r log"
  shows "disciplined r (snd (snd (release_local_owner (traced S) r a (w, log))))"
  using release_local_owner_disciplined [OF _ assms]
  by (cases "release_local_owner (traced S) r a (w, log)") simp

text \<open>
  C1. However many Servers resolve and release an address in whatever order, ownership epochs
  never go back, and below saturation an epoch is claimed once: two owned records of the
  history with the same epoch are the same write.
\<close>

theorem one_owner_per_epoch:
  assumes "own_reach a s"
  shows "sorted_wrt (\<lambda>newer older. epoch_of older \<le> epoch_of newer) (os_history s)
     \<and> (\<forall>v \<in> set (os_history s). \<forall>u \<in> set (os_history s).
          owner (vr_record v) \<noteq> None \<and> owner (vr_record u) \<noteq> None
          \<and> epoch_of v = epoch_of u \<and> epoch_of v \<noteq> - 1 \<longrightarrow> v = u)"
  using own_reach_inv [OF assms] chain_ok_sorted chain_ok_unique unfolding own_inv_def by blast

text \<open>
  C30. A store whose revision is a function of the record, as an ETag is, is as good as one that
  never repeats a revision: every run over it is a run of the protocol, provided the function
  told the records of the history apart and no epoch has reached the maximum of \<open>u64\<close>.
\<close>

theorem etag_refines_fresh_revisions:
  assumes "tag_reach tag a s" and "inj_on tag (vr_record ` set (os_history s))" and "unsaturated s"
  shows "own_reach a s"
proof -
  have "tagged tag s \<and> (inj_on tag (vr_record ` set (os_history s)) \<and> unsaturated s \<longrightarrow> own_reach a s)"
    using assms(1)
  proof (induction rule: tag_reach.induct)
    case tag_start
    then show ?case by (simp add: tagged_def own_start_def own_reach.start [unfolded own_start_def])
  next
    case (tag_next s s')
    have "set (os_history s) \<subseteq> set (os_history s')"
      using tag_next.hyps(2) by (induction rule: tag_step.induct) auto
    then have earlier: "unsaturated s' \<Longrightarrow> unsaturated s"
      "inj_on tag (vr_record ` set (os_history s')) \<Longrightarrow> inj_on tag (vr_record ` set (os_history s))"
      by (auto simp: unsaturated_def intro: inj_on_subset)
    have "own_reach a s'" if new: "inj_on tag (vr_record ` set (os_history s'))" "unsaturated s'"
    proof -
      have reach: "own_reach a s" using tag_next.IH earlier new by blast
      have "own_step a s s'"
        using tag_step_own_step [OF tag_next.hyps(2) new(1) _ own_reach_inv [OF reach] new(2)] tag_next.IH by blast
      with reach show ?thesis by (rule own_reach.step)
    qed
    then show ?case using tag_next tag_step_tagged by blast
  qed
  then show ?thesis using assms(2,3) by blast
qed

section \<open>Concrete runs\<close>

theorem resolve_disciplined_witness:
  "disciplined node_a (snd (snd (snd
     (resolve tokio_nat (traced memory_store) node_a room_1 1 (contested, [])))))"
  by (rule resolve_disciplined) simp

theorem release_disciplined_witness:
  "disciplined node_b (snd (snd
     (release_local_owner (traced memory_store) node_b room_1 (interfere (interfere contested), []))))"
  by (rule release_disciplined) simp

text \<open>Node a reads the empty address, claims it, and node b reads the claim.\<close>

abbreviation first_claim :: versioned_actor_owner_record where
  "first_claim \<equiv> \<lparr>vr_record = local_claim node_a 1, vr_revision = ''r1''\<rparr>"

abbreviation claimed :: own_state where
  "claimed \<equiv> log_call node_a (WriteOwner room_1 (local_claim node_a 1) None)
     ((log_call node_a (ReadOwner room_1 None) own_start)\<lparr>os_history := [first_claim]\<rparr>)"

lemma first_claim_disciplined:
  "disciplined_write node_a (os_log (log_call node_a (ReadOwner room_1 None) own_start) node_a) room_1
     (local_claim node_a 1) None"
  by (auto simp: disciplined_write_def may_take_def next_epoch_def)

lemma claimed_reach: "own_reach room_1 claimed"
proof -
  have "own_reach room_1 (log_call node_a (ReadOwner room_1 None) own_start)"
    using own_reach.step [OF own_reach.start own_step.read_owner [of room_1 own_start node_a]]
    by (simp add: own_start_def)
  from own_reach.step [OF this own_step.write_applied [OF first_claim_disciplined, of "''r1''"]]
  show ?thesis by (simp add: own_start_def)
qed

theorem one_owner_per_epoch_witness:
  "os_history claimed = [first_claim]
   \<and> sorted_wrt (\<lambda>newer older. epoch_of older \<le> epoch_of newer) (os_history claimed)"
  using one_owner_per_epoch [OF claimed_reach] by simp

text \<open>An injective tag: the record spelled out, every character of a name marked.\<close>

fun marked :: "string \<Rightarrow> string" where
  "marked [] = ''.''"
| "marked (c # s) = CHR ''x'' # c # marked s"

definition spelled_tag :: "actor_owner_record \<Rightarrow> revision" where
  "spelled_tag rec =
     (case owner rec of
        None \<Rightarrow> ''-''
      | Some ow \<Rightarrow> ''+'' @ marked (ao_node_id ow) @ marked (ao_session_id ow))
     @ show_nat (unat (ownership_epoch rec))"

lemma marked_append_eq [simp]: "marked s @ t = marked s' @ t' \<longleftrightarrow> s = s' \<and> t = t'"
proof (induction s arbitrary: s')
  case Nil
  then show ?case by (cases s') auto
next
  case (Cons c s)
  then show ?case by (cases s') auto
qed

lemma inj_spelled_tag: "inj spelled_tag"
proof (rule injI)
  fix x y :: actor_owner_record
  assume "spelled_tag x = spelled_tag y"
  then show "x = y"
    by (cases x; cases y) (auto simp: spelled_tag_def word_unat_eq_iff split: option.splits)
qed

text \<open>
  Over such a store, node a claims the address and releases it, and node b claims it after
  that: three writes, the second and third under the tag of the write before.
\<close>

definition do_read :: "router \<Rightarrow> own_state \<Rightarrow> own_state" where
  "do_read r s = log_call r (ReadOwner room_1 (newest (os_history s))) s"

definition do_write :: "router \<Rightarrow> actor_owner_record \<Rightarrow> own_state \<Rightarrow> own_state" where
  "do_write r rec s = log_call r (WriteOwner room_1 rec (map_option vr_revision (newest (os_history s))))
     (s\<lparr>os_history := \<lparr>vr_record = rec, vr_revision = spelled_tag rec\<rparr> # os_history s\<rparr>)"

lemma do_read_reach: "tag_reach spelled_tag room_1 s \<Longrightarrow> tag_reach spelled_tag room_1 (do_read r s)"
  unfolding do_read_def by (blast intro: tag_reach.tag_next tag_step.tag_read_owner)

lemma do_write_reach:
  "tag_reach spelled_tag room_1 s \<Longrightarrow>
   disciplined_write r (os_log s r) room_1 rec (map_option vr_revision (newest (os_history s))) \<Longrightarrow>
   tag_reach spelled_tag room_1 (do_write r rec s)"
  unfolding do_write_def by (blast intro: tag_reach.tag_next tag_step.tag_write_applied)

definition handed_over :: own_state where
  "handed_over = do_write node_b (local_claim node_b 2) (do_read node_b
     (do_write node_a (ActorOwnerRecord_unowned 1) (do_read node_a
       (do_write node_a (local_claim node_a 1) (do_read node_a own_start)))))"

lemmas handover_simps = do_read_def do_write_def own_start_def disciplined_write_def may_take_def next_epoch_def
  local_claim_def ActorOwnerRecord_unowned_def is_local_owner_def

lemma handed_over_reach: "tag_reach spelled_tag room_1 handed_over"
  unfolding handed_over_def
  by (intro do_write_reach do_read_reach tag_reach.tag_start) (auto simp: handover_simps saturating_add_def)

lemma handed_over_history:
  "map vr_record (os_history handed_over) =
     [local_claim node_b 2, ActorOwnerRecord_unowned 1, local_claim node_a 1]"
  by (simp add: handed_over_def do_read_def do_write_def own_start_def)

theorem etag_refines_fresh_revisions_witness:
  "own_reach room_1 handed_over
   \<and> map vr_record (os_history handed_over) = [local_claim node_b 2, ActorOwnerRecord_unowned 1, local_claim node_a 1]"
proof -
  have "unsaturated handed_over"
    by (simp add: unsaturated_def handed_over_def do_read_def do_write_def own_start_def local_claim_def
        ActorOwnerRecord_unowned_def)
  then show ?thesis
    using etag_refines_fresh_revisions [OF handed_over_reach inj_on_subset [OF inj_spelled_tag subset_UNIV]]
      handed_over_history by blast
qed

end
