(* ===== verification/Float64.thy ===== *)
theory Float64
  imports Coactor_Prelude "HOL-Library.Log_Nat" Complex_Main
begin

text \<open>
  The binary64 arithmetic the source uses, on non-negative values: Load Ratios
  (\<open>coactor/src/cluster/placement.rs\<close>) and the jitter of the lease renewal and of the directory
  cache (\<open>coactor/src/cluster/node.rs\<close>, \<open>coactor/src/cluster/s3.rs\<close>).  Every conversion, sum,
  product and quotient is rounded to nearest, ties to even, over the rationals, which is exact
  for the range that occurs (no overflow, no subnormals, no NaN).
\<close>

section \<open>Binary64\<close>

text \<open>The exponent \<open>e\<close> with \<open>2 ^ e \<le> q < 2 ^ (e + 1)\<close>.\<close>

definition f64_exponent :: "rat \<Rightarrow> int" where
  "f64_exponent q =
     (let (n, d) = quotient_of q;
          k = int (floorlog 2 (nat n)) - int (floorlog 2 (nat d))
      in if 2 powi k \<le> q then k else k - 1)"

definition f64_round :: "rat \<Rightarrow> rat" where
  "f64_round q =
     (if q \<le> 0 then 0
      else let e = f64_exponent q;
               m = q * 2 powi (52 - e);
               f = \<lfloor>m\<rfloor>;
               r = m - of_int f;
               g = (if r < 1 / 2 \<or> (r = 1 / 2 \<and> even f) then f else f + 1)
           in of_int g * 2 powi (e - 52))"

definition usize_as_f64 :: "usize \<Rightarrow> rat" where
  "usize_as_f64 x = f64_round (of_nat (unat x))"

definition f64_add :: "rat \<Rightarrow> rat \<Rightarrow> rat" where
  "f64_add x y = f64_round (x + y)"

definition f64_div :: "rat \<Rightarrow> rat \<Rightarrow> rat" where
  "f64_div x y = f64_round (x / y)"

definition f64_mul :: "rat \<Rightarrow> rat \<Rightarrow> rat" where
  "f64_mul x y = f64_round (x * y)"

section \<open>Durations\<close>

definition as_secs_f64 :: "duration \<Rightarrow> rat" where
  "as_secs_f64 d =
     f64_add (f64_round (of_nat (d div 1000000000)))
             (f64_div (f64_round (of_nat (d mod 1000000000))) 1000000000)"

text \<open>\<open>Duration::from_secs_f64\<close> rounds to the nearest nanosecond, ties to even.\<close>

definition from_secs_f64 :: "rat \<Rightarrow> duration" where
  "from_secs_f64 q =
     (let m = q * 1000000000; f = \<lfloor>m\<rfloor>; r = m - of_int f
      in nat (if r < 1 / 2 \<or> (r = 1 / 2 \<and> even f) then f else f + 1))"

definition duration_mul_f64 :: "duration \<Rightarrow> rat \<Rightarrow> duration" where
  "duration_mul_f64 d factor = from_secs_f64 (f64_mul factor (as_secs_f64 d))"

text \<open>\<open>0.8 + (rand::random::<u16>() % 401) as f64 / 1000.0\<close>, for the number drawn.\<close>

definition jitter :: "u16 \<Rightarrow> rat" where
  "jitter r = f64_add (f64_round (8 / 10)) (f64_div (f64_round (of_nat (unat r mod 401))) 1000)"

section \<open>Rounding error\<close>

text \<open>\<open>floorlog 2 n\<close> is the number of binary digits of \<open>n\<close>.\<close>

lemma floorlog_powi_bounds:
  fixes n :: int
  assumes "0 < n"
  defines "a \<equiv> floorlog 2 (nat n)"
  shows "2 powi (int a - 1) \<le> (of_int n :: rat)" and "(of_int n :: rat) < 2 powi int a"
proof -
  have b: "2 ^ (a - 1) \<le> nat n" "nat n < 2 ^ a"
    using Log_Nat.floorlog_bounds [of "nat n" 2] assms by simp_all
  have "0 < a" using assms by (simp add: zero_less_iff_neq_zero floorlog_eq_zero_iff)
  then have "(2 :: rat) powi (int a - 1) = of_nat (2 ^ (a - 1))"
    by (simp add: power_int_def nat_diff_distrib')
  moreover have n: "(of_int n :: rat) = of_nat (nat n)" using assms(1) by simp
  ultimately show "2 powi (int a - 1) \<le> (of_int n :: rat)" using b(1) by (metis of_nat_le_iff)
  have "(2 :: rat) powi int a = of_nat (2 ^ a)" by simp
  then show "(of_int n :: rat) < 2 powi int a" using b(2) n by (metis of_nat_less_iff)
qed

lemma f64_exponent_bounds:
  assumes "0 < q"
  shows "2 powi f64_exponent q \<le> q" and "q < 2 powi (f64_exponent q + 1)"
proof -
  obtain n d where q: "quotient_of q = (n, d)" by (meson surj_pair)
  have d: "0 < d" using quotient_of_denom_pos [OF q] .
  have nd: "q = of_int n / of_int d" using quotient_of_div [OF q] .
  have n: "0 < n" using assms d by (simp add: nd zero_less_divide_iff)
  define a b where "a = floorlog 2 (nat n)" and "b = floorlog 2 (nat d)"
  note nb = floorlog_powi_bounds [OF n, folded a_def] and db = floorlog_powi_bounds [OF d, folded b_def]
  have "2 powi (int a - int b - 1) = (2 :: rat) powi (int a - 1) / 2 powi int b"
    by (simp add: power_int_diff)
  also have "\<dots> \<le> q"
    unfolding nd using nb(1) db(2) d n by (intro frac_le) (simp_all add: less_imp_le)
  finally have lo: "2 powi (int a - int b - 1) \<le> q" .
  have "q < (2 :: rat) powi int a / 2 powi (int b - 1)"
    unfolding nd using nb(2) db(1) n by (intro frac_less) (simp_all add: less_imp_le)
  also have "\<dots> = 2 powi (int a - int b + 1)"
    by (simp add: power_int_diff power_int_add)
  finally have hi: "q < 2 powi (int a - int b + 1)" .
  have e: "f64_exponent q = (if 2 powi (int a - int b) \<le> q then int a - int b else int a - int b - 1)"
    by (simp add: f64_exponent_def q a_def b_def Let_def)
  show "2 powi f64_exponent q \<le> q" "q < 2 powi (f64_exponent q + 1)"
    using lo hi by (auto simp: e not_le)
qed

lemma round_half_even_error:
  fixes m :: rat
  defines "f \<equiv> \<lfloor>m\<rfloor>" and "r \<equiv> m - of_int \<lfloor>m\<rfloor>"
  shows "\<bar>of_int (if r < 1 / 2 \<or> (r = 1 / 2 \<and> even f) then f else f + 1) - m\<bar> \<le> 1 / 2"
proof -
  have "0 \<le> r" "r < 1" unfolding r_def by linarith+
  then show ?thesis by (auto simp: f_def r_def abs_le_iff)
qed

lemma f64_round_error: "0 \<le> q \<Longrightarrow> \<bar>f64_round q - q\<bar> \<le> q / 2 ^ 53"
proof (cases "q = 0")
  case True
  then show ?thesis by (simp add: f64_round_def)
next
  case False
  assume "0 \<le> q"
  with False have q: "0 < q" by simp
  define e where "e = f64_exponent q"
  define m where "m = q * 2 powi (52 - e)"
  define g where "g = (if m - of_int \<lfloor>m\<rfloor> < 1 / 2 \<or> (m - of_int \<lfloor>m\<rfloor> = 1 / 2 \<and> even \<lfloor>m\<rfloor>) then \<lfloor>m\<rfloor> else \<lfloor>m\<rfloor> + 1)"
  have fr: "f64_round q = of_int g * 2 powi (e - 52)"
    using q by (simp add: f64_round_def Let_def g_def m_def e_def)
  have qm: "q = m * 2 powi (e - 52)"
    by (simp add: m_def power_int_add [symmetric] mult.assoc)
  have "f64_round q - q = (of_int g - m) * 2 powi (e - 52)"
    unfolding fr by (subst qm) (simp add: left_diff_distrib)
  then have "\<bar>f64_round q - q\<bar> = \<bar>of_int g - m\<bar> * 2 powi (e - 52)" by (simp add: abs_mult)
  also have "\<dots> \<le> 1 / 2 * 2 powi (e - 52)"
    using round_half_even_error [of m] unfolding g_def by (intro mult_right_mono) simp_all
  also have "\<dots> = 2 powi e / 2 ^ 53" by (simp add: power_int_diff)
  also have "\<dots> \<le> q / 2 ^ 53" using f64_exponent_bounds(1) [OF q] by (simp add: e_def divide_right_mono)
  finally show ?thesis .
qed

lemma f64_round_le: "0 \<le> q \<Longrightarrow> q \<le> b \<Longrightarrow> f64_round q \<le> b * (1 + 1 / 2 ^ 53)"
proof -
  assume q: "0 \<le> q" "q \<le> b"
  have "f64_round q \<le> q + q / 2 ^ 53" using f64_round_error [OF q(1)] by linarith
  also have "\<dots> \<le> b + b / 2 ^ 53" using q(2) by (intro add_mono divide_right_mono) simp_all
  finally show ?thesis by (simp add: algebra_simps)
qed

lemma f64_round_nonneg: "0 \<le> q \<Longrightarrow> 0 \<le> f64_round q"
proof -
  assume q: "0 \<le> q"
  have "q / 2 ^ 53 \<le> q" using q by (simp add: field_simps)
  then show ?thesis using f64_round_error [OF q] by linarith
qed

section \<open>Jitter\<close>

text \<open>The jitter stretches a duration by a fifth at most; a generous bound absorbs the rounding.\<close>

lemma jitter_le: "jitter r \<le> 601 / 500" and jitter_nonneg: "0 \<le> jitter r"
proof -
  define x :: rat where "x = of_nat (unat r mod 401)"
  have x: "0 \<le> x" "x \<le> 400"
  proof -
    have "unat r mod 401 \<le> 400" by (simp add: less_Suc_eq_le [symmetric])
    then show "x \<le> 400" unfolding x_def by (metis of_nat_le_iff of_nat_numeral)
  qed (simp add: x_def)
  have fx: "0 \<le> f64_round x" "f64_round x \<le> 400 * (1 + 1 / 2 ^ 53)"
    using f64_round_nonneg [OF x(1)] f64_round_le [OF x(1,2)] by simp_all
  have dx: "0 \<le> f64_round (f64_round x / 1000)"
    "f64_round (f64_round x / 1000) \<le> 400 * (1 + 1 / 2 ^ 53) / 1000 * (1 + 1 / 2 ^ 53)"
    using f64_round_nonneg f64_round_le [of "f64_round x / 1000" "400 * (1 + 1 / 2 ^ 53) / 1000"] fx
    by (simp_all add: divide_right_mono)
  have c: "0 \<le> f64_round (8 / 10)" "f64_round (8 / 10) \<le> 8 / 10 * (1 + 1 / 2 ^ 53)"
    using f64_round_nonneg [of "8 / 10"] f64_round_le [of "8 / 10" "8 / 10"] by simp_all
  have j: "jitter r = f64_round (f64_round (8 / 10) + f64_round (f64_round x / 1000))"
    by (simp add: jitter_def f64_add_def f64_div_def x_def)
  show "0 \<le> jitter r" using f64_round_nonneg c(1) dx(1) by (simp add: j)
  have "jitter r \<le> (8 / 10 * (1 + 1 / 2 ^ 53) + 400 * (1 + 1 / 2 ^ 53) / 1000 * (1 + 1 / 2 ^ 53)) * (1 + 1 / 2 ^ 53)"
    unfolding j using c dx by (intro f64_round_le) simp_all
  also have "\<dots> \<le> 601 / 500" by simp
  finally show "jitter r \<le> 601 / 500" .
qed

lemma as_secs_le: "as_secs_f64 d \<le> of_nat d / 1000000000 * (1001 / 1000)" and as_secs_nonneg: "0 \<le> as_secs_f64 d"
proof -
  let ?s = "of_nat (d div 1000000000) :: rat" and ?n = "of_nat (d mod 1000000000) :: rat"
  let ?u = "1 + 1 / 2 ^ 53 :: rat"
  have s: "0 \<le> f64_round ?s" "f64_round ?s \<le> ?s * ?u"
    and n: "0 \<le> f64_round ?n" "f64_round ?n \<le> ?n * ?u"
    using f64_round_nonneg [of ?s] f64_round_le [of ?s ?s] f64_round_nonneg [of ?n] f64_round_le [of ?n ?n]
    by simp_all
  have q: "0 \<le> f64_round (f64_round ?n / 1000000000)"
    "f64_round (f64_round ?n / 1000000000) \<le> ?n * ?u / 1000000000 * ?u"
    using f64_round_nonneg f64_round_le [of "f64_round ?n / 1000000000" "?n * ?u / 1000000000"] n
    by (simp_all add: divide_right_mono)
  have a: "as_secs_f64 d = f64_round (f64_round ?s + f64_round (f64_round ?n / 1000000000))"
    by (simp add: as_secs_f64_def f64_add_def f64_div_def)
  show "0 \<le> as_secs_f64 d" using f64_round_nonneg s(1) q(1) by (simp add: a)
  have "d = d div 1000000000 * 1000000000 + d mod 1000000000" by simp
  then have d: "of_nat d = ?s * 1000000000 + ?n"
    by (metis of_nat_add of_nat_mult of_nat_numeral)
  have "as_secs_f64 d \<le> (?s * ?u + ?n * ?u / 1000000000 * ?u) * ?u"
    unfolding a using s q by (intro f64_round_le) simp_all
  also have "\<dots> \<le> of_nat d / 1000000000 * (1001 / 1000)"
    unfolding d by (simp add: field_simps)
  finally show "as_secs_f64 d \<le> of_nat d / 1000000000 * (1001 / 1000)" .
qed

lemma jittered_le: "of_nat (duration_mul_f64 d (jitter r)) \<le> (of_nat d * (5 / 4) + 1 / 2 :: rat)"
proof -
  let ?p = "jitter r * as_secs_f64 d"
  have p: "0 \<le> ?p" using jitter_nonneg as_secs_nonneg by simp
  have "?p \<le> 601 / 500 * (of_nat d / 1000000000 * (1001 / 1000))"
    using jitter_le as_secs_le as_secs_nonneg by (intro mult_mono) simp_all
  then have "f64_round ?p \<le> 601 / 500 * (of_nat d / 1000000000 * (1001 / 1000)) * (1 + 1 / 2 ^ 53)"
    using f64_round_le [OF p] by blast
  then have m: "f64_round ?p * 1000000000 \<le> of_nat d * (5 / 4)"
    by (simp add: field_simps)
  define q where "q = f64_round ?p * 1000000000"
  define g where "g = (if q - of_int \<lfloor>q\<rfloor> < 1 / 2 \<or> (q - of_int \<lfloor>q\<rfloor> = 1 / 2 \<and> even \<lfloor>q\<rfloor>) then \<lfloor>q\<rfloor> else \<lfloor>q\<rfloor> + 1)"
  have g: "of_int g \<le> q + 1 / 2" using round_half_even_error [of q] unfolding g_def by linarith
  have "0 \<le> q" using f64_round_nonneg [OF p] by (simp add: q_def)
  then have "0 \<le> g" by (auto simp: g_def)
  then have "(of_nat (nat g) :: rat) = of_int g" by simp
  moreover have "duration_mul_f64 d (jitter r) = nat g"
    by (simp add: duration_mul_f64_def from_secs_f64_def f64_mul_def Let_def g_def q_def)
  ultimately show ?thesis using g m by (simp add: q_def)
qed


lemma f64_round_ge: "0 \<le> b \<Longrightarrow> b \<le> q \<Longrightarrow> b * (1 - 1 / 2 ^ 53) \<le> f64_round q"
proof -
  assume b: "0 \<le> b" "b \<le> q"
  have "b * (1 - 1 / 2 ^ 53) \<le> q * (1 - 1 / 2 ^ 53)" using b(2) by (rule mult_right_mono) simp
  also have "\<dots> \<le> f64_round q"
  proof -
    have "q - f64_round q \<le> q / 2 ^ 53" using f64_round_error [of q] b by linarith
    then show ?thesis by (simp add: algebra_simps)
  qed
  finally show ?thesis .
qed

lemma jitter_ge: "799 / 1000 \<le> jitter r"
proof -
  have "(8 / 10 * (1 - 1 / 2 ^ 53) + 0) * (1 - 1 / 2 ^ 53) \<le> jitter r"
    unfolding jitter_def f64_add_def f64_div_def
    using f64_round_ge [of "8 / 10" "8 / 10"]
    by (intro f64_round_ge add_mono f64_round_nonneg divide_nonneg_nonneg) simp_all
  then show ?thesis by simp
qed

lemma as_secs_ge: "of_nat d / 1000000000 * (999 / 1000) \<le> as_secs_f64 d"
proof -
  let ?s = "of_nat (d div 1000000000) :: rat" and ?n = "of_nat (d mod 1000000000) :: rat"
  let ?u = "1 - 1 / 2 ^ 53 :: rat"
  have n: "?n * ?u / 1000000000 * ?u \<le> f64_round (f64_round ?n / 1000000000)"
    using f64_round_ge [of ?n ?n] by (intro f64_round_ge) (simp_all add: divide_right_mono)
  have "(?s * ?u + ?n * ?u / 1000000000 * ?u) * ?u \<le> as_secs_f64 d"
    unfolding as_secs_f64_def f64_add_def f64_div_def
    by (rule f64_round_ge) (use f64_round_ge [of ?s ?s] n in \<open>simp_all only: add_mono\<close>, simp_all)
  moreover have "of_nat d = ?s * 1000000000 + ?n"
  proof -
    have "d = d div 1000000000 * 1000000000 + d mod 1000000000" by simp
    then show ?thesis by (metis of_nat_add of_nat_mult of_nat_numeral)
  qed
  moreover have "(?s * 1000000000 + ?n) / 1000000000 * (999 / 1000) \<le> (?s * ?u + ?n * ?u / 1000000000 * ?u) * ?u"
    by (simp add: field_simps)
  ultimately show ?thesis by simp
qed

lemma jittered_ge: "of_nat d * (3 / 4) - 1 / 2 \<le> (of_nat (duration_mul_f64 d (jitter r)) :: rat)"
proof -
  let ?p = "jitter r * as_secs_f64 d"
  define q where "q = f64_round ?p * 1000000000"
  have "799 / 1000 * (of_nat d / 1000000000 * (999 / 1000)) \<le> ?p"
    using jitter_ge [of r] jitter_nonneg [of r] as_secs_ge [of d] by (intro mult_mono) simp_all
  then have "799 / 1000 * (of_nat d / 1000000000 * (999 / 1000)) * (1 - 1 / 2 ^ 53) \<le> f64_round ?p"
    by (intro f64_round_ge) simp_all
  then have m: "of_nat d * (3 / 4) \<le> q" unfolding q_def by (simp add: field_simps)
  define g where "g = (if q - of_int \<lfloor>q\<rfloor> < 1 / 2 \<or> (q - of_int \<lfloor>q\<rfloor> = 1 / 2 \<and> even \<lfloor>q\<rfloor>) then \<lfloor>q\<rfloor> else \<lfloor>q\<rfloor> + 1)"
  have "of_int g \<ge> q - 1 / 2" using round_half_even_error [of q, folded g_def] by linarith
  moreover have "duration_mul_f64 d (jitter r) = nat g"
    by (simp add: duration_mul_f64_def from_secs_f64_def f64_mul_def Let_def g_def q_def)
  moreover have "(of_int g :: rat) \<le> of_nat (nat g)" by simp
  ultimately show ?thesis using m by simp
qed

end
