(* ===== verification/Placement.thy ===== *)
theory Placement
  imports Actor_Address Float64
begin

text \<open>
  Client-side Placement (\<open>coactor/src/cluster/placement.rs\<close>): the power-of-two-choices
  strategy with its in-flight bookkeeping.  Load Ratios are \<open>f64\<close>s, as in theory
  \<open>Float64\<close>.  The random source
  is a parameter; the re-draw loop runs until it gives a second index, so \<open>pick\<close> is a partial
  function whose \<open>None\<close> is a loop that never ends.
\<close>

section \<open>Strategy\<close>

definition IN_FLIGHT_TTL :: duration where
  "IN_FLIGHT_TTL = from_secs 3"

record placement_candidate =
  cand_endpoint :: string
  cand_active_actor_count :: usize
  cand_max_actor_count :: usize

type_synonym in_flight_map = "(string, usize \<times> instant) hmap"

record 'g p2c_placement =
  p2c_rng :: 'g
  in_flight :: in_flight_map

definition P2cPlacement_new :: "'g \<Rightarrow> 'g p2c_placement" where
  "P2cPlacement_new rng = \<lparr>p2c_rng = rng, in_flight = hm_empty\<rparr>"

definition in_flight_count :: "in_flight_map \<Rightarrow> string \<Rightarrow> usize" where
  "in_flight_count m endpoint = (case hm_get m endpoint of None \<Rightarrow> 0 | Some (count, _) \<Rightarrow> count)"

definition predicted_ratio :: "placement_candidate \<Rightarrow> in_flight_map \<Rightarrow> rat" where
  "predicted_ratio candidate m =
     f64_div (f64_add (usize_as_f64 (cand_active_actor_count candidate))
                      (usize_as_f64 (in_flight_count m (cand_endpoint candidate))))
             (usize_as_f64 (max (cand_max_actor_count candidate) 1))"

definition draw_index :: "('g \<Rightarrow> u64 \<times> 'g) \<Rightarrow> nat \<Rightarrow> 'g \<Rightarrow> nat \<times> 'g" where
  "draw_index next_u64 n rng = (case next_u64 rng of (x, rng') \<Rightarrow> (unat x mod n, rng'))"

partial_function (option) redraw ::
  "('g \<Rightarrow> u64 \<times> 'g) \<Rightarrow> nat \<Rightarrow> nat \<Rightarrow> nat \<Rightarrow> 'g \<Rightarrow> (nat \<times> 'g) option" where
  [code]: "redraw next_u64 n first second rng =
     (if n > 1 \<and> second = first
      then (case draw_index next_u64 n rng of (second', rng') \<Rightarrow> redraw next_u64 n first second' rng')
      else Some (second, rng))"

definition retain_recent :: "instant \<Rightarrow> in_flight_map \<Rightarrow> in_flight_map" where
  "retain_recent now m = filter (\<lambda>(_, _, updated). now - updated < IN_FLIGHT_TTL) m"

definition record_placement :: "instant \<Rightarrow> string \<Rightarrow> in_flight_map \<Rightarrow> in_flight_map" where
  "record_placement now endpoint m =
     (case hm_get m endpoint of
        None \<Rightarrow> hm_insert endpoint (1, now) m
      | Some (count, _) \<Rightarrow> hm_insert endpoint (count + 1, now) m)"

text \<open>\<open>sort_by\<close> is stable: of two indices the first stays first unless the second is strictly lower.\<close>

definition order_picked :: "placement_candidate list \<Rightarrow> in_flight_map \<Rightarrow> nat \<Rightarrow> nat \<Rightarrow> nat list" where
  "order_picked cs m first second =
     (if second = first then [first]
      else if predicted_ratio (cs ! second) m < predicted_ratio (cs ! first) m then [second, first]
      else [first, second])"

definition pick ::
  "('g \<Rightarrow> u64 \<times> 'g) \<Rightarrow> instant \<Rightarrow> placement_candidate list \<Rightarrow> 'g p2c_placement
     \<Rightarrow> (string list \<times> 'g p2c_placement) option" where
  "pick next_u64 now cs p =
     (let n = length cs in
      if n = 0 then Some ([], p)
      else let m = retain_recent now (in_flight p);
               (first, rng1) = draw_index next_u64 n (p2c_rng p);
               (second, rng2) = draw_index next_u64 n rng1
           in case redraw next_u64 n first second rng2 of
                None \<Rightarrow> None
              | Some (second', rng3) \<Rightarrow>
                  let picked = order_picked cs m first second';
                      target = cs ! hd picked
                  in Some (map (\<lambda>i. cand_endpoint (cs ! i)) picked,
                           \<lparr>p2c_rng = rng3, in_flight = record_placement now (cand_endpoint target) m\<rparr>))"

definition on_placement_failed :: "string \<Rightarrow> 'g p2c_placement \<Rightarrow> 'g p2c_placement" where
  "on_placement_failed endpoint p =
     (case hm_get (in_flight p) endpoint of
        None \<Rightarrow> p
      | Some (count, updated) \<Rightarrow>
          p\<lparr>in_flight := hm_insert endpoint (saturating_sub count 1, updated) (in_flight p)\<rparr>)"

section \<open>Lemmas\<close>

lemma hm_get_retain:
  assumes "hm_ok m"
  shows "hm_get (retain_recent now m) k =
     (case hm_get m k of Some (c, u) \<Rightarrow> if now - u < IN_FLIGHT_TTL then Some (c, u) else None | None \<Rightarrow> None)"
  using assms
proof (induction m)
  case Nil
  then show ?case by (simp add: retain_recent_def)
next
  case (Cons x m)
  obtain k' c u where x: "x = (k', c, u)" by (metis prod_cases3)
  have ok: "hm_ok m" and new: "hm_get m k' = None"
    using Cons.prems by (auto simp: x hm_ok_def hm_keys_def hm_get_def map_of_eq_None_iff)
  then have "hm_get (retain_recent now m) k' = None"
    by (auto simp: retain_recent_def hm_get_def map_of_eq_None_iff)
  then show ?case using Cons.IH [OF ok] new by (auto simp: x retain_recent_def)
qed

lemma hm_ok_retain [simp]: "hm_ok m \<Longrightarrow> hm_ok (retain_recent now m)"
  by (simp add: hm_ok_def hm_keys_def retain_recent_def distinct_map_filter)

lemma hm_ok_record [simp]: "hm_ok m \<Longrightarrow> hm_ok (record_placement now e m)"
  by (simp add: record_placement_def split: option.splits prod.splits)

lemma hm_get_record:
  "hm_get (record_placement now e m) k =
     (if k = e then Some (in_flight_count m e + 1, now) else hm_get m k)"
  by (auto simp: record_placement_def in_flight_count_def split: option.splits prod.splits)

lemma draw_index_less: "0 < n \<Longrightarrow> draw_index next_u64 n rng = (i, rng') \<Longrightarrow> i < n"
  by (auto simp: draw_index_def split: prod.splits)

lemma redraw_Some_aux:
  assumes "redraw next_u64 n first second rng = Some y"
  shows "0 < n \<longrightarrow> second < n \<longrightarrow> fst y < n \<and> (1 < n \<longrightarrow> fst y \<noteq> first)"
  using _ assms
proof (rule redraw.raw_induct)
  fix redraw' :: "('g \<Rightarrow> u64 \<times> 'g) \<Rightarrow> nat \<Rightarrow> nat \<Rightarrow> nat \<Rightarrow> 'g \<Rightarrow> (nat \<times> 'g) option"
    and next_u64 n first second rng y
  assume ih: "\<And>next_u64 n first second rng y. redraw' next_u64 n first second rng = Some y \<Longrightarrow>
      0 < n \<longrightarrow> second < n \<longrightarrow> fst y < n \<and> (1 < n \<longrightarrow> fst y \<noteq> first)"
    and body: "(if n > 1 \<and> second = first
      then (case draw_index next_u64 n rng of (second', rng') \<Rightarrow> redraw' next_u64 n first second' rng')
      else Some (second, rng)) = Some y"
  obtain i rng' where d: "draw_index next_u64 n rng = (i, rng')" by (meson surj_pair)
  show "0 < n \<longrightarrow> second < n \<longrightarrow> fst y < n \<and> (1 < n \<longrightarrow> fst y \<noteq> first)"
    using body d ih [of next_u64 n first i rng' y] draw_index_less [OF _ d] by (auto split: if_splits)
qed

lemma redraw_Some:
  assumes "redraw next_u64 n first second rng = Some (i, rng')" and "0 < n" and "second < n"
  shows "i < n" and "1 < n \<Longrightarrow> i \<noteq> first"
  using redraw_Some_aux [OF assms(1)] assms(2,3) by auto

text \<open>The \<open>k\<close>-th index the source gives from here on.\<close>

fun nth_draw :: "('g \<Rightarrow> u64 \<times> 'g) \<Rightarrow> nat \<Rightarrow> nat \<Rightarrow> 'g \<Rightarrow> nat" where
  "nth_draw next_u64 n 0 rng = fst (draw_index next_u64 n rng)"
| "nth_draw next_u64 n (Suc k) rng = nth_draw next_u64 n k (snd (draw_index next_u64 n rng))"

lemma redraw_terminates:
  "nth_draw next_u64 n k rng \<noteq> first \<Longrightarrow> redraw next_u64 n first second rng \<noteq> None"
proof (induction k arbitrary: second rng)
  case 0
  obtain i rng' where d: "draw_index next_u64 n rng = (i, rng')" by fastforce
  then have "redraw next_u64 n first i rng' = Some (i, rng')"
    using 0 by (subst redraw.simps) simp
  then show ?case using d by (subst redraw.simps) simp
next
  case (Suc k)
  obtain i rng' where d: "draw_index next_u64 n rng = (i, rng')" by fastforce
  then show ?case using Suc.IH [of rng' i] Suc.prems by (subst redraw.simps) simp
qed

lemma pick_cases:
  assumes "pick next_u64 now cs p = Some (es, p')" and "cs \<noteq> []"
  obtains first second where "first < length cs" "second < length cs" "1 < length cs \<Longrightarrow> second \<noteq> first"
    "es = map (\<lambda>i. cand_endpoint (cs ! i)) (order_picked cs (retain_recent now (in_flight p)) first second)"
    "in_flight p' = record_placement now (hd es) (retain_recent now (in_flight p))"
proof -
  let ?n = "length cs" and ?m = "retain_recent now (in_flight p)"
  obtain f rng1 where f: "draw_index next_u64 ?n (p2c_rng p) = (f, rng1)" by fastforce
  obtain s rng2 where s: "draw_index next_u64 ?n rng1 = (s, rng2)" by fastforce
  obtain s' rng3 where r: "redraw next_u64 ?n f s rng2 = Some (s', rng3)"
    using assms f s by (auto simp: pick_def Let_def split: option.splits)
  have n: "0 < ?n" using assms(2) by simp
  have "f < ?n" using draw_index_less [OF n f] .
  moreover have "s < ?n" using draw_index_less [OF n s] .
  then have "s' < ?n" "1 < ?n \<Longrightarrow> s' \<noteq> f" using redraw_Some [OF r n] by auto
  moreover have "order_picked cs ?m f s' \<noteq> []" by (simp add: order_picked_def)
  then have "es = map (\<lambda>i. cand_endpoint (cs ! i)) (order_picked cs ?m f s')"
    "in_flight p' = record_placement now (hd es) ?m"
    using assms f s r n by (auto simp: pick_def Let_def hd_map)
  ultimately show thesis by (rule that)
qed

lemma order_picked_props:
  assumes "first < length cs" "second < length cs" "1 < length cs \<Longrightarrow> second \<noteq> first"
  shows "distinct (order_picked cs m first second)" "length (order_picked cs m first second) = min 2 (length cs)"
    "\<forall>i \<in> set (order_picked cs m first second). i < length cs
       \<and> predicted_ratio (cs ! hd (order_picked cs m first second)) m \<le> predicted_ratio (cs ! i) m"
proof -
  consider "length cs = 1" | "1 < length cs" using assms(1) by linarith
  then have "length (order_picked cs m first second) = min 2 (length cs)"
    using assms by cases (auto simp: order_picked_def)
  then show "length (order_picked cs m first second) = min 2 (length cs)" .
qed (use assms in \<open>auto simp: order_picked_def\<close>)

text \<open>A run of Placements on one endpoint, as \<open>pick\<close> accounts for them.\<close>

definition place_each :: "string \<Rightarrow> instant list \<Rightarrow> in_flight_map \<Rightarrow> in_flight_map" where
  "place_each e ts m = fold (\<lambda>now m. record_placement now e (retain_recent now m)) ts m"

lemma hm_ok_place_each [simp]: "hm_ok m \<Longrightarrow> hm_ok (place_each e ts m)"
  by (induction ts arbitrary: m) (simp_all add: place_each_def)

lemma place_each_snoc:
  "place_each e (ts @ [t]) m = record_placement t e (retain_recent t (place_each e ts m))"
  by (simp add: place_each_def)

lemma place_each_get:
  assumes "hm_ok m" and "in_flight_count (retain_recent (hd ts) m) e = 0"
    and "ts \<noteq> []" and "successively (\<lambda>s t. t - s < IN_FLIGHT_TTL) ts"
  shows "hm_get (place_each e ts m) e = Some (word_of_nat (length ts), last ts)"
  using assms(2-)
proof (induction ts rule: rev_induct)
  case (snoc t ts)
  show ?case
  proof (cases "ts = []")
    case True
    then show ?thesis using snoc.prems by (simp add: place_each_def hm_get_record)
  next
    case False
    then have "hm_get (place_each e ts m) e = Some (word_of_nat (length ts), last ts)"
      and "t - last ts < IN_FLIGHT_TTL"
      using snoc by (auto simp: successively_append_iff)
    then show ?thesis
      using assms(1)
      by (simp add: place_each_snoc hm_get_record in_flight_count_def hm_get_retain)
  qed
qed simp

section \<open>Properties\<close>

text \<open>
  C34. The p2c strategy offers one candidate, or two different ones if there are two, and puts
  first one whose predicted Load Ratio (as an \<open>f64\<close>) is not above the other's; the first
  endpoint's in-flight count, and no other, goes up by one.
\<close>

theorem pick_prefers_lower_load:
  assumes "pick next_u64 now cs p = Some (es, p')" and "cs \<noteq> []" and "hm_ok (in_flight p)"
  shows "\<exists>picked. es = map (\<lambda>i. cand_endpoint (cs ! i)) picked \<and> distinct picked
     \<and> length picked = min 2 (length cs)
     \<and> (\<forall>i \<in> set picked. i < length cs
          \<and> predicted_ratio (cs ! hd picked) (retain_recent now (in_flight p))
              \<le> predicted_ratio (cs ! i) (retain_recent now (in_flight p)))
     \<and> (\<forall>e. in_flight_count (in_flight p') e =
          in_flight_count (retain_recent now (in_flight p)) e + (if e = hd es then 1 else 0))"
proof (rule pick_cases [OF assms(1,2)])
  fix first second
  assume fs: "first < length cs" "second < length cs" "1 < length cs \<Longrightarrow> second \<noteq> first"
    and es: "es = map (\<lambda>i. cand_endpoint (cs ! i)) (order_picked cs (retain_recent now (in_flight p)) first second)"
    and fl: "in_flight p' = record_placement now (hd es) (retain_recent now (in_flight p))"
  have "\<forall>e. in_flight_count (in_flight p') e =
      in_flight_count (retain_recent now (in_flight p)) e + (if e = hd es then 1 else 0)"
    by (simp add: fl in_flight_count_def hm_get_record split: option.splits)
  then show ?thesis
    using es order_picked_props [OF fs, of "retain_recent now (in_flight p)"] by blast
qed

text \<open>
  A failed Placement is taken back: after \<open>on_placement_failed\<close> for the endpoint just
  chosen, every in-flight count is what the recent Placements before it gave (below the
  maximum of \<open>usize\<close>).
\<close>

theorem failed_placement_rolled_back:
  assumes "pick next_u64 now cs p = Some (es, p')" and "cs \<noteq> []" and "hm_ok (in_flight p)"
    and "in_flight_count (retain_recent now (in_flight p)) (hd es) \<noteq> - 1"
  shows "in_flight_count (in_flight (on_placement_failed (hd es) p')) e =
     in_flight_count (retain_recent now (in_flight p)) e"
proof (rule pick_cases [OF assms(1,2)])
  fix first second
  assume fl: "in_flight p' = record_placement now (hd es) (retain_recent now (in_flight p))"
  let ?c = "in_flight_count (retain_recent now (in_flight p)) (hd es)"
  have "1 \<le> ?c + 1" using assms(4) by (metis add.commute add_eq_0_iff one_neq_zero word_gt_0 word_less_1 not_le)
  then have "saturating_sub (?c + 1) 1 = ?c" by (simp add: saturating_sub_def)
  then show ?thesis
    by (auto simp: on_placement_failed_def fl hm_get_record in_flight_count_def)
qed

text \<open>
  The strategy returns whenever its random source eventually gives an index other than the
  first one drawn; with a single candidate or none it always returns.
\<close>

theorem pick_returns:
  assumes "length cs \<le> 1
     \<or> (\<exists>k. nth_draw next_u64 (length cs) k
            (snd (draw_index next_u64 (length cs) (snd (draw_index next_u64 (length cs) (p2c_rng p)))))
          \<noteq> fst (draw_index next_u64 (length cs) (p2c_rng p)))"
  shows "pick next_u64 now cs p \<noteq> None"
proof -
  let ?n = "length cs"
  obtain f rng1 where f: "draw_index next_u64 ?n (p2c_rng p) = (f, rng1)" by fastforce
  obtain s rng2 where s: "draw_index next_u64 ?n rng1 = (s, rng2)" by fastforce
  have "redraw next_u64 ?n f s rng2 \<noteq> None"
  proof (cases "?n \<le> 1")
    case True
    then show ?thesis by (subst redraw.simps) simp
  next
    case False
    then show ?thesis using assms f s redraw_terminates by auto
  qed
  then show ?thesis using f s by (auto simp: pick_def Let_def)
qed

text \<open>
  Under steady traffic the in-flight window never closes: if Placements on an endpoint
  follow each other in less than \<open>IN_FLIGHT_TTL\<close>, the count is the number of all of them,
  however long ago they were made and however often the lease has reported them since.
\<close>

theorem steady_traffic_never_expires:
  assumes "hm_ok m" and "in_flight_count (retain_recent (hd ts) m) e = 0"
    and "ts \<noteq> []" and "successively (\<lambda>s t. t - s < IN_FLIGHT_TTL) ts"
  shows "in_flight_count (place_each e ts m) e = word_of_nat (length ts)"
  using place_each_get [OF assms] by (simp add: in_flight_count_def)

section \<open>Witnesses\<close>

definition demo_rng :: "nat \<Rightarrow> u64 \<times> nat" where
  "demo_rng g = (word_of_nat (g div 2), Suc g)"

definition demo_candidates :: "placement_candidate list" where
  "demo_candidates =
     [\<lparr>cand_endpoint = ''node-a'', cand_active_actor_count = 90, cand_max_actor_count = 100\<rparr>,
      \<lparr>cand_endpoint = ''node-b'', cand_active_actor_count = 10, cand_max_actor_count = 100\<rparr>]"

text \<open>The ratio of the more loaded node rounds to the double next to 0.9.\<close>

lemma demo_ratios:
  "predicted_ratio (demo_candidates ! 0) [] = 8106479329266893 / 9007199254740992"
  "predicted_ratio (demo_candidates ! 1) [] = 3602879701896397 / 36028797018963968"
  by code_simp+

lemma demo_redraw: "redraw demo_rng 2 0 0 2 = Some (1, 3)"
proof -
  have "redraw demo_rng 2 0 1 3 = Some (1, 3)" by (subst redraw.simps) simp
  then show ?thesis by (subst redraw.simps) (simp add: draw_index_def demo_rng_def)
qed

lemma demo_pick:
  "pick demo_rng 5 demo_candidates (P2cPlacement_new 0) =
     Some ([''node-b'', ''node-a''], \<lparr>p2c_rng = 3, in_flight = [(''node-b'', 1, 5)]\<rparr>)"
proof -
  have "length demo_candidates = 2" by (simp add: demo_candidates_def)
  moreover have "draw_index demo_rng 2 0 = (0, 1)" "draw_index demo_rng 2 1 = (0, 2)"
    by (simp_all add: draw_index_def demo_rng_def)
  moreover have "order_picked demo_candidates [] 0 1 = [1, 0]"
    using demo_ratios by (simp add: order_picked_def)
  ultimately show ?thesis
    using demo_redraw
    by (simp add: pick_def P2cPlacement_new_def retain_recent_def record_placement_def hm_insert_def
        hm_empty_def Let_def)
      (simp add: demo_candidates_def)
qed


lemma demo_pick_premises: "demo_candidates \<noteq> []" "hm_ok (in_flight (P2cPlacement_new (0 :: nat)))"
  by (simp_all add: demo_candidates_def P2cPlacement_new_def)

theorem pick_prefers_lower_load_witness:
  "\<exists>picked. [''node-b'', ''node-a''] = map (\<lambda>i. cand_endpoint (demo_candidates ! i)) picked
     \<and> distinct picked \<and> length picked = min 2 (length demo_candidates)"
  by (rule exE [OF pick_prefers_lower_load [OF demo_pick demo_pick_premises]], elim conjE, intro exI conjI)

theorem failed_placement_rolled_back_witness:
  "in_flight_count
     (in_flight (on_placement_failed ''node-b'' \<lparr>p2c_rng = 3 :: nat, in_flight = [(''node-b'', 1, 5)]\<rparr>))
     ''node-b'' = in_flight_count (retain_recent 5 (in_flight (P2cPlacement_new (0 :: nat)))) ''node-b''"
  using failed_placement_rolled_back [OF demo_pick demo_pick_premises, of "''node-b''"]
  by (simp add: P2cPlacement_new_def in_flight_count_def retain_recent_def hm_empty_def)

theorem pick_returns_witness: "pick demo_rng 5 demo_candidates (P2cPlacement_new 0) \<noteq> None"
  by (rule pick_returns, rule disjI2, rule exI [where x = 0])
    (simp add: demo_candidates_def draw_index_def demo_rng_def P2cPlacement_new_def)

theorem steady_traffic_never_expires_witness:
  "in_flight_count (place_each ''node-a'' [from_secs 0, from_secs 2, from_secs 4, from_secs 6] hm_empty)
     ''node-a'' = 4"
  using steady_traffic_never_expires
    [of hm_empty "[from_secs 0, from_secs 2, from_secs 4, from_secs 6]" "''node-a''"]
  by (simp add: retain_recent_def in_flight_count_def IN_FLIGHT_TTL_def from_secs_def)

end
