(* ===== verification/Client_Connections.thy ===== *)
theory Client_Connections
  imports Session_Registry Tokio_Interface Placement
begin

text \<open>
  The state of a Client (\<open>coactor/src/client/mod.rs\<close>, \<open>coactor/src/client/session.rs\<close>):
  Transport Connections and the Sessions bound to them, the registry of local Session
  receivers, the connection pools, the opens waiting for an acknowledgement; and every
  operation that works on it without waiting: binding, the receive loop's handling of an
  envelope and its end, the two halves of acquiring a connection, sending, dropping a Session,
  shutting down.  Objects shared through an \<open>Arc\<close> (connections, pools, event channels) live in a
  store and are named by references, so a task that got hold of one keeps it after \<open>shutdown\<close> has
  dropped it from its table.  A channel is one of the \<open>tokio\<close> parameter, the wire is
  the parameter \<open>tx\<close>, and closing a sender the parameter \<open>tx_close\<close>.
\<close>

section \<open>Configuration\<close>

definition SESSION_RECEIVER_CAPACITY :: nat where
  "SESSION_RECEIVER_CAPACITY = 64"

definition DEFAULT_OPEN_TIMEOUT :: duration where
  "DEFAULT_OPEN_TIMEOUT = from_secs 3"

definition DEFAULT_MAX_OPEN_ATTEMPTS :: usize where
  "DEFAULT_MAX_OPEN_ATTEMPTS = 3"

definition DEFAULT_MAX_CONNECTIONS_PER_ENDPOINT :: usize where
  "DEFAULT_MAX_CONNECTIONS_PER_ENDPOINT = 4"

definition DEFAULT_TRANSPORT_CONNECT_TIMEOUT :: duration where
  "DEFAULT_TRANSPORT_CONNECT_TIMEOUT = from_secs 3"

definition CLIENT_RUNNING :: u8 where
  "CLIENT_RUNNING = 0"

definition CLIENT_STOPPED :: u8 where
  "CLIENT_STOPPED = 1"

section \<open>Transport Connections\<close>

text \<open>
  A \<open>HashSet\<close> of Sessions is a list without repetitions.  \<open>bind\<close> and \<open>unbind\<close> change the set under
  its lock and the counter only after releasing it, so other tasks run in between: \<open>tc_adding\<close>
  and \<open>tc_removing\<close> name the Sessions whose task stands there, having changed the set but not
  yet the counter.  \<open>tc_bind\<close> and \<open>tc_unbind\<close> are the two sections without anything in between.
\<close>

record transport_connection =
  tc_id :: u64
  tc_endpoint :: string
  tc_sender :: sender_id
  tc_sessions :: "session_id list"
  tc_bound_sessions :: usize
  tc_closed :: bool
  tc_adding :: "session_id list"
  tc_removing :: "session_id list"

definition tc_insert :: "session_id \<Rightarrow> transport_connection \<Rightarrow> transport_connection" where
  "tc_insert sid c =
     (if sid \<in> set (tc_sessions c) then c
      else c\<lparr>tc_sessions := sid # tc_sessions c, tc_adding := sid # tc_adding c\<rparr>)"

definition tc_count_bind :: "session_id \<Rightarrow> transport_connection \<Rightarrow> transport_connection" where
  "tc_count_bind sid c =
     (if sid \<in> set (tc_adding c)
      then c\<lparr>tc_bound_sessions := tc_bound_sessions c + 1, tc_adding := remove1 sid (tc_adding c)\<rparr>
      else c)"

definition tc_bind :: "session_id \<Rightarrow> transport_connection \<Rightarrow> transport_connection" where
  "tc_bind sid c = tc_count_bind sid (tc_insert sid c)"

definition tc_remove :: "session_id \<Rightarrow> transport_connection \<Rightarrow> transport_connection" where
  "tc_remove sid c =
     (if sid \<in> set (tc_sessions c)
      then c\<lparr>tc_sessions := filter (\<lambda>s. s \<noteq> sid) (tc_sessions c), tc_removing := sid # tc_removing c\<rparr>
      else c)"

definition tc_count_unbind :: "session_id \<Rightarrow> transport_connection \<Rightarrow> transport_connection" where
  "tc_count_unbind sid c =
     (if sid \<in> set (tc_removing c)
      then c\<lparr>tc_bound_sessions := tc_bound_sessions c - 1, tc_removing := remove1 sid (tc_removing c)\<rparr>
      else c)"

definition tc_unbind :: "session_id \<Rightarrow> transport_connection \<Rightarrow> transport_connection" where
  "tc_unbind sid c = tc_count_unbind sid (tc_remove sid c)"

definition tc_try_send ::
  "'w transport \<Rightarrow> transport_connection \<Rightarrow> envelope \<Rightarrow> 'w \<Rightarrow> (send_error + unit) \<times> 'w" where
  "tc_try_send tx c envelope w =
     (if tc_closed c then (Err RemoteUnavailable, w)
      else case tx (tc_sender c) envelope w of
             (Ok _, w') \<Rightarrow> (Ok (), w')
           | (Err _, w') \<Rightarrow> (Err RemoteUnavailable, w'))"

definition tc_close ::
  "(sender_id \<Rightarrow> 'w \<Rightarrow> 'w) \<Rightarrow> transport_connection \<Rightarrow> 'w \<Rightarrow> transport_connection \<times> 'w" where
  "tc_close tx_close c w =
     (c\<lparr>tc_closed := True\<rparr>, if tc_closed c then w else tx_close (tc_sender c) w)"

section \<open>The Client\<close>

type_synonym session_item = "send_error + bytes"
type_synonym conn_ref = nat
type_synonym pool_ref = nat
type_synonym channel_ref = nat

record pending_open =
  po_connection_id :: u64
  po_complete :: nat

text \<open>
  \<open>cl_placement\<close> is the state of the Placement Strategy, \<open>cl_answers\<close> what was sent through
  the \<open>oneshot\<close> of an open; \<open>cl_pool_store\<close> holds every pool object, also those no longer in
  \<open>cl_pools\<close>.
\<close>

record ('p, 'c) client =
  cl_open_timeout :: duration
  cl_max_open_attempts :: usize
  cl_max_connections_per_endpoint :: usize
  cl_placement :: 'p
  cl_receivers :: "(session_id, channel_ref) hmap"
  cl_pools :: "(string, pool_ref) hmap"
  cl_pool_store :: "(pool_ref, conn_ref list) hmap"
  cl_pending_opens :: "(session_id, pending_open) hmap"
  cl_inbound_tasks :: "conn_ref list"
  cl_placement_cache :: "(placement_candidate list \<times> instant) option"
  cl_next_connection_id :: u64
  cl_status :: u8
  cl_channels :: "(channel_ref, 'c) hmap"
  cl_connections :: "(conn_ref, transport_connection) hmap"
  cl_answers :: "(nat \<times> (send_error + unit)) list"
  cl_next_oneshot :: nat

definition Client_from_parts :: "duration \<Rightarrow> usize \<Rightarrow> usize \<Rightarrow> 'p \<Rightarrow> ('p, 'c) client" where
  "Client_from_parts open_timeout max_open_attempts max_connections placement =
     \<lparr>cl_open_timeout = open_timeout, cl_max_open_attempts = max_open_attempts,
      cl_max_connections_per_endpoint = max_connections, cl_placement = placement,
      cl_receivers = hm_empty, cl_pools = hm_empty, cl_pool_store = hm_empty,
      cl_pending_opens = hm_empty,
      cl_inbound_tasks = [], cl_placement_cache = None, cl_next_connection_id = 1,
      cl_status = CLIENT_RUNNING, cl_channels = hm_empty, cl_connections = hm_empty,
      cl_answers = [], cl_next_oneshot = 0\<rparr>"

datatype client_build_error =
    InvalidOpenTimeout
  | InvalidTransportConnectTimeout
  | InvalidMaxOpenAttempts
  | InvalidMaxConnectionsPerEndpoint

record 'p client_builder =
  cb_open_timeout :: duration
  cb_transport_connect_timeout :: duration
  cb_max_open_attempts :: usize
  cb_max_connections_per_endpoint :: usize
  cb_placement :: 'p

definition Client_builder :: "'p \<Rightarrow> 'p client_builder" where
  "Client_builder default_placement =
     \<lparr>cb_open_timeout = DEFAULT_OPEN_TIMEOUT,
      cb_transport_connect_timeout = DEFAULT_TRANSPORT_CONNECT_TIMEOUT,
      cb_max_open_attempts = DEFAULT_MAX_OPEN_ATTEMPTS,
      cb_max_connections_per_endpoint = DEFAULT_MAX_CONNECTIONS_PER_ENDPOINT,
      cb_placement = default_placement\<rparr>"

definition with_open_timeout :: "duration \<Rightarrow> 'p client_builder \<Rightarrow> 'p client_builder" where
  "with_open_timeout timeout b = b\<lparr>cb_open_timeout := timeout\<rparr>"

text \<open>The transport is a parameter; of the default one only its timeout is kept here.\<close>

definition with_transport_connect_timeout :: "duration \<Rightarrow> 'p client_builder \<Rightarrow> 'p client_builder" where
  "with_transport_connect_timeout timeout b = b\<lparr>cb_transport_connect_timeout := timeout\<rparr>"

definition with_max_open_attempts :: "usize \<Rightarrow> 'p client_builder \<Rightarrow> 'p client_builder" where
  "with_max_open_attempts attempts b = b\<lparr>cb_max_open_attempts := attempts\<rparr>"

definition with_max_connections_per_endpoint :: "usize \<Rightarrow> 'p client_builder \<Rightarrow> 'p client_builder" where
  "with_max_connections_per_endpoint maximum b = b\<lparr>cb_max_connections_per_endpoint := maximum\<rparr>"

definition with_placement_strategy :: "'p \<Rightarrow> 'p client_builder \<Rightarrow> 'p client_builder" where
  "with_placement_strategy placement b = b\<lparr>cb_placement := placement\<rparr>"

definition client_build :: "'p client_builder \<Rightarrow> client_build_error + ('p, 'c) client" where
  "client_build b =
     (if cb_open_timeout b = 0 then Err InvalidOpenTimeout
      else if cb_transport_connect_timeout b = 0 then Err InvalidTransportConnectTimeout
      else if cb_max_open_attempts b = 0 then Err InvalidMaxOpenAttempts
      else if cb_max_connections_per_endpoint b = 0 then Err InvalidMaxConnectionsPerEndpoint
      else Ok (Client_from_parts (cb_open_timeout b) (cb_max_open_attempts b)
                 (cb_max_connections_per_endpoint b) (cb_placement b)))"

section \<open>Local Session receivers\<close>

text \<open>A fresh reference: one above all in use.\<close>

definition fresh_ref :: "(nat, 'v) hmap \<Rightarrow> nat" where
  "fresh_ref m = fold max (map Suc (hm_keys m)) 0"

definition register_local :: "session_id \<Rightarrow> channel_ref \<Rightarrow> ('p, 'c) client \<Rightarrow> ('p, 'c) client" where
  "register_local sid ch cl = cl\<lparr>cl_receivers := hm_insert sid ch (cl_receivers cl)\<rparr>"

definition unregister_local :: "session_id \<Rightarrow> ('p, 'c) client \<Rightarrow> ('p, 'c) client" where
  "unregister_local sid cl = cl\<lparr>cl_receivers := hm_remove sid (cl_receivers cl)\<rparr>"

text \<open>\<open>try_send\<close> on the sender of an event channel, its result ignored.\<close>

definition offer ::
  "(session_item, 'c, 's) tokio \<Rightarrow> channel_ref \<Rightarrow> session_item \<Rightarrow> ('p, 'c) client \<Rightarrow> ('p, 'c) client" where
  "offer T ch item cl =
     (case hm_get (cl_channels cl) ch of
        None \<Rightarrow> cl
      | Some c \<Rightarrow> cl\<lparr>cl_channels := hm_insert ch (snd (tk_try_send T c item)) (cl_channels cl)\<rparr>)"

definition client_terminate ::
  "(session_item, 'c, 's) tokio \<Rightarrow> session_id \<Rightarrow> send_error \<Rightarrow> ('p, 'c) client \<Rightarrow> ('p, 'c) client" where
  "client_terminate T sid error cl =
     (case hm_get (cl_receivers cl) sid of
        None \<Rightarrow> cl
      | Some ch \<Rightarrow> offer T ch (Err error) (unregister_local sid cl))"

definition client_terminate_all ::
  "(session_item, 'c, 's) tokio \<Rightarrow> send_error \<Rightarrow> ('p, 'c) client \<Rightarrow> ('p, 'c) client" where
  "client_terminate_all T error cl =
     fold (\<lambda>ch. offer T ch (Err error)) (map snd (cl_receivers cl)) (cl\<lparr>cl_receivers := hm_empty\<rparr>)"

section \<open>Connections in the store\<close>

definition update_connection ::
  "conn_ref \<Rightarrow> (transport_connection \<Rightarrow> transport_connection) \<Rightarrow> ('p, 'c) client \<Rightarrow> ('p, 'c) client" where
  "update_connection ref f cl =
     (case hm_get (cl_connections cl) ref of
        None \<Rightarrow> cl
      | Some c \<Rightarrow> cl\<lparr>cl_connections := hm_insert ref (f c) (cl_connections cl)\<rparr>)"

definition connection_send ::
  "'w transport \<Rightarrow> conn_ref \<Rightarrow> envelope \<Rightarrow> ('p, 'c) client \<Rightarrow> 'w \<Rightarrow> (send_error + unit) \<times> 'w" where
  "connection_send tx ref envelope cl w =
     (case hm_get (cl_connections cl) ref of
        None \<Rightarrow> (Err RemoteUnavailable, w)
      | Some c \<Rightarrow> tc_try_send tx c envelope w)"

text \<open>The open of a Session that waits on this very connection, taken out of the table.\<close>

definition take_pending ::
  "session_id \<Rightarrow> u64 \<Rightarrow> ('p, 'c) client \<Rightarrow> pending_open option \<times> ('p, 'c) client" where
  "take_pending sid cid cl =
     (case hm_get (cl_pending_opens cl) sid of
        None \<Rightarrow> (None, cl)
      | Some p \<Rightarrow>
          if po_connection_id p = cid
          then (Some p, cl\<lparr>cl_pending_opens := hm_remove sid (cl_pending_opens cl)\<rparr>)
          else (None, cl))"

definition complete_open :: "pending_open \<Rightarrow> send_error + unit \<Rightarrow> ('p, 'c) client \<Rightarrow> ('p, 'c) client" where
  "complete_open p result cl = cl\<lparr>cl_answers := cl_answers cl @ [(po_complete p, result)]\<rparr>"

section \<open>Receiving\<close>

definition ack_result :: "ack_outcome option \<Rightarrow> send_error + unit" where
  "ack_result outcome =
     (case outcome of
        Some (AckOk _) \<Rightarrow> Ok ()
      | Some (AckFailure failure) \<Rightarrow> Err (from_wire failure)
      | None \<Rightarrow> Err (RemoteProtocol MalformedMessage))"

definition deliver_item ::
  "(session_item, 'c, 's) tokio \<Rightarrow> session_id \<Rightarrow> session_item \<Rightarrow> transport_connection
     \<Rightarrow> ('p, 'c) client \<Rightarrow> ('p, 'c) client" where
  "deliver_item T sid item c cl =
     (if sid \<in> set (tc_sessions c)
      then (case hm_get (cl_receivers cl) sid of None \<Rightarrow> cl | Some ch \<Rightarrow> offer T ch item cl)
      else cl)"

definition handle_envelope ::
  "(session_item, 'c, 's) tokio \<Rightarrow> envelope \<Rightarrow> conn_ref \<Rightarrow> ('p, 'c) client \<Rightarrow> ('p, 'c) client" where
  "handle_envelope T envelope ref cl =
     (case (env_kind envelope, SessionId_from_bytes (env_session_id envelope), hm_get (cl_connections cl) ref) of
        (Some k, Some sid, Some c) \<Rightarrow>
          (case k of
             Kind_Event payload \<Rightarrow> deliver_item T sid (Ok payload) c cl
           | Kind_SessionError failure \<Rightarrow> deliver_item T sid (Err (from_wire failure)) c cl
           | Kind_SessionOpenedAck outcome \<Rightarrow>
               (case take_pending sid (tc_id c) cl of
                  (Some p, cl') \<Rightarrow> complete_open p (ack_result outcome) cl'
                | (None, cl') \<Rightarrow> cl')
           | _ \<Rightarrow> cl)
      | _ \<Rightarrow> cl)"

section \<open>Pools\<close>

definition pool_connections :: "('p, 'c) client \<Rightarrow> pool_ref \<Rightarrow> conn_ref list" where
  "pool_connections cl p = (case hm_get (cl_pool_store cl) p of None \<Rightarrow> [] | Some refs \<Rightarrow> refs)"

definition set_pool :: "pool_ref \<Rightarrow> conn_ref list \<Rightarrow> ('p, 'c) client \<Rightarrow> ('p, 'c) client" where
  "set_pool p refs cl = cl\<lparr>cl_pool_store := hm_insert p refs (cl_pool_store cl)\<rparr>"

definition pool :: "string \<Rightarrow> ('p, 'c) client \<Rightarrow> pool_ref \<times> ('p, 'c) client" where
  "pool endpoint cl =
     (case hm_get (cl_pools cl) endpoint of
        None \<Rightarrow>
          let p = fresh_ref (cl_pool_store cl)
          in (p, set_pool p [] (cl\<lparr>cl_pools := hm_insert endpoint p (cl_pools cl)\<rparr>))
      | Some p \<Rightarrow> (p, cl))"

definition pooled :: "('p, 'c) client \<Rightarrow> string \<Rightarrow> conn_ref list" where
  "pooled cl endpoint =
     (case hm_get (cl_pools cl) endpoint of None \<Rightarrow> [] | Some p \<Rightarrow> pool_connections cl p)"

section \<open>The end of a receive loop\<close>

text \<open>Its sections, between which other tasks may run: the pool is looked up, then locked.\<close>

definition receive_end_close :: "conn_ref \<Rightarrow> ('p, 'c) client \<Rightarrow> ('p, 'c) client" where
  "receive_end_close ref = update_connection ref (\<lambda>c. c\<lparr>tc_closed := True\<rparr>)"

definition receive_end_pool :: "conn_ref \<Rightarrow> ('p, 'c) client \<Rightarrow> pool_ref option" where
  "receive_end_pool ref cl =
     (case hm_get (cl_connections cl) ref of
        None \<Rightarrow> None
      | Some c \<Rightarrow> hm_get (cl_pools cl) (tc_endpoint c))"

definition receive_end_unpool :: "pool_ref \<Rightarrow> conn_ref \<Rightarrow> ('p, 'c) client \<Rightarrow> ('p, 'c) client" where
  "receive_end_unpool p ref cl =
     (case hm_get (cl_connections cl) ref of
        None \<Rightarrow> cl
      | Some c \<Rightarrow>
          set_pool p
            (filter (\<lambda>r. map_option tc_id (hm_get (cl_connections cl) r) \<noteq> Some (tc_id c)) (pool_connections cl p))
            cl)"

definition receive_end_take :: "conn_ref \<Rightarrow> ('p, 'c) client \<Rightarrow> session_id list \<times> ('p, 'c) client" where
  "receive_end_take ref cl =
     (case hm_get (cl_connections cl) ref of
        None \<Rightarrow> ([], cl)
      | Some c \<Rightarrow> (tc_sessions c, update_connection ref (\<lambda>c. c\<lparr>tc_sessions := []\<rparr>) cl))"

definition receive_end_reset :: "conn_ref \<Rightarrow> ('p, 'c) client \<Rightarrow> ('p, 'c) client" where
  "receive_end_reset ref = update_connection ref (\<lambda>c. c\<lparr>tc_bound_sessions := 0\<rparr>)"

definition receive_end_session ::
  "(session_item, 'c, 's) tokio \<Rightarrow> conn_ref \<Rightarrow> session_id \<Rightarrow> ('p, 'c) client \<Rightarrow> ('p, 'c) client" where
  "receive_end_session T ref sid cl =
     (case hm_get (cl_connections cl) ref of
        None \<Rightarrow> cl
      | Some c \<Rightarrow>
          (case take_pending sid (tc_id c) cl of
             (Some p, cl') \<Rightarrow> complete_open p (Err RemoteUnavailable) cl'
           | (None, cl') \<Rightarrow> client_terminate T sid RemoteUnavailable cl'))"

definition client_retain_inbound_tasks :: "(conn_ref \<Rightarrow> bool) \<Rightarrow> ('p, 'c) client \<Rightarrow> ('p, 'c) client" where
  "client_retain_inbound_tasks finished cl =
     cl\<lparr>cl_inbound_tasks := filter (\<lambda>t. \<not> finished t) (cl_inbound_tasks cl)\<rparr>"

definition client_register_inbound_task ::
  "(conn_ref \<Rightarrow> bool) \<Rightarrow> conn_ref \<Rightarrow> ('p, 'c) client \<Rightarrow> ('p, 'c) client" where
  "client_register_inbound_task finished handle cl =
     (let cl' = client_retain_inbound_tasks finished cl
      in cl'\<lparr>cl_inbound_tasks := cl_inbound_tasks cl' @ [handle]\<rparr>)"

definition receive_end ::
  "(session_item, 'c, 's) tokio \<Rightarrow> (conn_ref \<Rightarrow> bool) \<Rightarrow> conn_ref \<Rightarrow> ('p, 'c) client \<Rightarrow> ('p, 'c) client" where
  "receive_end T finished ref cl =
     (let cl1 = receive_end_close ref cl;
          cl2 = (case receive_end_pool ref cl1 of None \<Rightarrow> cl1 | Some p \<Rightarrow> receive_end_unpool p ref cl1)
      in case receive_end_take ref cl2 of
           (sids, cl3) \<Rightarrow>
             client_retain_inbound_tasks finished
               (fold (receive_end_session T ref) sids (receive_end_reset ref cl3)))"

section \<open>Acquiring a connection\<close>

definition is_open :: "('p, 'c) client \<Rightarrow> conn_ref \<Rightarrow> bool" where
  "is_open cl ref = (case hm_get (cl_connections cl) ref of None \<Rightarrow> False | Some c \<Rightarrow> \<not> tc_closed c)"

text \<open>Under the pool's lock: drop the closed connections.\<close>

definition retain_open :: "pool_ref \<Rightarrow> ('p, 'c) client \<Rightarrow> ('p, 'c) client" where
  "retain_open p cl = set_pool p (filter (is_open cl) (pool_connections cl p)) cl"

definition has_room :: "pool_ref \<Rightarrow> ('p, 'c) client \<Rightarrow> bool" where
  "has_room p cl \<longleftrightarrow> length (pool_connections cl p) < unat (cl_max_connections_per_endpoint cl)"

text \<open>
  A new connection over the stream \<open>connect\<close> gave, pushed, bound, its receive loop spawned.  The
  pool is locked and no other task holds the connection, so nothing comes between the two
  sections of \<open>bind\<close> here.
\<close>

definition push_connection ::
  "(conn_ref \<Rightarrow> bool) \<Rightarrow> pool_ref \<Rightarrow> string \<Rightarrow> session_id \<Rightarrow> sender_id \<Rightarrow> ('p, 'c) client
     \<Rightarrow> conn_ref \<times> ('p, 'c) client" where
  "push_connection finished p endpoint sid sender cl =
     (let ref = fresh_ref (cl_connections cl);
          c = \<lparr>tc_id = cl_next_connection_id cl, tc_endpoint = endpoint, tc_sender = sender,
               tc_sessions = [], tc_bound_sessions = 0, tc_closed = False, tc_adding = [], tc_removing = []\<rparr>;
          cl1 = set_pool p (pool_connections cl p @ [ref])
                  (cl\<lparr>cl_next_connection_id := cl_next_connection_id cl + 1,
                      cl_connections := hm_insert ref (tc_bind sid c) (cl_connections cl)\<rparr>)
      in (ref, client_register_inbound_task finished ref cl1))"

definition bound_count :: "('p, 'c) client \<Rightarrow> conn_ref \<Rightarrow> usize" where
  "bound_count cl ref =
     (case hm_get (cl_connections cl) ref of None \<Rightarrow> 0 | Some c \<Rightarrow> tc_bound_sessions c)"

text \<open>
  \<open>min_by_key\<close>: the first of the minimal elements.  Of \<open>bind\<close> this is the section under the lock
  of the connection's set; \<open>tc_count_bind\<close> follows.
\<close>

definition reuse_connection ::
  "pool_ref \<Rightarrow> session_id \<Rightarrow> ('p, 'c) client \<Rightarrow> (send_error + conn_ref) \<times> ('p, 'c) client" where
  "reuse_connection p sid cl =
     (case pool_connections cl p of
        [] \<Rightarrow> (Err RemoteUnavailable, cl)
      | r # rs \<Rightarrow>
          let ref = fold (\<lambda>x best. if bound_count cl x < bound_count cl best then x else best) rs r
          in (Ok ref, update_connection ref (tc_insert sid) cl))"

section \<open>Sessions\<close>

record session =
  ss_address :: actor_address
  ss_session_id :: session_id
  ss_receiver :: channel_ref
  ss_connection :: conn_ref

text \<open>\<open>alive\<close> says whether the weak reference to the Client can still be upgraded.\<close>

definition session_send ::
  "'w transport \<Rightarrow> bool \<Rightarrow> session \<Rightarrow> bytes \<Rightarrow> ('p, 'c) client \<Rightarrow> 'w \<Rightarrow> (send_error + unit) \<times> 'w" where
  "session_send tx alive s msg cl w =
     (if \<not> alive then (Err RuntimeStopped, w)
      else if cl_status cl \<noteq> CLIENT_RUNNING then (Err RuntimeStopped, w)
      else connection_send tx (ss_connection s) (envelope_action (ss_address s) (ss_session_id s) msg) cl w)"

text \<open>What a poll of \<open>recv\<close> finds: the next item, if one is queued.\<close>

definition session_recv ::
  "(session_item, 'c, 's) tokio \<Rightarrow> session \<Rightarrow> ('p, 'c) client \<Rightarrow> session_item option \<times> ('p, 'c) client" where
  "session_recv T s cl =
     (case hm_get (cl_channels cl) (ss_receiver s) of
        None \<Rightarrow> (None, cl)
      | Some c \<Rightarrow>
          (case tk_try_recv T c of
             (item, c') \<Rightarrow> (item, cl\<lparr>cl_channels := hm_insert (ss_receiver s) c' (cl_channels cl)\<rparr>)))"

text \<open>
  Without anything in between; its sections (removing the registration, the two of \<open>unbind\<close>) are
  steps of their own where interleaving matters.
\<close>

definition session_drop ::
  "'w transport \<Rightarrow> session \<Rightarrow> ('p, 'c) client \<Rightarrow> 'w \<Rightarrow> ('p, 'c) client \<times> 'w" where
  "session_drop tx s cl w =
     (let cl1 = update_connection (ss_connection s) (tc_unbind (ss_session_id s))
                  (unregister_local (ss_session_id s) cl)
      in case connection_send tx (ss_connection s)
                (envelope_session_close (ss_address s) (ss_session_id s)) cl1 w of
           (_, w') \<Rightarrow> (cl1, w'))"

section \<open>Shutdown\<close>

fun close_connections ::
  "(sender_id \<Rightarrow> 'w \<Rightarrow> 'w) \<Rightarrow> conn_ref list \<Rightarrow> ('p, 'c) client \<Rightarrow> 'w \<Rightarrow> ('p, 'c) client \<times> 'w" where
  "close_connections tx_close [] cl w = (cl, w)"
| "close_connections tx_close (ref # refs) cl w =
     (case hm_get (cl_connections cl) ref of
        None \<Rightarrow> close_connections tx_close refs cl w
      | Some c \<Rightarrow>
          (case tc_close tx_close c w of
             (c', w') \<Rightarrow> close_connections tx_close refs
                          (cl\<lparr>cl_connections := hm_insert ref c' (cl_connections cl)\<rparr>) w'))"

text \<open>One pool: its lock is awaited, its connections are taken out and closed.\<close>

fun drain_pools ::
  "(sender_id \<Rightarrow> 'w \<Rightarrow> 'w) \<Rightarrow> pool_ref list \<Rightarrow> ('p, 'c) client \<Rightarrow> 'w \<Rightarrow> ('p, 'c) client \<times> 'w" where
  "drain_pools tx_close [] cl w = (cl, w)"
| "drain_pools tx_close (p # ps) cl w =
     (case close_connections tx_close (pool_connections cl p) (set_pool p [] cl) w of
        (cl', w') \<Rightarrow> drain_pools tx_close ps cl' w')"

text \<open>
  The handles aborted, and the Client afterwards.  \<open>shutdown\<close> takes the Client by value, so no
  \<open>open\<close> (which borrows it) is under way; receive loops and Sessions being dropped may run between
  its sections, which are steps of their own where interleaving matters.
\<close>

definition client_shutdown ::
  "(session_item, 'c, 's) tokio \<Rightarrow> (sender_id \<Rightarrow> 'w \<Rightarrow> 'w) \<Rightarrow> ('p, 'c) client \<Rightarrow> 'w
     \<Rightarrow> conn_ref list \<times> ('p, 'c) client \<times> 'w" where
  "client_shutdown T tx_close cl w =
     (if cl_status cl = CLIENT_STOPPED then ([], cl, w)
      else case drain_pools tx_close (map snd (cl_pools cl))
                  (cl\<lparr>cl_status := CLIENT_STOPPED, cl_pools := hm_empty\<rparr>) w of
             (cl1, w1) \<Rightarrow>
               (cl_inbound_tasks cl1,
                client_terminate_all T RuntimeStopped
                  (cl1\<lparr>cl_inbound_tasks := [], cl_pending_opens := hm_empty\<rparr>), w1))"

end
