(* ===== verification/Client_Open.thy ===== *)
theory Client_Open
  imports Client_Connections Coordination
begin

text \<open>
  Opening a Session (\<open>Client::open\<close> and the \<open>ClientInner\<close> methods it awaits,
  \<open>coactor/src/client/mod.rs\<close>): resolving the Owner, choosing a Placement candidate, acquiring
  a connection, sending \<open>SessionOpen\<close> and the retry loop around them.  The world a Client runs
  in is a record of parameters: the coordination store, the transport, the clock, the Placement
  Strategy, and what the other tasks of the same Client do while this one waits (told which
  pool this task holds locked).  The loop has no bound of its own, so it takes fuel; a
  Placement Strategy that never returns makes the open never return.
\<close>

section \<open>The world of a Client\<close>

record ('p, 'c, 'w) client_env =
  ce_store :: "'w coordination_store"
  ce_tx :: "'w transport"
  ce_now :: "'w \<Rightarrow> instant"
  ce_connect :: "duration \<Rightarrow> string \<Rightarrow> 'w \<Rightarrow> (transport_error + sender_id) timed \<times> 'w"
  ce_lock :: "duration \<Rightarrow> pool_ref \<Rightarrow> 'w \<Rightarrow> unit timed \<times> 'w"
  ce_candidates :: "instant \<Rightarrow> actor_address \<Rightarrow> placement_candidate list \<Rightarrow> 'p \<Rightarrow> (string list \<times> 'p) option"
  ce_placement_failed :: "string \<Rightarrow> 'p \<Rightarrow> 'p"
  ce_other :: "pool_ref option \<Rightarrow> ('p, 'c) client \<times> 'w \<Rightarrow> ('p, 'c) client \<times> 'w"
  ce_finished :: "'w \<Rightarrow> conn_ref \<Rightarrow> bool"

definition placement_failed :: "('p, 'c, 'w) client_env \<Rightarrow> string \<Rightarrow> ('p, 'c) client \<Rightarrow> ('p, 'c) client" where
  "placement_failed E endpoint cl = cl\<lparr>cl_placement := ce_placement_failed E endpoint (cl_placement cl)\<rparr>"

section \<open>Resolving the Owner\<close>

datatype owner_resolution =
    Live (live_endpoint: string) (live_node_id: string) (live_session_id: node_session_id)
  | Unowned

text \<open>\<open>timeout_at\<close>: the value in time, or \<open>error\<close> for a failure and for the deadline alike.\<close>

definition timeout_at ::
  "('p, 'c, 'w) client_env \<Rightarrow> instant \<Rightarrow> (duration \<Rightarrow> ('w, 'a) store_call) \<Rightarrow> send_error
     \<Rightarrow> ('p, 'c) client \<times> 'w \<Rightarrow> (send_error + 'a) \<times> ('p, 'c) client \<times> 'w" where
  "timeout_at E deadline call error st =
     (case call (deadline - ce_now E (snd st)) (snd st) of
        (Done (Ok x), w') \<Rightarrow> (Ok x, ce_other E None (fst st, w'))
      | (_, w') \<Rightarrow> (Err error, ce_other E None (fst st, w')))"

definition owner_is_live :: "actor_owner \<Rightarrow> node_record \<Rightarrow> send_error + owner_resolution" where
  "owner_is_live ow node =
     (if nr_session_id node \<noteq> ao_session_id ow then Ok Unowned
      else if nr_protocol_version node \<noteq> TRANSPORT_PROTOCOL_VERSION
              \<or> trim_is_empty (nr_advertised_endpoint node)
      then Err RemoteUnavailable
      else Ok (Live (nr_advertised_endpoint node) (ao_node_id ow) (ao_session_id ow)))"

definition resolve_owner ::
  "('p, 'c, 'w) client_env \<Rightarrow> actor_address \<Rightarrow> instant \<Rightarrow> ('p, 'c) client \<times> 'w
     \<Rightarrow> (send_error + owner_resolution) \<times> ('p, 'c) client \<times> 'w" where
  "resolve_owner E address deadline st =
     (case timeout_at E deadline (\<lambda>d. cs_read_actor_owner (ce_store E) d address) OwnershipUnavailable st of
        (Err e, st1) \<Rightarrow> (Err e, st1)
      | (Ok None, st1) \<Rightarrow> (Ok Unowned, st1)
      | (Ok (Some current), st1) \<Rightarrow>
          (case owner (vr_record current) of
             None \<Rightarrow> (Ok Unowned, st1)
           | Some ow \<Rightarrow>
               (case timeout_at E deadline (\<lambda>d. cs_read_node (ce_store E) d (ao_node_id ow))
                       DirectoryUnavailable st1 of
                  (Err e, st2) \<Rightarrow> (Err e, st2)
                | (Ok None, st2) \<Rightarrow> (Ok Unowned, st2)
                | (Ok (Some node), st2) \<Rightarrow> (owner_is_live ow node, st2))))"

section \<open>Choosing a candidate\<close>

definition PLACEMENT_CACHE_TTL :: duration where
  "PLACEMENT_CACHE_TTL = from_secs 3"

definition is_candidate :: "node_record \<Rightarrow> bool" where
  "is_candidate node \<longleftrightarrow>
     nr_protocol_version node = TRANSPORT_PROTOCOL_VERSION
     \<and> \<not> trim_is_empty (nr_advertised_endpoint node)
     \<and> \<not> nr_pressured node \<and> \<not> nr_draining node
     \<and> nr_active_actor_count node < nr_max_actor_count node"

definition candidate_of :: "node_record \<Rightarrow> placement_candidate" where
  "candidate_of node =
     \<lparr>cand_endpoint = nr_advertised_endpoint node,
      cand_active_actor_count = nr_active_actor_count node,
      cand_max_actor_count = nr_max_actor_count node\<rparr>"

definition cached_candidates :: "instant \<Rightarrow> ('p, 'c) client \<Rightarrow> placement_candidate list option" where
  "cached_candidates now cl =
     (case cl_placement_cache cl of
        None \<Rightarrow> None
      | Some (cs, fetched_at) \<Rightarrow> if now - fetched_at < PLACEMENT_CACHE_TTL then Some cs else None)"

definition placement_candidates ::
  "('p, 'c, 'w) client_env \<Rightarrow> instant \<Rightarrow> ('p, 'c) client \<times> 'w
     \<Rightarrow> (send_error + placement_candidate list) \<times> ('p, 'c) client \<times> 'w" where
  "placement_candidates E deadline st0 =
     (let now = ce_now E (snd st0); st = ce_other E None st0 in
      case cached_candidates now (fst st) of
        Some cs \<Rightarrow> (Ok cs, st)
      | None \<Rightarrow>
          (case timeout_at E deadline (cs_list_nodes (ce_store E)) DirectoryUnavailable st of
             (Err e, st1) \<Rightarrow> (Err e, st1)
           | (Ok nodes, st1) \<Rightarrow>
               let cs = map candidate_of (filter is_candidate nodes);
                   (cl2, w2) = ce_other E None st1
               in (Ok cs, cl2\<lparr>cl_placement_cache := Some (cs, now)\<rparr>, w2)))"

definition select_placement_candidate ::
  "('p, 'c, 'w) client_env \<Rightarrow> actor_address \<Rightarrow> string list \<Rightarrow> instant \<Rightarrow> ('p, 'c) client \<times> 'w
     \<Rightarrow> ((send_error + string) \<times> ('p, 'c) client \<times> 'w) option" where
  "select_placement_candidate E address excluded deadline st =
     (case placement_candidates E deadline st of
        (Err e, st1) \<Rightarrow> Some (Err e, st1)
      | (Ok cs0, cl1, w1) \<Rightarrow>
          let cs = filter (\<lambda>c. cand_endpoint c \<notin> set excluded) cs0 in
          if cs = [] then Some (Err RuntimeAtCapacity, cl1, w1)
          else case ce_candidates E (ce_now E w1) address cs (cl_placement cl1) of
                 None \<Rightarrow> None
               | Some (ordered, p') \<Rightarrow>
                   let cl2 = cl1\<lparr>cl_placement := p'\<rparr> in
                   (case find (\<lambda>e. e \<in> set (map cand_endpoint cs)) ordered of
                      None \<Rightarrow> Some (Err RuntimeAtCapacity, cl2, w1)
                    | Some e \<Rightarrow> Some (Ok e, cl2, w1)))"

section \<open>Acquiring a connection\<close>

text \<open>
  The pool stays locked while \<open>connect\<close> runs, and between the two sections of \<open>bind\<close> when a
  connection is shared; other tasks run there.
\<close>

definition acquire_connection ::
  "('p, 'c, 'w) client_env \<Rightarrow> string \<Rightarrow> session_id \<Rightarrow> instant \<Rightarrow> ('p, 'c) client \<times> 'w
     \<Rightarrow> (send_error + conn_ref) \<times> ('p, 'c) client \<times> 'w" where
  "acquire_connection E endpoint sid deadline st =
     (let (cl, w) = st; (p, cl0) = pool endpoint cl in
      case ce_lock E (deadline - ce_now E w) p w of
        (Elapsed, w1) \<Rightarrow> (Err RemoteUnavailable, ce_other E None (cl0, w1))
      | (Done _, w1) \<Rightarrow>
          let (cl1, w2) = ce_other E None (cl0, w1); cl2 = retain_open p cl1 in
          if has_room p cl2
          then (case ce_connect E (deadline - ce_now E w2) endpoint w2 of
                  (Done (Ok sender), w3) \<Rightarrow>
                    let (cl3, w4) = ce_other E (Some p) (cl2, w3);
                        (ref, cl4) = push_connection (ce_finished E w4) p endpoint sid sender cl3
                    in (Ok ref, cl4, w4)
                | (_, w3) \<Rightarrow> (Err RemoteUnavailable, ce_other E (Some p) (cl2, w3)))
          else (case reuse_connection p sid cl2 of
                  (Err e, cl3) \<Rightarrow> (Err e, cl3, w2)
                | (Ok ref, cl3) \<Rightarrow>
                    let (cl4, w3) = ce_other E (Some p) (cl3, w2)
                    in (Ok ref, update_connection ref (tc_count_bind sid) cl4, w3)))"

section \<open>Sending SessionOpen\<close>

definition await_ack ::
  "('p, 'c, 'w) client_env \<Rightarrow> nat \<Rightarrow> ('p, 'c) client \<times> 'w \<Rightarrow> (send_error + unit) \<times> ('p, 'c) client \<times> 'w" where
  "await_ack E oneshot st =
     (case ce_other E None st of
        (cl, w) \<Rightarrow>
          (case map_of (cl_answers cl) oneshot of
             None \<Rightarrow> (Err RemoteUnavailable, cl, w)
           | Some result \<Rightarrow> (result, cl, w)))"

definition send_session_open ::
  "('p, 'c, 'w) client_env \<Rightarrow> actor_address \<Rightarrow> session_id \<Rightarrow> conn_ref \<Rightarrow> ('p, 'c) client \<times> 'w
     \<Rightarrow> (bool \<times> (send_error + unit)) \<times> ('p, 'c) client \<times> 'w" where
  "send_session_open E address sid ref st =
     (let (cl, w) = st;
          oneshot = cl_next_oneshot cl;
          cid = (case hm_get (cl_connections cl) ref of None \<Rightarrow> 0 | Some c \<Rightarrow> tc_id c);
          cl1 = cl\<lparr>cl_next_oneshot := Suc oneshot,
                   cl_pending_opens := hm_insert sid \<lparr>po_connection_id = cid, po_complete = oneshot\<rparr>
                                         (cl_pending_opens cl)\<rparr>
      in case connection_send (ce_tx E) ref (envelope_session_open address sid) cl1 w of
           (Err e, w1) \<Rightarrow> ((False, Err e), cl1, w1)
         | (Ok _, w1) \<Rightarrow> (case await_ack E oneshot (cl1, w1) of (x, st2) \<Rightarrow> ((True, x), st2)))"

section \<open>The retry loop\<close>

record open_state =
  os_attempts :: nat
  os_excluded :: "string list"
  os_failed_live_owner :: "(string \<times> node_session_id) option"

definition open_state_new :: open_state where
  "open_state_new = \<lparr>os_attempts = 0, os_excluded = [], os_failed_live_owner = None\<rparr>"

record open_target =
  ot_endpoint :: string
  ot_placement_attempt :: bool
  ot_live_owner :: "(string \<times> node_session_id) option"

definition open_target ::
  "('p, 'c, 'w) client_env \<Rightarrow> actor_address \<Rightarrow> instant \<Rightarrow> open_state \<Rightarrow> ('p, 'c) client \<times> 'w
     \<Rightarrow> ((open_error + open_target) \<times> ('p, 'c) client \<times> 'w) option" where
  "open_target E address deadline os st =
     (case resolve_owner E address deadline st of
        (Err e, st1) \<Rightarrow> Some (Err (OpenError_from e), st1)
      | (Ok (Live endpoint node_id sid), st1) \<Rightarrow>
          if os_failed_live_owner os = Some (node_id, sid) then Some (Err RemoteUnavailable_open, st1)
          else Some (Ok \<lparr>ot_endpoint = endpoint, ot_placement_attempt = False,
                         ot_live_owner = Some (node_id, sid)\<rparr>, st1)
      | (Ok Unowned, st1) \<Rightarrow>
          (case select_placement_candidate E address (os_excluded os) deadline st1 of
             None \<Rightarrow> None
           | Some (Err e, st2) \<Rightarrow> Some (Err (OpenError_from e), st2)
           | Some (Ok endpoint, st2) \<Rightarrow>
               Some (Ok \<lparr>ot_endpoint = endpoint, ot_placement_attempt = True, ot_live_owner = None\<rparr>, st2)))"

text \<open>What a round that could not reach its target leaves for the next one.\<close>

definition exclude_target :: "open_target \<Rightarrow> open_state \<Rightarrow> open_state" where
  "exclude_target t os =
     (if ot_placement_attempt t
      then os\<lparr>os_excluded := List.insert (ot_endpoint t) (os_excluded os)\<rparr>
      else os\<lparr>os_failed_live_owner := ot_live_owner t\<rparr>)"

text \<open>The match on the error of an attempt: the end of the open, or the state to go on with.\<close>

definition after_failure ::
  "nat \<Rightarrow> open_target \<Rightarrow> send_error \<Rightarrow> open_state \<Rightarrow> open_error + open_state" where
  "after_failure max_attempts t error os =
     (let exhausted = max_attempts \<le> os_attempts os in
      case error of
        NotOwner \<Rightarrow> if exhausted then Err AttemptsExhausted else Ok os
      | RuntimeAtCapacity \<Rightarrow>
          if ot_placement_attempt t
          then if exhausted then Err AttemptsExhausted else Ok (exclude_target t os)
          else Err (OpenError_from RuntimeAtCapacity)
      | RemoteUnavailable \<Rightarrow> if exhausted then Err AttemptsExhausted else Ok (exclude_target t os)
      | terminal \<Rightarrow> Err (OpenError_from terminal))"

definition rollback_placement ::
  "('p, 'c, 'w) client_env \<Rightarrow> open_target \<Rightarrow> ('p, 'c) client \<Rightarrow> ('p, 'c) client" where
  "rollback_placement E t cl =
     (if ot_placement_attempt t then placement_failed E (ot_endpoint t) cl else cl)"

text \<open>\<open>unbind\<close>: the set, then the counter, other tasks in between.\<close>

definition open_unbind ::
  "('p, 'c, 'w) client_env \<Rightarrow> conn_ref \<Rightarrow> session_id \<Rightarrow> ('p, 'c) client \<times> 'w \<Rightarrow> ('p, 'c) client \<times> 'w" where
  "open_unbind E ref sid st =
     (case ce_other E None (update_connection ref (tc_remove sid) (fst st), snd st) of
        (cl, w) \<Rightarrow> (update_connection ref (tc_count_unbind sid) cl, w))"

text \<open>
  The rest of a round, on an acquired connection: \<open>Inl\<close> what \<open>open\<close> breaks with, \<open>Inr\<close> the
  state it continues with.
\<close>

definition open_attempt ::
  "('p, 'c, 'w) client_env \<Rightarrow> actor_address \<Rightarrow> session_id \<Rightarrow> channel_ref \<Rightarrow> open_target \<Rightarrow> conn_ref
     \<Rightarrow> open_state \<Rightarrow> ('p, 'c) client \<times> 'w
     \<Rightarrow> ((open_error + session) + open_state) \<times> ('p, 'c) client \<times> 'w" where
  "open_attempt E address sid ch t ref os st =
     (let max_attempts = unat (cl_max_open_attempts (fst st)) in
      if max_attempts \<le> os_attempts os
      then (case open_unbind E ref sid st of
              (cl1, w1) \<Rightarrow> (Inl (Err AttemptsExhausted), rollback_placement E t cl1, w1))
      else case send_session_open E address sid ref st of
             ((sent, outcome), cl1, w1) \<Rightarrow>
               let os1 = (if sent then os\<lparr>os_attempts := Suc (os_attempts os)\<rparr> else os) in
               case outcome of
                 Ok _ \<Rightarrow>
                   (Inl (Ok \<lparr>ss_address = address, ss_session_id = sid, ss_receiver = ch,
                             ss_connection = ref\<rparr>), cl1, w1)
               | Err error \<Rightarrow>
                   let (_, w2) = connection_send (ce_tx E) ref (envelope_session_close address sid) cl1 w1;
                       (cl2, w3) = open_unbind E ref sid (cl1, w2);
                       cl3 = cl2\<lparr>cl_pending_opens := hm_remove sid (cl_pending_opens cl2)\<rparr>;
                       cl4 = rollback_placement E t cl3
                   in (case after_failure max_attempts t error os1 of
                         Err e \<Rightarrow> (Inl (Err e), cl4, w3)
                       | Ok os2 \<Rightarrow> (Inr os2, cl4, w3)))"

definition open_round ::
  "('p, 'c, 'w) client_env \<Rightarrow> actor_address \<Rightarrow> session_id \<Rightarrow> channel_ref \<Rightarrow> instant
     \<Rightarrow> open_state \<Rightarrow> ('p, 'c) client \<times> 'w
     \<Rightarrow> (((open_error + session) + open_state) \<times> ('p, 'c) client \<times> 'w) option" where
  "open_round E address sid ch deadline os st =
     (case open_target E address deadline os st of
        None \<Rightarrow> None
      | Some (Err e, st1) \<Rightarrow> Some (Inl (Err e), st1)
      | Some (Ok t, st1) \<Rightarrow>
          (case acquire_connection E (ot_endpoint t) sid deadline st1 of
             (Err _, cl2, w2) \<Rightarrow> Some (Inr (exclude_target t os), rollback_placement E t cl2, w2)
           | (Ok ref, st2) \<Rightarrow> Some (open_attempt E address sid ch t ref os st2)))"

fun open_loop ::
  "nat \<Rightarrow> ('p, 'c, 'w) client_env \<Rightarrow> actor_address \<Rightarrow> session_id \<Rightarrow> channel_ref \<Rightarrow> instant
     \<Rightarrow> open_state \<Rightarrow> ('p, 'c) client \<times> 'w
     \<Rightarrow> ((open_error + session) \<times> ('p, 'c) client \<times> 'w) option" where
  "open_loop 0 E address sid ch deadline os st = None"
| "open_loop (Suc n) E address sid ch deadline os st =
     (case open_round E address sid ch deadline os st of
        None \<Rightarrow> None
      | Some (Inl result, st') \<Rightarrow> Some (result, st')
      | Some (Inr os', st') \<Rightarrow> open_loop n E address sid ch deadline os' st')"

text \<open>\<open>sid\<close> is the random Session identifier the open draws.\<close>

definition client_open ::
  "nat \<Rightarrow> (session_item, 'c, 's) tokio \<Rightarrow> ('p, 'c, 'w) client_env \<Rightarrow> actor_address \<Rightarrow> session_id
     \<Rightarrow> ('p, 'c) client \<times> 'w \<Rightarrow> ((open_error + session) \<times> ('p, 'c) client \<times> 'w) option" where
  "client_open fuel T E address sid st =
     (let (cl, w) = st in
      if cl_status cl \<noteq> CLIENT_RUNNING then Some (Err RuntimeStopped_open, cl, w)
      else let deadline = ce_now E w + cl_open_timeout cl;
               ch = fresh_ref (cl_channels cl);
               cl1 = register_local sid ch
                       (cl\<lparr>cl_channels := hm_insert ch (tk_channel T SESSION_RECEIVER_CAPACITY) (cl_channels cl)\<rparr>)
           in case open_loop fuel E address sid ch deadline open_state_new (cl1, w) of
                None \<Rightarrow> None
              | Some (Ok s, st2) \<Rightarrow> Some (Ok s, st2)
              | Some (Err e, cl2, w2) \<Rightarrow>
                  Some (Err e,
                    unregister_local sid
                      (cl2\<lparr>cl_pending_opens := hm_remove sid (cl_pending_opens cl2)\<rparr>), w2))"

end
