(* ===== verification/Client_Safety.thy ===== *)
theory Client_Safety
  imports Client_Open
begin

text \<open>
  Safety of a Client under interleaving.  \<open>cl_step\<close> has one rule per section the tasks of a
  Client execute: receive loops, other opens, Sessions being used and dropped, \<open>shutdown\<close>.  It is
  parametrised by the Session \<open>me\<close> of the open under consideration, which no other task uses
  (Session identifiers are random), and by the pool that open holds locked.  The invariant
  bounds every pool and ties the counter of an open connection to the number of its Sessions.
  The locale \<open>client_rely\<close> states that the other tasks take only such steps; the open loop is
  verified inside it.
\<close>

section \<open>Steps of the other tasks\<close>

inductive cl_step ::
  "(session_item, 'c, 's) tokio \<Rightarrow> session_id \<Rightarrow> pool_ref option \<Rightarrow> ('p, 'c) client \<Rightarrow> ('p, 'c) client \<Rightarrow> bool"
  for T me lock where
  envelope: "cl_step T me lock cl (handle_envelope T env ref cl)"
| end_close: "cl_step T me lock cl (receive_end_close ref cl)"
| end_unpool: "lock \<noteq> Some p \<Longrightarrow> cl_step T me lock cl (receive_end_unpool p ref cl)"
| end_take: "hm_get (cl_connections cl) ref = Some c \<Longrightarrow> tc_closed c \<Longrightarrow>
     cl_step T me lock cl (snd (receive_end_take ref cl))"
| end_reset: "hm_get (cl_connections cl) ref = Some c \<Longrightarrow> tc_closed c \<Longrightarrow>
     cl_step T me lock cl (receive_end_reset ref cl)"
| end_session: "cl_step T me lock cl (receive_end_session T ref s cl)"
| inbound: "cl_step T me lock cl (cl\<lparr>cl_inbound_tasks := ts\<rparr>)"
| register: "s \<noteq> me \<Longrightarrow> hm_get (cl_channels cl) ch = None \<Longrightarrow>
     cl_step T me lock cl (register_local s ch (cl\<lparr>cl_channels := hm_insert ch c (cl_channels cl)\<rparr>))"
| unregister: "s \<noteq> me \<Longrightarrow> cl_step T me lock cl (unregister_local s cl)"
| pool: "cl_step T me lock cl (snd (pool e cl))"
| retain: "lock \<noteq> Some p \<Longrightarrow> cl_step T me lock cl (retain_open p cl)"
| push: "lock \<noteq> Some p \<Longrightarrow> has_room p cl \<Longrightarrow> s \<noteq> me \<Longrightarrow>
     cl_step T me lock cl (snd (push_connection finished p e s sender cl))"
| reuse: "lock \<noteq> Some p \<Longrightarrow> s \<noteq> me \<Longrightarrow> cl_step T me lock cl (snd (reuse_connection p s cl))"
| count_bind: "s \<noteq> me \<Longrightarrow> cl_step T me lock cl (update_connection ref (tc_count_bind s) cl)"
| remove: "s \<noteq> me \<Longrightarrow> cl_step T me lock cl (update_connection ref (tc_remove s) cl)"
| count_unbind: "s \<noteq> me \<Longrightarrow> cl_step T me lock cl (update_connection ref (tc_count_unbind s) cl)"
| pend: "s \<noteq> me \<Longrightarrow>
     cl_step T me lock cl (cl\<lparr>cl_next_oneshot := Suc (cl_next_oneshot cl),
        cl_pending_opens := hm_insert s \<lparr>po_connection_id = cid, po_complete = cl_next_oneshot cl\<rparr>
                              (cl_pending_opens cl)\<rparr>)"
| unpend: "s \<noteq> me \<Longrightarrow>
     cl_step T me lock cl (cl\<lparr>cl_pending_opens := hm_remove s (cl_pending_opens cl)\<rparr>)"
| placement: "cl_step T me lock cl (cl\<lparr>cl_placement := p, cl_placement_cache := cache\<rparr>)"
| recv: "cl_step T me lock cl (snd (session_recv T s cl))"
| stop: "cl_step T me lock cl (cl\<lparr>cl_status := CLIENT_STOPPED\<rparr>)"
| drop_pools: "cl_step T me lock cl (cl\<lparr>cl_pools := hm_empty\<rparr>)"
| drain: "lock \<noteq> Some p \<Longrightarrow> cl_step T me lock cl (set_pool p [] cl)"
| clear_pending: "cl_step T me lock cl (cl\<lparr>cl_pending_opens := hm_empty\<rparr>)"
| terminate_all: "cl_step T me lock cl (client_terminate_all T error cl)"

text \<open>
  A Session is bound by \<open>reuse\<close> and \<open>count_bind\<close>, dropped by \<open>unregister\<close>, \<open>remove\<close> and
  \<open>count_unbind\<close>; \<open>shutdown\<close> is \<open>stop\<close>, \<open>drop_pools\<close>, then \<open>drain\<close> and \<open>end_close\<close> for each pool and
  connection, \<open>inbound\<close>, \<open>clear_pending\<close> and \<open>terminate_all\<close>.
\<close>

section \<open>Invariant\<close>

definition connection_ok :: "transport_connection \<Rightarrow> bool" where
  "connection_ok c \<longleftrightarrow>
     distinct (tc_sessions c)
     \<and> (\<not> tc_closed c \<longrightarrow> tc_bound_sessions c + word_of_nat (length (tc_adding c))
          = word_of_nat (length (tc_sessions c)) + word_of_nat (length (tc_removing c)))"

definition client_inv :: "('p, 'c) client \<Rightarrow> bool" where
  "client_inv cl \<longleftrightarrow>
     (\<forall>p. length (pool_connections cl p) \<le> unat (cl_max_connections_per_endpoint cl))
     \<and> (\<forall>p. \<forall>ref \<in> set (pool_connections cl p). hm_get (cl_connections cl) ref \<noteq> None)
     \<and> (\<forall>ref c. hm_get (cl_connections cl) ref = Some c \<longrightarrow> connection_ok c)"

text \<open>
  The Session \<open>me\<close> is in the sets of the connections in \<open>R\<close>, unless they were closed, and in no
  other; and no task stands half way through binding it, except at \<open>A\<close>, or unbinding it,
  except at \<open>D\<close>.
\<close>

definition bound_to :: "conn_ref set \<Rightarrow> session_id \<Rightarrow> ('p, 'c) client \<Rightarrow> bool" where
  "bound_to R me cl \<longleftrightarrow>
     (\<forall>ref c. hm_get (cl_connections cl) ref = Some c \<and> me \<in> set (tc_sessions c) \<longrightarrow> ref \<in> R)
     \<and> (\<forall>ref \<in> R. \<exists>c. hm_get (cl_connections cl) ref = Some c \<and> (me \<in> set (tc_sessions c) \<or> tc_closed c))"

definition half_way :: "conn_ref set \<Rightarrow> conn_ref set \<Rightarrow> session_id \<Rightarrow> ('p, 'c) client \<Rightarrow> bool" where
  "half_way A D me cl \<longleftrightarrow>
     (\<forall>ref c. hm_get (cl_connections cl) ref = Some c \<longrightarrow>
        count_list (tc_adding c) me \<le> (if ref \<in> A then 1 else 0)
        \<and> count_list (tc_removing c) me \<le> (if ref \<in> D then 1 else 0))"

lemma half_wayD:
  assumes "half_way A D me cl" and "hm_get (cl_connections cl) ref = Some c"
  shows "count_list (tc_adding c) me \<le> (if ref \<in> A then 1 else 0)"
    and "count_list (tc_removing c) me \<le> (if ref \<in> D then 1 else 0)"
  using assms by (simp_all add: half_way_def)

text \<open>The part of a Client the invariants speak about.\<close>

definition cl_frame ::
  "('p, 'c) client \<Rightarrow> (conn_ref, transport_connection) hmap \<times> (pool_ref, conn_ref list) hmap \<times> usize \<times> usize" where
  "cl_frame cl = (cl_connections cl, cl_pool_store cl, cl_max_connections_per_endpoint cl, cl_max_open_attempts cl)"

lemma inv_frameI: "client_inv cl \<Longrightarrow> cl_frame cl' = cl_frame cl \<Longrightarrow> client_inv cl'"
  by (simp add: cl_frame_def client_inv_def pool_connections_def)

lemma bound_frameI: "bound_to R me cl \<Longrightarrow> cl_frame cl' = cl_frame cl \<Longrightarrow> bound_to R me cl'"
  by (simp add: cl_frame_def bound_to_def)

lemma half_way_frameI: "half_way A D me cl \<Longrightarrow> cl_frame cl' = cl_frame cl \<Longrightarrow> half_way A D me cl'"
  by (simp add: cl_frame_def half_way_def)

lemma pool_connections_frame: "cl_frame cl' = cl_frame cl \<Longrightarrow> pool_connections cl' p = pool_connections cl p"
  by (simp add: cl_frame_def pool_connections_def)

lemma frame_updates [simp]:
  "cl_frame (cl\<lparr>cl_placement := p\<rparr>) = cl_frame cl"
  "cl_frame (cl\<lparr>cl_receivers := r\<rparr>) = cl_frame cl"
  "cl_frame (cl\<lparr>cl_pending_opens := po\<rparr>) = cl_frame cl"
  "cl_frame (cl\<lparr>cl_inbound_tasks := ts\<rparr>) = cl_frame cl"
  "cl_frame (cl\<lparr>cl_placement_cache := pc\<rparr>) = cl_frame cl"
  "cl_frame (cl\<lparr>cl_channels := chs\<rparr>) = cl_frame cl"
  "cl_frame (cl\<lparr>cl_answers := as\<rparr>) = cl_frame cl"
  "cl_frame (cl\<lparr>cl_next_oneshot := n\<rparr>) = cl_frame cl"
  "cl_frame (cl\<lparr>cl_pools := pools\<rparr>) = cl_frame cl"
  "cl_frame (cl\<lparr>cl_status := status\<rparr>) = cl_frame cl"
  by (simp_all add: cl_frame_def)

lemma frame_ops [simp]:
  "cl_frame (offer T ch item cl) = cl_frame cl"
  "cl_frame (register_local s ch cl) = cl_frame cl"
  "cl_frame (unregister_local s cl) = cl_frame cl"
  "cl_frame (snd (take_pending s cid cl)) = cl_frame cl"
  "cl_frame (complete_open p r cl) = cl_frame cl"
  "cl_frame (client_retain_inbound_tasks finished cl) = cl_frame cl"
  "cl_frame (client_register_inbound_task finished ref cl) = cl_frame cl"
  "cl_frame (placement_failed E e cl) = cl_frame cl"
  "cl_frame (rollback_placement E t cl) = cl_frame cl"
  "cl_frame (snd (session_recv T s' cl)) = cl_frame cl"
  by (auto simp: offer_def register_local_def unregister_local_def take_pending_def complete_open_def
      client_retain_inbound_tasks_def client_register_inbound_task_def placement_failed_def
      rollback_placement_def session_recv_def Let_def split: option.splits prod.splits)

lemma frame_terminate [simp]: "cl_frame (client_terminate T s e cl) = cl_frame cl"
  by (simp add: client_terminate_def split: option.splits)

lemma frame_offers [simp]: "cl_frame (fold (\<lambda>ch. offer T ch item) chs cl) = cl_frame cl"
  by (induction chs arbitrary: cl) simp_all

lemma frame_terminate_all [simp]: "cl_frame (client_terminate_all T e cl) = cl_frame cl"
  by (simp add: client_terminate_all_def)

lemma frame_take_pending: "take_pending s cid cl = (p, cl') \<Longrightarrow> cl_frame cl' = cl_frame cl"
  by (metis frame_ops(4) snd_conv)

lemma frame_deliver [simp]: "cl_frame (deliver_item T s item c cl) = cl_frame cl"
  by (simp add: deliver_item_def split: option.splits)

lemma frame_envelope [simp]: "cl_frame (handle_envelope T env ref cl) = cl_frame cl"
  by (auto simp: handle_envelope_def frame_take_pending split: option.splits kind.splits prod.splits)

lemma frame_end_session [simp]: "cl_frame (receive_end_session T ref s cl) = cl_frame cl"
  by (auto simp: receive_end_session_def frame_take_pending split: option.splits prod.splits)

section \<open>Operations on connections\<close>

lemma length_remove_distinct:
  "distinct xs \<Longrightarrow> x \<in> set xs \<Longrightarrow> length xs = Suc (length (filter (\<lambda>y. y \<noteq> x) xs))"
proof (induction xs)
  case (Cons y xs)
  moreover have "x \<notin> set xs \<Longrightarrow> filter (\<lambda>z. z \<noteq> x) xs = xs" by (rule filter_True) auto
  ultimately show ?case by (cases "y = x") auto
qed simp

lemma length_remove1_Suc: "x \<in> set xs \<Longrightarrow> length xs = Suc (length (remove1 x xs))"
  by (induction xs) auto

lemma connection_ok_sections [simp]:
  assumes "connection_ok c"
  shows "connection_ok (tc_insert s c)" and "connection_ok (tc_count_bind s c)"
    and "connection_ok (tc_remove s c)" and "connection_ok (tc_count_unbind s c)"
  using assms length_remove_distinct [of "tc_sessions c" s] length_remove1_Suc [of s "tc_adding c"]
    length_remove1_Suc [of s "tc_removing c"]
  by (auto simp: connection_ok_def tc_insert_def tc_count_bind_def tc_remove_def tc_count_unbind_def algebra_simps)

lemma set_sections [simp]:
  "set (tc_sessions (tc_insert s c)) = insert s (set (tc_sessions c))"
  "tc_sessions (tc_count_bind s c) = tc_sessions c"
  "set (tc_sessions (tc_remove s c)) = set (tc_sessions c) - {s}"
  "tc_sessions (tc_count_unbind s c) = tc_sessions c"
  "tc_closed (tc_insert s c) = tc_closed c" "tc_closed (tc_count_bind s c) = tc_closed c"
  "tc_closed (tc_remove s c) = tc_closed c" "tc_closed (tc_count_unbind s c) = tc_closed c"
  by (auto simp: tc_insert_def tc_count_bind_def tc_remove_def tc_count_unbind_def)

lemma count_list_remove1: "count_list (remove1 x xs) y = count_list xs y - of_bool (x = y)"
  by (induction xs) (auto simp: count_list_0_iff)

lemma half_sections [simp]:
  "s \<noteq> me \<Longrightarrow> count_list (tc_adding (tc_insert s c)) me = count_list (tc_adding c) me"
  "s \<noteq> me \<Longrightarrow> count_list (tc_adding (tc_count_bind s c)) me = count_list (tc_adding c) me"
  "s \<noteq> me \<Longrightarrow> count_list (tc_removing (tc_remove s c)) me = count_list (tc_removing c) me"
  "s \<noteq> me \<Longrightarrow> count_list (tc_removing (tc_count_unbind s c)) me = count_list (tc_removing c) me"
  "tc_removing (tc_insert s c) = tc_removing c" "tc_removing (tc_count_bind s c) = tc_removing c"
  "tc_adding (tc_remove s c) = tc_adding c" "tc_adding (tc_count_unbind s c) = tc_adding c"
  "count_list (tc_adding (tc_count_bind me c)) me = count_list (tc_adding c) me - 1"
  "count_list (tc_removing (tc_count_unbind me c)) me = count_list (tc_removing c) me - 1"
  "count_list (tc_adding (tc_insert me c)) me \<le> Suc (count_list (tc_adding c) me)"
  "count_list (tc_removing (tc_remove me c)) me \<le> Suc (count_list (tc_removing c) me)"
  by (auto simp: tc_insert_def tc_count_bind_def tc_remove_def tc_count_unbind_def count_list_remove1 count_list_0_iff)

lemma update_connection_frame:
  "cl_pools (update_connection ref f cl) = cl_pools cl"
  "cl_max_connections_per_endpoint (update_connection ref f cl) = cl_max_connections_per_endpoint cl"
  "cl_max_open_attempts (update_connection ref f cl) = cl_max_open_attempts cl"
  "pool_connections (update_connection ref f cl) p = pool_connections cl p"
  by (simp_all add: update_connection_def pool_connections_def split: option.splits)

lemma update_connection_get:
  "hm_get (cl_connections (update_connection ref f cl)) r =
     (if r = ref then map_option f (hm_get (cl_connections cl) ref) else hm_get (cl_connections cl) r)"
  by (simp add: update_connection_def split: option.splits)

lemma inv_update_connection:
  assumes "client_inv cl"
    and "\<And>c. hm_get (cl_connections cl) ref = Some c \<Longrightarrow> connection_ok c \<Longrightarrow> connection_ok (f c)"
  shows "client_inv (update_connection ref f cl)"
  using assms by (auto simp: client_inv_def update_connection_frame update_connection_get split: if_splits)

text \<open>An update that neither adds nor removes \<open>me\<close>, unless the connection is closed.\<close>

lemma bound_update_connection:
  assumes "bound_to R me cl"
    and "\<And>c. hm_get (cl_connections cl) ref = Some c \<Longrightarrow>
          (me \<in> set (tc_sessions (f c)) \<longrightarrow> me \<in> set (tc_sessions c))
          \<and> (me \<in> set (tc_sessions c) \<or> tc_closed c \<longrightarrow> me \<in> set (tc_sessions (f c)) \<or> tc_closed (f c))"
  shows "bound_to R me (update_connection ref f cl)"
  unfolding bound_to_def
proof (intro conjI allI impI ballI)
  fix r c assume "hm_get (cl_connections (update_connection ref f cl)) r = Some c \<and> me \<in> set (tc_sessions c)"
  then obtain c0 where "hm_get (cl_connections cl) r = Some c0" "me \<in> set (tc_sessions c0)"
    using assms(2) by (auto simp: update_connection_get split: if_splits)
  then show "r \<in> R" using assms(1) by (simp add: bound_to_def)
next
  fix r assume "r \<in> R"
  then obtain c where "hm_get (cl_connections cl) r = Some c" "me \<in> set (tc_sessions c) \<or> tc_closed c"
    using assms(1) by (auto simp: bound_to_def)
  then show "\<exists>c. hm_get (cl_connections (update_connection ref f cl)) r = Some c
      \<and> (me \<in> set (tc_sessions c) \<or> tc_closed c)"
    using assms(2) by (auto simp: update_connection_get)
qed

lemma half_way_update_connection:
  assumes "half_way A D me cl"
    and "\<And>c. hm_get (cl_connections cl) ref = Some c \<Longrightarrow>
          count_list (tc_adding (f c)) me \<le> count_list (tc_adding c) me
          \<and> count_list (tc_removing (f c)) me \<le> count_list (tc_removing c) me"
  shows "half_way A D me (update_connection ref f cl)"
  unfolding half_way_def
proof (intro allI impI)
  fix r c assume "hm_get (cl_connections (update_connection ref f cl)) r = Some c"
  then obtain c0 where "hm_get (cl_connections cl) r = Some c0"
    "count_list (tc_adding c) me \<le> count_list (tc_adding c0) me"
    "count_list (tc_removing c) me \<le> count_list (tc_removing c0) me"
    using assms(2) by (auto simp: update_connection_get split: if_splits)
  then show "count_list (tc_adding c) me \<le> (if r \<in> A then 1 else 0)
      \<and> count_list (tc_removing c) me \<le> (if r \<in> D then 1 else 0)"
    using half_wayD [OF assms(1)] le_trans by blast
qed

text \<open>The four sections on the own Session.\<close>

lemma insert_own:
  assumes "bound_to {} me cl" and "half_way {} {} me cl" and "hm_get (cl_connections cl) ref \<noteq> None"
  shows "bound_to {ref} me (update_connection ref (tc_insert me) cl)"
    and "half_way {ref} {} me (update_connection ref (tc_insert me) cl)"
  using assms le_trans [OF half_sections(11)]
  by (auto simp: bound_to_def half_way_def update_connection_get split: if_splits)

lemma count_bind_own:
  assumes "bound_to R me cl" and "half_way {ref} {} me cl"
  shows "bound_to R me (update_connection ref (tc_count_bind me) cl)"
    and "half_way {} {} me (update_connection ref (tc_count_bind me) cl)"
proof -
  show "bound_to R me (update_connection ref (tc_count_bind me) cl)"
    using assms(1) by (rule bound_update_connection) simp
  show "half_way {} {} me (update_connection ref (tc_count_bind me) cl)"
    using assms(2) by (fastforce simp: half_way_def update_connection_get split: if_splits)
qed

lemma remove_own:
  assumes "bound_to {ref} me cl" and "half_way {} {} me cl"
  shows "bound_to {} me (update_connection ref (tc_remove me) cl)"
    and "half_way {} {ref} me (update_connection ref (tc_remove me) cl)"
  using assms le_trans [OF half_sections(12)]
  by (auto simp: bound_to_def half_way_def update_connection_get split: if_splits)

lemma count_unbind_own:
  assumes "bound_to R me cl" and "half_way {} {ref} me cl"
  shows "bound_to R me (update_connection ref (tc_count_unbind me) cl)"
    and "half_way {} {} me (update_connection ref (tc_count_unbind me) cl)"
proof -
  show "bound_to R me (update_connection ref (tc_count_unbind me) cl)"
    using assms(1) by (rule bound_update_connection) simp
  show "half_way {} {} me (update_connection ref (tc_count_unbind me) cl)"
    using assms(2) by (fastforce simp: half_way_def update_connection_get split: if_splits)
qed

section \<open>Operations on pools\<close>

lemma fold_max_upper: "n \<in> set ns \<or> n \<le> a \<Longrightarrow> n \<le> fold max ns (a :: nat)"
proof (induction ns arbitrary: a)
  case (Cons x ns)
  then have "n \<in> set ns \<or> n \<le> max x a" by (auto simp: le_max_iff_disj)
  then show ?case using Cons.IH [of "max x a"] by simp
qed simp

lemma fresh_ref_fresh [simp]: "hm_get m (fresh_ref m) = None"
proof (rule ccontr)
  assume "hm_get m (fresh_ref m) \<noteq> None"
  then have "Suc (fresh_ref m) \<in> set (map Suc (hm_keys m))" by (simp add: hm.keys_dom)
  then have "Suc (fresh_ref m) \<le> fresh_ref m" unfolding fresh_ref_def by (intro fold_max_upper disjI1)
  then show False by simp
qed

lemma pool_connections_set [simp]:
  "pool_connections (set_pool p refs cl) p' = (if p' = p then refs else pool_connections cl p')"
  by (simp add: pool_connections_def set_pool_def)

lemma pool_connections_irrelevant [simp]:
  "pool_connections (cl\<lparr>cl_pools := pools\<rparr>) p = pool_connections cl p"
  by (simp add: pool_connections_def)

lemma pool_connections_pool [simp]: "pool_connections (snd (pool e cl)) p = pool_connections cl p"
  by (auto simp: pool_def Let_def pool_connections_def set_pool_def split: option.splits)

lemma pool_connections_retain:
  "pool_connections (retain_open p cl) p' = (if p' = p then filter (is_open cl) (pool_connections cl p) else pool_connections cl p')"
  by (simp add: retain_open_def)

lemma pool_connections_unpool:
  "set (pool_connections (receive_end_unpool p ref cl) p') \<subseteq> set (pool_connections cl p')"
  "length (pool_connections (receive_end_unpool p ref cl) p') \<le> length (pool_connections cl p')"
  "p' \<noteq> p \<Longrightarrow> pool_connections (receive_end_unpool p ref cl) p' = pool_connections cl p'"
  by (auto simp: receive_end_unpool_def split: option.splits)

lemma connections_pool_ops [simp]:
  "cl_connections (set_pool p refs cl) = cl_connections cl"
  "cl_connections (snd (pool e cl)) = cl_connections cl"
  "cl_connections (retain_open p cl) = cl_connections cl"
  "cl_connections (receive_end_unpool p ref cl) = cl_connections cl"
  "cl_max_connections_per_endpoint (set_pool p refs cl) = cl_max_connections_per_endpoint cl"
  "cl_max_connections_per_endpoint (snd (pool e cl)) = cl_max_connections_per_endpoint cl"
  "cl_max_connections_per_endpoint (retain_open p cl) = cl_max_connections_per_endpoint cl"
  "cl_max_connections_per_endpoint (receive_end_unpool p ref cl) = cl_max_connections_per_endpoint cl"
  "cl_max_open_attempts (set_pool p refs cl) = cl_max_open_attempts cl"
  "cl_max_open_attempts (snd (pool e cl)) = cl_max_open_attempts cl"
  "cl_max_open_attempts (retain_open p cl) = cl_max_open_attempts cl"
  "cl_max_open_attempts (receive_end_unpool p ref cl) = cl_max_open_attempts cl"
  by (simp_all add: pool_def set_pool_def retain_open_def receive_end_unpool_def Let_def split: option.splits)

text \<open>Pools that only lose connections.\<close>

lemma inv_shrink:
  assumes "client_inv cl" and "cl_connections cl' = cl_connections cl"
    and "cl_max_connections_per_endpoint cl' = cl_max_connections_per_endpoint cl"
    and "\<And>p. set (pool_connections cl' p) \<subseteq> set (pool_connections cl p)"
    and "\<And>p. length (pool_connections cl' p) \<le> length (pool_connections cl p)"
  shows "client_inv cl'"
  using assms unfolding client_inv_def by (metis le_trans subsetD)

lemma inv_pool_ops [simp]:
  assumes "client_inv cl"
  shows "client_inv (snd (pool e cl))" and "client_inv (retain_open p cl)"
    and "client_inv (receive_end_unpool p ref cl)" and "client_inv (set_pool p [] cl)"
  by (rule inv_shrink [OF assms]; simp add: pool_connections_retain pool_connections_unpool)+

lemma bound_pool_ops [simp]:
  "bound_to R me (set_pool p refs cl) \<longleftrightarrow> bound_to R me cl"
  "bound_to R me (snd (pool e cl)) \<longleftrightarrow> bound_to R me cl"
  "bound_to R me (retain_open p cl) \<longleftrightarrow> bound_to R me cl"
  "bound_to R me (receive_end_unpool p ref cl) \<longleftrightarrow> bound_to R me cl"
  by (simp_all add: bound_to_def)

lemma half_way_pool_ops [simp]:
  "half_way A D me (set_pool p refs cl) \<longleftrightarrow> half_way A D me cl"
  "half_way A D me (snd (pool e cl)) \<longleftrightarrow> half_way A D me cl"
  "half_way A D me (retain_open p cl) \<longleftrightarrow> half_way A D me cl"
  "half_way A D me (receive_end_unpool p ref cl) \<longleftrightarrow> half_way A D me cl"
  by (simp_all add: half_way_def)

text \<open>What \<open>push_connection\<close> does to connections and pools.\<close>

lemma push_connection_effect:
  assumes "push_connection finished p e s sender cl = (ref, cl')"
  shows "hm_get (cl_connections cl) ref = None"
    and "hm_get (cl_connections cl') r = (if r = ref
        then Some \<lparr>tc_id = cl_next_connection_id cl, tc_endpoint = e, tc_sender = sender,
                    tc_sessions = [s], tc_bound_sessions = 1, tc_closed = False, tc_adding = [], tc_removing = []\<rparr>
        else hm_get (cl_connections cl) r)"
    and "pool_connections cl' p' = (if p' = p then pool_connections cl p @ [ref] else pool_connections cl p')"
    and "cl_max_connections_per_endpoint cl' = cl_max_connections_per_endpoint cl"
    and "cl_max_open_attempts cl' = cl_max_open_attempts cl"
  using assms
  by (auto simp: push_connection_def Let_def client_register_inbound_task_def client_retain_inbound_tasks_def
      tc_bind_def tc_insert_def tc_count_bind_def pool_connections_def set_pool_def)

lemma inv_push:
  assumes "push_connection finished p e s sender cl = (ref, cl')" and "client_inv cl" and "has_room p cl"
  shows "client_inv cl'"
  using assms(2,3) push_connection_effect [OF assms(1)]
  by (auto simp: client_inv_def has_room_def connection_ok_def split: if_splits)

lemma bound_push:
  assumes "push_connection finished p e s sender cl = (ref, cl')" and "bound_to R me cl"
  shows "bound_to (if s = me then insert ref R else R) me cl'"
  using assms(2) push_connection_effect(1,2) [OF assms(1)]
  by (auto simp: bound_to_def split: if_splits)

lemma half_way_push:
  assumes "push_connection finished p e s sender cl = (ref, cl')" and "half_way A D me cl"
  shows "half_way A D me cl'"
  using assms(2) push_connection_effect(2) [OF assms(1)] by (auto simp: half_way_def split: if_splits)

lemma fold_choice_mem:
  "fold (\<lambda>x best. if key x < key best then x else best) xs a \<in> insert a (set xs)"
  by (induction xs arbitrary: a) auto

lemma reuse_cases:
  assumes "reuse_connection p s cl = (x, cl')"
  obtains "x = Err RemoteUnavailable" "cl' = cl" "pool_connections cl p = []"
  | ref where "x = Ok ref" "cl' = update_connection ref (tc_insert s) cl" "ref \<in> set (pool_connections cl p)"
  using assms fold_choice_mem [of "bound_count cl"]
  by (fastforce simp: reuse_connection_def Let_def split: list.splits)

section \<open>Steps keep the invariant\<close>

lemma cl_step_inv: "cl_step T me lock cl cl' \<Longrightarrow> client_inv cl \<Longrightarrow> client_inv cl'"
proof (induction rule: cl_step.induct)
  case (push p cl s finished e sender)
  then show ?case by (metis inv_push prod.collapse)
next
  case (reuse p s cl)
  then show ?case
    by (metis (no_types, lifting) connection_ok_sections(1) inv_update_connection prod.collapse reuse_cases)
next
  case (end_take cl ref c)
  then show ?case
    by (auto simp: receive_end_take_def connection_ok_def intro!: inv_update_connection)
qed ((simp; fail) | (erule inv_frameI, simp; fail) | (erule inv_update_connection, simp; fail)
    | (auto simp: receive_end_close_def receive_end_reset_def connection_ok_def intro!: inv_update_connection; fail))+

lemma cl_step_bound: "cl_step T me lock cl cl' \<Longrightarrow> bound_to R me cl \<Longrightarrow> bound_to R me cl'"
proof (induction rule: cl_step.induct)
  case (push p cl s finished e sender)
  then show ?case using bound_push [of finished p e s sender cl _ _ R me] by (metis prod.collapse)
next
  case (reuse p s cl)
  obtain x cl'' where r: "reuse_connection p s cl = (x, cl'')" by (meson surj_pair)
  then show ?case
    using reuse by (auto elim!: reuse_cases intro!: bound_update_connection)
next
  case (end_take cl ref c)
  then show ?case by (auto simp: receive_end_take_def intro!: bound_update_connection)
qed ((simp; fail) | (erule bound_frameI, simp; fail)
    | (auto simp: receive_end_close_def receive_end_reset_def intro!: bound_update_connection; fail))+

lemma cl_step_half_way: "cl_step T me lock cl cl' \<Longrightarrow> half_way A D me cl \<Longrightarrow> half_way A D me cl'"
proof (induction rule: cl_step.induct)
  case (push p cl s finished e sender)
  then show ?case by (metis half_way_push prod.collapse)
next
  case (reuse p s cl)
  obtain x cl'' where r: "reuse_connection p s cl = (x, cl'')" by (meson surj_pair)
  then show ?case
    using reuse by (auto elim!: reuse_cases intro!: half_way_update_connection)
next
  case (end_take cl ref c)
  then show ?case by (auto simp: receive_end_take_def intro!: half_way_update_connection)
qed ((simp; fail) | (erule half_way_frameI, simp; fail)
    | (auto simp: receive_end_close_def receive_end_reset_def intro!: half_way_update_connection; fail))+

lemma cl_step_config:
  "cl_step T me lock cl cl' \<Longrightarrow>
     cl_max_connections_per_endpoint cl' = cl_max_connections_per_endpoint cl
     \<and> cl_max_open_attempts cl' = cl_max_open_attempts cl"
proof (induction rule: cl_step.induct)
  case (push p cl s finished e sender)
  then show ?case by (metis push_connection_effect(4,5) prod.collapse)
next
  case (reuse p s cl)
  then show ?case by (metis reuse_cases prod.collapse update_connection_frame(2,3))
next
  case (envelope cl env ref)
  then show ?case using frame_envelope [of T env ref cl] by (simp add: cl_frame_def)
next
  case (end_session cl ref s)
  then show ?case using frame_end_session [of T ref s cl] by (simp add: cl_frame_def)
next
  case (recv cl s)
  then show ?case using frame_ops(10) [of T s cl] by (simp add: cl_frame_def)
next
  case (terminate_all cl error)
  then show ?case using frame_terminate_all [of T error cl] by (simp add: cl_frame_def)
qed (simp_all add: receive_end_close_def receive_end_reset_def receive_end_take_def register_local_def
    unregister_local_def update_connection_frame split: option.splits)

lemma cl_step_locked_pool:
  "cl_step T me lock cl cl' \<Longrightarrow> lock = Some p \<Longrightarrow> pool_connections cl' p = pool_connections cl p"
proof (induction rule: cl_step.induct)
  case (push p' cl s finished e sender)
  then show ?case by (metis push_connection_effect(3) prod.collapse)
next
  case (reuse p' s cl)
  then show ?case by (metis reuse_cases prod.collapse update_connection_frame(4))
next
  case (end_unpool p' cl ref)
  then show ?case by (intro pool_connections_unpool(3)) simp
qed ((rule pool_connections_frame, simp; fail) | (auto simp: pool_connections_retain receive_end_close_def
    receive_end_reset_def receive_end_take_def update_connection_frame split: option.splits; fail))+

section \<open>The composed operations are sequences of steps\<close>

lemma steps_step: "(cl_step T me lock)\<^sup>*\<^sup>* cl cl' \<Longrightarrow> cl_step T me lock cl' cl'' \<Longrightarrow> (cl_step T me lock)\<^sup>*\<^sup>* cl cl''"
  by (rule rtranclp.rtrancl_into_rtrancl)

lemma close_connections_steps: "(cl_step T me lock)\<^sup>*\<^sup>* cl (fst (close_connections tx_close refs cl w))"
proof (induction refs arbitrary: cl w)
  case (Cons ref refs)
  show ?case
  proof (cases "hm_get (cl_connections cl) ref")
    case (Some c)
    obtain c' w' where c: "tc_close tx_close c w = (c', w')" by fastforce
    let ?cl1 = "cl\<lparr>cl_connections := hm_insert ref c' (cl_connections cl)\<rparr>"
    have "?cl1 = receive_end_close ref cl"
      using Some c by (simp add: receive_end_close_def update_connection_def tc_close_def)
    then have "cl_step T me lock cl ?cl1" using cl_step.end_close [of T me lock cl ref] by simp
    from converse_rtranclp_into_rtranclp [OF this Cons.IH] show ?thesis using Some c by simp
  qed (use Cons.IH in simp)
qed simp

lemma drain_pools_steps: "(cl_step T me None)\<^sup>*\<^sup>* cl (fst (drain_pools tx_close ps cl w))"
proof (induction ps arbitrary: cl w)
  case (Cons p ps)
  let ?close = "close_connections tx_close (pool_connections cl p) (set_pool p [] cl) w"
  have "cl_step T me None cl (set_pool p [] cl)" by (rule cl_step.drain) simp
  then have "(cl_step T me None)\<^sup>*\<^sup>* cl (fst ?close)"
    by (rule converse_rtranclp_into_rtranclp) (rule close_connections_steps)
  from rtranclp_trans [OF this Cons.IH [of "fst ?close" "snd ?close"]] show ?case by (simp add: split_beta)
qed simp

lemma client_shutdown_steps: "(cl_step T me None)\<^sup>*\<^sup>* cl (fst (snd (client_shutdown T tx_close cl w)))"
proof (cases "cl_status cl = CLIENT_STOPPED")
  case False
  let ?cl0 = "cl\<lparr>cl_status := CLIENT_STOPPED, cl_pools := hm_empty\<rparr>"
  obtain cl1 w1 where d: "drain_pools tx_close (map snd (cl_pools cl)) ?cl0 w = (cl1, w1)" by fastforce
  have "(cl_step T me None)\<^sup>*\<^sup>* cl (cl\<lparr>cl_status := CLIENT_STOPPED\<rparr>)"
    by (rule r_into_rtranclp) (rule cl_step.stop)
  then have "(cl_step T me None)\<^sup>*\<^sup>* cl ?cl0" using steps_step [OF _ cl_step.drop_pools] by fastforce
  also have "(cl_step T me None)\<^sup>*\<^sup>* ?cl0 cl1"
    using drain_pools_steps [of T me ?cl0 tx_close "map snd (cl_pools cl)" w] d by simp
  finally have "(cl_step T me None)\<^sup>*\<^sup>* cl cl1" .
  then have "(cl_step T me None)\<^sup>*\<^sup>* cl (cl1\<lparr>cl_inbound_tasks := [], cl_pending_opens := hm_empty\<rparr>)"
    using steps_step [OF steps_step [OF _ cl_step.inbound] cl_step.clear_pending] by fastforce
  from steps_step [OF this cl_step.terminate_all]
  show ?thesis using False d by (auto simp: client_shutdown_def)
qed (simp add: client_shutdown_def)

lemma hm_insert_again: "hm_insert k v (hm_insert k v' m) = hm_insert k v m"
  by (simp add: hm_insert_def)

lemma session_drop_steps:
  assumes "ss_session_id s \<noteq> me"
  shows "(cl_step T me lock)\<^sup>*\<^sup>* cl (fst (session_drop tx s cl w))"
proof -
  have "fst (session_drop tx s cl w) = update_connection (ss_connection s) (tc_count_unbind (ss_session_id s))
      (update_connection (ss_connection s) (tc_remove (ss_session_id s)) (unregister_local (ss_session_id s) cl))"
    by (simp add: session_drop_def Let_def split_beta update_connection_def tc_unbind_def hm_insert_again
        split: option.splits)
  then show ?thesis
    using steps_step [OF steps_step [OF steps_step [OF rtranclp.rtrancl_refl cl_step.unregister [OF assms]]
        cl_step.remove [OF assms]] cl_step.count_unbind [OF assms]] by simp
qed

lemma receive_end_steps:
  assumes "hm_get (cl_connections cl) ref \<noteq> None"
  shows "(cl_step T me None)\<^sup>*\<^sup>* cl (receive_end T finished ref cl)"
proof -
  let ?S = "(cl_step T me None)\<^sup>*\<^sup>*"
  let ?cl1 = "receive_end_close ref cl"
  define cl2 where "cl2 = (case receive_end_pool ref ?cl1 of None \<Rightarrow> ?cl1 | Some p \<Rightarrow> receive_end_unpool p ref ?cl1)"
  obtain sids cl3 where t: "receive_end_take ref cl2 = (sids, cl3)" by fastforce
  have "?S ?cl1 cl2" unfolding cl2_def
    by (auto split: option.splits intro: cl_step.end_unpool)
  then have s2: "?S cl cl2"
    by (rule converse_rtranclp_into_rtranclp [where b = ?cl1, rotated]) (rule cl_step.end_close)
  have "cl_connections cl2 = cl_connections ?cl1" by (simp add: cl2_def split: option.splits)
  then obtain c where c: "hm_get (cl_connections cl2) ref = Some c" "tc_closed c"
    using assms by (auto simp: receive_end_close_def update_connection_get)
  have s3: "?S cl cl3" using steps_step [OF s2 cl_step.end_take [OF c]] t by simp
  have "\<exists>c. hm_get (cl_connections cl3) ref = Some c \<and> tc_closed c"
    using t c by (auto simp: receive_end_take_def update_connection_get)
  then have s4: "?S cl (receive_end_reset ref cl3)" using steps_step [OF s3 cl_step.end_reset] by blast
  have "?S a (fold (receive_end_session T ref) xs a)" for xs and a :: "('p, 'b) client"
    by (induction xs arbitrary: a) (auto intro: converse_rtranclp_into_rtranclp cl_step.end_session)
  then have "?S cl (fold (receive_end_session T ref) sids (receive_end_reset ref cl3))"
    using rtranclp_trans [OF s4] by blast
  from steps_step [OF this cl_step.inbound] show ?thesis
    using t by (simp add: receive_end_def Let_def cl2_def client_retain_inbound_tasks_def)
qed

end
