(* ===== verification/Client_Open_Safety.thy ===== *)
theory Client_Open_Safety
  imports Client_Safety
begin

text \<open>
  The open loop, verified against whatever the other tasks of the Client do.  Inside
  \<open>client_rely\<close>: \<open>open\<close> keeps the invariant of the Client and a failed \<open>open\<close> leaves no trace of
  its Session.  Inside \<open>session_open_meter\<close>, which adds a count of the \<open>SessionOpen\<close> messages
  the wire has accepted for the Session: \<open>open\<close> stays within its limit.
\<close>

section \<open>Finding a target\<close>

text \<open>
  A property of Client and world that survives the waits and the store reads survives the
  search for a target; proved once for both uses below.
\<close>

locale target_search =
  fixes E :: "('p, 'c, 'w) client_env"
    and I :: "('p, 'c) client \<Rightarrow> 'w \<Rightarrow> bool"
  assumes other_keeps: "ce_other E None (cl, w) = (cl', w') \<Longrightarrow> I cl w \<Longrightarrow> I cl' w'"
    and owner_keeps: "cs_read_actor_owner (ce_store E) d address w = (x, w') \<Longrightarrow> I cl w \<Longrightarrow> I cl w'"
    and node_keeps: "cs_read_node (ce_store E) d node w = (y, w') \<Longrightarrow> I cl w \<Longrightarrow> I cl w'"
    and list_keeps: "cs_list_nodes (ce_store E) d w = (z, w') \<Longrightarrow> I cl w \<Longrightarrow> I cl w'"
    and private_keeps: "I cl w \<Longrightarrow> I (cl\<lparr>cl_placement := p\<rparr>) w"
    and cache_keeps: "cs_list_nodes (ce_store E) d v = (Done (Ok nodes), v') \<Longrightarrow> I cl w \<Longrightarrow>
      I (cl\<lparr>cl_placement_cache := Some (map candidate_of (filter is_candidate nodes), t)\<rparr>) w"
begin

lemma timeout_at_keeps:
  assumes "timeout_at E deadline call error (cl, w) = (x, cl', w')" and "I cl w"
    and "\<And>d y w1. call d w = (y, w1) \<Longrightarrow> I cl w1"
  shows "I cl' w'"
proof -
  obtain y w1 where c: "call (deadline - ce_now E w) w = (y, w1)" by (meson surj_pair)
  then have "ce_other E None (cl, w1) = (cl', w')"
    using assms(1) by (auto simp: timeout_at_def split: timed.splits sum.splits)
  then show ?thesis using assms(3) [OF c] by (rule other_keeps)
qed

lemma timeout_at_listing:
  assumes "timeout_at E deadline (cs_list_nodes (ce_store E)) error (cl, w) = (Ok nodes, cl', w')"
  obtains v where "cs_list_nodes (ce_store E) (deadline - ce_now E w) w = (Done (Ok nodes), v)"
  using assms by (auto simp: timeout_at_def split: prod.splits timed.splits sum.splits)

lemma resolve_owner_keeps:
  assumes "resolve_owner E address deadline (cl, w) = (x, cl', w')" and "I cl w"
  shows "I cl' w'"
proof -
  obtain y cl1 w1 where t: "timeout_at E deadline (\<lambda>d. cs_read_actor_owner (ce_store E) d address)
      OwnershipUnavailable (cl, w) = (y, cl1, w1)" by (metis prod_cases3)
  have f: "I cl1 w1" using timeout_at_keeps [OF t assms(2)] owner_keeps assms(2) by blast
  have "I cl2 w2" if "timeout_at E deadline (\<lambda>d. cs_read_node (ce_store E) d n) DirectoryUnavailable (cl1, w1)
      = (z, cl2, w2)" for n z cl2 w2
    using timeout_at_keeps [OF that f] node_keeps f by blast
  then show ?thesis
    using assms(1) t f
    by (auto simp: resolve_owner_def split: sum.splits option.splits prod.splits)
qed

lemma placement_candidates_keeps:
  assumes "placement_candidates E deadline (cl, w) = (x, cl', w')" and "I cl w"
  shows "I cl' w'"
proof -
  obtain cl1 w1 where o: "ce_other E None (cl, w) = (cl1, w1)" by (meson surj_pair)
  have f1: "I cl1 w1" using other_keeps [OF o assms(2)] .
  show ?thesis
  proof (cases "cached_candidates (ce_now E w) cl1")
    case (Some cs)
    then show ?thesis using assms(1) o f1 by (auto simp: placement_candidates_def)
  next
    case None
    obtain y cl2 w2 where t: "timeout_at E deadline (cs_list_nodes (ce_store E)) DirectoryUnavailable (cl1, w1)
        = (y, cl2, w2)" by (metis prod_cases3)
    have f2: "I cl2 w2" using timeout_at_keeps [OF t f1] list_keeps f1 by blast
    obtain cl3 w3 where o2: "ce_other E None (cl2, w2) = (cl3, w3)" by (meson surj_pair)
    have f3: "I cl3 w3" using other_keeps [OF o2 f2] .
    have "I (cl3\<lparr>cl_placement_cache := Some (map candidate_of (filter is_candidate nodes), n)\<rparr>) w3"
      if "y = Ok nodes" for nodes n
      using t that f3 by (auto elim!: timeout_at_listing intro: cache_keeps)
    then show ?thesis
      using assms(1) o None t f2 o2
      by (auto simp: placement_candidates_def Let_def split: sum.splits)
  qed
qed

lemma select_keeps:
  assumes "select_placement_candidate E address excluded deadline (cl, w) = Some (x, cl', w')" and "I cl w"
  shows "I cl' w'"
proof -
  obtain y cl1 w1 where p: "placement_candidates E deadline (cl, w) = (y, cl1, w1)" by (metis prod_cases3)
  have "I cl1 w1" using placement_candidates_keeps [OF p assms(2)] .
  then show ?thesis
    using assms(1) p
    by (auto simp: select_placement_candidate_def Let_def private_keeps
        split: sum.splits if_splits option.splits prod.splits)
qed

lemma open_target_keeps:
  assumes "open_target E address deadline os (cl, w) = Some (x, cl', w')" and "I cl w"
  shows "I cl' w'"
proof -
  obtain y cl1 w1 where r: "resolve_owner E address deadline (cl, w) = (y, cl1, w1)" by (metis prod_cases3)
  have "I cl1 w1" using resolve_owner_keeps [OF r assms(2)] .
  then show ?thesis
    using assms(1) r
    by (auto simp: open_target_def split: sum.splits owner_resolution.splits if_splits option.splits prod.splits
        dest: select_keeps)
qed

end

section \<open>Acquiring and releasing a connection\<close>

text \<open>
  A property that looks at the Client's limit and cache only, and that the locks, \<open>connect\<close> and
  the other tasks keep, survives acquiring a connection and leaving it.
\<close>

lemma cache_frame [simp]:
  "cl_placement_cache (update_connection ref f cl) = cl_placement_cache cl"
  "cl_placement_cache (set_pool p refs cl) = cl_placement_cache cl"
  "cl_placement_cache (snd (pool e cl)) = cl_placement_cache cl"
  "cl_placement_cache (retain_open p cl) = cl_placement_cache cl"
  "cl_placement_cache (snd (push_connection fin p e s sender cl)) = cl_placement_cache cl"
  "cl_placement_cache (rollback_placement E t cl) = cl_placement_cache cl"
  "cl_max_open_attempts (rollback_placement E t cl) = cl_max_open_attempts cl"
  "cl_max_open_attempts (update_connection ref f cl) = cl_max_open_attempts cl"
  by (simp_all add: update_connection_def set_pool_def pool_def retain_open_def push_connection_def
      client_register_inbound_task_def client_retain_inbound_tasks_def rollback_placement_def
      placement_failed_def Let_def split: option.splits)

locale round_search = target_search E I
  for E :: "('p, 'c, 'w) client_env" and I :: "('p, 'c) client \<Rightarrow> 'w \<Rightarrow> bool" +
  assumes locked_keeps: "ce_other E lock (cl, w) = (cl', w') \<Longrightarrow> I cl w \<Longrightarrow> I cl' w'"
    and lock_keeps: "ce_lock E d p w = (l, w') \<Longrightarrow> I cl w \<Longrightarrow> I cl w'"
    and connect_keeps: "ce_connect E d endpoint w = (c, w') \<Longrightarrow> I cl w \<Longrightarrow> I cl w'"
    and client_keeps: "cl_max_open_attempts cl' = cl_max_open_attempts cl \<Longrightarrow>
      cl_placement_cache cl' = cl_placement_cache cl \<Longrightarrow> I cl w \<Longrightarrow> I cl' w"
begin

lemma acquire_keeps:
  assumes "acquire_connection E endpoint s deadline (cl, w) = (x, cl', w')" and "I cl w"
  shows "I cl' w'"
proof -
  obtain p cl0 where p: "pool endpoint cl = (p, cl0)" by (meson surj_pair)
  obtain l w1 where l: "ce_lock E (deadline - ce_now E w) p w = (l, w1)" by (meson surj_pair)
  obtain cl1 w2 where o: "ce_other E None (cl0, w1) = (cl1, w2)" by (meson surj_pair)
  have "I (snd (pool endpoint cl)) w" using assms(2) by (rule client_keeps [rotated 2]) simp_all
  then have "I cl0 w" using p by simp
  then have m2: "I cl1 w2" using locked_keeps [OF o lock_keeps [OF l]] by simp
  then have m2': "I (retain_open p cl1) w2" by (rule client_keeps [rotated 2]) simp_all
  obtain y w3 where c: "ce_connect E (deadline - ce_now E w2) endpoint w2 = (y, w3)" by (meson surj_pair)
  obtain cl3 w4 where o3: "ce_other E (Some p) (retain_open p cl1, w3) = (cl3, w4)" by (meson surj_pair)
  have m4: "I cl3 w4" using locked_keeps [OF o3 connect_keeps [OF c m2']] .
  have pushed: "I cl4 w4" if "push_connection fin p endpoint s sender cl3 = (ref, cl4)" for fin sender ref cl4
    using client_keeps [OF _ _ m4, of cl4] push_connection_effect(5) [OF that] cache_frame(5) that by (metis snd_conv)
  have reused: "I cl4 w2" if "reuse_connection p s (retain_open p cl1) = (z, cl4)" for z cl4
    by (rule reuse_cases [OF that]) (use m2' in \<open>simp_all add: client_keeps [OF _ _ m2']\<close>)
  have counted: "I (update_connection ref f cl5) w5"
    if "reuse_connection p s (retain_open p cl1) = (z, cl4)" "ce_other E (Some p) (cl4, w2) = (cl5, w5)"
    for z cl4 cl5 w5 ref f
    by (rule client_keeps [OF _ _ locked_keeps [OF that(2) reused [OF that(1)]]]) simp_all
  show ?thesis
    using assms(1) p l o c o3 m2 m4 pushed reused counted
    by (fastforce simp: acquire_connection_def Let_def split: timed.splits sum.splits prod.splits if_splits)
qed

lemma open_unbind_keeps:
  assumes "open_unbind E ref s (cl, w) = (cl', w')" and "I cl w"
  shows "I cl' w'"
proof -
  obtain cl1 where o: "ce_other E None (update_connection ref (tc_remove s) cl, w) = (cl1, w')"
    and cl': "cl' = update_connection ref (tc_count_unbind s) cl1"
    using assms(1) by (auto simp: open_unbind_def split: prod.splits)
  have "I (update_connection ref (tc_remove s) cl) w" using assms(2) by (rule client_keeps [rotated 2]) simp_all
  then have "I cl1 w'" using locked_keeps [OF o] by simp
  then show ?thesis unfolding cl' by (rule client_keeps [rotated 2]) simp_all
qed

end

section \<open>Rely\<close>

locale client_rely =
  fixes T :: "(session_item, 'c, 's) tokio"
    and E :: "('p, 'c, 'w) client_env"
    and me :: session_id
  assumes other_steps: "(cl_step T me lock)\<^sup>*\<^sup>* cl (fst (ce_other E lock (cl, w)))"
begin

definition fits :: "conn_ref set \<Rightarrow> conn_ref set \<Rightarrow> conn_ref set \<Rightarrow> usize \<Rightarrow> ('p, 'c) client \<Rightarrow> bool" where
  "fits R A D limit cl \<longleftrightarrow>
     client_inv cl \<and> bound_to R me cl \<and> half_way A D me cl \<and> cl_max_open_attempts cl = limit"

lemma fits_frameI: "fits R A D limit cl \<Longrightarrow> cl_frame cl' = cl_frame cl \<Longrightarrow> fits R A D limit cl'"
  unfolding fits_def by (auto intro: inv_frameI bound_frameI half_way_frameI simp: cl_frame_def)

lemma fits_updates [simp]:
  "fits R A D limit (rollback_placement E' t cl) \<longleftrightarrow> fits R A D limit cl"
  "fits R A D limit (cl\<lparr>cl_placement_cache := cache\<rparr>) \<longleftrightarrow> fits R A D limit cl"
  "fits R A D limit (cl\<lparr>cl_placement := p\<rparr>) \<longleftrightarrow> fits R A D limit cl"
  "fits R A D limit (cl\<lparr>cl_pending_opens := po\<rparr>) \<longleftrightarrow> fits R A D limit cl"
  by (auto elim: fits_frameI)

lemma steps_fit: "(cl_step T me lock)\<^sup>*\<^sup>* cl cl' \<Longrightarrow> fits R A D limit cl \<Longrightarrow> fits R A D limit cl'"
  by (induction rule: rtranclp_induct)
    (auto simp: fits_def dest: cl_step_inv cl_step_bound cl_step_half_way cl_step_config)

lemma steps_locked_pool:
  "(cl_step T me (Some p))\<^sup>*\<^sup>* cl cl' \<Longrightarrow>
     pool_connections cl' p = pool_connections cl p
     \<and> cl_max_connections_per_endpoint cl' = cl_max_connections_per_endpoint cl"
  by (induction rule: rtranclp_induct) (auto dest: cl_step_locked_pool cl_step_config)

lemma other_fits:
  assumes "ce_other E lock (cl, w) = (cl', w')" and "fits R A D limit cl"
  shows "fits R A D limit cl'"
  using steps_fit [OF other_steps [of lock cl w] assms(2)] assms(1) by simp

lemma other_keeps_room:
  assumes "ce_other E (Some p) (cl, w) = (cl', w')" and "has_room p cl"
  shows "has_room p cl'"
  using steps_locked_pool [OF other_steps [of "Some p" cl w]] assms by (simp add: has_room_def)

text \<open>The own Session enters a connection, and leaves it.\<close>

lemma push_fits:
  assumes "push_connection fin p e me sender cl = (ref, cl')" and "fits {} {} {} limit cl" and "has_room p cl"
  shows "fits {ref} {} {} limit cl'"
  using assms(2,3) inv_push [OF assms(1)] bound_push [OF assms(1), of "{}" me]
    half_way_push [OF assms(1)] push_connection_effect(5) [OF assms(1)]
  by (simp add: fits_def)

lemma insert_fits:
  assumes "fits {} {} {} limit cl" and "hm_get (cl_connections cl) ref \<noteq> None"
  shows "fits {ref} {ref} {} limit (update_connection ref (tc_insert me) cl)"
  using assms insert_own [of me cl ref]
  by (auto simp: fits_def update_connection_frame intro: inv_update_connection)

lemma count_bind_fits:
  "fits R {ref} {} limit cl \<Longrightarrow> fits R {} {} limit (update_connection ref (tc_count_bind me) cl)"
  using count_bind_own [of R me cl ref]
  by (auto simp: fits_def update_connection_frame intro: inv_update_connection)

lemma remove_fits:
  "fits {ref} {} {} limit cl \<Longrightarrow> fits {} {} {ref} limit (update_connection ref (tc_remove me) cl)"
  using remove_own [of ref me cl]
  by (auto simp: fits_def update_connection_frame intro: inv_update_connection)

lemma count_unbind_fits:
  "fits R {} {ref} limit cl \<Longrightarrow> fits R {} {} limit (update_connection ref (tc_count_unbind me) cl)"
  using count_unbind_own [of R me cl ref]
  by (auto simp: fits_def update_connection_frame intro: inv_update_connection)

lemma open_unbind_fits:
  assumes "open_unbind E ref me (cl, w) = (cl', w')" and "fits {ref} {} {} limit cl"
  shows "fits {} {} {} limit cl'"
  using assms(1) other_fits [OF _ remove_fits [OF assms(2)]]
  by (auto simp: open_unbind_def split: prod.splits intro: count_unbind_fits)

lemma pool_fits:
  "fits R A D limit cl \<Longrightarrow> fits R A D limit (snd (pool e cl))"
  "fits R A D limit cl \<Longrightarrow> fits R A D limit (retain_open p cl)"
  by (simp_all add: fits_def)

end

sublocale client_rely \<subseteq> fit: target_search E "\<lambda>cl w. fits R {} {} limit cl" for R limit
  by unfold_locales (auto dest: other_fits)

section \<open>The pieces of a round\<close>

context client_rely
begin

lemma reuse_fits:
  assumes "reuse_connection p me cl = (Ok ref, cl1)" and "ce_other E (Some p) (cl1, w) = (cl2, w')"
    and "fits {} {} {} limit cl"
  shows "fits {ref} {} {} limit (update_connection ref (tc_count_bind me) cl2)"
proof -
  have "ref \<in> set (pool_connections cl p)" and cl1: "cl1 = update_connection ref (tc_insert me) cl"
    using assms(1) by (auto elim: reuse_cases)
  then have "hm_get (cl_connections cl) ref \<noteq> None" using assms(3) by (auto simp: fits_def client_inv_def)
  then have "fits {ref} {ref} {} limit cl1" using insert_fits [OF assms(3)] cl1 by simp
  from count_bind_fits [OF other_fits [OF assms(2) this]] show ?thesis .
qed

lemma acquire_fits:
  assumes "acquire_connection E endpoint me deadline (cl, w) = (x, cl', w')" and "fits {} {} {} limit cl"
  shows "fits (case x of Err _ \<Rightarrow> {} | Ok ref \<Rightarrow> {ref}) {} {} limit cl'"
proof -
  obtain p cl0 where p: "pool endpoint cl = (p, cl0)" by (meson surj_pair)
  obtain l w1 where l: "ce_lock E (deadline - ce_now E w) p w = (l, w1)" by (meson surj_pair)
  obtain cl1 w2 where o: "ce_other E None (cl0, w1) = (cl1, w2)" by (meson surj_pair)
  let ?cl2 = "retain_open p cl1"
  have f0: "fits {} {} {} limit cl0" using pool_fits(1) [OF assms(2), of endpoint] p by simp
  have f1: "fits {} {} {} limit cl1" using other_fits [OF o f0] .
  have f2: "fits {} {} {} limit ?cl2" using pool_fits(2) [OF f1] .
  show ?thesis
  proof (cases "l = Elapsed")
    case True
    then show ?thesis using assms(1) p l o f1 by (auto simp: acquire_connection_def)
  next
    case False
    then obtain u where l': "l = Done u" by (cases l) auto
    show ?thesis
    proof (cases "has_room p ?cl2")
      case True
      obtain y w3 where c: "ce_connect E (deadline - ce_now E w2) endpoint w2 = (y, w3)" by (meson surj_pair)
      obtain cl3 w4 where o3: "ce_other E (Some p) (?cl2, w3) = (cl3, w4)" by (meson surj_pair)
      have f3: "fits {} {} {} limit cl3" and room: "has_room p cl3"
        using other_fits [OF o3 f2] other_keeps_room [OF o3 True] by simp_all
      show ?thesis
        using assms(1) p l l' o True c o3 f3 push_fits [OF _ f3 room]
        by (auto simp: acquire_connection_def Let_def split: timed.splits sum.splits prod.splits)
    next
      case False
      then show ?thesis
        using assms(1) p l l' o f2 reuse_fits [OF _ _ f2]
        by (auto simp: acquire_connection_def Let_def split: prod.splits sum.splits elim: reuse_cases)
    qed
  qed
qed

lemma send_session_open_fits:
  assumes "send_session_open E address me ref (cl, w) = (x, cl', w')" and "fits R {} {} limit cl"
  shows "fits R {} {} limit cl'"
proof -
  let ?cid = "case hm_get (cl_connections cl) ref of None \<Rightarrow> 0 | Some c \<Rightarrow> tc_id c"
  let ?cl1 = "cl\<lparr>cl_next_oneshot := Suc (cl_next_oneshot cl),
      cl_pending_opens := hm_insert me \<lparr>po_connection_id = ?cid, po_complete = cl_next_oneshot cl\<rparr>
        (cl_pending_opens cl)\<rparr>"
  have f1: "fits R {} {} limit ?cl1" using assms(2) by (rule fits_frameI) simp
  show ?thesis
    using assms(1) f1
    by (auto simp: send_session_open_def Let_def await_ack_def split: prod.splits sum.splits option.splits
        dest: other_fits)
qed

definition round_fits ::
  "actor_address \<Rightarrow> channel_ref \<Rightarrow> usize \<Rightarrow> (open_error + session) \<Rightarrow> ('p, 'c) client \<Rightarrow> bool" where
  "round_fits address ch limit result cl =
     (case result of
        Err _ \<Rightarrow> fits {} {} {} limit cl
      | Ok s \<Rightarrow> fits {ss_connection s} {} {} limit cl
          \<and> ss_address s = address \<and> ss_session_id s = me \<and> ss_receiver s = ch)"

lemma open_attempt_fits:
  assumes "open_attempt E address me ch t ref os (cl, w) = (x, cl', w')" and "fits {ref} {} {} limit cl"
  shows "case x of Inl result \<Rightarrow> round_fits address ch limit result cl' | Inr _ \<Rightarrow> fits {} {} {} limit cl'"
proof (cases "unat (cl_max_open_attempts cl) \<le> os_attempts os")
  case True
  then show ?thesis
    using assms by (auto simp: open_attempt_def round_fits_def split: prod.splits dest: open_unbind_fits)
next
  case False
  obtain sent outcome cl1 w1 where s: "send_session_open E address me ref (cl, w) = ((sent, outcome), cl1, w1)"
    by (metis prod.collapse)
  have f1: "fits {ref} {} {} limit cl1" using send_session_open_fits [OF s assms(2)] .
  show ?thesis
    using assms(1) False s f1 open_unbind_fits [OF _ f1]
    by (auto simp: open_attempt_def round_fits_def Let_def split: sum.splits prod.splits)
qed

lemma open_round_fits:
  assumes "open_round E address me ch deadline os (cl, w) = Some (x, cl', w')" and "fits {} {} {} limit cl"
  shows "case x of Inl result \<Rightarrow> round_fits address ch limit result cl' | Inr _ \<Rightarrow> fits {} {} {} limit cl'"
proof -
  obtain y cl1 w1 where t: "open_target E address deadline os (cl, w) = Some (y, cl1, w1)"
    using assms(1) by (auto simp: open_round_def split: option.splits)
  have f1: "fits {} {} {} limit cl1" using fit.open_target_keeps [OF t assms(2)] .
  show ?thesis
  proof (cases y)
    case (Inl e)
    then show ?thesis using assms(1) t f1 by (auto simp: open_round_def round_fits_def)
  next
    case (Inr tg)
    obtain z cl2 w2 where a: "acquire_connection E (ot_endpoint tg) me deadline (cl1, w1) = (z, cl2, w2)"
      by (metis prod_cases3)
    note f2 = acquire_fits [OF a f1]
    show ?thesis
    proof (cases z)
      case Inl
      then show ?thesis
        using assms(1) t \<open>y = Inr tg\<close> a f2 by (auto simp: open_round_def intro: fits_frameI)
    next
      case (Inr ref)
      then have "open_attempt E address me ch tg ref os (cl2, w2) = (x, cl', w')"
        using assms(1) t \<open>y = Inr tg\<close> a by (simp add: open_round_def)
      then show ?thesis by (rule open_attempt_fits) (use f2 Inr in simp)
    qed
  qed
qed

lemma open_loop_fits:
  assumes "open_loop fuel E address me ch deadline os (cl, w) = Some (result, cl', w')" and "fits {} {} {} limit cl"
  shows "round_fits address ch limit result cl'"
  using assms
proof (induction fuel arbitrary: os cl w)
  case (Suc n)
  obtain x cl1 w1 where r: "open_round E address me ch deadline os (cl, w) = Some (x, cl1, w1)"
    using Suc.prems(1) by (auto split: option.splits)
  note f1 = open_round_fits [OF r Suc.prems(2)]
  show ?case using Suc.prems(1) Suc.IH r f1 by (cases x) auto
qed simp

lemma client_open_fits:
  assumes "client_open fuel T E address me (cl, w) = Some (result, cl', w')" and "fits {} {} {} limit cl"
  shows "case result of
      Err _ \<Rightarrow> fits {} {} {} limit cl' \<and> (cl_status cl = CLIENT_RUNNING \<longrightarrow>
        hm_get (cl_receivers cl') me = None \<and> hm_get (cl_pending_opens cl') me = None)
    | Ok s \<Rightarrow> fits {ss_connection s} {} {} limit cl' \<and> ss_address s = address \<and> ss_session_id s = me"
proof (cases "cl_status cl = CLIENT_RUNNING")
  case False
  then show ?thesis using assms by (auto simp: client_open_def)
next
  case True
  let ?ch = "fresh_ref (cl_channels cl)"
  let ?cl1 = "register_local me ?ch
      (cl\<lparr>cl_channels := hm_insert ?ch (tk_channel T SESSION_RECEIVER_CAPACITY) (cl_channels cl)\<rparr>)"
  have f1: "fits {} {} {} limit ?cl1" using assms(2) by (rule fits_frameI) simp
  obtain r cl2 w2 where l: "open_loop fuel E address me ?ch (ce_now E w + cl_open_timeout cl) open_state_new
      (?cl1, w) = Some (r, cl2, w2)"
    using assms(1) True by (auto simp: client_open_def Let_def split: option.splits)
  note f2 = open_loop_fits [OF l f1]
  show ?thesis
  proof (cases r)
    case (Inl e)
    then have "fits {} {} {} limit cl'"
      using assms(1) True l f2
      by (auto simp: client_open_def Let_def round_fits_def intro: fits_frameI)
    then show ?thesis
      using assms(1) True l Inl by (auto simp: client_open_def Let_def unregister_local_def)
  next
    case (Inr s)
    then show ?thesis
      using assms(1) True l f2 by (auto simp: client_open_def Let_def round_fits_def)
  qed
qed

end

end
