(* ===== verification/Client_Attempts.thy ===== *)
theory Client_Attempts
  imports Client_Open_Safety
begin

text \<open>
  How often an open asks.  The locale \<open>session_open_meter\<close> adds to the world a count of the
  \<open>SessionOpen\<close> messages for one Session that the wire has accepted: only a successful send of
  such an envelope moves it.  \<open>open\<close> never sends more than \<open>max_open_attempts\<close> of them, and
  answers \<open>AttemptsExhausted\<close> only when it has sent exactly that many.
\<close>

definition is_open_of :: "session_id \<Rightarrow> envelope \<Rightarrow> bool" where
  "is_open_of me env \<longleftrightarrow> env_kind env = Some Kind_SessionOpen \<and> env_session_id env = SessionId_as_bytes me"

lemma is_open_of_simps [simp]:
  "is_open_of me (envelope_session_open address me)"
  "\<not> is_open_of me (envelope_session_close address s)"
  by (simp_all add: is_open_of_def envelope_session_open_def envelope_session_close_def)

locale session_open_meter =
  fixes E :: "('p, 'c, 'w) client_env"
    and me :: session_id
    and opens :: "'w \<Rightarrow> nat"
  assumes owner_opens: "cs_read_actor_owner (ce_store E) d address w = (x, w') \<Longrightarrow> opens w' = opens w"
    and node_opens: "cs_read_node (ce_store E) d node w = (y, w') \<Longrightarrow> opens w' = opens w"
    and list_opens: "cs_list_nodes (ce_store E) d w = (z, w') \<Longrightarrow> opens w' = opens w"
    and connect_opens: "ce_connect E d endpoint w = (c, w') \<Longrightarrow> opens w' = opens w"
    and lock_opens: "ce_lock E d p w = (l, w') \<Longrightarrow> opens w' = opens w"
    and other_opens: "ce_other E lock (cl, w) = (cl', w') \<Longrightarrow>
      opens w' = opens w \<and> cl_max_open_attempts cl' = cl_max_open_attempts cl"
    and tx_opens: "ce_tx E sender env w = (r, w') \<Longrightarrow>
      opens w' = opens w + (if is_open_of me env \<and> r = Ok () then 1 else 0)"
begin

definition meter :: "nat \<Rightarrow> usize \<Rightarrow> ('p, 'c) client \<Rightarrow> 'w \<Rightarrow> bool" where
  "meter n limit cl w \<longleftrightarrow> opens w = n \<and> cl_max_open_attempts cl = limit"

lemma meter_other: "ce_other E lock (cl, w) = (cl', w') \<Longrightarrow> meter n limit cl w \<Longrightarrow> meter n limit cl' w'"
  using other_opens by (simp add: meter_def)

lemma meter_updates [simp]:
  "meter n limit (cl\<lparr>cl_placement := p\<rparr>) w \<longleftrightarrow> meter n limit cl w"
  "meter n limit (cl\<lparr>cl_placement_cache := cache\<rparr>) w \<longleftrightarrow> meter n limit cl w"
  "meter n limit (cl\<lparr>cl_pending_opens := po\<rparr>) w \<longleftrightarrow> meter n limit cl w"
  "meter n limit (cl\<lparr>cl_next_oneshot := k\<rparr>) w \<longleftrightarrow> meter n limit cl w"
  "meter n limit (snd (pool e cl)) w \<longleftrightarrow> meter n limit cl w"
  "meter n limit (retain_open q cl) w \<longleftrightarrow> meter n limit cl w"
  "meter n limit (update_connection ref f cl) w \<longleftrightarrow> meter n limit cl w"
  "meter n limit (rollback_placement E' t cl) w \<longleftrightarrow> meter n limit cl w"
  by (simp_all add: meter_def update_connection_frame rollback_placement_def placement_failed_def)

end

sublocale session_open_meter \<subseteq> metered: round_search E "meter n limit" for n limit
  by unfold_locales
    (auto simp: meter_def dest: other_opens owner_opens node_opens list_opens lock_opens connect_opens)

context session_open_meter
begin

lemma send_meter:
  assumes "connection_send (ce_tx E) ref env cl w = (r, w')"
  shows "opens w' = opens w + (if is_open_of me env \<and> r = Ok () then 1 else 0)"
  using assms
  by (auto simp: connection_send_def tc_try_send_def split: option.splits if_splits prod.splits sum.splits
      dest: tx_opens)

lemma send_session_open_meter:
  assumes "send_session_open E address me ref (cl, w) = ((sent, r), cl', w')" and "meter n limit cl w"
  shows "meter (n + (if sent then 1 else 0)) limit cl' w'"
proof -
  let ?cid = "case hm_get (cl_connections cl) ref of None \<Rightarrow> 0 | Some c \<Rightarrow> tc_id c"
  let ?cl1 = "cl\<lparr>cl_next_oneshot := Suc (cl_next_oneshot cl),
      cl_pending_opens := hm_insert me \<lparr>po_connection_id = ?cid, po_complete = cl_next_oneshot cl\<rparr>
        (cl_pending_opens cl)\<rparr>"
  obtain x w1 where s: "connection_send (ce_tx E) ref (envelope_session_open address me) ?cl1 w = (x, w1)"
    by (meson surj_pair)
  have m: "meter (n + (if x = Ok () then 1 else 0)) limit ?cl1 w1"
    using send_meter [OF s] assms(2) by (simp add: meter_def)
  obtain cl2 w2 where o: "ce_other E None (?cl1, w1) = (cl2, w2)" by (meson surj_pair)
  note m2 = meter_other [OF o m]
  show ?thesis
    using assms(1) s m m2 o
    by (auto simp: send_session_open_def Let_def await_ack_def split: sum.splits option.splits)
qed

text \<open>The accounting of a round: what was sent plus what the round started with is the new count.\<close>

definition accounted :: "nat \<Rightarrow> usize \<Rightarrow> open_state \<Rightarrow> 'w \<Rightarrow> bool" where
  "accounted n0 limit os w \<longleftrightarrow> opens w = n0 + os_attempts os \<and> os_attempts os \<le> unat limit"

definition concluded :: "nat \<Rightarrow> usize \<Rightarrow> open_error + session \<Rightarrow> 'w \<Rightarrow> bool" where
  "concluded n0 limit result w \<longleftrightarrow> opens w \<le> n0 + unat limit
     \<and> (result = Err AttemptsExhausted \<longrightarrow> opens w = n0 + unat limit)"

lemma concluded_plain:
  "opens w \<le> n0 + unat limit \<Longrightarrow> result \<noteq> Err AttemptsExhausted \<Longrightarrow> concluded n0 limit result w"
  by (simp add: concluded_def)

lemma OpenError_not_exhausted [simp]:
  "OpenError_from e \<noteq> AttemptsExhausted" "AttemptsExhausted \<noteq> OpenError_from e"
  by (cases e; simp)+

lemma after_failure_meter:
  "case after_failure m t e os of
     Err x \<Rightarrow> x = AttemptsExhausted \<longrightarrow> m \<le> os_attempts os
   | Ok os' \<Rightarrow> os_attempts os' = os_attempts os"
  by (cases e) (auto simp: after_failure_def Let_def exclude_target_def split: sum.splits)

lemma open_attempt_meter:
  assumes "open_attempt E address me ch t ref os (cl, w) = (x, cl', w')"
    and "meter (n0 + os_attempts os) limit cl w" and "os_attempts os \<le> unat limit"
  shows "case x of Inl result \<Rightarrow> concluded n0 limit result w'
    | Inr os' \<Rightarrow> accounted n0 limit os' w' \<and> cl_max_open_attempts cl' = limit"
proof (cases "unat limit \<le> os_attempts os")
  case True
  obtain cl1 w1 where u: "open_unbind E ref me (cl, w) = (cl1, w1)" by (meson surj_pair)
  show ?thesis
    using assms True u metered.open_unbind_keeps [OF u assms(2)]
    by (auto simp: open_attempt_def Let_def concluded_def meter_def)
next
  case False
  obtain sent r cl1 w1 where s: "send_session_open E address me ref (cl, w) = ((sent, r), cl1, w1)"
    by (metis prod.collapse)
  let ?os1 = "if sent then os\<lparr>os_attempts := Suc (os_attempts os)\<rparr> else os"
  have m1: "meter (n0 + os_attempts ?os1) limit cl1 w1" and le: "os_attempts ?os1 \<le> unat limit"
    using send_session_open_meter [OF s assms(2)] False by auto
  obtain y w2 where c: "connection_send (ce_tx E) ref (envelope_session_close address me) cl1 w1 = (y, w2)"
    by (meson surj_pair)
  obtain cl2 w3 where u: "open_unbind E ref me (cl1, w2) = (cl2, w3)" by (meson surj_pair)
  have "meter (n0 + os_attempts ?os1) limit cl1 w2" using send_meter [OF c] m1 by (simp add: meter_def)
  then have m3: "meter (n0 + os_attempts ?os1) limit cl2 w3" using metered.open_unbind_keeps [OF u] by simp
  have lim: "cl_max_open_attempts cl = limit" using assms(2) by (simp add: meter_def)
  show ?thesis
  proof (cases r)
    case (Inr v)
    then show ?thesis
      using assms(1) False s m1 le lim
      by (auto simp: open_attempt_def Let_def concluded_def meter_def)
  next
    case (Inl e)
    then have x: "x = (case after_failure (unat limit) t e ?os1 of Err e \<Rightarrow> Inl (Err e) | Ok os2 \<Rightarrow> Inr os2)"
      and w': "w' = w3" and "cl_max_open_attempts cl' = limit"
      using assms(1) False s c u lim m3
      by (auto simp: open_attempt_def Let_def meter_def rollback_placement_def placement_failed_def split: sum.splits)
    then show ?thesis
      using after_failure_meter [where m = "unat limit" and t = t and e = e and os = ?os1] m3 le
      by (cases "after_failure (unat limit) t e ?os1") (auto simp: concluded_def accounted_def meter_def)
  qed
qed

lemma open_round_meter:
  assumes "open_round E address me ch deadline os (cl, w) = Some (x, cl', w')"
    and "accounted n0 limit os w" and "cl_max_open_attempts cl = limit"
  shows "case x of Inl result \<Rightarrow> concluded n0 limit result w'
    | Inr os' \<Rightarrow> accounted n0 limit os' w' \<and> cl_max_open_attempts cl' = limit"
proof -
  have m: "meter (n0 + os_attempts os) limit cl w" and le: "os_attempts os \<le> unat limit"
    using assms(2,3) by (simp_all add: accounted_def meter_def)
  obtain y cl1 w1 where t: "open_target E address deadline os (cl, w) = Some (y, cl1, w1)"
    using assms(1) by (auto simp: open_round_def split: option.splits)
  have m1: "meter (n0 + os_attempts os) limit cl1 w1" using metered.open_target_keeps [OF t m] .
  show ?thesis
  proof (cases y)
    case (Inl e)
    have "e \<noteq> AttemptsExhausted"
      using t Inl
      by (auto simp: open_target_def split: sum.splits owner_resolution.splits if_splits option.splits prod.splits)
    then show ?thesis
      using assms(1) t Inl m1 le by (auto simp: open_round_def meter_def intro!: concluded_plain)
  next
    case (Inr tg)
    obtain z cl2 w2 where a: "acquire_connection E (ot_endpoint tg) me deadline (cl1, w1) = (z, cl2, w2)"
      by (metis prod_cases3)
    note m2 = metered.acquire_keeps [OF a m1]
    show ?thesis
    proof (cases z)
      case Inl
      then have "x = Inr (exclude_target tg os)" "w' = w2" "cl' = rollback_placement E tg cl2"
        using assms(1) t \<open>y = Inr tg\<close> a by (auto simp: open_round_def)
      moreover have "meter (n0 + os_attempts os) limit (rollback_placement E tg cl2) w2" using m2 by simp
      ultimately show ?thesis
        using le by (auto simp: accounted_def meter_def exclude_target_def)
    next
      case (Inr ref)
      then have "open_attempt E address me ch tg ref os (cl2, w2) = (x, cl', w')"
        using assms(1) t \<open>y = Inr tg\<close> a by (simp add: open_round_def)
      then show ?thesis using m2 le by (rule open_attempt_meter)
    qed
  qed
qed

lemma open_loop_meter:
  assumes "open_loop fuel E address me ch deadline os (cl, w) = Some (result, cl', w')"
    and "accounted n0 limit os w" and "cl_max_open_attempts cl = limit"
  shows "concluded n0 limit result w'"
  using assms
proof (induction fuel arbitrary: os cl w)
  case (Suc n)
  obtain x cl1 w1 where r: "open_round E address me ch deadline os (cl, w) = Some (x, cl1, w1)"
    using Suc.prems(1) by (auto split: option.splits)
  note m1 = open_round_meter [OF r Suc.prems(2,3)]
  show ?case using Suc.prems(1) Suc.IH r m1 by (cases x) auto
qed simp

lemma client_open_meter:
  assumes "client_open fuel T E address me (cl, w) = Some (result, cl', w')"
  shows "concluded (opens w) (cl_max_open_attempts cl) result w'"
proof (cases "cl_status cl = CLIENT_RUNNING")
  case False
  then show ?thesis using assms by (auto simp: client_open_def concluded_def)
next
  case True
  let ?ch = "fresh_ref (cl_channels cl)"
  let ?cl1 = "register_local me ?ch
      (cl\<lparr>cl_channels := hm_insert ?ch (tk_channel T SESSION_RECEIVER_CAPACITY) (cl_channels cl)\<rparr>)"
  obtain r cl2 w2 where l: "open_loop fuel E address me ?ch (ce_now E w + cl_open_timeout cl) open_state_new
      (?cl1, w) = Some (r, cl2, w2)"
    using assms(1) True by (auto simp: client_open_def Let_def split: option.splits)
  have "concluded (opens w) (cl_max_open_attempts cl) r w2"
    using open_loop_meter [OF l, of "opens w"]
    by (simp add: accounted_def open_state_new_def register_local_def)
  moreover have "result = r" "w' = w2"
    using assms True l by (auto simp: client_open_def Let_def split: sum.splits)
  ultimately show ?thesis by simp
qed

end

end
