(* ===== verification/Client_References.thy ===== *)
theory Client_References
  imports Client_Attempts
begin

text \<open>
  References of a Client: no two Sessions share an event channel, every registered Session has
  its channel, and the \<open>oneshot\<close> of an open is answered at most once.  With that, an envelope
  arriving on one connection cannot touch a Session that is not bound to it.
\<close>

definition refs_ok :: "('p, 'c) client \<Rightarrow> bool" where
  "refs_ok cl \<longleftrightarrow>
     (\<forall>s s' ch. hm_get (cl_receivers cl) s = Some ch \<and> hm_get (cl_receivers cl) s' = Some ch \<longrightarrow> s = s')
     \<and> (\<forall>s ch. hm_get (cl_receivers cl) s = Some ch \<longrightarrow> hm_get (cl_channels cl) ch \<noteq> None)
     \<and> (\<forall>s s' p p'. hm_get (cl_pending_opens cl) s = Some p \<and> hm_get (cl_pending_opens cl) s' = Some p'
          \<and> po_complete p = po_complete p' \<longrightarrow> s = s')
     \<and> (\<forall>s p. hm_get (cl_pending_opens cl) s = Some p \<longrightarrow>
          po_complete p < cl_next_oneshot cl \<and> po_complete p \<notin> fst ` set (cl_answers cl))
     \<and> (\<forall>x \<in> set (cl_answers cl). fst x < cl_next_oneshot cl)
     \<and> distinct (map fst (cl_answers cl))"

lemma refs_okD:
  assumes "refs_ok cl"
  shows "hm_get (cl_receivers cl) s = Some ch \<Longrightarrow> hm_get (cl_receivers cl) s' = Some ch \<Longrightarrow> s = s'"
    and "hm_get (cl_receivers cl) s = Some ch \<Longrightarrow> hm_get (cl_channels cl) ch \<noteq> None"
    and "hm_get (cl_pending_opens cl) s = Some p \<Longrightarrow> hm_get (cl_pending_opens cl) s' = Some p' \<Longrightarrow>
      po_complete p = po_complete p' \<Longrightarrow> s = s'"
    and "hm_get (cl_pending_opens cl) s = Some p \<Longrightarrow> po_complete p \<notin> fst ` set (cl_answers cl)"
  using assms unfolding refs_ok_def by blast+

text \<open>The part of a Client these facts depend on.\<close>

definition ref_frame where
  "ref_frame cl = (cl_receivers cl, cl_channels cl, cl_pending_opens cl, cl_next_oneshot cl, cl_answers cl)"

lemma refs_frameI: "refs_ok cl \<Longrightarrow> ref_frame cl' = ref_frame cl \<Longrightarrow> refs_ok cl'"
  by (simp add: refs_ok_def ref_frame_def)

lemma ref_frame_ops [simp]:
  "ref_frame (update_connection ref f cl) = ref_frame cl"
  "ref_frame (set_pool p refs cl) = ref_frame cl"
  "ref_frame (snd (pool e cl)) = ref_frame cl"
  "ref_frame (retain_open p cl) = ref_frame cl"
  "ref_frame (receive_end_unpool p ref cl) = ref_frame cl"
  "ref_frame (snd (push_connection finished p e s sender cl)) = ref_frame cl"
  "ref_frame (snd (reuse_connection p s cl)) = ref_frame cl"
  "ref_frame (cl\<lparr>cl_inbound_tasks := ts\<rparr>) = ref_frame cl"
  "ref_frame (cl\<lparr>cl_placement := pl\<rparr>) = ref_frame cl"
  "ref_frame (cl\<lparr>cl_placement_cache := cache\<rparr>) = ref_frame cl"
  "ref_frame (cl\<lparr>cl_status := status\<rparr>) = ref_frame cl"
  "ref_frame (cl\<lparr>cl_pools := pools\<rparr>) = ref_frame cl"
  by (auto simp: ref_frame_def update_connection_def set_pool_def pool_def retain_open_def receive_end_unpool_def
      push_connection_def reuse_connection_def client_register_inbound_task_def
      client_retain_inbound_tasks_def Let_def split: option.splits list.splits)

section \<open>Operations\<close>

lemma refs_channels:
  assumes "refs_ok cl" and "\<And>ch. hm_get (cl_channels cl) ch \<noteq> None \<Longrightarrow> hm_get chs ch \<noteq> None"
  shows "refs_ok (cl\<lparr>cl_channels := chs\<rparr>)"
  using assms by (simp add: refs_ok_def)

lemma refs_offer [simp]: "refs_ok cl \<Longrightarrow> refs_ok (offer T ch item cl)"
  by (auto simp: offer_def split: option.splits intro!: refs_channels)

lemma refs_unregister [simp]: "refs_ok cl \<Longrightarrow> refs_ok (unregister_local s cl)"
  by (auto simp: refs_ok_def unregister_local_def split: if_splits)

lemma refs_terminate [simp]: "refs_ok cl \<Longrightarrow> refs_ok (client_terminate T s e cl)"
  by (simp add: client_terminate_def split: option.splits)

lemma refs_unpend [simp]: "refs_ok cl \<Longrightarrow> refs_ok (cl\<lparr>cl_pending_opens := hm_remove s (cl_pending_opens cl)\<rparr>)"
  by (auto simp: refs_ok_def split: if_splits)

lemma refs_register:
  assumes "refs_ok cl" and "hm_get (cl_channels cl) ch = None"
  shows "refs_ok (register_local s ch (cl\<lparr>cl_channels := hm_insert ch c (cl_channels cl)\<rparr>))"
proof -
  have "hm_get (cl_receivers cl) s' \<noteq> Some ch" for s'
    using assms refs_okD(2) by fastforce
  then show ?thesis using assms(1) by (auto simp: refs_ok_def register_local_def split: if_splits)
qed

lemma refs_pend:
  assumes "refs_ok cl"
  shows "refs_ok (cl\<lparr>cl_next_oneshot := Suc (cl_next_oneshot cl),
      cl_pending_opens := hm_insert s \<lparr>po_connection_id = cid, po_complete = cl_next_oneshot cl\<rparr>
        (cl_pending_opens cl)\<rparr>)"
proof -
  have new: "cl_next_oneshot cl \<notin> fst ` set (cl_answers cl)"
    and old: "\<And>s p. hm_get (cl_pending_opens cl) s = Some p \<Longrightarrow> po_complete p < cl_next_oneshot cl"
    using assms by (auto simp: refs_ok_def)
  have ne: "hm_get (cl_pending_opens cl) s' = Some p \<Longrightarrow> cl_next_oneshot cl = po_complete p \<Longrightarrow> False" for s' p
    using old [of s' p] by simp
  show ?thesis
    using assms new unfolding refs_ok_def
    by (auto simp: less_SucI split: if_splits dest: ne ne [OF _ sym])
qed

lemma take_pending_cases:
  assumes "take_pending s cid cl = (x, cl')"
  obtains "x = None" "cl' = cl"
  | p where "x = Some p" "hm_get (cl_pending_opens cl) s = Some p" "po_connection_id p = cid"
      "cl' = cl\<lparr>cl_pending_opens := hm_remove s (cl_pending_opens cl)\<rparr>"
proof (cases "hm_get (cl_pending_opens cl) s")
  case None
  then show thesis using assms that(1) by (simp add: take_pending_def)
next
  case (Some p)
  show thesis
  proof (cases "po_connection_id p = cid")
    case True
    then show thesis by (intro that(2) [of p]) (use assms Some in \<open>simp_all add: take_pending_def\<close>)
  next
    case False
    then show thesis by (intro that(1)) (use assms Some in \<open>simp_all add: take_pending_def\<close>)
  qed
qed

lemma refs_complete:
  assumes "refs_ok cl" and "hm_get (cl_pending_opens cl) s = Some p"
  shows "refs_ok (complete_open p r (cl\<lparr>cl_pending_opens := hm_remove s (cl_pending_opens cl)\<rparr>))"
proof -
  have "po_complete p' \<noteq> po_complete p" if "hm_get (cl_pending_opens cl) s' = Some p'" "s' \<noteq> s" for s' p'
    using assms that by (auto simp: refs_ok_def)
  then show ?thesis
    using assms by (auto simp: refs_ok_def complete_open_def split: if_splits)
qed

lemma refs_take_complete:
  assumes "take_pending s cid cl = (Some p, cl')" and "refs_ok cl"
  shows "refs_ok (complete_open p r cl')"
  using assms by (auto elim!: take_pending_cases intro: refs_complete)

lemma refs_envelope [simp]:
  assumes "refs_ok cl"
  shows "refs_ok (handle_envelope T env ref cl)"
  using assms
  by (auto simp: handle_envelope_def deliver_item_def split: option.splits kind.splits prod.splits
      intro: refs_take_complete elim: take_pending_cases)

lemma refs_end_session [simp]:
  assumes "refs_ok cl"
  shows "refs_ok (receive_end_session T ref s cl)"
  using assms
  by (auto simp: receive_end_session_def split: option.splits prod.splits
      intro: refs_take_complete elim: take_pending_cases)

lemma refs_clear_pending [simp]: "refs_ok cl \<Longrightarrow> refs_ok (cl\<lparr>cl_pending_opens := hm_empty\<rparr>)"
  by (simp add: refs_ok_def)

lemma refs_offers: "refs_ok cl \<Longrightarrow> refs_ok (fold (\<lambda>ch. offer T ch item) chs cl)"
  by (induction chs arbitrary: cl) simp_all

lemma refs_terminate_all [simp]: "refs_ok cl \<Longrightarrow> refs_ok (client_terminate_all T e cl)"
  unfolding client_terminate_all_def by (rule refs_offers) (simp add: refs_ok_def)

lemma refs_recv [simp]: "refs_ok cl \<Longrightarrow> refs_ok (snd (session_recv T s cl))"
  by (auto simp: session_recv_def split: option.splits prod.splits intro!: refs_channels)

lemma cl_step_refs: "cl_step T me lock cl cl' \<Longrightarrow> refs_ok cl \<Longrightarrow> refs_ok cl'"
proof (induction rule: cl_step.induct)
  case (end_take cl ref c)
  then show ?case by (auto simp: receive_end_take_def elim: refs_frameI)
qed ((simp add: refs_register refs_pend; fail)
    | (erule refs_frameI, simp add: receive_end_close_def receive_end_reset_def; fail))+

section \<open>Isolation\<close>

lemma offer_other_channel: "ch' \<noteq> ch \<Longrightarrow> hm_get (cl_channels (offer T ch item cl)) ch' = hm_get (cl_channels cl) ch'"
  by (simp add: offer_def split: option.splits)

lemma offer_keeps [simp]:
  "cl_receivers (offer T ch item cl) = cl_receivers cl"
  "cl_pending_opens (offer T ch item cl) = cl_pending_opens cl"
  "cl_answers (offer T ch item cl) = cl_answers cl"
  by (simp_all add: offer_def split: option.splits)

lemma deliver_keeps [simp]:
  "cl_receivers (deliver_item T s item c cl) = cl_receivers cl"
  "cl_pending_opens (deliver_item T s item c cl) = cl_pending_opens cl"
  "cl_answers (deliver_item T s item c cl) = cl_answers cl"
  by (simp_all add: deliver_item_def split: option.splits)

lemma deliver_other_session:
  assumes "refs_ok cl" and "hm_get (cl_receivers cl) s = Some ch" and "s \<notin> set (tc_sessions c)"
  shows "hm_get (cl_channels (deliver_item T s' item c cl)) ch = hm_get (cl_channels cl) ch"
proof (cases "s' \<in> set (tc_sessions c) \<and> hm_get (cl_receivers cl) s' \<noteq> None")
  case True
  then obtain ch' where ch': "hm_get (cl_receivers cl) s' = Some ch'" and "s' \<noteq> s" using assms(3) by auto
  then have "ch' \<noteq> ch" using assms(1,2) by (auto simp: refs_ok_def)
  then show ?thesis using True ch' by (simp add: deliver_item_def offer_other_channel)
next
  case False
  then show ?thesis by (auto simp: deliver_item_def split: option.splits)
qed

lemma ack_other_open:
  assumes "refs_ok cl" and "hm_get (cl_pending_opens cl) s = Some p" and "po_connection_id p \<noteq> cid"
    and "take_pending s' cid cl = (Some p', cl')"
  shows "hm_get (cl_pending_opens (complete_open p' r cl')) s = Some p
     \<and> map_of (cl_answers (complete_open p' r cl')) (po_complete p) = None"
proof -
  have p': "hm_get (cl_pending_opens cl) s' = Some p'" "po_connection_id p' = cid"
    "cl' = cl\<lparr>cl_pending_opens := hm_remove s' (cl_pending_opens cl)\<rparr>"
    using assms(4) by (auto elim!: take_pending_cases)
  then have s: "s' \<noteq> s" "po_complete p' \<noteq> po_complete p"
    using assms(2,3) refs_okD(3) [OF assms(1) assms(2) p'(1)] by auto
  have "po_complete p \<notin> fst ` set (cl_answers cl)" using refs_okD(4) [OF assms(1,2)] .
  then have "map_of (cl_answers cl) (po_complete p) = None" by (simp add: map_of_eq_None_iff)
  then show ?thesis
    using assms(2) s p'(3) by (auto simp: complete_open_def map_add_def split: option.splits)
qed

end
