(* ===== verification/Client_Progress.thy ===== *)
theory Client_Progress
  imports Client_References
begin

text \<open>
  Where the retry loop of \<open>open\<close> goes and why it ends.  The locale \<open>listed_directory\<close> names the
  listings the node directory returns and says that the other tasks of the Client cache only
  those: a Placement goes to a node of such a listing that was fit to take an Actor.
  \<open>open_progress\<close> adds that only finitely many endpoints are ever listed and that the address
  changes hands finitely often: every round of the loop that does not end it excludes an
  endpoint, gives up an Owner or spends an attempt, so the loop ends.
\<close>

section \<open>Candidates come from the directory\<close>

abbreviation candidates_of :: "node_record list \<Rightarrow> placement_candidate list" where
  "candidates_of nodes \<equiv> map candidate_of (filter is_candidate nodes)"

definition cache_ok :: "(node_record list \<Rightarrow> bool) \<Rightarrow> ('p, 'c) client \<Rightarrow> bool" where
  "cache_ok listed cl \<longleftrightarrow>
     (case cl_placement_cache cl of
        None \<Rightarrow> True
      | Some (cs, _) \<Rightarrow> \<exists>nodes. listed nodes \<and> cs = candidates_of nodes)"

lemma cache_ok_updates [simp]:
  "cache_ok listed (cl\<lparr>cl_placement := p\<rparr>) \<longleftrightarrow> cache_ok listed cl"
  "listed nodes \<Longrightarrow> cache_ok listed (cl\<lparr>cl_placement_cache := Some (candidates_of nodes, t)\<rparr>)"
  by (auto simp: cache_ok_def)

text \<open>
  The listing a search for candidates works with: cached by some task less than
  \<open>PLACEMENT_CACHE_TTL\<close> before the search began, or returned to the search itself.
\<close>

definition listing_used ::
  "('p, 'c, 'w) client_env \<Rightarrow> instant \<Rightarrow> ('p, 'c) client \<times> 'w \<Rightarrow> node_record list \<Rightarrow> bool" where
  "listing_used E deadline st nodes =
     (case ce_other E None st of
        (cl1, w1) \<Rightarrow>
          (\<exists>t. cl_placement_cache cl1 = Some (candidates_of nodes, t)
               \<and> ce_now E (snd st) - t < PLACEMENT_CACHE_TTL)
          \<or> (\<exists>w2. cs_list_nodes (ce_store E) (deadline - ce_now E w1) w1 = (Done (Ok nodes), w2)))"

locale listed_directory =
  fixes E :: "('p, 'c, 'w) client_env"
    and listed :: "node_record list \<Rightarrow> bool"
  assumes list_listed: "cs_list_nodes (ce_store E) d w = (Done (Ok nodes), w') \<Longrightarrow> listed nodes"
    and other_cache: "ce_other E lock (cl, w) = (cl', w') \<Longrightarrow> cache_ok listed cl \<Longrightarrow> cache_ok listed cl'"
begin

lemma placement_candidates_listed:
  assumes "placement_candidates E deadline (cl, w) = (Ok cs, cl', w')" and "cache_ok listed cl"
  shows "\<exists>nodes. listed nodes \<and> cs = candidates_of nodes \<and> listing_used E deadline (cl, w) nodes"
proof -
  obtain cl1 w1 where o: "ce_other E None (cl, w) = (cl1, w1)" by (meson surj_pair)
  have c1: "cache_ok listed cl1" using other_cache [OF o assms(2)] .
  show ?thesis
  proof (cases "cached_candidates (ce_now E w) cl1")
    case (Some cs')
    then obtain t where "cl_placement_cache cl1 = Some (cs', t)" "ce_now E w - t < PLACEMENT_CACHE_TTL"
      by (auto simp: cached_candidates_def split: option.splits if_splits)
    then show ?thesis
      using assms(1) o Some c1 by (auto simp: placement_candidates_def cache_ok_def listing_used_def)
  next
    case None
    then obtain nodes cl2 w2 where t: "timeout_at E deadline (cs_list_nodes (ce_store E)) DirectoryUnavailable (cl1, w1)
        = (Ok nodes, cl2, w2)" and cs: "cs = candidates_of nodes"
      using assms(1) o by (auto simp: placement_candidates_def Let_def split: sum.splits prod.splits)
    from t obtain v where v: "cs_list_nodes (ce_store E) (deadline - ce_now E w1) w1 = (Done (Ok nodes), v)"
      by (auto simp: timeout_at_def split: prod.splits timed.splits sum.splits)
    then show ?thesis using list_listed [OF v] cs o by (auto simp: listing_used_def)
  qed
qed

lemma select_listed:
  assumes "select_placement_candidate E address excluded deadline (cl, w) = Some (Ok endpoint, cl', w')"
    and "cache_ok listed cl"
  shows "endpoint \<notin> set excluded \<and> (\<exists>nodes node. listed nodes \<and> listing_used E deadline (cl, w) nodes
     \<and> node \<in> set nodes \<and> is_candidate node \<and> nr_advertised_endpoint node = endpoint)"
proof -
  obtain cs cl1 w1 where p: "placement_candidates E deadline (cl, w) = (Ok cs, cl1, w1)"
    using assms(1) by (auto simp: select_placement_candidate_def split: sum.splits prod.splits)
  have "endpoint \<in> cand_endpoint ` set (filter (\<lambda>c. cand_endpoint c \<notin> set excluded) cs)"
    using assms(1) p
    by (auto simp: select_placement_candidate_def Let_def find_Some_iff
        split: if_splits option.splits prod.splits)
  moreover obtain nodes where n: "listed nodes" "cs = candidates_of nodes" "listing_used E deadline (cl, w) nodes"
    using placement_candidates_listed [OF p assms(2)] by blast
  ultimately obtain node where "node \<in> set nodes" "is_candidate node" "nr_advertised_endpoint node = endpoint"
    "endpoint \<notin> set excluded"
    by (auto simp: candidate_of_def)
  then show ?thesis using n by blast
qed

end

section \<open>Progress\<close>

text \<open>
  Between two worlds the address changed hands at most as often as the budget \<open>handovers\<close>
  went down.
\<close>

definition calm :: "('w \<Rightarrow> 'h) \<Rightarrow> ('w \<Rightarrow> nat) \<Rightarrow> 'w \<Rightarrow> 'w \<Rightarrow> bool" where
  "calm holder handovers w w' \<longleftrightarrow>
     handovers w' + (if holder w' = holder w then 0 else 1) \<le> handovers w"

lemma calm_refl [simp]: "calm holder handovers w w"
  by (simp add: calm_def)

lemma calm_trans: "calm holder handovers w w1 \<Longrightarrow> calm holder handovers w1 w2 \<Longrightarrow> calm holder handovers w w2"
  by (auto simp: calm_def split: if_splits)

locale open_progress = listed_directory E listed
  for E :: "('p, 'c, 'w) client_env" and listed :: "node_record list \<Rightarrow> bool" +
  fixes address :: actor_address
    and endpoints :: "string set"
    and holder :: "'w \<Rightarrow> (string \<times> node_session_id) option"
    and handovers :: "'w \<Rightarrow> nat"
  assumes endpoints_finite: "finite endpoints"
    and listed_endpoints: "listed nodes \<Longrightarrow> nr_advertised_endpoint ` set nodes \<subseteq> endpoints"
    and owner_read: "cs_read_actor_owner (ce_store E) d address w = (Done (Ok (Some v)), w') \<Longrightarrow>
      owner (vr_record v) = Some ow \<Longrightarrow> holder w' = Some (ao_node_id ow, ao_session_id ow)"
    and owner_calm: "cs_read_actor_owner (ce_store E) d a w = (x, w') \<Longrightarrow> calm holder handovers w w'"
    and node_calm: "cs_read_node (ce_store E) d node w = (y, w') \<Longrightarrow> calm holder handovers w w'"
    and list_calm: "cs_list_nodes (ce_store E) d w = (z, w') \<Longrightarrow> calm holder handovers w w'"
    and connect_calm: "ce_connect E d endpoint w = (c, w') \<Longrightarrow> calm holder handovers w w'"
    and lock_calm: "ce_lock E d p w = (l, w') \<Longrightarrow> calm holder handovers w w'"
    and tx_calm: "ce_tx E sender env w = (r, w') \<Longrightarrow> calm holder handovers w w'"
    and other_calm: "ce_other E lock (cl, w) = (cl', w') \<Longrightarrow>
      calm holder handovers w w' \<and> cl_max_open_attempts cl' = cl_max_open_attempts cl"
    and strategy_returns: "ce_candidates E now a cs pl \<noteq> None"
begin

definition since :: "'w \<Rightarrow> usize \<Rightarrow> ('p, 'c) client \<Rightarrow> 'w \<Rightarrow> bool" where
  "since w0 limit cl w \<longleftrightarrow>
     calm holder handovers w0 w \<and> cl_max_open_attempts cl = limit \<and> cache_ok listed cl"

lemma since_calm: "since w0 limit cl w \<Longrightarrow> calm holder handovers w w' \<Longrightarrow> since w0 limit cl w'"
  by (auto simp: since_def intro: calm_trans)

lemma since_other: "ce_other E lock (cl, w) = (cl', w') \<Longrightarrow> since w0 limit cl w \<Longrightarrow> since w0 limit cl' w'"
  using other_calm other_cache by (auto simp: since_def intro: calm_trans)

lemma since_frame:
  "since w0 limit cl w \<Longrightarrow> cl_max_open_attempts cl' = cl_max_open_attempts cl \<Longrightarrow>
   cl_placement_cache cl' = cl_placement_cache cl \<Longrightarrow> since w0 limit cl' w"
  by (simp add: since_def cache_ok_def)

lemma since_cached:
  "since w0 limit cl w \<Longrightarrow> listed nodes \<Longrightarrow>
   since w0 limit (cl\<lparr>cl_placement_cache := Some (candidates_of nodes, t)\<rparr>) w"
  by (simp add: since_def)

end

sublocale open_progress \<subseteq> kept: round_search E "since w0 limit" for w0 limit
  by unfold_locales
    (auto dest: since_other since_frame
      intro: since_calm owner_calm node_calm list_calm lock_calm connect_calm since_cached list_listed since_frame)

context open_progress
begin

lemma strategy_None: "ce_candidates E now a cs pl = None \<Longrightarrow> False"
  using strategy_returns by blast

lemma open_round_returns: "open_round E address s ch deadline os (cl, w) \<noteq> None"
proof -
  have "open_target E address deadline os (cl, w) \<noteq> None"
    by (auto simp: open_target_def select_placement_candidate_def Let_def
        split: sum.splits owner_resolution.splits option.splits prod.splits dest: strategy_None)
  then show ?thesis by (auto simp: open_round_def split: sum.splits prod.splits) (metis prod_cases3)
qed

text \<open>An Owner found alive held the address at some moment of the search.\<close>

lemma resolve_live_holder:
  assumes "resolve_owner E address deadline (cl, w) = (Ok (Live endpoint node_id sid), cl', w')"
  obtains wm where "calm holder handovers w wm" "holder wm = Some (node_id, sid)" "calm holder handovers wm w'"
proof -
  obtain r w1 where r: "cs_read_actor_owner (ce_store E) (deadline - ce_now E w) address w = (r, w1)"
    by (meson surj_pair)
  obtain cl1 w2 where o: "ce_other E None (cl, w1) = (cl1, w2)" by (meson surj_pair)
  have t: "timeout_at E deadline (\<lambda>d. cs_read_actor_owner (ce_store E) d address) OwnershipUnavailable (cl, w)
      = (case r of Done (Ok x) \<Rightarrow> Ok x | _ \<Rightarrow> Err OwnershipUnavailable, cl1, w2)"
    using r o by (simp add: timeout_at_def split: timed.splits sum.splits)
  obtain v ow where x: "r = Done (Ok (Some v))" "owner (vr_record v) = Some ow"
    using assms t by (auto simp: resolve_owner_def split: timed.splits sum.splits option.splits)
  obtain n w3 where n: "cs_read_node (ce_store E) (deadline - ce_now E w2) (ao_node_id ow) w2 = (n, w3)"
    by (meson surj_pair)
  obtain cl3 w4 where o3: "ce_other E None (cl1, w3) = (cl3, w4)" by (meson surj_pair)
  have t3: "timeout_at E deadline (\<lambda>d. cs_read_node (ce_store E) d (ao_node_id ow)) DirectoryUnavailable (cl1, w2)
      = (case n of Done (Ok x) \<Rightarrow> Ok x | _ \<Rightarrow> Err DirectoryUnavailable, cl3, w4)"
    using n o3 by (simp add: timeout_at_def split: timed.splits sum.splits)
  obtain node where l: "owner_is_live ow node = Ok (Live endpoint node_id sid)" and w': "w' = w4"
    using assms t x t3 by (auto simp: resolve_owner_def split: timed.splits sum.splits option.splits)
  have "calm holder handovers w1 w'"
    using calm_trans [OF calm_trans [OF _ node_calm [OF n]]] other_calm [OF o] other_calm [OF o3] w' by simp
  moreover have "holder w1 = Some (node_id, sid)"
    using owner_read [OF r [unfolded x(1)] x(2)] l by (auto simp: owner_is_live_def split: if_splits)
  ultimately show thesis using that owner_calm [OF r] by blast
qed

text \<open>What a target is good for: an endpoint not tried yet, or an Owner not given up yet.\<close>

definition promising :: "open_state \<Rightarrow> open_target \<Rightarrow> 'w \<Rightarrow> 'w \<Rightarrow> bool" where
  "promising os t w w' \<longleftrightarrow>
     (if ot_placement_attempt t then ot_endpoint t \<in> endpoints - set (os_excluded os)
      else \<exists>h wm. ot_live_owner t = Some h \<and> os_failed_live_owner os \<noteq> Some h
             \<and> calm holder handovers w wm \<and> holder wm = Some h \<and> calm holder handovers wm w')"

lemma promising_later:
  assumes "promising os t w w1" and "calm holder handovers w1 w2"
  shows "promising os t w w2"
  using assms calm_trans [OF _ assms(2)] unfolding promising_def by (metis (no_types, lifting))

lemma select_promising:
  assumes "select_placement_candidate E address excluded deadline (cl, w) = Some (Ok endpoint, cl', w')"
    and "since w0 limit cl w"
  shows "endpoint \<in> endpoints - set excluded"
proof -
  obtain nodes node where "listed nodes" "node \<in> set nodes" "nr_advertised_endpoint node = endpoint"
    and x: "endpoint \<notin> set excluded"
    using select_listed [OF assms(1)] assms(2) by (auto simp: since_def)
  then have "endpoint \<in> endpoints" using listed_endpoints [of nodes] by blast
  then show ?thesis using x by simp
qed

lemma open_target_promising:
  assumes "open_target E address deadline os (cl, w) = Some (Ok t, cl', w')" and "since w limit cl w"
  shows "promising os t w w'"
proof -
  obtain y cl1 w1 where r: "resolve_owner E address deadline (cl, w) = (y, cl1, w1)" by (metis prod_cases3)
  have s1: "since w limit cl1 w1" using kept.resolve_owner_keeps [OF r assms(2)] .
  show ?thesis
  proof (cases "\<exists>e n i. y = Ok (Live e n i)")
    case True
    then obtain e n i where y: "y = Ok (Live e n i)" by blast
    obtain wm where "calm holder handovers w wm" "holder wm = Some (n, i)" "calm holder handovers wm w1"
      using resolve_live_holder [OF r [unfolded y]] by blast
    then show ?thesis
      using assms(1) r y by (auto simp: open_target_def promising_def split: if_splits)
  next
    case False
    then obtain endpoint where "select_placement_candidate E address (os_excluded os) deadline (cl1, w1) = Some (Ok endpoint, cl', w')"
      and t: "t = \<lparr>ot_endpoint = endpoint, ot_placement_attempt = True, ot_live_owner = None\<rparr>"
      using assms(1) r by (auto simp: open_target_def split: sum.splits owner_resolution.splits option.splits)
    then show ?thesis using select_promising [OF _ s1] by (simp add: promising_def)
  qed
qed

text \<open>What the loop has left.\<close>

definition room_left :: "usize \<Rightarrow> open_state \<Rightarrow> 'w \<Rightarrow> nat" where
  "room_left limit os w =
     2 * handovers w
     + (if os_failed_live_owner os \<noteq> None \<and> os_failed_live_owner os = holder w then 0 else 1)
     + card (endpoints - set (os_excluded os)) + (unat limit - os_attempts os)"

lemma room_left_calm: "calm holder handovers w w' \<Longrightarrow> room_left limit os w' \<le> room_left limit os w"
  by (auto simp: room_left_def calm_def split: if_splits)

lemma room_left_attempt:
  "os_attempts os < unat limit \<Longrightarrow> room_left limit (os\<lparr>os_attempts := Suc (os_attempts os)\<rparr>) w < room_left limit os w"
  by (simp add: room_left_def)

lemma exclude_target_room:
  assumes "promising os t w w1" and "calm holder handovers w1 w'" and "calm holder handovers w w1"
  shows "room_left limit (exclude_target t os) w' < room_left limit os w"
proof (cases "ot_placement_attempt t")
  case True
  then have e: "ot_endpoint t \<in> endpoints - set (os_excluded os)" using assms(1) by (simp add: promising_def)
  have "card (endpoints - set (List.insert (ot_endpoint t) (os_excluded os))) < card (endpoints - set (os_excluded os))"
    using e endpoints_finite by (intro psubset_card_mono) auto
  then have "room_left limit (exclude_target t os) w' < room_left limit os w'"
    using True by (simp add: room_left_def exclude_target_def)
  also have "\<dots> \<le> room_left limit os w" using room_left_calm [OF calm_trans [OF assms(3,2)]] .
  finally show ?thesis .
next
  case False
  then obtain h wm where h: "ot_live_owner t = Some h" "os_failed_live_owner os \<noteq> Some h"
    "calm holder handovers w wm" "holder wm = Some h" "calm holder handovers wm w1"
    using assms(1) by (auto simp: promising_def)
  have "room_left limit (exclude_target t os) w' \<le> room_left limit (exclude_target t os) wm"
    using room_left_calm [OF calm_trans [OF h(5) assms(2)]] .
  also have "\<dots> < room_left limit os wm"
    using h False by (auto simp: room_left_def exclude_target_def)
  also have "\<dots> \<le> room_left limit os w" using room_left_calm [OF h(3)] .
  finally show ?thesis .
qed

lemma after_failure_goes_on:
  assumes "after_failure m t e os = Ok os'"
  shows "os_attempts os < m \<and> (os' = exclude_target t os \<or> os' = os \<and> e = NotOwner)"
  using assms by (cases e) (auto simp: after_failure_def Let_def split: if_splits)

lemma send_calm:
  "connection_send (ce_tx E) ref env cl w = (r, w') \<Longrightarrow>
     calm holder handovers w w' \<and> (\<forall>e. r = Err e \<longrightarrow> e = RemoteUnavailable)"
  by (auto simp: connection_send_def tc_try_send_def split: option.splits if_splits prod.splits sum.splits
      dest: tx_calm)

lemma send_session_open_keeps:
  assumes "send_session_open E address s ref (cl, w) = ((sent, r), cl', w')" and "since w0 limit cl w"
  shows "since w0 limit cl' w' \<and> (\<not> sent \<longrightarrow> r = Err RemoteUnavailable)"
proof -
  let ?cid = "case hm_get (cl_connections cl) ref of None \<Rightarrow> 0 | Some c \<Rightarrow> tc_id c"
  let ?cl1 = "cl\<lparr>cl_next_oneshot := Suc (cl_next_oneshot cl),
      cl_pending_opens := hm_insert s \<lparr>po_connection_id = ?cid, po_complete = cl_next_oneshot cl\<rparr>
        (cl_pending_opens cl)\<rparr>"
  obtain x w1 where c: "connection_send (ce_tx E) ref (envelope_session_open address s) ?cl1 w = (x, w1)"
    by (meson surj_pair)
  obtain cl2 w2 where o: "ce_other E None (?cl1, w1) = (cl2, w2)" by (meson surj_pair)
  have "since w0 limit ?cl1 w1"
    using since_calm [OF since_frame [OF assms(2)]] send_calm [OF c] by simp
  then show ?thesis
    using assms(1) c o since_other [OF o] send_calm [OF c]
    by (auto simp: send_session_open_def Let_def await_ack_def split: sum.splits option.splits)
qed

lemma open_attempt_room:
  assumes "open_attempt E address s ch t ref os (cl, w1) = (Inr os', cl', w')"
    and "since w limit cl w1" and "promising os t w w1"
  shows "since w limit cl' w' \<and> room_left limit os' w' < room_left limit os w"
proof -
  have lim: "cl_max_open_attempts cl = limit" and w1: "calm holder handovers w w1"
    using assms(2) by (simp_all add: since_def)
  have lt: "os_attempts os < unat limit"
    using assms(1) lim by (auto simp: open_attempt_def Let_def split: if_splits prod.splits)
  obtain sent r cl1 w2 where so: "send_session_open E address s ref (cl, w1) = ((sent, r), cl1, w2)"
    by (metis prod.collapse)
  obtain y w3 where c: "connection_send (ce_tx E) ref (envelope_session_close address s) cl1 w2 = (y, w3)"
    by (meson surj_pair)
  obtain cl2 w4 where u: "open_unbind E ref s (cl1, w3) = (cl2, w4)" by (meson surj_pair)
  let ?os1 = "if sent then os\<lparr>os_attempts := Suc (os_attempts os)\<rparr> else os"
  obtain e where e: "r = Err e" "after_failure (unat limit) t e ?os1 = Ok os'"
    and cl': "cl' = rollback_placement E t (cl2\<lparr>cl_pending_opens := hm_remove s (cl_pending_opens cl2)\<rparr>)" and w': "w' = w4"
    using assms(1) lim lt so c u
    by (auto simp: open_attempt_def Let_def split: sum.splits)
  have s4: "since v limit cl2 w4" if "since v limit cl w1" for v
    using kept.open_unbind_keeps [OF u since_calm] send_session_open_keeps [OF so that] send_calm [OF c] by blast
  have "since w1 limit cl w1" using assms(2) by (simp add: since_def)
  then have w14: "calm holder handovers w1 w4" using s4 by (simp add: since_def)
  have "room_left limit os' w' < room_left limit os w"
  proof (cases "os' = ?os1 \<and> e = NotOwner")
    case True
    then have "sent" using e(1) send_session_open_keeps [OF so assms(2)] by auto
    then show ?thesis
      using True w' room_left_attempt [OF lt] room_left_calm [OF calm_trans [OF w1 w14]]
      by (auto intro: less_le_trans)
  next
    case False
    then have "os' = exclude_target t ?os1" using after_failure_goes_on [OF e(2)] by blast
    then have "room_left limit os' w' \<le> room_left limit (exclude_target t os) w'"
      by (auto simp: exclude_target_def room_left_def)
    then show ?thesis using exclude_target_room [OF assms(3) w14 w1, of limit] w' by simp
  qed
  then show ?thesis using since_frame [OF s4 [OF assms(2)], of cl'] cl' w' by simp
qed

lemma open_round_room:
  assumes "open_round E address s ch deadline os (cl, w) = Some (Inr os', cl', w')" and "since w limit cl w"
  shows "since w' limit cl' w' \<and> room_left limit os' w' < room_left limit os w"
proof -
  obtain t cl1 w1 where t: "open_target E address deadline os (cl, w) = Some (Ok t, cl1, w1)"
    using assms(1) by (auto simp: open_round_def split: option.splits sum.splits)
  have s1: "since w limit cl1 w1" using kept.open_target_keeps [OF t assms(2)] .
  have pr: "promising os t w w1" using open_target_promising [OF t assms(2)] .
  obtain z cl2 w2 where a: "acquire_connection E (ot_endpoint t) s deadline (cl1, w1) = (z, cl2, w2)"
    by (metis prod_cases3)
  have s2: "since w limit cl2 w2" using kept.acquire_keeps [OF a s1] .
  have s12: "since w1 limit cl2 w2" using kept.acquire_keeps [OF a, of w1 limit] s1 by (simp add: since_def)
  have "since w limit cl' w' \<and> room_left limit os' w' < room_left limit os w"
  proof (cases z)
    case Inl
    then have "os' = exclude_target t os" "cl' = rollback_placement E t cl2" "w' = w2"
      using assms(1) t a by (auto simp: open_round_def)
    then show ?thesis
      using exclude_target_room [OF pr, of w2 limit] since_frame [OF s2] s1 s12 by (simp add: since_def)
  next
    case (Inr ref)
    then have at: "open_attempt E address s ch t ref os (cl2, w2) = (Inr os', cl', w')"
      using assms(1) t a by (simp add: open_round_def)
    have "calm holder handovers w1 w2" using s12 by (simp add: since_def)
    from promising_later [OF pr this] have "promising os t w w2" .
    from open_attempt_room [OF at s2 this] show ?thesis .
  qed
  then show ?thesis by (auto simp: since_def)
qed

lemma open_loop_returns:
  "room_left limit os w < fuel \<Longrightarrow> since w limit cl w \<Longrightarrow>
   open_loop fuel E address s ch deadline os (cl, w) \<noteq> None"
proof (induction fuel arbitrary: os cl w)
  case (Suc n)
  obtain x cl1 w1 where r: "open_round E address s ch deadline os (cl, w) = Some (x, cl1, w1)"
    using open_round_returns [of s ch deadline os cl w] by (metis option.exhaust prod_cases3)
  show ?case
  proof (cases x)
    case (Inr os')
    with open_round_room [OF r [unfolded Inr] Suc.prems(2)] show ?thesis
      using Suc.IH [of os' w1 cl1] Suc.prems(1) r by simp
  qed (use r in simp)
qed simp

lemma client_open_returns:
  assumes "cache_ok listed cl" and "fuel = 2 * handovers w + card endpoints + unat (cl_max_open_attempts cl) + 2"
  shows "client_open fuel T E address s (cl, w) \<noteq> None"
proof -
  let ?deadline = "ce_now E w + cl_open_timeout cl" and ?ch = "fresh_ref (cl_channels cl)"
  let ?cl1 = "register_local s ?ch
      (cl\<lparr>cl_channels := hm_insert ?ch (tk_channel T SESSION_RECEIVER_CAPACITY) (cl_channels cl)\<rparr>)"
  let ?limit = "cl_max_open_attempts cl"
  have "since w ?limit ?cl1 w"
    using assms(1) by (simp add: since_def register_local_def cache_ok_def)
  moreover have "room_left ?limit open_state_new w < fuel"
    using assms(2) by (simp add: room_left_def open_state_new_def)
  ultimately obtain r cl2 w2 where "open_loop fuel E address s ?ch ?deadline open_state_new (?cl1, w) = Some (r, cl2, w2)"
    using open_loop_returns by (metis option.exhaust prod_cases3)
  then show ?thesis by (cases r) (simp_all add: client_open_def Let_def del: open_loop.simps)
qed

end

end
