(* ===== verification/Client_Wire.thy ===== *)
theory Client_Wire
  imports Client_Progress
begin

text \<open>
  A concrete world for a Client: a coordination store that answers from a fixed directory and a
  script of Owners, a transport that logs what it accepts, a clock that ticks at every wait, and
  other tasks that run a script of receive-loop sections, built from the Client's own operations.
  The locales of the open loop are interpreted on it.
\<close>

section \<open>A scripted world\<close>

datatype client_event =
    Incoming conn_ref envelope
  | StreamClosed conn_ref
  | StreamUnpooled conn_ref
  | StreamTaken conn_ref
  | StreamReset conn_ref
  | StreamSession conn_ref session_id

definition conn_closed :: "('p, 'c) client \<Rightarrow> conn_ref \<Rightarrow> bool" where
  "conn_closed cl ref = (case hm_get (cl_connections cl) ref of None \<Rightarrow> False | Some c \<Rightarrow> tc_closed c)"

fun run_event ::
  "(session_item, 'c, 's) tokio \<Rightarrow> pool_ref option \<Rightarrow> client_event \<Rightarrow> ('p, 'c) client \<Rightarrow> ('p, 'c) client" where
  "run_event T lock (Incoming ref env) cl = handle_envelope T env ref cl"
| "run_event T lock (StreamClosed ref) cl = receive_end_close ref cl"
| "run_event T lock (StreamUnpooled ref) cl =
     (case receive_end_pool ref cl of
        None \<Rightarrow> cl
      | Some p \<Rightarrow> if lock = Some p then cl else receive_end_unpool p ref cl)"
| "run_event T lock (StreamTaken ref) cl = (if conn_closed cl ref then snd (receive_end_take ref cl) else cl)"
| "run_event T lock (StreamReset ref) cl = (if conn_closed cl ref then receive_end_reset ref cl else cl)"
| "run_event T lock (StreamSession ref s) cl = receive_end_session T ref s cl"

text \<open>\<open>wi_owners\<close>: who owns which Actor now (its head), after the next wait, and so on.\<close>

record wire =
  wi_now :: instant
  wi_log :: "(sender_id \<times> envelope) list"
  wi_events :: "client_event list list"
  wi_owners :: "(actor_address \<Rightarrow> versioned_actor_owner_record option) list"
  wi_down :: "string list"
  wi_senders :: sender_id

definition owner_at :: "actor_address \<Rightarrow> wire \<Rightarrow> versioned_actor_owner_record option" where
  "owner_at a w = (case wi_owners w of [] \<Rightarrow> None | f # _ \<Rightarrow> f a)"

definition static_store :: "node_record list \<Rightarrow> wire coordination_store" where
  "static_store nodes =
     \<lparr>cs_read_node = (\<lambda>d n w. (Done (Ok (find (\<lambda>r. nr_node_id r = n) nodes)), w)),
      cs_list_nodes = (\<lambda>d w. (Done (Ok nodes), w)),
      cs_read_node_lease = (\<lambda>d n w. (Done (Ok None), w)),
      cs_acquire_node = (\<lambda>d n t w. (Done (Ok Conflict), w)),
      cs_renew_node = (\<lambda>d n t r w. (Done (Ok Conflict), w)),
      cs_release_node = (\<lambda>n r w. (Ok Conflict, w)),
      cs_read_actor_owner = (\<lambda>d a w. (Done (Ok (owner_at a w)), w)),
      cs_compare_exchange_actor_owner = (\<lambda>d a r v w. (Done (Ok Conflict), w))\<rparr>"

text \<open>The strategy that takes the candidates in the order of the directory.\<close>

definition wire_env :: "node_record list \<Rightarrow> (unit, session_item bounded_channel, wire) client_env" where
  "wire_env nodes =
     \<lparr>ce_store = static_store nodes,
      ce_tx = (\<lambda>s env w. (Ok (), w\<lparr>wi_log := wi_log w @ [(s, env)]\<rparr>)),
      ce_now = wi_now,
      ce_connect = (\<lambda>d e w. if e \<in> set (wi_down w) then (Done (Err (ConnectFailed e)), w)
                            else (Done (Ok (wi_senders w)), w\<lparr>wi_senders := Suc (wi_senders w)\<rparr>)),
      ce_lock = (\<lambda>d p w. (Done (), w)),
      ce_candidates = (\<lambda>now a cs p. Some (map cand_endpoint cs, p)),
      ce_placement_failed = (\<lambda>e p. p),
      ce_other = (\<lambda>lock (cl, w).
         (fold (run_event bounded_tokio lock) (concat (take 1 (wi_events w))) cl,
          w\<lparr>wi_now := Suc (wi_now w), wi_events := drop 1 (wi_events w), wi_owners := drop 1 (wi_owners w)\<rparr>)),
      ce_finished = (\<lambda>w ref. False)\<rparr>"

lemma run_event_step:
  fixes cl :: "('p, 'c) client"
  shows "(cl_step T me lock)\<^sup>*\<^sup>* cl (run_event T lock ev cl)"
proof (cases ev)
  case (StreamUnpooled ref)
  then show ?thesis
    by (auto split: option.splits intro: r_into_rtranclp cl_step.end_unpool)
next
  case (StreamTaken ref)
  then show ?thesis
    by (auto simp: conn_closed_def split: option.splits intro: r_into_rtranclp cl_step.end_take)
next
  case (StreamReset ref)
  then show ?thesis
    by (auto simp: conn_closed_def split: option.splits intro: r_into_rtranclp cl_step.end_reset)
qed (auto intro: r_into_rtranclp cl_step.intros)

lemma run_events_steps: "(cl_step T me lock)\<^sup>*\<^sup>* cl (fold (run_event T lock) evs cl)"
proof (induction evs arbitrary: cl)
  case (Cons ev evs)
  show ?case using rtranclp_trans [OF run_event_step Cons.IH] by simp
qed simp

interpretation scripted: client_rely bounded_tokio "wire_env nodes" me for nodes me
  by unfold_locales (simp add: wire_env_def run_events_steps)

definition opens_sent :: "session_id \<Rightarrow> wire \<Rightarrow> nat" where
  "opens_sent me w = length (filter (\<lambda>(_, env). is_open_of me env) (wi_log w))"

lemma scripted_limit:
  "cl_max_open_attempts (fold (run_event T lock) evs cl) = cl_max_open_attempts cl"
proof -
  have "cl_max_open_attempts cl' = cl_max_open_attempts cl" if "(cl_step T me lock)\<^sup>*\<^sup>* cl cl'" for cl' me
    using that by (induction rule: rtranclp_induct) (simp_all add: cl_step_config)
  then show ?thesis using run_events_steps by blast
qed

interpretation scripted: session_open_meter "wire_env nodes" me "opens_sent me" for nodes me
  by unfold_locales
    (auto simp: wire_env_def static_store_def opens_sent_def scripted_limit split: if_splits)

lemma run_event_cache [simp]: "cl_placement_cache (run_event T lock ev cl) = cl_placement_cache cl"
  by (cases ev)
    (auto simp: handle_envelope_def deliver_item_def offer_def receive_end_close_def receive_end_unpool_def
      receive_end_take_def receive_end_reset_def receive_end_session_def take_pending_def complete_open_def
      client_terminate_def unregister_local_def split: option.splits kind.splits prod.splits)

lemma run_events_cache [simp]: "cl_placement_cache (fold (run_event T lock) evs cl) = cl_placement_cache cl"
  by (induction evs arbitrary: cl) simp_all

interpretation scripted: listed_directory "wire_env nodes" "\<lambda>ns. ns = nodes" for nodes
  by unfold_locales (auto simp: wire_env_def static_store_def cache_ok_def)

definition holder_at :: "actor_address \<Rightarrow> wire \<Rightarrow> (string \<times> node_session_id) option" where
  "holder_at a w =
     (case owner_at a w of
        None \<Rightarrow> None
      | Some v \<Rightarrow> map_option (\<lambda>ow. (ao_node_id ow, ao_session_id ow)) (owner (vr_record v)))"

text \<open>Every wait may change the Owner once, as long as the script lasts.\<close>

lemma wire_calm:
  "calm (holder_at a) (\<lambda>w. length (wi_owners w)) w
     (w\<lparr>wi_now := n, wi_events := evs, wi_owners := drop (Suc 0) (wi_owners w)\<rparr>)"
  by (cases "wi_owners w") (auto simp: calm_def holder_at_def owner_at_def)

lemma wire_calm_frame:
  "wi_owners w' = wi_owners w \<Longrightarrow> calm (holder_at a) (\<lambda>w. length (wi_owners w)) w w'"
  by (simp add: calm_def holder_at_def owner_at_def)

interpretation scripted: open_progress "wire_env nodes" "\<lambda>ns. ns = nodes" a
    "set (map nr_advertised_endpoint nodes)" "holder_at a" "\<lambda>w. length (wi_owners w)" for nodes a
  by unfold_locales
    (auto simp: wire_env_def static_store_def holder_at_def scripted_limit wire_calm
      intro: wire_calm_frame split: if_splits)

end
