(* ===== verification/Client_Properties.thy ===== *)
theory Client_Properties
  imports Client_Wire Runtime_Core
begin

text \<open>
  What a Client promises: its pools and counters under every interleaving, what an \<open>open\<close> leaves
  behind, how often it asks and that it returns, which endpoint it chooses, which Sessions an
  incoming envelope can reach, what a shutdown does, and how a Server's acknowledgement ends
  the open it answers.
\<close>

section \<open>Lemmas\<close>

lemma built_client_ok:
  assumes "client_build b = Ok cl"
  shows "client_inv cl" and "refs_ok cl" and "cl_max_connections_per_endpoint cl \<noteq> 0"
  using assms
  by (auto simp: client_build_def Client_from_parts_def client_inv_def refs_ok_def pool_connections_def split: if_splits)

lemma pooled_le: "client_inv cl \<Longrightarrow> length (pooled cl e) \<le> unat (cl_max_connections_per_endpoint cl)"
  by (simp add: client_inv_def pooled_def split: option.splits)

lemma connection_okD:
  assumes "connection_ok c"
  shows "distinct (tc_sessions c)"
    and "\<not> tc_closed c \<Longrightarrow> tc_bound_sessions c + word_of_nat (length (tc_adding c))
           = word_of_nat (length (tc_sessions c)) + word_of_nat (length (tc_removing c))"
    and "\<not> tc_closed c \<Longrightarrow> tc_adding c = [] \<Longrightarrow> tc_removing c = [] \<Longrightarrow>
           tc_bound_sessions c = word_of_nat (length (tc_sessions c))"
  using assms by (simp_all add: connection_ok_def)

lemma steps_keep_client:
  assumes "(cl_step T me lock)\<^sup>*\<^sup>* cl cl'" and "client_inv cl" and "refs_ok cl"
  shows "client_inv cl' \<and> refs_ok cl'
    \<and> cl_max_connections_per_endpoint cl' = cl_max_connections_per_endpoint cl"
  using assms by (induction rule: rtranclp_induct) (auto dest: cl_step_inv cl_step_refs cl_step_config)

section \<open>Properties\<close>

text \<open>
  C24. In every state a Client can reach from its construction, through any interleaving of the
  sections of its receive loops, opens, Session drops and \<open>shutdown\<close>, each endpoint and each pool
  (also one \<open>shutdown\<close> has dropped while a task still held it) has at most
  \<open>max_connections_per_endpoint\<close> connections.  The counter by which \<open>acquire_connection\<close> chooses,
  as long as the connection is open, differs from the number of Sessions in its set by exactly the
  tasks that stand between changing the set and changing the counter: counter plus binds under
  way is Sessions plus unbinds under way, so it is exact when no task is there.  No two Sessions
  share an event channel and no \<open>oneshot\<close> is answered twice.
\<close>

theorem client_state_invariant:
  assumes "client_build b = Ok cl0" and "(cl_step T me None)\<^sup>*\<^sup>* cl0 cl"
  shows "length (pooled cl e) \<le> unat (cb_max_connections_per_endpoint b)
     \<and> length (pool_connections cl p) \<le> unat (cb_max_connections_per_endpoint b)
     \<and> (\<forall>ref c. hm_get (cl_connections cl) ref = Some c \<and> \<not> tc_closed c \<longrightarrow>
          distinct (tc_sessions c)
          \<and> tc_bound_sessions c + word_of_nat (length (tc_adding c))
              = word_of_nat (length (tc_sessions c)) + word_of_nat (length (tc_removing c))
          \<and> (tc_adding c = [] \<and> tc_removing c = [] \<longrightarrow>
               tc_bound_sessions c = word_of_nat (length (tc_sessions c))))
     \<and> (\<forall>s s' ch. hm_get (cl_receivers cl) s = Some ch \<and> hm_get (cl_receivers cl) s' = Some ch \<longrightarrow> s = s')
     \<and> distinct (map fst (cl_answers cl))"
proof -
  have m: "cl_max_connections_per_endpoint cl0 = cb_max_connections_per_endpoint b"
    using assms(1) by (auto simp: client_build_def Client_from_parts_def split: if_splits)
  have k: "client_inv cl" "refs_ok cl"
    "cl_max_connections_per_endpoint cl = cl_max_connections_per_endpoint cl0"
    using steps_keep_client [OF assms(2)] built_client_ok [OF assms(1)] by simp_all
  have "connection_ok c" if "hm_get (cl_connections cl) ref = Some c" for ref c
    using k(1) that by (simp add: client_inv_def)
  note conn = connection_okD [OF this]
  have "length (pool_connections cl p) \<le> unat (cb_max_connections_per_endpoint b)"
    using k(1,3) m by (simp add: client_inv_def)
  moreover have "distinct (map fst (cl_answers cl))" using k(2) by (simp add: refs_ok_def)
  ultimately show ?thesis
    using k(3) m pooled_le [OF k(1), of e] refs_okD(1) [OF k(2)] conn by (intro conjI allI impI) (simp_all, blast+)
qed

text \<open>
  C10. Whatever the other tasks of the Client do while it waits, or between two of its sections,
  \<open>open\<close> keeps the Client's invariant (no pool above its limit, every counter accounted for) and
  leaves no bind or unbind of its Session half done.  If it fails it leaves no trace: the
  Session is not registered, no open of it is pending and no connection holds it.  If it
  succeeds, the connection the Session names exists and holds the Session, unless that
  connection has been closed in the meantime, and no other connection holds it.
\<close>

theorem open_safe_and_clean:
  assumes "client_rely T E me" and "client_inv cl" and "bound_to {} me cl" and "half_way {} {} me cl"
    and "cl_status cl = CLIENT_RUNNING"
    and "client_open fuel T E address me (cl, w) = Some (result, cl', w')"
  shows "client_inv cl' \<and> half_way {} {} me cl'
     \<and> (case result of
          Err _ \<Rightarrow> bound_to {} me cl' \<and> hm_get (cl_receivers cl') me = None
                   \<and> hm_get (cl_pending_opens cl') me = None
        | Ok s \<Rightarrow> ss_session_id s = me \<and> ss_address s = address
                  \<and> (\<exists>c. hm_get (cl_connections cl') (ss_connection s) = Some c
                       \<and> (me \<in> set (tc_sessions c) \<or> tc_closed c))
                  \<and> (\<forall>ref c. hm_get (cl_connections cl') ref = Some c \<and> me \<in> set (tc_sessions c)
                       \<longrightarrow> ref = ss_connection s))"
proof -
  have "client_rely.fits me {} {} {} (cl_max_open_attempts cl) cl"
    using assms(2-4) by (simp add: client_rely.fits_def [OF assms(1)])
  from client_rely.client_open_fits [OF assms(1,6) this] show ?thesis
    using assms(5) by (auto simp: client_rely.fits_def [OF assms(1)] bound_to_def split: sum.splits)
qed

text \<open>
  C22. \<open>max_open_attempts\<close> bounds the \<open>SessionOpen\<close> messages one \<open>open\<close> puts on the wire, across
  all its retries and targets; and \<open>AttemptsExhausted\<close> is answered only after exactly that many.
\<close>

theorem open_attempts_bounded:
  assumes "session_open_meter E me opens"
    and "client_open fuel T E address me (cl, w) = Some (result, cl', w')"
  shows "opens w' \<le> opens w + unat (cl_max_open_attempts cl)
     \<and> (result = Err AttemptsExhausted \<longrightarrow> opens w' = opens w + unat (cl_max_open_attempts cl))"
  using session_open_meter.client_open_meter [OF assms]
  by (simp add: session_open_meter.concluded_def [OF assms(1)])

text \<open>
  C35. \<open>open\<close> returns.  If the Placement Strategy returns, the directory lists finitely many
  endpoints and the address changes hands a bounded number of times while the open runs, then the
  retry loop ends: within two rounds per handover, one per endpoint ever listed, one per allowed
  attempt and two more.  Nothing is asked of the clock, of the store's answers or of what the
  connections do: the bound is what the exclusion of failed endpoints, the Owner given up and the
  count of attempts enforce.
\<close>

theorem open_returns:
  assumes "open_progress E listed address endpoints holder handovers" and "cache_ok listed cl"
  shows "\<exists>result cl' w'. client_open (2 * handovers w + card endpoints + unat (cl_max_open_attempts cl) + 2)
       T E address me (cl, w) = Some (result, cl', w')"
  using open_progress.client_open_returns [OF assms refl, of w T me]
  by (metis option.exhaust prod_cases3)

text \<open>
  C36. A Placement goes only to an endpoint that has not failed before in the same \<open>open\<close>, and one
  that a node advertised in a listing of the directory, returned to this very search or cached by
  this Client less than \<open>PLACEMENT_CACHE_TTL\<close> before it, in which that node spoke the protocol
  version, was neither pressured nor draining and had capacity left, whatever the strategy proposes.
\<close>

theorem placement_target_fit:
  assumes "listed_directory E listed" and "cache_ok listed cl"
    and "select_placement_candidate E address excluded deadline (cl, w) = Some (Ok endpoint, cl', w')"
  shows "endpoint \<notin> set excluded
     \<and> (\<exists>nodes node. listed nodes \<and> listing_used E deadline (cl, w) nodes \<and> node \<in> set nodes
          \<and> nr_advertised_endpoint node = endpoint \<and> \<not> trim_is_empty endpoint
          \<and> nr_protocol_version node = TRANSPORT_PROTOCOL_VERSION
          \<and> \<not> nr_pressured node \<and> \<not> nr_draining node
          \<and> nr_active_actor_count node < nr_max_actor_count node)"
  using listed_directory.select_listed [OF assms(1,3,2)] by (fastforce simp: is_candidate_def)

text \<open>
  An envelope that arrives on a connection cannot reach a Session bound elsewhere: the
  content of that Session's event channel, its registration and an open of it waiting on
  another connection are untouched.
\<close>

theorem envelope_isolation:
  assumes "refs_ok cl" and "hm_get (cl_connections cl) ref = Some c"
    and "hm_get (cl_receivers cl) s = Some ch" and "s \<notin> set (tc_sessions c)"
    and "hm_get (cl_pending_opens cl) s = Some p" and "po_connection_id p \<noteq> tc_id c"
  shows "hm_get (cl_channels (handle_envelope T env ref cl)) ch = hm_get (cl_channels cl) ch
     \<and> hm_get (cl_receivers (handle_envelope T env ref cl)) s = Some ch
     \<and> hm_get (cl_pending_opens (handle_envelope T env ref cl)) s = Some p
     \<and> map_of (cl_answers (handle_envelope T env ref cl)) (po_complete p) = None"
proof -
  have fresh: "map_of (cl_answers cl) (po_complete p) = None"
    using refs_okD(4) [OF assms(1,5)] by (simp add: map_of_eq_None_iff)
  have ack: "cl_channels (complete_open p' r cl') = cl_channels cl \<and> cl_receivers (complete_open p' r cl') = cl_receivers cl"
    if "take_pending s' cid cl = (Some p', cl')" for s' cid p' cl' r
    using that by (elim take_pending_cases) (simp_all add: complete_open_def)
  have no_ack: "cl' = cl" if "take_pending s' cid cl = (None, cl')" for s' cid cl'
    using that by (elim take_pending_cases) simp_all
  show ?thesis
    using assms fresh
    by (auto simp: handle_envelope_def deliver_other_session ack ack_other_open
        split: option.splits kind.splits prod.splits dest!: no_ack)
qed


section \<open>Shutdown, lost errors, acknowledgements\<close>









text \<open>
  C38. A terminal \<open>SessionError\<close> is dropped without a trace when the Session's event channel is
  full: the channel keeps its content, the Session stays registered and bound, and nothing will
  ever end its stream, so a reader that drains the channel afterwards waits for ever.
\<close>

theorem session_error_lost_when_full:
  assumes "mpsc_contract T queued shut"
    and "hm_get (cl_connections cl) ref = Some c" and "s \<in> set (tc_sessions c)"
    and "hm_get (cl_receivers cl) s = Some ch" and "hm_get (cl_channels cl) ch = Some q"
    and "\<not> shut q" and "tk_max_capacity T q \<le> length (queued q)"
    and "env_kind env = Some (Kind_SessionError failure)" and "SessionId_from_bytes (env_session_id env) = Some s"
  shows "hm_get (cl_channels (handle_envelope T env ref cl)) ch = Some q
     \<and> hm_get (cl_receivers (handle_envelope T env ref cl)) s = Some ch
     \<and> hm_get (cl_connections (handle_envelope T env ref cl)) ref = Some c"
  using assms(2-5,8,9) mpsc_contract.try_send_full [OF assms(1,6,7)]
  by (simp add: handle_envelope_def deliver_item_def offer_def)

text \<open>
  The acknowledgement a Server sends for a Session ends exactly the open waiting for it on
  that connection, with the result of the Server (its error as the wire carries it), and leaves
  no pending entry behind.
\<close>

theorem ack_completes_open:
  assumes "valid_session_id sid" and "hm_get (cl_connections cl) ref = Some c"
    and "hm_get (cl_pending_opens cl) sid = Some p" and "po_connection_id p = tc_id c"
    and "send_opened_ack (\<lambda>_ env _. (Ok (), Some env)) (Some sender) (SessionId_as_bytes sid) result None = Some env"
  shows "cl_answers (handle_envelope T env ref cl) = cl_answers cl @ [(po_complete p,
       case result of
         Ok (Ok _) \<Rightarrow> Ok ()
       | Ok (Err e) \<Rightarrow> Err (failure_error (send_failure e))
       | Err e \<Rightarrow> Err (failure_error (send_failure e)))]
     \<and> hm_get (cl_pending_opens (handle_envelope T env ref cl)) sid = None"
proof -
  have sid: "SessionId_from_bytes (SessionId_as_bytes sid) = Some sid"
    using assms(1) by (cases sid) (simp add: valid_session_id_def SessionId_from_bytes_def)
  have "env = reply_envelope (SessionId_as_bytes sid) (Kind_SessionOpenedAck (Some (case result of
      Ok (Ok _) \<Rightarrow> AckOk [] | Ok (Err e) \<Rightarrow> AckFailure (to_wire e) | Err e \<Rightarrow> AckFailure (to_wire e))))"
    using assms(5) by (simp add: send_opened_ack_def Let_def)
  then show ?thesis
    using assms(2-4) sid
    by (auto simp: handle_envelope_def reply_envelope_def take_pending_def complete_open_def ack_result_def
        from_wire_to_wire split: sum.splits)
qed


section \<open>Concrete runs\<close>

definition lobby :: actor_address where
  "lobby = \<lparr>actor_type = ''room'', actor_id = ''lobby''\<rparr>"

definition sid_a :: session_id where
  "sid_a = SessionId (replicate 16 1)"

definition small_node :: node_record where
  "small_node = \<lparr>nr_node_id = ''n1'', nr_session_id = ''s1'', nr_advertised_endpoint = ''http://n1'',
     nr_protocol_version = TRANSPORT_PROTOCOL_VERSION, nr_lease_generation = 1, nr_sampled_at_unix_ms = 0,
     nr_active_actor_count = 0, nr_max_actor_count = 8, nr_pressured = False, nr_draining = False\<rparr>"

definition small_builder :: "unit client_builder" where
  "small_builder = \<lparr>cb_open_timeout = 20, cb_transport_connect_timeout = 5, cb_max_open_attempts = 2,
     cb_max_connections_per_endpoint = 1, cb_placement = ()\<rparr>"

definition small_client :: "(unit, session_item bounded_channel) client" where
  "small_client = Client_from_parts 20 2 1 ()"

text \<open>Seven waits lead to the acknowledgement of a first Placement.\<close>

definition quiet_wire :: wire where
  "quiet_wire = \<lparr>wi_now = 0, wi_log = [], wi_events = [], wi_owners = [], wi_down = [], wi_senders = 0\<rparr>"

definition ack_wire :: wire where
  "ack_wire = quiet_wire\<lparr>wi_events := [[], [], [], [], [], [],
     [Incoming 0 (reply_envelope (SessionId_as_bytes sid_a) (Kind_SessionOpenedAck (Some (AckOk []))))]]\<rparr>"

abbreviation small_env :: "(unit, session_item bounded_channel, wire) client_env" where
  "small_env \<equiv> wire_env [small_node]"


lemma small_build: "client_build small_builder = Ok small_client"
  by (simp add: client_build_def small_builder_def small_client_def)

lemma small_client_ok:
  "client_inv small_client" "bound_to {} sid_a small_client" "half_way {} {} sid_a small_client"
  "cl_status small_client = CLIENT_RUNNING"
  using built_client_ok(1) [OF small_build]
  by (simp_all add: bound_to_def half_way_def small_client_def Client_from_parts_def)

lemma demo_open:
  "\<exists>cl w. client_open 21 bounded_tokio small_env lobby sid_a (small_client, ack_wire) =
     Some (Ok \<lparr>ss_address = lobby, ss_session_id = sid_a, ss_receiver = 0, ss_connection = 0\<rparr>, cl, w)"
proof -
  have "case client_open 21 bounded_tokio small_env lobby sid_a (small_client, ack_wire) of
      Some (Ok s, _) \<Rightarrow> s = \<lparr>ss_address = lobby, ss_session_id = sid_a, ss_receiver = 0, ss_connection = 0\<rparr>
    | _ \<Rightarrow> False"
    by code_simp
  then show ?thesis by (auto split: option.splits sum.splits prod.splits)
qed

text \<open>
  A second Session shares the only connection of a full pool and has entered its set, its counter
  not yet raised: two Sessions, a counter of one, one bind under way.
\<close>

definition sid_b :: session_id where
  "sid_b = SessionId (replicate 16 2)"

definition pushed_client :: "(unit, session_item bounded_channel) client" where
  "pushed_client = snd (push_connection (\<lambda>_. False) 0 ''http://n1'' sid_a 0 (snd (pool ''http://n1'' small_client)))"

definition shared_client :: "(unit, session_item bounded_channel) client" where
  "shared_client = snd (reuse_connection 0 sid_b pushed_client)"

lemma shared_client_reached: "(cl_step bounded_tokio (SessionId []) None)\<^sup>*\<^sup>* small_client shared_client"
proof -
  let ?cl1 = "snd (pool ''http://n1'' small_client)"
  have "cl_step bounded_tokio (SessionId []) None small_client ?cl1" by (rule cl_step.pool)
  moreover have "cl_step bounded_tokio (SessionId []) None ?cl1 pushed_client"
    unfolding pushed_client_def
    by (rule cl_step.push)
      (simp_all add: has_room_def sid_a_def, simp add: small_client_def Client_from_parts_def pool_connections_def)
  moreover have "cl_step bounded_tokio (SessionId []) None pushed_client shared_client"
    unfolding shared_client_def by (rule cl_step.reuse) (simp_all add: sid_b_def)
  ultimately show ?thesis by (meson r_into_rtranclp rtranclp.rtrancl_into_rtrancl)
qed

lemma shared_connection:
  "hm_get (cl_connections shared_client) 0 = Some \<lparr>tc_id = 1, tc_endpoint = ''http://n1'', tc_sender = 0,
     tc_sessions = [sid_b, sid_a], tc_bound_sessions = 1, tc_closed = False, tc_adding = [sid_b], tc_removing = []\<rparr>"
  by code_simp

theorem client_state_invariant_witness:
  "length (pooled shared_client ''http://n1'') \<le> 1 \<and> length (pool_connections shared_client 0) \<le> 1
     \<and> (\<exists>c. hm_get (cl_connections shared_client) 0 = Some c \<and> tc_bound_sessions c + 1 = word_of_nat (length (tc_sessions c)))"
proof -
  note inv = client_state_invariant [OF small_build shared_client_reached, of "''http://n1''" 0]
  obtain c where c: "hm_get (cl_connections shared_client) 0 = Some c" "\<not> tc_closed c"
    and l: "length (tc_adding c) = 1" "tc_removing c = []"
    using shared_connection by simp
  then have "tc_bound_sessions c + 1 = word_of_nat (length (tc_sessions c))" using inv by fastforce
  then show ?thesis using inv c(1) by (auto simp: small_builder_def)
qed

theorem open_safe_and_clean_witness:
  "\<exists>s cl w c. client_open 21 bounded_tokio small_env lobby sid_a (small_client, ack_wire) = Some (Ok s, cl, w)
     \<and> client_inv cl \<and> half_way {} {} sid_a cl
     \<and> hm_get (cl_connections cl) (ss_connection s) = Some c \<and> (sid_a \<in> set (tc_sessions c) \<or> tc_closed c)"
proof -
  obtain s cl w where o: "client_open 21 bounded_tokio small_env lobby sid_a (small_client, ack_wire) = Some (Ok s, cl, w)"
    using demo_open by blast
  from open_safe_and_clean [OF scripted.client_rely_axioms small_client_ok o] o show ?thesis by auto
qed

theorem open_attempts_bounded_witness:
  "\<exists>result cl w. client_open 21 bounded_tokio small_env lobby sid_a (small_client, ack_wire) = Some (result, cl, w)
     \<and> opens_sent sid_a w \<le> 2"
proof -
  obtain s cl w where o: "client_open 21 bounded_tokio small_env lobby sid_a (small_client, ack_wire) =
      Some (Ok s, cl, w)"
    using demo_open by blast
  from open_attempts_bounded [OF scripted.session_open_meter_axioms o] o show ?thesis
    by (auto simp: opens_sent_def ack_wire_def quiet_wire_def small_client_def Client_from_parts_def)
qed

text \<open>
  The Owner \<open>n1\<close> cannot be reached; then the address is unowned, its endpoint is tried for a
  Placement and excluded, and the open ends on the second node.
\<close>

definition second_node :: node_record where
  "second_node = small_node\<lparr>nr_node_id := ''n2'', nr_session_id := ''s2'', nr_advertised_endpoint := ''http://n2''\<rparr>"

definition lost_owner :: versioned_actor_owner_record where
  "lost_owner = \<lparr>vr_record = \<lparr>owner = Some \<lparr>ao_node_id = ''n1'', ao_session_id = ''s1''\<rparr>, epoch = 1\<rparr>, vr_revision = ''r1''\<rparr>"

definition failing_wire :: wire where
  "failing_wire = quiet_wire\<lparr>wi_owners := [\<lambda>_. Some lost_owner, \<lambda>_. Some lost_owner], wi_down := [''http://n1'']\<rparr>"

theorem open_returns_witness:
  "\<exists>result cl w. client_open 10 bounded_tokio (wire_env [small_node, second_node]) lobby sid_a
     (small_client, failing_wire) = Some (result, cl, w)"
proof -
  have "cache_ok (\<lambda>ns. ns = [small_node, second_node]) small_client"
    by (simp add: cache_ok_def small_client_def Client_from_parts_def)
  from open_returns [OF scripted.open_progress_axioms this, of failing_wire bounded_tokio lobby sid_a]
  show ?thesis
    by (simp add: failing_wire_def small_node_def second_node_def small_client_def Client_from_parts_def)
qed

theorem placement_target_fit_witness:
  "\<exists>cl w node. select_placement_candidate (wire_env [small_node, second_node]) lobby [''http://n1''] 20
         (small_client, quiet_wire) = Some (Ok ''http://n2'', cl, w)
     \<and> node \<in> set [small_node, second_node] \<and> nr_advertised_endpoint node = ''http://n2''
     \<and> nr_active_actor_count node < nr_max_actor_count node"
proof -
  let ?env = "wire_env [small_node, second_node]"
  have "case select_placement_candidate ?env lobby [''http://n1''] 20 (small_client, quiet_wire) of
      Some (Ok e, _) \<Rightarrow> e = ''http://n2'' | _ \<Rightarrow> False"
    by code_simp
  then obtain cl w where s: "select_placement_candidate ?env lobby [''http://n1''] 20 (small_client, quiet_wire)
      = Some (Ok ''http://n2'', cl, w)"
    by (auto split: option.splits sum.splits prod.splits)
  have "cache_ok (\<lambda>ns. ns = [small_node, second_node]) small_client"
    by (simp add: cache_ok_def small_client_def Client_from_parts_def)
  from placement_target_fit [OF scripted.listed_directory_axioms this s] s show ?thesis by blast
qed

text \<open>A Client with two connections, an open of one Session pending on the first.\<close>

definition conn_to :: "u64 \<Rightarrow> string \<Rightarrow> sender_id \<Rightarrow> session_id list \<Rightarrow> transport_connection" where
  "conn_to i e s ss = \<lparr>tc_id = i, tc_endpoint = e, tc_sender = s, tc_sessions = ss,
     tc_bound_sessions = word_of_nat (length ss), tc_closed = False, tc_adding = [], tc_removing = []\<rparr>"

definition events :: "session_item list \<Rightarrow> session_item bounded_channel" where
  "events items = \<lparr>bc_queue = items, bc_max = 1, bc_closed = False\<rparr>"

definition two_conns :: "session_item list \<Rightarrow> (unit, session_item bounded_channel) client" where
  "two_conns items = small_client\<lparr>
     cl_receivers := [(sid_a, 0)], cl_channels := [(0, events items)],
     cl_connections := [(0, conn_to 1 ''http://n1'' 0 [sid_a]), (1, conn_to 2 ''http://n2'' 1 [])],
     cl_pools := [(''http://n1'', 0), (''http://n2'', 1)], cl_pool_store := [(0, [0]), (1, [1])],
     cl_pending_opens := [(sid_a, \<lparr>po_connection_id = 1, po_complete = 0\<rparr>)], cl_next_oneshot := 1\<rparr>"

lemma two_conns_refs: "refs_ok (two_conns items)"
  by (auto simp: refs_ok_def two_conns_def small_client_def Client_from_parts_def split: if_splits)

abbreviation stray_event :: envelope where
  "stray_event \<equiv> reply_envelope (SessionId_as_bytes sid_a) (Kind_Event [7])"

theorem envelope_isolation_witness:
  "hm_get (cl_channels (handle_envelope bounded_tokio stray_event 1 (two_conns []))) 0 = Some (events [])"
  using envelope_isolation [OF two_conns_refs, of "[]" 1 "conn_to 2 ''http://n2'' 1 []" sid_a 0
      "\<lparr>po_connection_id = 1, po_complete = 0\<rparr>" bounded_tokio stray_event]
  by (simp add: two_conns_def conn_to_def)


theorem session_error_lost_when_full_witness:
  "hm_get (cl_channels (handle_envelope bounded_tokio
     (reply_envelope (SessionId_as_bytes sid_a) (Kind_SessionError (to_wire NodeFenced))) 0
     (two_conns [Ok [1]]))) 0 = Some (events [Ok [1]])"
  using session_error_lost_when_full [OF bt.mpsc_contract_axioms,
      of "two_conns [Ok [1]]" 0 "conn_to 1 ''http://n1'' 0 [sid_a]" sid_a 0 "events [Ok [1]]"
        "reply_envelope (SessionId_as_bytes sid_a) (Kind_SessionError (to_wire NodeFenced))" "to_wire NodeFenced"]
  by (simp add: two_conns_def conn_to_def events_def reply_envelope_def SessionId_from_bytes_def sid_a_def)

theorem ack_completes_open_witness:
  "cl_answers (handle_envelope bounded_tokio
     (reply_envelope (SessionId_as_bytes sid_a) (Kind_SessionOpenedAck (Some (AckFailure (to_wire NotOwner))))) 0
     (two_conns [])) = [(0, Err NotOwner)]"
  using ack_completes_open [of sid_a "two_conns []" 0 "conn_to 1 ''http://n1'' 0 [sid_a]"
      "\<lparr>po_connection_id = 1, po_complete = 0\<rparr>" 7 "Ok (Err NotOwner)"
      "reply_envelope (SessionId_as_bytes sid_a) (Kind_SessionOpenedAck (Some (AckFailure (to_wire NotOwner))))"
      bounded_tokio]
  by (simp add: two_conns_def conn_to_def valid_session_id_def sid_a_def send_opened_ack_def
      small_client_def Client_from_parts_def)

end
