(* ===== verification/S3_Store.thy ===== *)
theory S3_Store
  imports Coordination Float64 "HOL-Library.Sublist"
begin

text \<open>
  The S3-backed Coordination Store (\<open>coactor/src/cluster/s3.rs\<close>): object keys, the reads and
  conditional writes of leases and ownership records, the classification of SDK errors, the
  paginated listing of nodes with its cache, and the whole as a \<open>coordination_store\<close>.  The AWS
  SDK client and \<open>serde_json\<close> are third-party crates and parameters: records of the requests
  and of the encoders the code uses.  Whatever else happens to the bucket while a request runs
  is part of the world it returns.
\<close>

section \<open>The SDK client and the encoders\<close>

datatype service_error = NoSuchKey | OtherServiceError

text \<open>The HTTP status of the raw response, if there is one, and the modelled service error.\<close>

record sdk_error =
  sdk_status :: "u16 option"
  sdk_service :: "service_error option"

text \<open>\<open>go_body\<close> is \<open>None\<close> if collecting the body fails.\<close>

record get_output =
  go_e_tag :: "string option"
  go_body :: "bytes option"

record list_output =
  lo_contents :: "string option list"
  lo_is_truncated :: "bool option"
  lo_next_continuation_token :: "string option"

datatype precondition = IfMatch string | IfNoneMatchAny

record 'w s3_client =
  s3_get_object :: "string \<Rightarrow> string \<Rightarrow> 'w \<Rightarrow> (sdk_error + get_output) \<times> 'w"
  s3_put_object :: "string \<Rightarrow> string \<Rightarrow> bytes \<Rightarrow> precondition \<Rightarrow> 'w \<Rightarrow> (sdk_error + string option) \<times> 'w"
  s3_delete_object :: "string \<Rightarrow> string \<Rightarrow> string \<Rightarrow> 'w \<Rightarrow> (sdk_error + unit) \<times> 'w"
  s3_list_objects_v2 :: "string \<Rightarrow> string \<Rightarrow> string option \<Rightarrow> 'w \<Rightarrow> (sdk_error + list_output) \<times> 'w"

record stored_node_lease =
  sl_node :: node_record
  sl_expires_at_unix_ms :: u64

record json_codec =
  js_lease_to_vec :: "stored_node_lease \<Rightarrow> bytes option"
  js_lease_from_slice :: "bytes \<Rightarrow> stored_node_lease option"
  js_owner_to_vec :: "actor_owner_record \<Rightarrow> bytes option"
  js_owner_from_slice :: "bytes \<Rightarrow> actor_owner_record option"

text \<open>The two clocks: milliseconds since the Unix epoch, and the monotonic clock.\<close>

record 'w clocks =
  ck_unix_ms :: "'w \<Rightarrow> nat"
  ck_now :: "'w \<Rightarrow> instant"

definition millis_u64 :: "nat \<Rightarrow> u64" where
  "millis_u64 n = (if n < 2 ^ 64 then word_of_nat n else - 1)"

definition wall_time_millis :: "'w clocks \<Rightarrow> 'w \<Rightarrow> u64" where
  "wall_time_millis K w = millis_u64 (ck_unix_ms K w)"

section \<open>Configuration and keys\<close>

datatype s3_config_error = EmptyBucket | InvalidPrefix

record directory_cache =
  dc_nodes :: "node_record list"
  dc_refresh_at :: "instant option"

record s3_store =
  s3_bucket :: string
  s3_prefix :: string
  s3_directory_refresh_interval :: duration
  s3_directory_cache :: directory_cache

definition valid_prefix :: "string \<Rightarrow> bool" where
  "valid_prefix p \<longleftrightarrow>
     p = [] \<or> \<not> (first_char p = Some CHR ''/'' \<or> last_char p = Some CHR ''/''
       \<or> list_ex (\<lambda>part. part = [] \<or> part = ''.'' \<or> part = ''..'') (split_on CHR ''/'' p))"

definition S3CoordinationStore_new :: "string \<Rightarrow> string \<Rightarrow> s3_config_error + s3_store" where
  "S3CoordinationStore_new bucket p =
     (if trim_is_empty bucket then Err EmptyBucket
      else if \<not> valid_prefix p then Err InvalidPrefix
      else Ok \<lparr>s3_bucket = bucket, s3_prefix = p,
                s3_directory_refresh_interval = from_secs 3,
                s3_directory_cache = \<lparr>dc_nodes = [], dc_refresh_at = None\<rparr>\<rparr>)"

definition directory_refresh_interval :: "duration \<Rightarrow> s3_store \<Rightarrow> s3_store" where
  "directory_refresh_interval interval s = s\<lparr>s3_directory_refresh_interval := interval\<rparr>"

definition s3_key :: "s3_store \<Rightarrow> string \<Rightarrow> string" where
  "s3_key s rest = (if s3_prefix s = [] then rest else s3_prefix s @ ''/'' @ rest)"

definition node_key :: "s3_store \<Rightarrow> string \<Rightarrow> string" where
  "node_key s node_id = s3_key s (''nodes/'' @ node_id @ ''/lease.json'')"

definition actor_key :: "s3_store \<Rightarrow> actor_address \<Rightarrow> string" where
  "actor_key s address =
     s3_key s (''actors/'' @ actor_type address @ ''/'' @ actor_id address @ ''/ownership.json'')"

definition nodes_prefix :: "s3_store \<Rightarrow> string" where
  "nodes_prefix s = s3_key s ''nodes/''"

section \<open>Errors\<close>

definition classify_read_error :: "sdk_error \<Rightarrow> coordination_error" where
  "classify_read_error e =
     (if is_some_and (\<lambda>status. status = 401 \<or> status = 403) (sdk_status e) then PermissionDenied
      else Unavailable)"

definition classify_write_error :: "sdk_error \<Rightarrow> coordination_error + 'a mutation_outcome" where
  "classify_write_error e =
     (if is_some_and (\<lambda>status. status = 412) (sdk_status e) then Ok Conflict
      else case sdk_service e of
             Some _ \<Rightarrow> Err (classify_read_error e)
           | None \<Rightarrow> Ok (Indeterminate (classify_read_error e)))"

section \<open>Requests\<close>

text \<open>The part reading a lease and reading an owner have in common.\<close>

definition get_object ::
  "'w s3_client \<Rightarrow> s3_store \<Rightarrow> (bytes \<Rightarrow> 'a option) \<Rightarrow> string \<Rightarrow> 'w
     \<Rightarrow> (coordination_error + ('a \<times> revision) option) \<times> 'w" where
  "get_object C s parse key w =
     (case s3_get_object C (s3_bucket s) key w of
        (Err e, w') \<Rightarrow>
          (if sdk_service e = Some NoSuchKey then Ok None else Err (classify_read_error e), w')
      | (Ok output, w') \<Rightarrow>
          (case go_e_tag output of
             None \<Rightarrow> (Err InvalidData, w')
           | Some etag \<Rightarrow>
               (case go_body output of
                  None \<Rightarrow> (Err Unavailable, w')
                | Some body \<Rightarrow>
                    (case parse body of
                       None \<Rightarrow> (Err InvalidData, w')
                     | Some x \<Rightarrow> (Ok (Some (x, etag)), w')))))"

definition put_object ::
  "'w s3_client \<Rightarrow> s3_store \<Rightarrow> string \<Rightarrow> bytes option \<Rightarrow> revision option \<Rightarrow> 'w
     \<Rightarrow> (coordination_error + revision mutation_outcome) \<times> 'w" where
  "put_object C s key body rvn w =
     (case body of
        None \<Rightarrow> (Err InvalidData, w)
      | Some body \<Rightarrow>
          (case s3_put_object C (s3_bucket s) key body
                  (case rvn of None \<Rightarrow> IfNoneMatchAny | Some r \<Rightarrow> IfMatch r) w of
             (Ok (Some etag), w') \<Rightarrow> (Ok (Applied etag), w')
           | (Ok None, w') \<Rightarrow> (Err InvalidData, w')
           | (Err e, w') \<Rightarrow> (classify_write_error e, w')))"

definition read_node_key ::
  "'w s3_client \<Rightarrow> json_codec \<Rightarrow> 'w clocks \<Rightarrow> s3_store \<Rightarrow> string \<Rightarrow> bool \<Rightarrow> 'w
     \<Rightarrow> (coordination_error + (node_record \<times> revision \<times> u64) option) \<times> 'w" where
  "read_node_key C J K s node_id include_expired w =
     (case get_object C s (js_lease_from_slice J) (node_key s node_id) w of
        (Ok (Some (lease, etag)), w') \<Rightarrow>
          if \<not> include_expired \<and> sl_expires_at_unix_ms lease \<le> wall_time_millis K w'
          then (Ok None, w')
          else (Ok (Some ((sl_node lease)\<lparr>nr_node_id := node_id\<rparr>, etag, sl_expires_at_unix_ms lease)), w')
      | (Ok None, w') \<Rightarrow> (Ok None, w')
      | (Err e, w') \<Rightarrow> (Err e, w'))"

definition lease_expiry :: "u64 \<Rightarrow> duration \<Rightarrow> u64" where
  "lease_expiry wall ttl = saturating_add wall (millis_u64 (as_millis ttl))"

definition put_node ::
  "'w s3_client \<Rightarrow> json_codec \<Rightarrow> 'w clocks \<Rightarrow> s3_store \<Rightarrow> node_record \<Rightarrow> duration \<Rightarrow> revision option \<Rightarrow> 'w
     \<Rightarrow> (coordination_error + revision mutation_outcome) \<times> 'w" where
  "put_node C J K s node ttl rvn w =
     put_object C s (node_key s (nr_node_id node))
       (js_lease_to_vec J \<lparr>sl_node = node, sl_expires_at_unix_ms = lease_expiry (wall_time_millis K w) ttl\<rparr>)
       rvn w"

definition read_actor_key ::
  "'w s3_client \<Rightarrow> json_codec \<Rightarrow> s3_store \<Rightarrow> actor_address \<Rightarrow> 'w
     \<Rightarrow> (coordination_error + versioned_actor_owner_record option) \<times> 'w" where
  "read_actor_key C J s address w =
     (case get_object C s (js_owner_from_slice J) (actor_key s address) w of
        (Ok (Some (record, etag)), w') \<Rightarrow> (Ok (Some \<lparr>vr_record = record, vr_revision = etag\<rparr>), w')
      | (Ok None, w') \<Rightarrow> (Ok None, w')
      | (Err e, w') \<Rightarrow> (Err e, w'))"

section \<open>Listing nodes\<close>

definition strip_prefix :: "string \<Rightarrow> string \<Rightarrow> string option" where
  "strip_prefix p xs = (if prefix p xs then Some (drop (length p) xs) else None)"

definition strip_suffix :: "string \<Rightarrow> string \<Rightarrow> string option" where
  "strip_suffix p xs = (if suffix p xs then Some (take (length xs - length p) xs) else None)"

definition listed_node :: "s3_store \<Rightarrow> string option \<Rightarrow> string option" where
  "listed_node s key =
     (case key of
        None \<Rightarrow> None
      | Some key \<Rightarrow>
          (case strip_prefix (nodes_prefix s) key of
             None \<Rightarrow> None
           | Some rest \<Rightarrow>
               (case strip_suffix ''/lease.json'' rest of
                  None \<Rightarrow> None
                | Some node_id \<Rightarrow>
                    if node_id = [] \<or> CHR ''/'' \<in> set node_id then None else Some node_id)))"

fun fetch_page ::
  "'w s3_client \<Rightarrow> json_codec \<Rightarrow> 'w clocks \<Rightarrow> s3_store \<Rightarrow> string option list \<Rightarrow> node_record list \<Rightarrow> 'w
     \<Rightarrow> (coordination_error + node_record list) \<times> 'w" where
  "fetch_page C J K s [] nodes w = (Ok nodes, w)"
| "fetch_page C J K s (key # keys) nodes w =
     (case listed_node s key of
        None \<Rightarrow> fetch_page C J K s keys nodes w
      | Some node_id \<Rightarrow>
          (case read_node_key C J K s node_id False w of
             (Err e, w') \<Rightarrow> (Err e, w')
           | (Ok None, w') \<Rightarrow> fetch_page C J K s keys nodes w'
           | (Ok (Some (node, _, _)), w') \<Rightarrow> fetch_page C J K s keys (nodes @ [node]) w'))"

text \<open>One request per unit of fuel; a service that never ends its listing makes the loop endless.\<close>

fun fetch_pages ::
  "nat \<Rightarrow> 'w s3_client \<Rightarrow> json_codec \<Rightarrow> 'w clocks \<Rightarrow> s3_store \<Rightarrow> string option \<Rightarrow> node_record list \<Rightarrow> 'w
     \<Rightarrow> ((coordination_error + node_record list) \<times> 'w) option" where
  "fetch_pages 0 C J K s token nodes w = None"
| "fetch_pages (Suc n) C J K s token nodes w =
     (case s3_list_objects_v2 C (s3_bucket s) (nodes_prefix s) token w of
        (Err e, w1) \<Rightarrow> Some (Err (classify_read_error e), w1)
      | (Ok output, w1) \<Rightarrow>
          (case fetch_page C J K s (lo_contents output) nodes w1 of
             (Err e, w2) \<Rightarrow> Some (Err e, w2)
           | (Ok nodes', w2) \<Rightarrow>
               if lo_is_truncated output \<noteq> Some True then Some (Ok nodes', w2)
               else (case lo_next_continuation_token output of
                       None \<Rightarrow> Some (Err InvalidData, w2)
                     | Some t \<Rightarrow> fetch_pages n C J K s (Some t) nodes' w2)))"

text \<open>\<open>sort_by\<close> on the node identifiers, compared as byte strings.\<close>

definition str_key :: "string \<Rightarrow> nat list" where
  "str_key s = map of_char s"

fun bytes_le :: "nat list \<Rightarrow> nat list \<Rightarrow> bool" where
  "bytes_le [] ys = True"
| "bytes_le (x # xs) [] = False"
| "bytes_le (x # xs) (y # ys) = (x < y \<or> (x = y \<and> bytes_le xs ys))"

fun insert_node :: "node_record \<Rightarrow> node_record list \<Rightarrow> node_record list" where
  "insert_node n [] = [n]"
| "insert_node n (m # ms) =
     (if bytes_le (str_key (nr_node_id n)) (str_key (nr_node_id m)) then n # m # ms
      else m # insert_node n ms)"

definition sort_nodes :: "node_record list \<Rightarrow> node_record list" where
  "sort_nodes ns = foldr insert_node ns []"

definition fetch_nodes ::
  "nat \<Rightarrow> 'w s3_client \<Rightarrow> json_codec \<Rightarrow> 'w clocks \<Rightarrow> s3_store \<Rightarrow> 'w
     \<Rightarrow> ((coordination_error + node_record list) \<times> 'w) option" where
  "fetch_nodes fuel C J K s w =
     map_option (\<lambda>(x, w'). (map_sum id sort_nodes x, w')) (fetch_pages fuel C J K s None [] w)"

section \<open>The store traits\<close>

definition s3_read_node ::
  "'w s3_client \<Rightarrow> json_codec \<Rightarrow> 'w clocks \<Rightarrow> s3_store \<Rightarrow> string \<Rightarrow> 'w
     \<Rightarrow> (coordination_error + node_record option) \<times> 'w" where
  "s3_read_node C J K s node_id w =
     (case read_node_key C J K s node_id False w of
        (x, w') \<Rightarrow> (map_sum id (map_option fst) x, w'))"

text \<open>\<open>r\<close> is the random number of the jitter.\<close>

definition s3_list_nodes ::
  "nat \<Rightarrow> 'w s3_client \<Rightarrow> json_codec \<Rightarrow> 'w clocks \<Rightarrow> u16 \<Rightarrow> s3_store \<Rightarrow> 'w
     \<Rightarrow> ((coordination_error + node_record list) \<times> s3_store \<times> 'w) option" where
  "s3_list_nodes fuel C J K r s w =
     (if is_some_and (\<lambda>t. ck_now K w < t) (dc_refresh_at (s3_directory_cache s))
      then Some (Ok (dc_nodes (s3_directory_cache s)), s, w)
      else case fetch_nodes fuel C J K s w of
             None \<Rightarrow> None
           | Some (Err e, w') \<Rightarrow> Some (Err e, s, w')
           | Some (Ok nodes, w') \<Rightarrow>
               Some (Ok nodes,
                 s\<lparr>s3_directory_cache := \<lparr>dc_nodes = nodes,
                     dc_refresh_at = Some (ck_now K w' + duration_mul_f64 (s3_directory_refresh_interval s) (jitter r))\<rparr>\<rparr>,
                 w'))"

definition s3_read_node_lease ::
  "'w s3_client \<Rightarrow> json_codec \<Rightarrow> 'w clocks \<Rightarrow> s3_store \<Rightarrow> string \<Rightarrow> 'w
     \<Rightarrow> (coordination_error + (node_record \<times> revision) option) \<times> 'w" where
  "s3_read_node_lease C J K s node_id w =
     (case read_node_key C J K s node_id False w of
        (x, w') \<Rightarrow> (map_sum id (map_option (\<lambda>(node, etag, _). (node, etag))) x, w'))"

definition s3_acquire_node ::
  "'w s3_client \<Rightarrow> json_codec \<Rightarrow> 'w clocks \<Rightarrow> s3_store \<Rightarrow> node_record \<Rightarrow> duration \<Rightarrow> 'w
     \<Rightarrow> (coordination_error + revision mutation_outcome) \<times> 'w" where
  "s3_acquire_node C J K s node ttl w =
     (case read_node_key C J K s (nr_node_id node) True w of
        (Err e, w') \<Rightarrow> (Err e, w')
      | (Ok None, w') \<Rightarrow> put_node C J K s node ttl None w'
      | (Ok (Some (_, rvn, expires_at)), w') \<Rightarrow>
          if expires_at \<le> wall_time_millis K w' then put_node C J K s node ttl (Some rvn) w'
          else (Ok Conflict, w'))"

definition s3_renew_node ::
  "'w s3_client \<Rightarrow> json_codec \<Rightarrow> 'w clocks \<Rightarrow> s3_store \<Rightarrow> node_record \<Rightarrow> duration \<Rightarrow> revision \<Rightarrow> 'w
     \<Rightarrow> (coordination_error + revision mutation_outcome) \<times> 'w" where
  "s3_renew_node C J K s node ttl rvn w = put_node C J K s node ttl (Some rvn) w"

definition s3_release_node ::
  "'w s3_client \<Rightarrow> s3_store \<Rightarrow> string \<Rightarrow> revision \<Rightarrow> 'w
     \<Rightarrow> (coordination_error + unit mutation_outcome) \<times> 'w" where
  "s3_release_node C s node_id rvn w =
     (case s3_delete_object C (s3_bucket s) (node_key s node_id) rvn w of
        (Ok _, w') \<Rightarrow> (Ok (Applied ()), w')
      | (Err e, w') \<Rightarrow> (classify_write_error e, w'))"

definition s3_compare_exchange_actor_owner ::
  "'w s3_client \<Rightarrow> json_codec \<Rightarrow> s3_store \<Rightarrow> actor_address \<Rightarrow> actor_owner_record \<Rightarrow> revision option \<Rightarrow> 'w
     \<Rightarrow> (coordination_error + revision mutation_outcome) \<times> 'w" where
  "s3_compare_exchange_actor_owner C J s address record rvn w =
     put_object C s (actor_key s address) (js_owner_to_vec J record) rvn w"


section \<open>As a coordination store\<close>

text \<open>
  \<open>tokio::time::timeout\<close> around an operation: its value if it took no longer than \<open>d\<close>.  The
  directory listing, whose cache is the store's own state, is kept out (\<open>s3_list_nodes\<close>).
\<close>

definition with_timeout :: "'w clocks \<Rightarrow> duration \<Rightarrow> ('w \<Rightarrow> 'a \<times> 'w) \<Rightarrow> 'w \<Rightarrow> 'a timed \<times> 'w" where
  "with_timeout K d call w =
     (case call w of (x, w') \<Rightarrow> (if ck_now K w' - ck_now K w \<le> d then Done x else Elapsed, w'))"

definition s3_coordination_store ::
  "nat \<Rightarrow> 'w s3_client \<Rightarrow> json_codec \<Rightarrow> 'w clocks \<Rightarrow> s3_store \<Rightarrow> 'w coordination_store" where
  "s3_coordination_store fuel C J K s =
     \<lparr>cs_read_node = (\<lambda>d n. with_timeout K d (s3_read_node C J K s n)),
      cs_list_nodes = (\<lambda>d w. case fetch_nodes fuel C J K s w of
         None \<Rightarrow> (Elapsed, w)
       | Some (x, w') \<Rightarrow> (if ck_now K w' - ck_now K w \<le> d then Done x else Elapsed, w')),
      cs_read_node_lease = (\<lambda>d n. with_timeout K d (s3_read_node_lease C J K s n)),
      cs_acquire_node = (\<lambda>d node ttl. with_timeout K d (s3_acquire_node C J K s node ttl)),
      cs_renew_node = (\<lambda>d node ttl rvn. with_timeout K d (s3_renew_node C J K s node ttl rvn)),
      cs_release_node = s3_release_node C s,
      cs_read_actor_owner = (\<lambda>d a. with_timeout K d (read_actor_key C J s a)),
      cs_compare_exchange_actor_owner =
        (\<lambda>d a record rvn. with_timeout K d (s3_compare_exchange_actor_owner C J s a record rvn))\<rparr>"

section \<open>Keys\<close>

lemma split_at_slash:
  assumes "CHR ''/'' \<notin> set xs" and "CHR ''/'' \<notin> set ys"
    and "xs @ CHR ''/'' # us = ys @ CHR ''/'' # vs"
  shows "xs = ys \<and> us = vs"
proof -
  have "takeWhile (\<lambda>c. c \<noteq> CHR ''/'') (zs @ CHR ''/'' # ws) = zs" if "CHR ''/'' \<notin> set zs" for zs ws
    using that by (subst takeWhile_append2) auto
  then have "xs = ys" using assms by metis
  then show ?thesis using assms(3) by simp
qed

lemma s3_key_inject [simp]: "s3_key s x = s3_key s y \<longleftrightarrow> x = y"
  by (simp add: s3_key_def)

lemma strip_prefix_Some: "strip_prefix p xs = Some ys \<longleftrightarrow> xs = p @ ys"
  by (auto simp: strip_prefix_def prefix_def)

lemma strip_suffix_Some: "strip_suffix p xs = Some ys \<longleftrightarrow> xs = ys @ p"
  by (auto simp: strip_suffix_def suffix_def)

lemma strip_append [simp]: "strip_prefix p (p @ xs) = Some xs" "strip_suffix p (xs @ p) = Some xs"
  by (simp_all add: strip_prefix_Some strip_suffix_Some)

lemma node_key_prefix: "node_key s n = nodes_prefix s @ n @ ''/lease.json''"
  by (simp add: node_key_def nodes_prefix_def s3_key_def)

text \<open>
  Object keys identify what they hold: two valid Actor addresses never share an ownership
  object, and no ownership object is a lease, whatever the prefix of the store.
\<close>

theorem s3_keys_injective:
  assumes "valid_address a" and "valid_address b"
  shows "(actor_key s a = actor_key s b \<longleftrightarrow> a = b) \<and> actor_key s a \<noteq> node_key s n"
proof -
  have l: "CHR ''/'' \<notin> set (actor_type a)" "CHR ''/'' \<notin> set (actor_id a)"
    "CHR ''/'' \<notin> set (actor_type b)" "CHR ''/'' \<notin> set (actor_id b)"
    using assms by (simp_all add: valid_address_def dns_label_no_slash)
  have "a = b" if "actor_key s a = actor_key s b"
  proof -
    have "actor_type a @ CHR ''/'' # (actor_id a @ CHR ''/'' # ''ownership.json'')
        = actor_type b @ CHR ''/'' # (actor_id b @ CHR ''/'' # ''ownership.json'')"
      using that by (simp add: actor_key_def)
    then have "actor_type a = actor_type b"
      "actor_id a @ CHR ''/'' # ''ownership.json'' = actor_id b @ CHR ''/'' # ''ownership.json''"
      using split_at_slash [OF l(1,3)] by blast+
    then show "a = b" using split_at_slash [OF l(2,4)] by simp
  qed
  then show ?thesis by (auto simp: actor_key_def node_key_def)
qed

text \<open>
  Listing nodes recognises exactly the keys under which leases are written, and reads the
  Node ID back from them.
\<close>

theorem node_listing_roundtrip:
  "listed_node s (Some key) = Some n \<longleftrightarrow> key = node_key s n \<and> n \<noteq> [] \<and> CHR ''/'' \<notin> set n"
  by (auto simp: listed_node_def node_key_prefix strip_prefix_Some strip_suffix_Some split: option.splits if_splits)

end
