(* ===== verification/S3_Refinement.thy ===== *)
theory S3_Refinement
  imports S3_Store Wire_Protocol
begin

text \<open>
  The S3 store implements the ownership store the protocol is verified against.  The locale
  \<open>s3_objects\<close> states the documented behaviour of a bucket through the write history of every
  key: requests are linearizable, \<open>If-Match\<close> and \<open>If-None-Match\<close> decide at the moment of the
  write.  \<open>s3_owners\<close> adds the deployment's rule for the ownership objects: only nodes write under
  the prefix, which is dedicated to the deployment (\<open>docs/getting-started.md\<close>), so that every
  version of such an object is a record some node encoded.  \<open>s3.rs\<close> keeps that rule: it
  puts encoded records there and deletes nothing but lease objects.  Nothing is asked of the
  ETags: they may repeat when equal bytes are written again, as those of S3 do.  Both locales
  are interpreted on an in-memory bucket with other writers, whose ETags are a function of
  the content.
\<close>

section \<open>Buckets\<close>

type_synonym object_history = "(bytes \<times> string) option list"

definition object_now :: "object_history \<Rightarrow> (bytes \<times> string) option" where
  "object_now h = (case newest h of None \<Rightarrow> None | Some x \<Rightarrow> x)"

fun pre_holds :: "precondition \<Rightarrow> object_history \<Rightarrow> bool" where
  "pre_holds (IfMatch etag) h \<longleftrightarrow> map_option snd (object_now h) = Some etag"
| "pre_holds IfNoneMatchAny h \<longleftrightarrow> object_now h = None"

locale s3_objects =
  fixes C :: "'w s3_client"
    and H :: "'w \<Rightarrow> string \<Rightarrow> string \<Rightarrow> object_history"
    and ok :: "'w \<Rightarrow> bool"
    and fits :: "string \<Rightarrow> bytes \<Rightarrow> bool"
  assumes get_extends:
      "s3_get_object C b k w = (x, w') \<Longrightarrow> ok w \<Longrightarrow> ok w' \<and> suffix (H w b' k') (H w' b' k')"
    and get_found:
      "s3_get_object C b k w = (Ok out, w') \<Longrightarrow> ok w \<Longrightarrow>
        \<exists>h body etag. suffix (H w b k) h \<and> suffix h (H w' b k) \<and> object_now h = Some (body, etag)
          \<and> go_e_tag out = Some etag \<and> (go_body out = None \<or> go_body out = Some body)"
    and get_missing:
      "s3_get_object C b k w = (Err e, w') \<Longrightarrow> sdk_service e = Some NoSuchKey \<Longrightarrow> ok w \<Longrightarrow>
        \<exists>h. suffix (H w b k) h \<and> suffix h (H w' b k) \<and> object_now h = None"
    and put_extends:
      "s3_put_object C b k body pre w = (y, w') \<Longrightarrow> ok w \<Longrightarrow> fits k body \<Longrightarrow>
        ok w' \<and> suffix (H w b' k') (H w' b' k')"
    and put_applied:
      "s3_put_object C b k body pre w = (Ok (Some etag), w') \<Longrightarrow> ok w \<Longrightarrow> fits k body \<Longrightarrow>
        \<exists>h. suffix (H w b k) h \<and> pre_holds pre h \<and> suffix (Some (body, etag) # h) (H w' b k)"

text \<open>The ownership records an object has held.\<close>

definition owner_hist ::
  "json_codec \<Rightarrow> s3_store \<Rightarrow> ('w \<Rightarrow> string \<Rightarrow> string \<Rightarrow> object_history) \<Rightarrow> 'w \<Rightarrow> actor_address \<Rightarrow> owner_history" where
  "owner_hist J s H w a =
     List.map_filter (\<lambda>e. case e of
         None \<Rightarrow> None
       | Some (body, etag) \<Rightarrow>
           map_option (\<lambda>r. \<lparr>vr_record = r, vr_revision = etag\<rparr>) (js_owner_from_slice J body))
       (H w (s3_bucket s) (actor_key s a))"

locale s3_owners = s3_objects C H ok fits
  for C :: "'w s3_client" and H :: "'w \<Rightarrow> string \<Rightarrow> string \<Rightarrow> object_history"
    and ok :: "'w \<Rightarrow> bool" and fits :: "string \<Rightarrow> bytes \<Rightarrow> bool" +
  fixes J :: json_codec and s :: s3_store
  assumes codec: "js_owner_to_vec J r = Some body \<Longrightarrow> js_owner_from_slice J body = Some r"
    and codec_fits: "js_owner_to_vec J r = Some body \<Longrightarrow> fits (actor_key s a) body"
    and nodes_only: "ok w \<Longrightarrow> e \<in> set (H w (s3_bucket s) (actor_key s a)) \<Longrightarrow>
      \<exists>r body etag. e = Some (body, etag) \<and> js_owner_to_vec J r = Some body"
begin

text \<open>With every entry a decodable object, the record history is the object history, decoded.\<close>

definition decode :: "(bytes \<times> string) option \<Rightarrow> versioned_actor_owner_record" where
  "decode e = \<lparr>vr_record = the (js_owner_from_slice J (fst (the e))), vr_revision = snd (the e)\<rparr>"

definition decodable :: "object_history \<Rightarrow> bool" where
  "decodable h \<longleftrightarrow> (\<forall>e \<in> set h. \<exists>body etag. e = Some (body, etag) \<and> js_owner_from_slice J body \<noteq> None)"

abbreviation objs :: "'w \<Rightarrow> actor_address \<Rightarrow> object_history" where
  "objs w a \<equiv> H w (s3_bucket s) (actor_key s a)"

lemma objs_decodable: "ok w \<Longrightarrow> decodable (objs w a)"
  unfolding decodable_def using nodes_only codec by (metis option.distinct(1))

lemma decode_entries:
  "decodable h \<Longrightarrow> List.map_filter (\<lambda>e. case e of
         None \<Rightarrow> None
       | Some (body, etag) \<Rightarrow>
           map_option (\<lambda>r. \<lparr>vr_record = r, vr_revision = etag\<rparr>) (js_owner_from_slice J body)) h = map decode h"
  by (induction h) (auto simp: List.map_filter_def decodable_def decode_def)

lemma owner_hist_decode: "ok w \<Longrightarrow> owner_hist J s H w a = map decode (objs w a)"
  by (simp add: owner_hist_def decode_entries objs_decodable)

lemma decodable_suffix: "decodable h \<Longrightarrow> suffix h' h \<Longrightarrow> decodable h'"
  by (auto simp: decodable_def suffix_def)

lemma newest_decode:
  assumes "decodable h"
  shows "newest (map decode h) = map_option (\<lambda>x. decode (Some x)) (object_now h)"
  using assms by (cases h) (auto simp: object_now_def decodable_def)

lemma suffix_decode: "suffix h h' \<Longrightarrow> suffix (map decode h) (map decode h')"
  by (auto simp: suffix_def)

lemma hist_extends:
  "ok w \<Longrightarrow> ok w' \<Longrightarrow> suffix (objs w a) (objs w' a) \<Longrightarrow> suffix (owner_hist J s H w a) (owner_hist J s H w' a)"
  by (simp add: owner_hist_decode suffix_decode)

lemma get_object_extends:
  assumes "get_object C s parse key w = (x, w')" and "ok w"
  shows "ok w' \<and> suffix (H w b k) (H w' b k)"
proof -
  obtain y w1 where g: "s3_get_object C (s3_bucket s) key w = (y, w1)" by (meson surj_pair)
  then have "w' = w1"
    using assms(1) by (auto simp: get_object_def split: sum.splits option.splits)
  then show ?thesis using get_extends [OF g assms(2)] by simp
qed

lemma get_object_value:
  assumes "get_object C s (js_owner_from_slice J) (actor_key s a) w = (Ok v, w')" and "ok w"
  shows "\<exists>h. suffix (objs w a) h \<and> suffix h (objs w' a)
    \<and> v = map_option (\<lambda>(body, etag). (the (js_owner_from_slice J body), etag)) (object_now h)"
proof -
  obtain y w1 where g: "s3_get_object C (s3_bucket s) (actor_key s a) w = (y, w1)" by (meson surj_pair)
  show ?thesis
  proof (cases y)
    case (Inl e)
    then have "v = None" "w' = w1" "sdk_service e = Some NoSuchKey"
      using assms(1) g by (auto simp: get_object_def split: if_splits)
    then show ?thesis using get_missing [OF _ _ assms(2), of "s3_bucket s" "actor_key s a" e] g Inl by fastforce
  next
    case (Inr out)
    obtain h body etag where h: "suffix (objs w a) h" "suffix h (objs w1 a)" "object_now h = Some (body, etag)"
      "go_e_tag out = Some etag" "go_body out = None \<or> go_body out = Some body"
      using get_found [OF _ assms(2)] g Inr by metis
    then have "w' = w1" "\<exists>r. js_owner_from_slice J body = Some r \<and> v = Some (r, etag)"
      using assms(1) g Inr by (auto simp: get_object_def split: option.splits)
    then show ?thesis using h(1-3) by (intro exI [of _ h]) auto
  qed
qed

lemma read_actor_key_value:
  assumes "read_actor_key C J s a w = (Ok v, w')" and "ok w"
  shows "\<exists>h. suffix (owner_hist J s H w a) h \<and> suffix h (owner_hist J s H w' a) \<and> v = newest h"
proof -
  obtain x where g: "get_object C s (js_owner_from_slice J) (actor_key s a) w = (Ok x, w')"
    and v: "v = map_option (\<lambda>(r, etag). \<lparr>vr_record = r, vr_revision = etag\<rparr>) x"
    using assms(1) by (auto simp: read_actor_key_def split: prod.splits sum.splits option.splits)
  have ok': "ok w'" using get_object_extends [OF g assms(2)] by blast
  obtain h where h: "suffix (objs w a) h" "suffix h (objs w' a)"
    "x = map_option (\<lambda>(body, etag). (the (js_owner_from_slice J body), etag)) (object_now h)"
    using get_object_value [OF g assms(2)] by blast
  have "decodable h" using decodable_suffix [OF objs_decodable [OF ok'] h(2)] .
  then have "v = newest (map decode h)"
    by (auto simp: v h(3) newest_decode decode_def option.map_comp comp_def split: prod.splits
        intro!: option.map_cong0)
  then show ?thesis
    using h(1,2) assms(2) ok' by (intro exI [of _ "map decode h"]) (simp add: owner_hist_decode suffix_decode)
qed

lemma put_object_extends:
  assumes "put_object C s key body rvn w = (x, w')" and "ok w" and "\<And>b. body = Some b \<Longrightarrow> fits key b"
  shows "ok w' \<and> suffix (H w b k) (H w' b k)"
proof (cases body)
  case None
  then show ?thesis using assms(1,2) by (simp add: put_object_def)
next
  case (Some b)
  obtain y w1 where p: "s3_put_object C (s3_bucket s) key b
      (case rvn of None \<Rightarrow> IfNoneMatchAny | Some r \<Rightarrow> IfMatch r) w = (y, w1)" by (meson surj_pair)
  then have "w' = w1" using assms(1) Some by (auto simp: put_object_def split: sum.splits option.splits)
  then show ?thesis using put_extends [OF p assms(2) assms(3) [OF Some]] by simp
qed

lemma compare_exchange_applied:
  assumes "s3_compare_exchange_actor_owner C J s a rec rvn w = (Ok (Applied etag), w')" and "ok w"
  shows "\<exists>h. suffix (owner_hist J s H w a) h \<and> map_option vr_revision (newest h) = rvn
    \<and> suffix (\<lparr>vr_record = rec, vr_revision = etag\<rparr> # h) (owner_hist J s H w' a)"
proof -
  let ?pre = "case rvn of None \<Rightarrow> IfNoneMatchAny | Some r \<Rightarrow> IfMatch r"
  obtain body where b: "js_owner_to_vec J rec = Some body"
    using assms(1) by (auto simp: s3_compare_exchange_actor_owner_def put_object_def split: option.splits)
  then have p: "s3_put_object C (s3_bucket s) (actor_key s a) body ?pre w = (Ok (Some etag), w')"
    using assms(1)
    by (auto simp: s3_compare_exchange_actor_owner_def put_object_def classify_write_error_def
        split: prod.splits sum.splits option.splits if_splits)
  note fit = codec_fits [OF b]
  have ok': "ok w'" using put_extends [OF p assms(2) fit] by blast
  obtain h where h: "suffix (objs w a) h" "pre_holds ?pre h" "suffix (Some (body, etag) # h) (objs w' a)"
    using put_applied [OF p assms(2) fit] by blast
  have "decodable h"
    using decodable_suffix [OF objs_decodable [OF ok'] h(3)] by (simp add: decodable_def)
  then have "map_option vr_revision (newest (map decode h)) = rvn"
    using h(2) by (cases rvn; cases "object_now h") (auto simp: newest_decode decode_def)
  moreover have "suffix (\<lparr>vr_record = rec, vr_revision = etag\<rparr> # map decode h) (owner_hist J s H w' a)"
    using suffix_decode [OF h(3)] by (simp add: owner_hist_decode [OF ok'] decode_def codec [OF b])
  ultimately show ?thesis
    using suffix_decode [OF h(1)] by (metis owner_hist_decode [OF assms(2)])
qed

lemma timed_call:
  assumes "with_timeout K d call w = (x, w')"
  obtains y where "call w = (y, w')" and "\<And>v. x = Done v \<Longrightarrow> y = v"
  using assms by (auto simp: with_timeout_def split: prod.splits if_splits)

lemma implements: "owner_store (s3_coordination_store fuel C J K s) (owner_hist J s H) ok"
proof
  fix d a w x w' b
  assume "cs_read_actor_owner (s3_coordination_store fuel C J K s) d a w = (x, w')" and w: "ok w"
  then obtain y where "read_actor_key C J s a w = (y, w')"
    by (auto simp: s3_coordination_store_def elim: timed_call)
  then obtain z where "get_object C s (js_owner_from_slice J) (actor_key s a) w = (z, w')"
    by (auto simp: read_actor_key_def split: prod.splits sum.splits option.splits)
  from get_object_extends [OF this w] show "ok w' \<and> suffix (owner_hist J s H w b) (owner_hist J s H w' b)"
    using hist_extends w by blast
next
  fix d a w v w'
  assume "cs_read_actor_owner (s3_coordination_store fuel C J K s) d a w = (Done (Ok v), w')" and w: "ok w"
  then have "read_actor_key C J s a w = (Ok v, w')"
    by (auto simp: s3_coordination_store_def elim: timed_call)
  then show "\<exists>h. suffix (owner_hist J s H w a) h \<and> suffix h (owner_hist J s H w' a) \<and> v = newest h"
    using w by (rule read_actor_key_value)
next
  fix d n w y w' b
  assume "cs_read_node (s3_coordination_store fuel C J K s) d n w = (y, w')" and w: "ok w"
  then obtain z where "s3_read_node C J K s n w = (z, w')"
    by (auto simp: s3_coordination_store_def elim: timed_call)
  then obtain z' where "get_object C s (js_lease_from_slice J) (node_key s n) w = (z', w')"
    by (auto simp: s3_read_node_def read_node_key_def split: prod.splits sum.splits option.splits if_splits)
  from get_object_extends [OF this w] show "ok w' \<and> suffix (owner_hist J s H w b) (owner_hist J s H w' b)"
    using hist_extends w by blast
next
  fix d a rec rvn w z w' b
  assume "cs_compare_exchange_actor_owner (s3_coordination_store fuel C J K s) d a rec rvn w = (z, w')" and w: "ok w"
  then obtain y where "put_object C s (actor_key s a) (js_owner_to_vec J rec) rvn w = (y, w')"
    by (auto simp: s3_coordination_store_def s3_compare_exchange_actor_owner_def elim: timed_call)
  then have "ok w' \<and> suffix (objs w b) (objs w' b)"
    using w codec_fits by (rule put_object_extends)
  then show "ok w' \<and> suffix (owner_hist J s H w b) (owner_hist J s H w' b)"
    using hist_extends w by blast
next
  fix d a rec rvn w r w'
  assume "cs_compare_exchange_actor_owner (s3_coordination_store fuel C J K s) d a rec rvn w = (Done (Ok (Applied r)), w')"
    and w: "ok w"
  then have "s3_compare_exchange_actor_owner C J s a rec rvn w = (Ok (Applied r), w')"
    by (auto simp: s3_coordination_store_def elim: timed_call)
  then show "\<exists>h. suffix (owner_hist J s H w a) h \<and> map_option vr_revision (newest h) = rvn
      \<and> suffix (\<lparr>vr_record = rec, vr_revision = r\<rparr> # h) (owner_hist J s H w' a)"
    using w by (rule compare_exchange_applied)
qed

end

sublocale s3_owners \<subseteq> owners: owner_store "s3_coordination_store fuel C J K s" "owner_hist J s H" ok for fuel K
  by (rule implements)

section \<open>An encoding\<close>

text \<open>Strings as tagged bytes, closed by a zero; a record as three strings behind a flag.\<close>

definition enc_str :: "string \<Rightarrow> bytes" where
  "enc_str s = concat (map (\<lambda>c. [1, byte_of_char c]) s) @ [0]"

fun dec_str :: "bytes \<Rightarrow> (string \<times> bytes) option" where
  "dec_str [] = None"
| "dec_str (t # rest) =
     (if t = 0 then Some ([], rest)
      else case rest of
             [] \<Rightarrow> None
           | c # rest' \<Rightarrow> map_option (\<lambda>(s, r). (char_of_byte c # s, r)) (dec_str rest'))"

lemma dec_enc_str [simp]: "dec_str (enc_str s @ rest) = Some (s, rest)"
  by (induction s) (simp_all add: enc_str_def)

definition enc_owner :: "actor_owner_record \<Rightarrow> bytes" where
  "enc_owner r = (case owner r of
       None \<Rightarrow> [0] @ enc_str [] @ enc_str []
     | Some ow \<Rightarrow> [1] @ enc_str (ao_node_id ow) @ enc_str (ao_session_id ow))
     @ enc_str (show_nat (unat (ownership_epoch r)))"

definition dec_owner :: "bytes \<Rightarrow> actor_owner_record option" where
  "dec_owner bs =
     (case bs of
        [] \<Rightarrow> None
      | flag # rest \<Rightarrow>
          (case dec_str rest of
             None \<Rightarrow> None
           | Some (n, rest1) \<Rightarrow>
               (case dec_str rest1 of
                  None \<Rightarrow> None
                | Some (i, rest2) \<Rightarrow>
                    (case dec_str rest2 of
                       None \<Rightarrow> None
                     | Some (e, _) \<Rightarrow>
                         map_option (\<lambda>k.
                           \<lparr>owner = (if flag = 0 then None else Some \<lparr>ao_node_id = n, ao_session_id = i\<rparr>),
                            ownership_epoch = word_of_nat k\<rparr>) (parse_unsigned (2 ^ 64 - 1) e)))))"

lemma dec_enc_owner [simp]: "dec_owner (enc_owner r) = Some r"
proof -
  have u: "unat (ownership_epoch r) \<le> 2 ^ 64 - 1"
    using unat_le_max [of "ownership_epoch r"] by simp
  have d: "dec_str (enc_str x) = Some (x, [])" for x using dec_enc_str [of x "[]"] by simp
  show ?thesis
    using u by (cases r; cases "owner r") (simp_all add: enc_owner_def dec_owner_def d)
qed

text \<open>Leases are not decoded by anything verified here.\<close>

definition demo_codec :: json_codec where
  "demo_codec = \<lparr>js_lease_to_vec = (\<lambda>_. None), js_lease_from_slice = (\<lambda>_. None),
     js_owner_to_vec = (\<lambda>r. Some (enc_owner r)), js_owner_from_slice = dec_owner\<rparr>"

section \<open>An in-memory bucket with other writers\<close>

text \<open>
  Before each request a batch of conditional writes by other nodes is applied; \<open>bw_lost\<close> says
  which answers to a write are lost after it took effect.
\<close>

record bucket_world =
  bw_objects :: "(string \<times> string, object_history) hmap"
  bw_foreign :: "(actor_address \<times> actor_owner_record \<times> revision option) list list"
  bw_lost :: "bool list"

definition bucket_hist :: "bucket_world \<Rightarrow> string \<Rightarrow> string \<Rightarrow> object_history" where
  "bucket_hist w b k = (case hm_get (bw_objects w) (b, k) of None \<Rightarrow> [] | Some h \<Rightarrow> h)"

definition as_precondition :: "revision option \<Rightarrow> precondition" where
  "as_precondition rvn = (case rvn of None \<Rightarrow> IfNoneMatchAny | Some r \<Rightarrow> IfMatch r)"

text \<open>The ETag of a version is determined by its bytes.\<close>

definition etag_of :: "bytes \<Rightarrow> string" where
  "etag_of body = map char_of_byte body"

lemma char_of_byte_inject [simp]: "char_of_byte b = char_of_byte c \<longleftrightarrow> b = c"
proof -
  have "unat b < 256" "unat c < 256" using unsigned_less [of b] unsigned_less [of c] by simp_all
  then show ?thesis
    by (auto simp: char_of_byte_def char_of_eq_iff take_bit_eq_mod word_unat_eq_iff)
qed

lemma etag_of_inject [simp]: "etag_of b = etag_of c \<longleftrightarrow> b = c"
  by (auto simp: etag_of_def inj_map_eq_map inj_on_def)

definition write_object ::
  "string \<Rightarrow> string \<Rightarrow> bytes \<Rightarrow> precondition \<Rightarrow> bucket_world \<Rightarrow> string option \<times> bucket_world" where
  "write_object b k body pre w =
     (let h = bucket_hist w b k; etag = etag_of body in
      if pre_holds pre h
      then (Some etag, w\<lparr>bw_objects := hm_insert (b, k) (Some (body, etag) # h) (bw_objects w)\<rparr>)
      else (None, w))"

definition run_foreign :: "s3_store \<Rightarrow> bucket_world \<Rightarrow> bucket_world" where
  "run_foreign s w =
     fold (\<lambda>(a, r, rvn) w. snd (write_object (s3_bucket s) (actor_key s a) (enc_owner r) (as_precondition rvn) w))
       (concat (take 1 (bw_foreign w))) (w\<lparr>bw_foreign := drop 1 (bw_foreign w)\<rparr>)"

definition demo_client :: "s3_store \<Rightarrow> bucket_world s3_client" where
  "demo_client s =
     \<lparr>s3_get_object = (\<lambda>b k w. let w1 = run_foreign s w in
        case object_now (bucket_hist w1 b k) of
          None \<Rightarrow> (Err \<lparr>sdk_status = Some 404, sdk_service = Some NoSuchKey\<rparr>, w1)
        | Some (body, etag) \<Rightarrow> (Ok \<lparr>go_e_tag = Some etag, go_body = Some body\<rparr>, w1)),
      s3_put_object = (\<lambda>b k body pre w. let w1 = run_foreign s w in
        case write_object b k body pre w1 of
          (None, w2) \<Rightarrow> (Err \<lparr>sdk_status = Some 412, sdk_service = Some OtherServiceError\<rparr>, w2)
        | (Some etag, w2) \<Rightarrow>
            if is_some_and id (newest (bw_lost w2))
            then (Err \<lparr>sdk_status = None, sdk_service = None\<rparr>, w2\<lparr>bw_lost := drop 1 (bw_lost w2)\<rparr>)
            else (Ok (Some etag), w2\<lparr>bw_lost := drop 1 (bw_lost w2)\<rparr>)),
      s3_delete_object = (\<lambda>b k etag w. (Err \<lparr>sdk_status = Some 412, sdk_service = Some OtherServiceError\<rparr>, w)),
      s3_list_objects_v2 = (\<lambda>b p token w.
        (Ok \<lparr>lo_contents = [], lo_is_truncated = Some False, lo_next_continuation_token = None\<rparr>, w))\<rparr>"

definition content_tagged :: "object_history \<Rightarrow> bool" where
  "content_tagged h \<longleftrightarrow> (\<forall>e \<in> set h. \<exists>body. e = Some (body, etag_of body))"

definition bucket_ok :: "s3_store \<Rightarrow> bucket_world \<Rightarrow> bool" where
  "bucket_ok s w \<longleftrightarrow>
     (\<forall>b k. content_tagged (bucket_hist w b k))
     \<and> (\<forall>a. \<forall>e \<in> set (bucket_hist w (s3_bucket s) (actor_key s a)). fst (the e) \<in> range enc_owner)"

definition bucket_fits :: "s3_store \<Rightarrow> string \<Rightarrow> bytes \<Rightarrow> bool" where
  "bucket_fits s k body \<longleftrightarrow> (\<forall>a. k = actor_key s a \<longrightarrow> body \<in> range enc_owner)"

lemma content_tagged_simps [simp]: "content_tagged []" "content_tagged (e # h) \<longleftrightarrow> (\<exists>body. e = Some (body, etag_of body)) \<and> content_tagged h"
  by (auto simp: content_tagged_def)

lemma bucket_hist_insert:
  "bucket_hist (w\<lparr>bw_objects := hm_insert (b, k) h (bw_objects w)\<rparr>) b' k' =
     (if b' = b \<and> k' = k then h else bucket_hist w b' k')"
  by (simp add: bucket_hist_def)

lemma write_object_extends:
  assumes "write_object b k body pre w = (x, w')" and "bucket_ok s w" and "bucket_fits s k body"
  shows "bucket_ok s w' \<and> suffix (bucket_hist w b' k') (bucket_hist w' b' k')"
  using assms
  by (auto simp: write_object_def Let_def bucket_ok_def bucket_fits_def bucket_hist_insert suffix_ConsI
      split: if_splits)

lemma write_object_applied:
  "write_object b k body pre w = (Some etag, w') \<Longrightarrow>
     pre_holds pre (bucket_hist w b k) \<and> bucket_hist w' b k = Some (body, etag) # bucket_hist w b k"
  by (auto simp: write_object_def Let_def bucket_hist_insert split: if_splits)

lemma run_foreign_extends:
  assumes "bucket_ok s w"
  shows "bucket_ok s (run_foreign s w) \<and> suffix (bucket_hist w b k) (bucket_hist (run_foreign s w) b k)"
proof -
  let ?f = "\<lambda>(a, r, rvn) w. snd (write_object (s3_bucket s) (actor_key s a) (enc_owner r) (as_precondition rvn) w)"
  have step: "bucket_ok s (?f x w) \<and> suffix (bucket_hist w b k) (bucket_hist (?f x w) b k)" if "bucket_ok s w" for x w
  proof -
    obtain a r rvn where x: "x = (a, r, rvn)" by (metis prod_cases3)
    obtain y w' where wr: "write_object (s3_bucket s) (actor_key s a) (enc_owner r) (as_precondition rvn) w = (y, w')"
      by (meson surj_pair)
    have "bucket_fits s (actor_key s a) (enc_owner r)" by (simp add: bucket_fits_def)
    from write_object_extends [OF wr that this] show ?thesis by (simp add: x wr)
  qed
  have all: "bucket_ok s (fold ?f xs w) \<and> suffix (bucket_hist w b k) (bucket_hist (fold ?f xs w) b k)"
    if "bucket_ok s w" for xs w
    using that
  proof (induction xs arbitrary: w)
    case (Cons x xs)
    note one = step [OF Cons.prems, of x]
    note rest = Cons.IH [OF conjunct1 [OF one]]
    show ?case
      using conjunct1 [OF rest] suffix_order.trans [OF conjunct2 [OF one] conjunct2 [OF rest]] by simp
  qed simp
  have w0: "bucket_ok s (w\<lparr>bw_foreign := fs\<rparr>)" and h0: "bucket_hist (w\<lparr>bw_foreign := fs\<rparr>) b k = bucket_hist w b k" for fs
    using assms by (simp_all add: bucket_ok_def bucket_hist_def)
  show ?thesis
    using all [OF w0 [of "drop 1 (bw_foreign w)"], of "concat (take 1 (bw_foreign w))"]
    by (simp only: run_foreign_def h0)
qed

lemma bucket_hist_lost [simp]: "bucket_hist (w\<lparr>bw_lost := l\<rparr>) = bucket_hist w" "bucket_ok s (w\<lparr>bw_lost := l\<rparr>) = bucket_ok s w"
  by (simp_all add: bucket_ok_def bucket_hist_def [abs_def])

lemma demo_get:
  assumes "s3_get_object (demo_client s) b k w = (x, w')" and "bucket_ok s w"
  shows "bucket_ok s w' \<and> suffix (bucket_hist w b' k') (bucket_hist w' b' k')"
    and "(case object_now (bucket_hist w' b k) of
            None \<Rightarrow> (Err \<lparr>sdk_status = Some 404, sdk_service = Some NoSuchKey\<rparr>)
          | Some (body, etag) \<Rightarrow> Ok \<lparr>go_e_tag = Some etag, go_body = Some body\<rparr>) = x"
  using assms run_foreign_extends [OF assms(2)] by (auto simp: demo_client_def Let_def split: option.splits)

lemma demo_put:
  assumes "s3_put_object (demo_client s) b k body pre w = (y, w')"
  shows "\<exists>z w2. write_object b k body pre (run_foreign s w) = (z, w2) \<and> bucket_hist w' = bucket_hist w2
     \<and> bucket_ok s w' = bucket_ok s w2 \<and> (\<forall>etag. y = Ok (Some etag) \<longrightarrow> z = Some etag)"
proof -
  obtain z w2 where "write_object b k body pre (run_foreign s w) = (z, w2)" by (meson surj_pair)
  then show ?thesis using assms by (auto simp: demo_client_def Let_def split: option.splits if_splits)
qed

interpretation demo: s3_owners "demo_client s" bucket_hist "bucket_ok s" "bucket_fits s" demo_codec s for s
proof
  fix b k w x w' b' k'
  assume "s3_get_object (demo_client s) b k w = (x, w')" and "bucket_ok s w"
  then show "bucket_ok s w' \<and> suffix (bucket_hist w b' k') (bucket_hist w' b' k')" by (rule demo_get(1))
next
  fix b k w out w'
  assume g: "s3_get_object (demo_client s) b k w = (Ok out, w')" "bucket_ok s w"
  then show "\<exists>h body etag. suffix (bucket_hist w b k) h \<and> suffix h (bucket_hist w' b k)
      \<and> object_now h = Some (body, etag) \<and> go_e_tag out = Some etag \<and> (go_body out = None \<or> go_body out = Some body)"
    using demo_get [OF g] by (intro exI [of _ "bucket_hist w' b k"]) (auto split: option.splits)
next
  fix b k w e w'
  assume g: "s3_get_object (demo_client s) b k w = (Err e, w')" "bucket_ok s w"
  then show "\<exists>h. suffix (bucket_hist w b k) h \<and> suffix h (bucket_hist w' b k) \<and> object_now h = None"
    using demo_get [OF g] by (intro exI [of _ "bucket_hist w' b k"]) (auto split: option.splits)
next
  fix b k body pre w y w' b' k'
  assume p: "s3_put_object (demo_client s) b k body pre w = (y, w')" and ok: "bucket_ok s w"
    and fits: "bucket_fits s k body"
  from demo_put [OF p] show "bucket_ok s w' \<and> suffix (bucket_hist w b' k') (bucket_hist w' b' k')"
    using write_object_extends [OF _ _ fits] run_foreign_extends [OF ok] by (metis suffix_order.trans)
next
  fix b k body pre w etag w'
  assume p: "s3_put_object (demo_client s) b k body pre w = (Ok (Some etag), w')" and ok: "bucket_ok s w"
  from demo_put [OF p] show "\<exists>h. suffix (bucket_hist w b k) h \<and> pre_holds pre h \<and> suffix (Some (body, etag) # h) (bucket_hist w' b k)"
    using write_object_applied run_foreign_extends [OF ok]
    by (intro exI [of _ "bucket_hist (run_foreign s w) b k"]) fastforce
next
  fix r body a
  assume "js_owner_to_vec demo_codec r = Some body"
  then show "js_owner_from_slice demo_codec body = Some r" "bucket_fits s (actor_key s a) body"
    by (auto simp: demo_codec_def bucket_fits_def)
next
  fix w e a
  assume "bucket_ok s w" and "e \<in> set (bucket_hist w (s3_bucket s) (actor_key s a))"
  then have "\<exists>body. e = Some (body, etag_of body)" "fst (the e) \<in> range enc_owner"
    by (auto simp: bucket_ok_def content_tagged_def)
  then show "\<exists>r body etag. e = Some (body, etag) \<and> js_owner_to_vec demo_codec r = Some body"
    by (auto simp: demo_codec_def)
qed


section \<open>Properties\<close>

text \<open>
  C13. The S3 store refines the linearizable ownership store against which resolution and
  release are verified: every read returns the newest record at some moment of the call, and a
  conditional write reported as applied replaced, at some moment of the call, exactly the
  revision it named.  The hypotheses on the bucket: its reads and conditional writes are
  linearizable; decoding gives back what was encoded; and the ownership objects are written
  by nodes only (the key prefix belongs to the deployment, and the code never deletes one).
  Nothing is asked of the ETags: equal objects may have equal tags.
\<close>

theorem s3_implements_owner_store:
  assumes "s3_owners C H ok fits J s"
  shows "owner_store (s3_coordination_store fuel C J K s) (owner_hist J s H) ok"
  using s3_owners.implements [OF assms] .

definition demo_store :: s3_store where
  "demo_store = \<lparr>s3_bucket = ''bucket'', s3_prefix = ''coactor/prod'', s3_directory_refresh_interval = from_secs 3,
     s3_directory_cache = \<lparr>dc_nodes = [], dc_refresh_at = None\<rparr>\<rparr>"

definition still_clocks :: "'w clocks" where
  "still_clocks = \<lparr>ck_unix_ms = (\<lambda>_. 0), ck_now = (\<lambda>_. 0)\<rparr>"

theorem s3_implements_owner_store_witness:
  "owner_store (s3_coordination_store 1 (demo_client demo_store) demo_codec still_clocks demo_store)
     (owner_hist demo_codec demo_store bucket_hist) (bucket_ok demo_store)"
  by (rule s3_implements_owner_store [OF demo.s3_owners_axioms])

theorem s3_keys_injective_witness:
  "actor_key demo_store \<lparr>actor_type = ''room'', actor_id = ''a''\<rparr>
     \<noteq> actor_key demo_store \<lparr>actor_type = ''room'', actor_id = ''b''\<rparr>"
  using s3_keys_injective [of "\<lparr>actor_type = ''room'', actor_id = ''a''\<rparr>"
      "\<lparr>actor_type = ''room'', actor_id = ''b''\<rparr>" demo_store]
  by (simp add: valid_address_def is_dns_label_def first_char_def last_char_def is_ascii_alphanumeric_def
      is_ascii_lowercase_def is_ascii_digit_def)

end
