(* ===== verification/S3_Leases.thy ===== *)
theory S3_Leases
  imports S3_Refinement
begin

text \<open>
  Node leases over S3: what \<open>acquire_node\<close>, \<open>renew_node\<close> and \<open>release_node\<close> do to the lease object
  of a node when they report success.  These are the guards and effects of the steps of
  \<open>Lease_Protocol\<close>.  \<open>s3_leases\<close> adds to the bucket that an ETag determines the content it was
  given for.
\<close>

locale s3_leases = s3_objects C H ok fits
  for C :: "'w s3_client" and H :: "'w \<Rightarrow> string \<Rightarrow> string \<Rightarrow> object_history"
    and ok :: "'w \<Rightarrow> bool" and fits :: "string \<Rightarrow> bytes \<Rightarrow> bool" +
  fixes J :: json_codec and s :: s3_store
  assumes lease_fits: "js_lease_to_vec J l = Some body \<Longrightarrow> fits (node_key s n) body"
    and etag_content: "ok w \<Longrightarrow> Some (b1, e) \<in> set (H w (s3_bucket s) (node_key s n)) \<Longrightarrow>
      Some (b2, e) \<in> set (H w (s3_bucket s) (node_key s n)) \<Longrightarrow> b1 = b2"
begin

abbreviation leases :: "'w \<Rightarrow> string \<Rightarrow> object_history" where
  "leases w n \<equiv> H w (s3_bucket s) (node_key s n)"

lemma object_now_mem: "object_now h = Some x \<Longrightarrow> Some x \<in> set h"
  by (cases h) (auto simp: object_now_def)

lemma put_node_applied:
  assumes "put_node C J K s node ttl rvn w = (Ok (Applied etag), w')" and "ok w"
  shows "\<exists>h body. suffix (leases w (nr_node_id node)) h
    \<and> map_option snd (object_now h) = rvn
    \<and> suffix (Some (body, etag) # h) (leases w' (nr_node_id node)) \<and> ok w'
    \<and> js_lease_to_vec J \<lparr>sl_node = node, sl_expires_at_unix_ms = lease_expiry (wall_time_millis K w) ttl\<rparr> = Some body"
proof -
  let ?pre = "case rvn of None \<Rightarrow> IfNoneMatchAny | Some r \<Rightarrow> IfMatch r"
  obtain body where b: "js_lease_to_vec J \<lparr>sl_node = node,
      sl_expires_at_unix_ms = lease_expiry (wall_time_millis K w) ttl\<rparr> = Some body"
    using assms(1) by (auto simp: put_node_def put_object_def split: option.splits)
  then have p: "s3_put_object C (s3_bucket s) (node_key s (nr_node_id node)) body ?pre w = (Ok (Some etag), w')"
    using assms(1)
    by (auto simp: put_node_def put_object_def classify_write_error_def
        split: prod.splits sum.splits option.splits if_splits)
  note fit = lease_fits [OF b]
  obtain h where h: "suffix (leases w (nr_node_id node)) h" "pre_holds ?pre h"
    "suffix (Some (body, etag) # h) (leases w' (nr_node_id node))"
    using put_applied [OF p assms(2) fit] by blast
  have "map_option snd (object_now h) = rvn" using h(2) by (cases rvn) auto
  then show ?thesis using h(1,3) b put_extends [OF p assms(2) fit] by blast
qed

lemma read_node_key_found:
  assumes "read_node_key C J K s n True w = (Ok (Some (node, etag, e)), w')" and "ok w"
  shows "ok w' \<and> suffix (leases w n) (leases w' n)
    \<and> (\<exists>body lease. Some (body, etag) \<in> set (leases w' n)
         \<and> js_lease_from_slice J body = Some lease \<and> sl_expires_at_unix_ms lease = e)"
proof -
  obtain lease where g: "get_object C s (js_lease_from_slice J) (node_key s n) w = (Ok (Some (lease, etag)), w')"
    and e: "sl_expires_at_unix_ms lease = e"
    using assms(1) by (auto simp: read_node_key_def split: prod.splits sum.splits option.splits)
  obtain out body where o: "s3_get_object C (s3_bucket s) (node_key s n) w = (Ok out, w')"
    "go_e_tag out = Some etag" "go_body out = Some body" "js_lease_from_slice J body = Some lease"
    using g by (auto simp: get_object_def split: prod.splits sum.splits option.splits if_splits)
  obtain h where "suffix h (leases w' n)" "object_now h = Some (body, etag)"
    using get_found [OF o(1) assms(2)] o(2,3) by auto
  then have "Some (body, etag) \<in> set (leases w' n)"
    using object_now_mem set_mono_suffix by blast
  then show ?thesis using o(4) e get_extends [OF o(1) assms(2)] by blast
qed

lemma read_node_key_None:
  assumes "read_node_key C J K s n True w = (Ok None, w')" and "ok w"
  shows "ok w' \<and> suffix (leases w n) (leases w' n)"
proof -
  obtain y where "s3_get_object C (s3_bucket s) (node_key s n) w = (y, w')"
    using assms(1)
    by (auto simp: read_node_key_def get_object_def split: prod.splits sum.splits option.splits if_splits)
  then show ?thesis using get_extends [OF _ assms(2)] by blast
qed

lemma acquire_applied:
  assumes "s3_acquire_node C J K s node ttl w = (Ok (Applied etag), w')" and "ok w"
  shows "\<exists>h body w1. suffix (leases w (nr_node_id node)) h
    \<and> suffix (Some (body, etag) # h) (leases w' (nr_node_id node))
    \<and> js_lease_to_vec J \<lparr>sl_node = node, sl_expires_at_unix_ms = lease_expiry (wall_time_millis K w1) ttl\<rparr> = Some body
    \<and> (case object_now h of
         None \<Rightarrow> True
       | Some (old, _) \<Rightarrow> (\<exists>lease. js_lease_from_slice J old = Some lease
            \<and> sl_expires_at_unix_ms lease \<le> wall_time_millis K w1))"
proof -
  let ?n = "nr_node_id node"
  obtain r w1 where rd: "read_node_key C J K s ?n True w = (Ok r, w1)"
    using assms(1) by (auto simp: s3_acquire_node_def split: prod.splits sum.splits)
  show ?thesis
  proof (cases r)
    case None
    note ext = read_node_key_None [OF rd [unfolded None] assms(2)]
    have put: "put_node C J K s node ttl None w1 = (Ok (Applied etag), w')"
      using assms(1) rd None by (simp add: s3_acquire_node_def)
    obtain h body where h: "suffix (leases w1 ?n) h" "map_option snd (object_now h) = None"
      "suffix (Some (body, etag) # h) (leases w' ?n)"
      "js_lease_to_vec J \<lparr>sl_node = node, sl_expires_at_unix_ms = lease_expiry (wall_time_millis K w1) ttl\<rparr> = Some body"
      using put_node_applied [OF put conjunct1 [OF ext]] by (elim exE conjE) (rule that)
    have "suffix (leases w ?n) h" using suffix_order.trans [OF _ h(1)] ext by blast
    then show ?thesis
      using h(2-4) by (intro exI [of _ h] exI [of _ body] exI [of _ w1]) simp
  next
    case (Some p)
    obtain m rvn e where p: "p = (m, rvn, e)" by (metis prod_cases3)
    have e: "e \<le> wall_time_millis K w1" and put: "put_node C J K s node ttl (Some rvn) w1 = (Ok (Applied etag), w')"
      using assms(1) rd Some p by (auto simp: s3_acquire_node_def split: if_splits)
    obtain body0 lease where ext: "ok w1" "suffix (leases w ?n) (leases w1 ?n)"
      and l: "Some (body0, rvn) \<in> set (leases w1 ?n)" "js_lease_from_slice J body0 = Some lease"
        "sl_expires_at_unix_ms lease = e"
      using read_node_key_found [OF rd [unfolded Some p] assms(2)] by blast
    obtain h body where h: "suffix (leases w1 ?n) h" "map_option snd (object_now h) = Some rvn"
      "suffix (Some (body, etag) # h) (leases w' ?n)" "ok w'"
      "js_lease_to_vec J \<lparr>sl_node = node, sl_expires_at_unix_ms = lease_expiry (wall_time_millis K w1) ttl\<rparr> = Some body"
      using put_node_applied [OF put ext(1)] by blast
    obtain old where old: "object_now h = Some (old, rvn)" using h(2) by auto
    have sub: "set h \<subseteq> set (leases w' ?n)" "set (leases w1 ?n) \<subseteq> set h"
      using set_mono_suffix [OF h(3)] set_mono_suffix [OF h(1)] by auto
    then have "old = body0"
      using etag_content [OF h(4), of old rvn ?n body0] object_now_mem [OF old] l(1) by blast
    moreover have "suffix (leases w ?n) h" using suffix_order.trans [OF ext(2) h(1)] .
    ultimately show ?thesis
      using h(3,5) old l(2,3) e by (intro exI [of _ h] exI [of _ body] exI [of _ w1]) auto
  qed
qed

end

section \<open>A lease encoding\<close>

definition enc_bool :: "bool \<Rightarrow> string" where
  "enc_bool b = (if b then ''1'' else ''0'')"

definition enc_lease :: "stored_node_lease \<Rightarrow> bytes" where
  "enc_lease l = (let n = sl_node l in concat (map enc_str
     [nr_session_id n, nr_advertised_endpoint n, show_nat (unat (nr_protocol_version n)),
      show_nat (unat (nr_lease_generation n)), show_nat (unat (nr_sampled_at_unix_ms n)),
      show_nat (unat (nr_active_actor_count n)), show_nat (unat (nr_max_actor_count n)),
      enc_bool (nr_pressured n), enc_bool (nr_draining n), show_nat (unat (sl_expires_at_unix_ms l))]))"

fun dec_strs :: "nat \<Rightarrow> bytes \<Rightarrow> string list option" where
  "dec_strs 0 bs = Some []"
| "dec_strs (Suc n) bs =
     (case dec_str bs of None \<Rightarrow> None | Some (x, rest) \<Rightarrow> map_option (\<lambda>xs. x # xs) (dec_strs n rest))"

text \<open>\<open>node_id\<close> is \<open>serde(skip)\<close>: it is empty after decoding and set by the reader.\<close>

definition dec_lease :: "bytes \<Rightarrow> stored_node_lease option" where
  "dec_lease bs =
     (case dec_strs 10 bs of
        Some [sid, ep, pv, gen, at_ms, act, mx, pr, dr, ex] \<Rightarrow>
          Some \<lparr>sl_node = \<lparr>nr_node_id = [], nr_session_id = sid, nr_advertised_endpoint = ep,
                  nr_protocol_version = word_of_nat (digits_value pv),
                  nr_lease_generation = word_of_nat (digits_value gen),
                  nr_sampled_at_unix_ms = word_of_nat (digits_value at_ms),
                  nr_active_actor_count = word_of_nat (digits_value act),
                  nr_max_actor_count = word_of_nat (digits_value mx),
                  nr_pressured = (pr = ''1''), nr_draining = (dr = ''1'')\<rparr>,
                sl_expires_at_unix_ms = word_of_nat (digits_value ex)\<rparr>
      | _ \<Rightarrow> None)"

lemma dec_enc_strs: "dec_strs (length xs) (concat (map enc_str xs)) = Some xs"
  by (induction xs) simp_all

lemma dec_enc_lease: "dec_lease (enc_lease l) = Some (l\<lparr>sl_node := (sl_node l)\<lparr>nr_node_id := []\<rparr>\<rparr>)"
proof -
  define xs where "xs = (let n = sl_node l in
     [nr_session_id n, nr_advertised_endpoint n, show_nat (unat (nr_protocol_version n)),
      show_nat (unat (nr_lease_generation n)), show_nat (unat (nr_sampled_at_unix_ms n)),
      show_nat (unat (nr_active_actor_count n)), show_nat (unat (nr_max_actor_count n)),
      enc_bool (nr_pressured n), enc_bool (nr_draining n), show_nat (unat (sl_expires_at_unix_ms l))])"
  have "enc_lease l = concat (map enc_str xs)" "length xs = 10"
    by (simp_all add: enc_lease_def xs_def Let_def)
  then have "dec_strs 10 (enc_lease l) = Some xs" using dec_enc_strs [of xs] by simp
  then show ?thesis by (simp add: dec_lease_def xs_def Let_def enc_bool_def)
qed

definition lease_codec :: json_codec where
  "lease_codec = demo_codec\<lparr>js_lease_to_vec := (\<lambda>l. Some (enc_lease l)), js_lease_from_slice := dec_lease\<rparr>"

lemma node_key_not_actor_key: "node_key s n \<noteq> actor_key s a"
  by (simp add: node_key_def actor_key_def)

interpretation demo_leases: s3_leases "demo_client s" bucket_hist "bucket_ok s" "bucket_fits s" lease_codec s for s
proof
  fix l body n
  show "bucket_fits s (node_key s n) body" using node_key_not_actor_key by (simp add: bucket_fits_def)
next
  fix w b1 e n b2
  assume "bucket_ok s w" and "Some (b1, e) \<in> set (bucket_hist w (s3_bucket s) (node_key s n))"
    and "Some (b2, e) \<in> set (bucket_hist w (s3_bucket s) (node_key s n))"
  then have "\<exists>body. Some (b1, e) = Some (body, etag_of body)" "\<exists>body. Some (b2, e) = Some (body, etag_of body)"
    unfolding bucket_ok_def content_tagged_def by blast+
  then show "b1 = b2" by simp
qed

section \<open>Properties\<close>

text \<open>
  C18. A node lease in S3 is taken only when it is absent or expired: if \<open>acquire_node\<close> reports
  success, then at the moment of its write the lease object did not exist or held a lease
  that had expired by the caller's wall clock, and the write replaced exactly that state with the caller's record
  and a fresh expiry.
\<close>

theorem s3_acquire_takes_only_expired:
  assumes "s3_leases C H ok fits J s" and "ok w"
    and "s3_acquire_node C J K s node ttl w = (Ok (Applied etag), w')"
  shows "\<exists>h body w1. suffix (H w (s3_bucket s) (node_key s (nr_node_id node))) h
    \<and> suffix (Some (body, etag) # h) (H w' (s3_bucket s) (node_key s (nr_node_id node)))
    \<and> js_lease_to_vec J \<lparr>sl_node = node, sl_expires_at_unix_ms = lease_expiry (wall_time_millis K w1) ttl\<rparr> = Some body
    \<and> (case object_now h of
         None \<Rightarrow> True
       | Some (old, _) \<Rightarrow> (\<exists>lease. js_lease_from_slice J old = Some lease
            \<and> sl_expires_at_unix_ms lease \<le> wall_time_millis K w1))"
  using s3_leases.acquire_applied [OF assms(1,3,2)] .

text \<open>Session \<open>b\<close> takes over a lease of session \<open>a\<close> that expired at 5 ms, at one second.\<close>

definition lease_of :: "node_session_id \<Rightarrow> node_record" where
  "lease_of sid = \<lparr>nr_node_id = ''node-1'', nr_session_id = sid, nr_advertised_endpoint = ''node-1:70'',
     nr_protocol_version = 1, nr_lease_generation = 0, nr_sampled_at_unix_ms = 0, nr_active_actor_count = 0,
     nr_max_actor_count = 10, nr_pressured = False, nr_draining = False\<rparr>"

definition lease_bytes :: "node_session_id \<Rightarrow> u64 \<Rightarrow> bytes" where
  "lease_bytes sid expiry = enc_lease \<lparr>sl_node = lease_of sid, sl_expires_at_unix_ms = expiry\<rparr>"

definition expired_bucket :: bucket_world where
  "expired_bucket = \<lparr>bw_objects = [((s3_bucket demo_store, node_key demo_store ''node-1''),
       [Some (lease_bytes ''a'' 5, etag_of (lease_bytes ''a'' 5))])],
     bw_foreign = [], bw_lost = []\<rparr>"

definition second_clock :: "bucket_world clocks" where
  "second_clock = \<lparr>ck_unix_ms = (\<lambda>_. 1000), ck_now = (\<lambda>_. 0)\<rparr>"

lemma expired_bucket_hist:
  "bucket_hist expired_bucket (s3_bucket demo_store) (node_key demo_store ''node-1'') =
     [Some (lease_bytes ''a'' 5, etag_of (lease_bytes ''a'' 5))]"
  by (simp add: bucket_hist_def expired_bucket_def)

lemma expired_bucket_ok: "bucket_ok demo_store expired_bucket"
proof -
  have "bucket_hist expired_bucket b k = []" if "\<not> (b = s3_bucket demo_store \<and> k = node_key demo_store ''node-1'')" for b k
    using that by (auto simp: bucket_hist_def expired_bucket_def)
  then have "content_tagged (bucket_hist expired_bucket b k)" for b k
    by (cases "b = s3_bucket demo_store \<and> k = node_key demo_store ''node-1''") (auto simp: expired_bucket_hist)
  moreover have "bucket_hist expired_bucket (s3_bucket demo_store) (actor_key demo_store a) = []" for a
    using node_key_not_actor_key [of demo_store "''node-1''" a] by (simp add: bucket_hist_def expired_bucket_def)
  ultimately show ?thesis by (simp add: bucket_ok_def)
qed

lemma takeover_applies:
  "\<exists>w'. s3_acquire_node (demo_client demo_store) lease_codec second_clock demo_store (lease_of ''b'') (from_secs 10)
     expired_bucket = (Ok (Applied (etag_of (lease_bytes ''b'' 11000))), w')"
proof -
  have f: "run_foreign demo_store expired_bucket = expired_bucket"
    by (simp add: run_foreign_def expired_bucket_def)
  have n: "nr_node_id (lease_of ''b'') = ''node-1''" by (simp add: lease_of_def)
  have "read_node_key (demo_client demo_store) lease_codec second_clock demo_store ''node-1'' True expired_bucket
      = (Ok (Some ((lease_of ''a'')\<lparr>nr_node_id := ''node-1''\<rparr>, etag_of (lease_bytes ''a'' 5), 5)), expired_bucket)"
    by (simp add: read_node_key_def get_object_def demo_client_def f expired_bucket_hist object_now_def
        lease_codec_def dec_enc_lease lease_bytes_def)
  then show ?thesis
    by (simp add: s3_acquire_node_def n second_clock_def wall_time_millis_def millis_u64_def put_node_def put_object_def
        lease_codec_def demo_client_def f write_object_def expired_bucket_hist object_now_def Let_def)
      (simp add: expired_bucket_def lease_bytes_def lease_expiry_def from_secs_def saturating_add_def millis_u64_def as_millis_def)
qed

theorem s3_acquire_takes_only_expired_witness:
  "\<exists>w' h body w1. s3_acquire_node (demo_client demo_store) lease_codec second_clock demo_store (lease_of ''b'')
       (from_secs 10) expired_bucket = (Ok (Applied (etag_of (lease_bytes ''b'' 11000))), w')
     \<and> suffix (Some (body, etag_of (lease_bytes ''b'' 11000)) # h) (bucket_hist w' (s3_bucket demo_store) (node_key demo_store ''node-1''))
     \<and> (case object_now h of
         None \<Rightarrow> True
       | Some (old, _) \<Rightarrow> (\<exists>lease. js_lease_from_slice lease_codec old = Some lease
            \<and> sl_expires_at_unix_ms lease \<le> wall_time_millis second_clock w1))"
proof -
  obtain w' where run: "s3_acquire_node (demo_client demo_store) lease_codec second_clock demo_store (lease_of ''b'')
      (from_secs 10) expired_bucket = (Ok (Applied (etag_of (lease_bytes ''b'' 11000))), w')" using takeover_applies by blast
  have n: "nr_node_id (lease_of ''b'') = ''node-1''" by (simp add: lease_of_def)
  note t = s3_acquire_takes_only_expired [OF demo_leases.s3_leases_axioms expired_bucket_ok run, unfolded n]
  show ?thesis
    by (rule exE [OF t], elim exE conjE, intro exI conjI, rule run)
qed

end
