(* ===== verification/Lease_Protocol.thy ===== *)
theory Lease_Protocol
  imports S3_Store Node_Authority
begin

text \<open>
  The Node Lease protocol between the node sessions that compete for one Node ID, over the S3
  store.  A session notes the start of an operation on its monotonic clock, computes the expiry
  from its wall clock (\<open>put_node\<close>), writes conditionally, and, once it learns that the write
  took effect, trusts its authority for one TTL from the noted start
  (\<open>NodeAuthority::new\<close>/\<open>renew\<close>).  A lease that names another session may only be replaced once
  it has expired by the wall clock of the new one (\<open>acquire_node\<close>).  Monotonic clocks run at
  one rate; wall clocks differ from true time by at most \<open>skew\<close>.
\<close>

section \<open>States and steps\<close>

text \<open>
  \<open>lw_starts\<close> lists, for the writes that took effect, the session and the start of its
  operation; \<open>lw_lost\<close> when a session's lease was replaced.  A session releases its lease
  (\<open>ClusterTasks::shutdown\<close>) after its server has shut down, so that it has no authority left to
  speak of.
\<close>

record lease_world =
  lw_time :: nat
  lw_lease :: "(node_session_id \<times> u64) option"
  lw_authority :: "(node_session_id, node_authority) hmap"
  lw_starts :: "(node_session_id \<times> instant) list"
  lw_lost :: "(node_session_id, instant) hmap"

definition lease_world_empty :: lease_world where
  "lease_world_empty = \<lparr>lw_time = 0, lw_lease = None, lw_authority = hm_empty, lw_starts = [], lw_lost = hm_empty\<rparr>"

text \<open>A wall clock reading, in nanoseconds, at true time \<open>t\<close>.\<close>

definition reads :: "nat \<Rightarrow> nat \<Rightarrow> nat \<Rightarrow> bool" where
  "reads skew t wall \<longleftrightarrow> t \<le> wall + skew \<and> wall \<le> t + skew"

definition wall_ms :: "nat \<Rightarrow> u64" where
  "wall_ms wall = millis_u64 (as_millis wall)"

inductive lease_step :: "duration \<Rightarrow> nat \<Rightarrow> lease_world \<Rightarrow> lease_world \<Rightarrow> bool" for ttl skew where
  tick: "lw_time w \<le> t \<Longrightarrow> lease_step ttl skew w (w\<lparr>lw_time := t\<rparr>)"
| acquire_absent: "lw_lease w = None \<Longrightarrow> \<forall>t. (s, t) \<notin> set (lw_starts w) \<Longrightarrow>
     started \<le> computed \<Longrightarrow> computed \<le> lw_time w \<Longrightarrow> reads skew computed wall \<Longrightarrow>
     as_millis wall + as_millis ttl < 2 ^ 64 \<Longrightarrow>
     lease_step ttl skew w (w\<lparr>lw_lease := Some (s, lease_expiry (wall_ms wall) ttl),
       lw_starts := (s, started) # lw_starts w\<rparr>)"
| acquire_expired: "lw_lease w = Some (s', e) \<Longrightarrow> reads skew seen wall' \<Longrightarrow> seen \<le> lw_time w \<Longrightarrow>
     as_millis wall' < 2 ^ 64 \<Longrightarrow> e \<le> wall_ms wall' \<Longrightarrow> \<forall>t. (s, t) \<notin> set (lw_starts w) \<Longrightarrow>
     started \<le> computed \<Longrightarrow> computed \<le> lw_time w \<Longrightarrow> reads skew computed wall \<Longrightarrow>
     as_millis wall + as_millis ttl < 2 ^ 64 \<Longrightarrow>
     lease_step ttl skew w (w\<lparr>lw_lease := Some (s, lease_expiry (wall_ms wall) ttl),
       lw_starts := (s, started) # lw_starts w, lw_lost := hm_insert s' (lw_time w) (lw_lost w)\<rparr>)"
| renew: "lw_lease w = Some (s, e) \<Longrightarrow> \<forall>t. (s, t) \<in> set (lw_starts w) \<longrightarrow> t \<le> started \<Longrightarrow>
     started \<le> computed \<Longrightarrow> computed \<le> lw_time w \<Longrightarrow> reads skew computed wall \<Longrightarrow>
     as_millis wall + as_millis ttl < 2 ^ 64 \<Longrightarrow>
     lease_step ttl skew w (w\<lparr>lw_lease := Some (s, lease_expiry (wall_ms wall) ttl),
       lw_starts := (s, started) # lw_starts w\<rparr>)"
| learn_acquired: "(s, started) \<in> set (lw_starts w) \<Longrightarrow> hm_get (lw_authority w) s = None \<Longrightarrow>
     lease_step ttl skew w
       (w\<lparr>lw_authority := hm_insert s (NodeAuthority_new started ttl) (lw_authority w)\<rparr>)"
| learn_renewed: "(s, started) \<in> set (lw_starts w) \<Longrightarrow> hm_get (lw_authority w) s = Some a \<Longrightarrow>
     lease_step ttl skew w (w\<lparr>lw_authority := hm_insert s (authority_renew started a) (lw_authority w)\<rparr>)"
| release: "lw_lease w = Some (s, e) \<Longrightarrow>
     lease_step ttl skew w (w\<lparr>lw_lease := None, lw_authority := hm_remove s (lw_authority w),
       lw_starts := filter (\<lambda>(s', _). s' \<noteq> s) (lw_starts w)\<rparr>)"
| fence: "hm_get (lw_authority w) s = Some a \<Longrightarrow>
     lease_step ttl skew w (w\<lparr>lw_authority := hm_insert s (authority_fence a) (lw_authority w)\<rparr>)"

definition lease_reach :: "duration \<Rightarrow> nat \<Rightarrow> lease_world \<Rightarrow> bool" where
  "lease_reach ttl skew w \<longleftrightarrow> (lease_step ttl skew)\<^sup>*\<^sup>* lease_world_empty w"

section \<open>Rounding to milliseconds\<close>

text \<open>Both truncations together lose less than two milliseconds.\<close>

lemma lease_expiry_bounds:
  assumes "as_millis wall + as_millis ttl < 2 ^ 64"
  shows "unat (lease_expiry (wall_ms wall) ttl) = as_millis wall + as_millis ttl"
    and "wall + ttl < (unat (lease_expiry (wall_ms wall) ttl) + 2) * 1000000"
proof -
  have m: "unat (millis_u64 n) = n" if "n < 2 ^ 64" for n
    using that by (simp add: millis_u64_def unat_of_nat take_bit_nat_eq_self)
  show e: "unat (lease_expiry (wall_ms wall) ttl) = as_millis wall + as_millis ttl"
    using assms m [of "as_millis wall"] m [of "as_millis ttl"]
    by (simp add: lease_expiry_def wall_ms_def unat_saturating_add)
  show "wall + ttl < (unat (lease_expiry (wall_ms wall) ttl) + 2) * 1000000"
    unfolding e as_millis_def
    using div_mult_mod_eq [of wall 1000000] div_mult_mod_eq [of ttl 1000000]
      mod_less_divisor [of 1000000 wall] mod_less_divisor [of 1000000 ttl]
    by (simp only: add_mult_distrib)
qed

lemma expired_bound:
  assumes "e \<le> wall_ms wall" and "as_millis wall < 2 ^ 64"
  shows "unat e * 1000000 \<le> wall"
proof -
  have "unat e \<le> as_millis wall"
    using assms by (simp add: wall_ms_def millis_u64_def word_le_nat_alt unat_of_nat take_bit_nat_eq_self)
  then show ?thesis by (simp add: as_millis_def)
qed

section \<open>Invariant\<close>

definition overlap :: "nat \<Rightarrow> nat" where
  "overlap skew = 2000000 + 2 * skew"

text \<open>Until when the start \<open>t\<close> of an operation of \<open>s\<close> can justify its authority.\<close>

definition lost_covers ::
  "duration \<Rightarrow> nat \<Rightarrow> (node_session_id, instant) hmap \<Rightarrow> node_session_id \<Rightarrow> instant \<Rightarrow> bool" where
  "lost_covers ttl skew lost s t \<longleftrightarrow> (\<exists>l. hm_get lost s = Some l \<and> t + ttl < l + overlap skew)"

definition covers ::
  "duration \<Rightarrow> nat \<Rightarrow> (node_session_id \<times> u64) option \<Rightarrow> (node_session_id, instant) hmap
     \<Rightarrow> node_session_id \<Rightarrow> instant \<Rightarrow> bool" where
  "covers ttl skew lease lost s t \<longleftrightarrow>
     (case lease of
        Some (s', e) \<Rightarrow>
          if s' = s then t + ttl < (unat e + 2) * 1000000 + skew else lost_covers ttl skew lost s t
      | None \<Rightarrow> lost_covers ttl skew lost s t)"

definition lease_inv :: "duration \<Rightarrow> nat \<Rightarrow> lease_world \<Rightarrow> bool" where
  "lease_inv ttl skew w \<longleftrightarrow>
     (\<forall>s t. (s, t) \<in> set (lw_starts w) \<longrightarrow> covers ttl skew (lw_lease w) (lw_lost w) s t)
     \<and> (\<forall>s a. hm_get (lw_authority w) s = Some a \<longrightarrow>
          na_ttl a = ttl \<and> (\<exists>t. (s, t) \<in> set (lw_starts w) \<and> na_deadline a = t + ttl))
     \<and> (\<forall>s. hm_get (lw_lost w) s \<noteq> None \<longrightarrow>
          (\<exists>t. (s, t) \<in> set (lw_starts w)) \<and> (\<forall>e. lw_lease w \<noteq> Some (s, e)))
     \<and> (\<forall>s e. lw_lease w = Some (s, e) \<longrightarrow> (\<exists>t. (s, t) \<in> set (lw_starts w)))"

lemma lease_invI:
  assumes "\<And>s t. (s, t) \<in> set (lw_starts w) \<Longrightarrow> covers ttl skew (lw_lease w) (lw_lost w) s t"
    and "\<And>s a. hm_get (lw_authority w) s = Some a \<Longrightarrow>
           na_ttl a = ttl \<and> (\<exists>t. (s, t) \<in> set (lw_starts w) \<and> na_deadline a = t + ttl)"
    and "\<And>s. hm_get (lw_lost w) s \<noteq> None \<Longrightarrow>
           (\<exists>t. (s, t) \<in> set (lw_starts w)) \<and> (\<forall>e. lw_lease w \<noteq> Some (s, e))"
    and "\<And>s e. lw_lease w = Some (s, e) \<Longrightarrow> \<exists>t. (s, t) \<in> set (lw_starts w)"
  shows "lease_inv ttl skew w"
  unfolding lease_inv_def using assms by blast

lemma lease_invD:
  assumes "lease_inv ttl skew w"
  shows lease_inv_starts: "(s, t) \<in> set (lw_starts w) \<Longrightarrow> covers ttl skew (lw_lease w) (lw_lost w) s t"
    and lease_inv_authority: "hm_get (lw_authority w) s = Some a \<Longrightarrow>
           na_ttl a = ttl \<and> (\<exists>t. (s, t) \<in> set (lw_starts w) \<and> na_deadline a = t + ttl)"
    and lease_inv_lost: "hm_get (lw_lost w) s \<noteq> None \<Longrightarrow>
           (\<exists>t. (s, t) \<in> set (lw_starts w)) \<and> (\<forall>e. lw_lease w \<noteq> Some (s, e))"
    and lease_inv_holder: "lw_lease w = Some (s, e) \<Longrightarrow> \<exists>t. (s, t) \<in> set (lw_starts w)"
  using assms unfolding lease_inv_def by blast+

lemma covers_simps [simp]:
  "covers ttl skew None lost s t = lost_covers ttl skew lost s t"
  "covers ttl skew (Some (s', e)) lost s t =
     (if s' = s then t + ttl < (unat e + 2) * 1000000 + skew else lost_covers ttl skew lost s t)"
  by (simp_all add: covers_def)

lemma lost_covers_insert [simp]:
  "lost_covers ttl skew (hm_insert s' l lost) s t =
     (if s' = s then t + ttl < l + overlap skew else lost_covers ttl skew lost s t)"
  by (simp add: lost_covers_def)

lemma new_lease_covers:
  assumes "t \<le> computed" and "reads skew computed wall" and "as_millis wall + as_millis ttl < 2 ^ 64"
  shows "t + ttl < (unat (lease_expiry (wall_ms wall) ttl) + 2) * 1000000 + skew"
  using lease_expiry_bounds(2) [OF assms(3)] assms(1,2) unfolding reads_def by linarith

lemma expired_covers:
  assumes "t + ttl < (unat e + 2) * 1000000 + skew" and "e \<le> wall_ms wall"
    and "as_millis wall < 2 ^ 64" and "reads skew seen wall" and "seen \<le> now"
  shows "t + ttl < now + overlap skew"
  using assms(1,4,5) expired_bound [OF assms(2,3)] unfolding reads_def overlap_def add_mult_distrib
  by linarith

lemma start_adds_lease:
  assumes w: "lease_inv ttl skew w"
    and others: "\<And>s' t. (s', t) \<in> set (lw_starts w) \<Longrightarrow> s' \<noteq> s \<Longrightarrow> lost_covers ttl skew lost s' t"
    and own: "\<And>t. (s, t) \<in> set ((s, started) # lw_starts w) \<Longrightarrow>
                t + ttl < (unat e + 2) * 1000000 + skew"
    and lost: "\<And>s'. hm_get lost s' \<noteq> None \<Longrightarrow> s' \<noteq> s \<and> (\<exists>t. (s', t) \<in> set (lw_starts w))"
  shows "lease_inv ttl skew (w\<lparr>lw_lease := Some (s, e), lw_starts := (s, started) # lw_starts w,
           lw_lost := lost\<rparr>)"
proof (rule lease_invI, goal_cases)
  case (1 s' t) then show ?case using others own by (cases "s' = s") auto
next
  case (2 s' a) then show ?case using lease_inv_authority [OF w] by fastforce
next
  case (3 s') then show ?case using lost [of s'] by auto
next
  case (4 s' e') then show ?case by auto
qed

lemma acquire_expired_inv:
  assumes w: "lease_inv ttl skew w" and held: "lw_lease w = Some (s', e)"
    and gone: "\<And>t. t + ttl < (unat e + 2) * 1000000 + skew \<Longrightarrow> t + ttl < lw_time w + overlap skew"
    and fresh: "\<forall>t. (s, t) \<notin> set (lw_starts w)" and n: "started + ttl < (unat e' + 2) * 1000000 + skew"
  shows "lease_inv ttl skew (w\<lparr>lw_lease := Some (s, e'), lw_starts := (s, started) # lw_starts w,
           lw_lost := hm_insert s' (lw_time w) (lw_lost w)\<rparr>)"
proof -
  note D = lease_invD [OF w]
  have other: "lost_covers ttl skew (hm_insert s' (lw_time w) (lw_lost w)) u t"
    if "(u, t) \<in> set (lw_starts w)" for u t
    using D(1) [OF that] held gone by (auto split: if_splits)
  obtain t' where t': "(s', t') \<in> set (lw_starts w)" using D(4) held by blast
  show ?thesis
  proof (rule start_adds_lease [OF w], goal_cases)
    case (3 u)
    then show ?case using D(3) [of u] t' fresh by (auto split: if_splits)
  qed (use other n fresh in auto)
qed

lemma renew_inv:
  assumes w: "lease_inv ttl skew w" and held: "lw_lease w = Some (s, e)"
    and n: "\<And>t. t \<le> started \<Longrightarrow> t + ttl < (unat e' + 2) * 1000000 + skew"
    and own: "\<forall>t. (s, t) \<in> set (lw_starts w) \<longrightarrow> t \<le> started"
  shows "lease_inv ttl skew (w\<lparr>lw_lease := Some (s, e'), lw_starts := (s, started) # lw_starts w,
           lw_lost := lw_lost w\<rparr>)"
proof (rule start_adds_lease [OF w], goal_cases)
  case (1 s' t) then show ?case using lease_invD(1) [OF w] held by fastforce
next
  case (2 t) then show ?case using n own by auto
next
  case (3 s') then show ?case using lease_invD(3) [OF w, of s'] held by auto
qed

lemma release_inv:
  assumes w: "lease_inv ttl skew w" and held: "lw_lease w = Some (s, e)"
  shows "lease_inv ttl skew (w\<lparr>lw_lease := None, lw_authority := hm_remove s (lw_authority w),
           lw_starts := filter (\<lambda>(s', _). s' \<noteq> s) (lw_starts w)\<rparr>)"
proof (rule lease_invI, goal_cases)
  case (1 s' t) then show ?case using lease_invD(1) [OF w, of s' t] held by auto
next
  case (2 s' a) then show ?case using lease_invD(2) [OF w, of s' a] by (auto split: if_splits)
next
  case (3 s') then show ?case using lease_invD(3) [OF w, of s'] held by auto
next
  case (4 s' e') then show ?case by simp
qed

lemma lease_step_inv:
  assumes "lease_step ttl skew w w'" and w: "lease_inv ttl skew w"
  shows "lease_inv ttl skew w'"
  using assms
proof (induction rule: lease_step.induct)
  case (tick w t)
  then show ?case by (simp add: lease_inv_def)
next
  case (acquire_absent w s started computed wall)
  have "lease_inv ttl skew (w\<lparr>lw_lease := Some (s, lease_expiry (wall_ms wall) ttl),
          lw_starts := (s, started) # lw_starts w, lw_lost := lw_lost w\<rparr>)"
    by (rule start_adds_lease [OF acquire_absent(7)])
      (use lease_invD(1,3) [OF acquire_absent(7)] acquire_absent(1,2) new_lease_covers [OF acquire_absent(3,5,6)] in auto)
  then show ?case by simp
next
  case (acquire_expired w s' e seen wall' s started computed wall)
  then show ?case
    using acquire_expired_inv [OF acquire_expired(11,1) expired_covers [OF _ acquire_expired(5,4,2,3)]
        acquire_expired(6) new_lease_covers [OF acquire_expired(7,9,10)]] by simp
next
  case (renew w s e started computed wall)
  have n: "t + ttl < (unat (lease_expiry (wall_ms wall) ttl) + 2) * 1000000 + skew" if "t \<le> started" for t
    using new_lease_covers [OF _ renew(5,6)] that renew(3) by simp
  show ?case using renew_inv [OF renew(7,1) n] renew(2) by simp
next
  case (learn_acquired s started w)
  then show ?case unfolding lease_inv_def by (auto simp: NodeAuthority_new_def)
next
  case (learn_renewed s started w a)
  then show ?case unfolding lease_inv_def by (auto simp: authority_renew_def)
next
  case (release w s e)
  then show ?case using release_inv by blast
next
  case (fence w s a)
  then show ?case unfolding lease_inv_def by (auto simp: authority_fence_def)
qed

lemma lease_reach_inv: "lease_reach ttl skew w \<Longrightarrow> lease_inv ttl skew w"
  unfolding lease_reach_def
proof (induction rule: rtranclp_induct)
  case base
  then show ?case by (simp add: lease_inv_def lease_world_empty_def)
next
  case (step w w')
  then show ?case using lease_step_inv by blast
qed

section \<open>Exclusion\<close>

text \<open>
  C2.  Once another session has taken over the Node Lease of a session at time \<open>lost\<close>, the
  authority of the old session is invalid from \<open>lost\<close> plus two milliseconds plus twice the bound
  on the wall clock skew on, whatever acquisitions, renewals, late confirmations, fences and
  releases happened before and in between: takeover of a Node Lease fences its previous holder,
  up to clock skew and the rounding of the lease's expiry to milliseconds.
\<close>

theorem lease_exclusive:
  assumes "lease_reach ttl skew w" and "hm_get (lw_lost w) s = Some lost"
    and "hm_get (lw_authority w) s = Some a" and "lost + overlap skew \<le> t"
  shows "\<not> authority_is_valid a t"
proof -
  note D = lease_invD [OF lease_reach_inv [OF assms(1)]]
  obtain u where u: "(s, u) \<in> set (lw_starts w)" "na_deadline a = u + ttl"
    using D(2) [OF assms(3)] by blast
  have "lost_covers ttl skew (lw_lost w) s u"
    using D(1) [OF u(1)] D(3) [of s] assms(2) by (auto simp: covers_def split: option.splits if_splits)
  then show ?thesis using assms(2,4) u(2) by (simp add: lost_covers_def authority_is_valid_def)
qed

text \<open>
  A takeover with perfect clocks and a lease of ten seconds: \<open>a\<close> acquires just before a
  millisecond is over and \<open>b\<close> takes over as soon as the expiry allows.
\<close>

definition takeover_run :: lease_world where
  "takeover_run =
     \<lparr>lw_time = 10000000000, lw_lease = Some (''b'', lease_expiry (wall_ms 10000000000) 10000000000),
      lw_authority = [(''a'', NodeAuthority_new 999999 10000000000)],
      lw_starts = [(''b'', 10000000000), (''a'', 999999)], lw_lost = [(''a'', 10000000000)]\<rparr>"

lemma takeover_run_reached: "lease_reach 10000000000 0 takeover_run"
proof -
  let ?step = "lease_step 10000000000 0"
  let ?w1 = "lease_world_empty\<lparr>lw_time := 999999\<rparr>"
  let ?w2 = "?w1\<lparr>lw_lease := Some (''a'', lease_expiry (wall_ms 999999) 10000000000),
                lw_starts := [(''a'', 999999)]\<rparr>"
  let ?w3 = "?w2\<lparr>lw_authority := hm_insert ''a'' (NodeAuthority_new 999999 10000000000) (lw_authority ?w2)\<rparr>"
  let ?w4 = "?w3\<lparr>lw_time := 10000000000\<rparr>"
  have "?step lease_world_empty ?w1" by (rule lease_step.tick) (simp add: lease_world_empty_def)
  moreover have "?step ?w1 ?w2"
    using lease_step.acquire_absent [of ?w1 "''a''" 999999 999999 0 999999 10000000000]
    by (simp add: lease_world_empty_def reads_def as_millis_def)
  moreover have "?step ?w2 ?w3" by (rule lease_step.learn_acquired) (simp_all add: lease_world_empty_def)
  moreover have "?step ?w3 ?w4" by (rule lease_step.tick) simp
  moreover have "?step ?w4 takeover_run"
    using lease_step.acquire_expired [of ?w4 "''a''" _ 0 10000000000 10000000000 "''b''"
        10000000000 10000000000 10000000000 10000000000]
    by (simp add: lease_world_empty_def reads_def as_millis_def takeover_run_def hm_exec_simps
        wall_ms_def millis_u64_def lease_expiry_def saturating_add_def)
  ultimately show ?thesis
    unfolding lease_reach_def by (blast intro: converse_rtranclp_into_rtranclp rtranclp.rtrancl_refl)
qed

theorem lease_exclusive_witness:
  "lease_reach 10000000000 0 takeover_run \<and> hm_get (lw_lost takeover_run) ''a'' = Some 10000000000
   \<and> \<not> authority_is_valid (NodeAuthority_new 999999 10000000000) (10000000000 + overlap 0)"
  using lease_exclusive [OF takeover_run_reached, of "''a''" 10000000000
      "NodeAuthority_new 999999 10000000000" "10000000000 + overlap 0"] takeover_run_reached
  by (simp add: takeover_run_def)

text \<open>The rounding does show: here both sessions hold the lease for most of a millisecond.\<close>

lemma takeover_before_fence:
  "lease_reach 10000000000 0 takeover_run \<and> hm_get (lw_lost takeover_run) ''a'' = Some 10000000000
   \<and> (\<exists>a. hm_get (lw_authority takeover_run) ''a'' = Some a \<and> authority_is_valid a 10000999998)"
  using takeover_run_reached by (simp add: takeover_run_def NodeAuthority_new_def authority_is_valid_def)

end
