(* ===== verification/Node_Lease.thy ===== *)
theory Node_Lease
  imports Runtime_Shutdown Server_Builder Float64
begin

text \<open>
  The Node Lease as a running Server holds it: confirmation of an ambiguous lease write
  (\<open>confirm_node_lease\<close> of \<open>coactor/src/cluster/authority.rs\<close>) and the renewal task
  (\<open>spawn_lease_renewal\<close> of \<open>coactor/src/cluster/node.rs\<close>).

  Reading the clock is an effect, because time passes between two readings; a store call or a
  sleep also returns whatever the other tasks did to the Server in the meantime.  The \<open>Arc\<close> of the
  authority the task shares with the Server is the Server's field.
\<close>

section \<open>Environment\<close>

record ('a, 'w, 'c, 's) node_env =
  ne_store :: "'w coordination_store"
  ne_tx :: "'w transport"
  ne_instant_now :: "'w \<Rightarrow> instant \<times> 'w"
  ne_wall_millis :: "'w \<Rightarrow> u64"
  ne_random :: "'w \<Rightarrow> u16 \<times> 'w"
  ne_sleep :: "instant \<Rightarrow> ('a, 'w, 'c, 's) task_state \<Rightarrow> bool \<times> ('a, 'w, 'c, 's) task_state"
  ne_other :: "('a, 'w, 'c, 's) task_state \<Rightarrow> ('a, 'w, 'c, 's) task_state"

text \<open>
  \<open>ne_sleep wake_at\<close> is the \<open>select!\<close> of \<open>sleep_until\<close> and the shutdown signal: \<open>True\<close> when
  the signal won.  \<open>ne_other\<close> is what other tasks do at an await.
\<close>

record renewal_timing =
  tm_ttl :: duration
  tm_operation_timeout :: duration
  tm_interval :: duration

record renewal_exit =
  re_node_id :: string
  re_revision :: revision
  re_release :: bool

section \<open>Confirmation\<close>

fun confirm_node_lease_rounds ::
  "nat \<Rightarrow> ('a, 'w, 'c, 's) node_env \<Rightarrow> node_record \<Rightarrow> instant \<Rightarrow> duration \<Rightarrow> 'w \<Rightarrow> revision option \<times> 'w" where
  "confirm_node_lease_rounds 0 E expected deadline op_timeout w = (None, w)"
| "confirm_node_lease_rounds (Suc n) E expected deadline op_timeout w =
     (case ne_instant_now E w of
        (now, w1) \<Rightarrow>
          if deadline < now then (None, w1)
          else (case cs_read_node_lease (ne_store E) (min op_timeout (deadline - now)) (nr_node_id expected) w1 of
                  (Done (Ok (Some (node, rvn))), w2) \<Rightarrow>
                    if node = expected then (Some rvn, w2)
                    else confirm_node_lease_rounds n E expected deadline op_timeout w2
                | (_, w2) \<Rightarrow> confirm_node_lease_rounds n E expected deadline op_timeout w2))"

definition confirm_node_lease ::
  "('a, 'w, 'c, 's) node_env \<Rightarrow> node_record \<Rightarrow> instant \<Rightarrow> duration \<Rightarrow> 'w \<Rightarrow> revision option \<times> 'w" where
  "confirm_node_lease = confirm_node_lease_rounds 3"

section \<open>Fencing\<close>

text \<open>The shared authority; \<open>ServerStarter::start\<close> always gives the Server one.\<close>

definition shared_authority :: "('a, 'w, 'c, 's) server \<Rightarrow> node_authority" where
  "shared_authority srv = (case authority srv of Some a \<Rightarrow> a | None \<Rightarrow> NodeAuthority_new 0 0)"

definition update_authority :: "(node_authority \<Rightarrow> node_authority) \<Rightarrow> ('a, 'w, 'c, 's) server_op" where
  "update_authority f srv = srv\<lparr>authority := map_option f (authority srv)\<rparr>"

definition runtime_fence ::
  "('m, 'c, 's) tokio \<Rightarrow> ('a, 'w, 'c, 's) node_env \<Rightarrow> ('a, 'w, 'c, 's) task_state \<Rightarrow> ('a, 'w, 'c, 's) task_state" where
  "runtime_fence T E = (\<lambda>(srv, w). fence_finish T (ne_tx E) (ne_other E (snd (fence_begin srv), w)))"

text \<open>\<open>authority.fence(); runtime.fence().await\<close>\<close>

definition self_fence ::
  "('m, 'c, 's) tokio \<Rightarrow> ('a, 'w, 'c, 's) node_env \<Rightarrow> ('a, 'w, 'c, 's) task_state \<Rightarrow> ('a, 'w, 'c, 's) task_state" where
  "self_fence T E = (\<lambda>(srv, w). runtime_fence T E (update_authority authority_fence srv, w))"

section \<open>Renewal\<close>

datatype renewal_progress =
    RenewalExits renewal_exit
  | RenewalContinues node_record revision

definition renewal_fenced ::
  "('m, 'c, 's) tokio \<Rightarrow> ('a, 'w, 'c, 's) node_env \<Rightarrow> node_record \<Rightarrow> revision \<Rightarrow> ('a, 'w, 'c, 's) task_state
     \<Rightarrow> renewal_progress \<times> ('a, 'w, 'c, 's) task_state" where
  "renewal_fenced T E node rvn st =
     (RenewalExits \<lparr>re_node_id = nr_node_id node, re_revision = rvn, re_release = False\<rparr>, self_fence T E st)"

text \<open>The \<open>match\<close> on the outcome of \<open>renew_node\<close>, for the operation begun at \<open>started\<close>.\<close>

definition renewal_outcome ::
  "('m, 'c, 's) tokio \<Rightarrow> ('a, 'w, 'c, 's) node_env \<Rightarrow> renewal_timing \<Rightarrow> instant \<Rightarrow> node_record \<Rightarrow> revision
     \<Rightarrow> (coordination_error + revision mutation_outcome) timed \<Rightarrow> ('a, 'w, 'c, 's) task_state
     \<Rightarrow> renewal_progress \<times> ('a, 'w, 'c, 's) task_state" where
  "renewal_outcome T E timing started node rvn outcome = (\<lambda>(srv, w).
     let proceed = (case ne_instant_now E w of
           (now, w1) \<Rightarrow>
             if \<not> authority_is_valid (shared_authority srv) now then renewal_fenced T E node rvn (srv, w1)
             else (RenewalContinues node rvn, srv, w1))
     in case outcome of
          Done (Ok (Applied next)) \<Rightarrow>
            (RenewalContinues node next, update_authority (authority_renew started) srv, w)
        | Done (Ok (Indeterminate _)) \<Rightarrow>
            (case confirm_node_lease E node (na_deadline (shared_authority srv)) (tm_operation_timeout timing) w of
               (found, w1) \<Rightarrow>
                 (case ne_other E (srv, w1) of
                    (srv2, w2) \<Rightarrow>
                      (case found of
                         None \<Rightarrow> renewal_fenced T E node rvn (srv2, w2)
                       | Some next \<Rightarrow>
                           (RenewalContinues node next, update_authority (authority_renew started) srv2, w2))))
        | Done (Ok Conflict) \<Rightarrow> renewal_fenced T E node rvn (srv, w)
        | Done (Err _) \<Rightarrow> proceed
        | Elapsed \<Rightarrow> proceed)"

text \<open>One round after the task woke up.\<close>

definition renewal_attempt ::
  "('m, 'c, 's) tokio \<Rightarrow> ('a, 'w, 'c, 's) node_env \<Rightarrow> renewal_timing \<Rightarrow> node_record \<Rightarrow> revision
     \<Rightarrow> ('a, 'w, 'c, 's) task_state \<Rightarrow> renewal_progress \<times> ('a, 'w, 'c, 's) task_state" where
  "renewal_attempt T E timing node rvn = (\<lambda>(srv, w).
     case ne_instant_now E w of
       (woken, w1) \<Rightarrow>
         if \<not> authority_is_valid (shared_authority srv) woken then renewal_fenced T E node rvn (srv, w1)
         else (case ne_instant_now E w1 of
           (started, w2) \<Rightarrow>
             let node1 = node\<lparr>nr_lease_generation := saturating_add (nr_lease_generation node) 1\<rparr>;
                 node2 = update_capacity_sample T (ne_wall_millis E w2) srv node1
             in (case ne_instant_now E w2 of
                   (now, w3) \<Rightarrow>
                     (case authority_remaining (shared_authority srv) now of
                        None \<Rightarrow> renewal_fenced T E node2 rvn (srv, w3)
                      | Some remaining \<Rightarrow>
                          (case cs_renew_node (ne_store E) (min (tm_operation_timeout timing) remaining)
                                  node2 (tm_ttl timing) rvn w3 of
                             (outcome, w4) \<Rightarrow>
                               renewal_outcome T E timing started node2 rvn outcome (ne_other E (srv, w4)))))))"

definition renewal_wake :: "renewal_timing \<Rightarrow> u16 \<Rightarrow> instant \<Rightarrow> node_authority \<Rightarrow> instant" where
  "renewal_wake timing r now a = min (now + duration_mul_f64 (tm_interval timing) (jitter r)) (na_deadline a)"

text \<open>The task's loop; \<open>None\<close>: still running after \<open>n\<close> rounds.\<close>

fun renewal_loop ::
  "nat \<Rightarrow> ('m, 'c, 's) tokio \<Rightarrow> ('a, 'w, 'c, 's) node_env \<Rightarrow> renewal_timing \<Rightarrow> node_record \<Rightarrow> revision
     \<Rightarrow> ('a, 'w, 'c, 's) task_state \<Rightarrow> (renewal_exit \<times> ('a, 'w, 'c, 's) task_state) option" where
  "renewal_loop 0 T E timing node rvn st = None"
| "renewal_loop (Suc n) T E timing node rvn (srv, w) =
     (case ne_random E w of
        (r, w1) \<Rightarrow>
          (case ne_instant_now E w1 of
             (now, w2) \<Rightarrow>
               (case ne_sleep E (renewal_wake timing r now (shared_authority srv)) (srv, w2) of
                  (True, st) \<Rightarrow>
                    Some (\<lparr>re_node_id = nr_node_id node, re_revision = rvn, re_release = True\<rparr>, st)
                | (False, st) \<Rightarrow>
                    (case renewal_attempt T E timing node rvn st of
                       (RenewalExits e, st') \<Rightarrow> Some (e, st')
                     | (RenewalContinues node' rvn', st') \<Rightarrow>
                         renewal_loop n T E timing node' rvn' st'))))"

section \<open>What fencing leaves\<close>

text \<open>Authority lost for good, no Route, no Session, no inbound task.\<close>

definition fenced_off :: "('a, 'w, 'c, 's) server \<Rightarrow> bool" where
  "fenced_off srv \<longleftrightarrow>
     (\<exists>a. authority srv = Some a \<and> \<not> na_valid a \<and> na_fenced a)
     \<and> actors srv = hm_empty \<and> (\<forall>a s. sink (sessions srv) a s = None) \<and> inbound_tasks srv = []"

lemma update_authority_simps [simp]:
  "authority (update_authority f srv) = map_option f (authority srv)"
  "shared_authority (update_authority f srv) =
     (if authority srv = None then NodeAuthority_new 0 0 else f (shared_authority srv))"
  by (auto simp: update_authority_def shared_authority_def split: option.splits)

lemma shared_authority_Some [simp]: "authority srv = Some a \<Longrightarrow> shared_authority srv = a"
  by (simp add: shared_authority_def)

lemma fence_begin_authority [simp]: "authority (snd (fence_begin srv)) = authority srv"
  by (simp add: fence_begin_def abort_task_def fold_update_frame [where g = authority] update_task_def
      split: option.splits)

lemma fence_finish_clears:
  assumes "fence_finish T tx (srv, w) = (srv', w')"
  shows "actors srv' = hm_empty \<and> sink (sessions srv') a s = None \<and> inbound_tasks srv' = []
    \<and> authority srv' = authority srv"
proof -
  obtain r where r: "fst (terminate_all_sessions tx NodeFenced (clear_actors T srv, w)) = (clear_actors T srv)\<lparr>sessions := r\<rparr>"
    "\<forall>a s. sink r a s = None"
    using terminate_all_sessions_frame [of tx NodeFenced "clear_actors T srv" w] by blast
  then have "srv' = (clear_actors T srv)\<lparr>sessions := r, inbound_tasks := []\<rparr>"
    using assms by (auto simp: fence_finish_def abort_inbound_tasks_def split: prod.splits)
  then show ?thesis using r(2) by (simp add: clear_actors_def)
qed

text \<open>The record a round writes.\<close>

definition next_sample ::
  "('m, 'c, 's) tokio \<Rightarrow> u64 \<Rightarrow> ('a, 'w, 'c, 's) server \<Rightarrow> node_record \<Rightarrow> node_record" where
  "next_sample T wall srv node =
     update_capacity_sample T wall srv (node\<lparr>nr_lease_generation := saturating_add (nr_lease_generation node) 1\<rparr>)"

text \<open>
  The store said that the write of \<open>node\<close> over \<open>rvn\<close>, sent no earlier than \<open>started\<close>, took
  effect as \<open>rvn'\<close>: in its answer, or in a later read that returned this very record.
\<close>

definition lease_confirmed ::
  "('w \<Rightarrow> instant) \<Rightarrow> ('a, 'w, 'c, 's) node_env \<Rightarrow> duration \<Rightarrow> instant \<Rightarrow> node_record \<Rightarrow> revision \<Rightarrow> revision \<Rightarrow> bool" where
  "lease_confirmed clock E ttl started node rvn rvn' \<longleftrightarrow>
     (\<exists>d w x w'. started \<le> clock w \<and> cs_renew_node (ne_store E) d node ttl rvn w = (Done (Ok x), w')
        \<and> (x = Applied rvn'
           \<or> (\<exists>e d' w1 w2. x = Indeterminate e \<and> clock w' \<le> clock w1
                \<and> cs_read_node_lease (ne_store E) d' (nr_node_id node) w1 = (Done (Ok (Some (node, rvn'))), w2))))"

text \<open>A store that never answers a renewal, and a Server nobody shuts down.\<close>

definition cut_off :: "('a, 'w, 'c, 's) node_env \<Rightarrow> bool" where
  "cut_off E \<longleftrightarrow>
     (\<forall>d node ttl rvn w.
        case fst (cs_renew_node (ne_store E) d node ttl rvn w) of Done (Ok _) \<Rightarrow> False | _ \<Rightarrow> True)"

definition unsignalled :: "('a, 'w, 'c, 's) node_env \<Rightarrow> bool" where
  "unsignalled E \<longleftrightarrow> (\<forall>t st. \<not> fst (ne_sleep E t st))"

lemma cut_offD:
  assumes "cut_off E" and "cs_renew_node (ne_store E) d node ttl rvn w = (x, w')"
  shows "x = Elapsed \<or> (\<exists>err. x = Done (Err err))"
proof -
  have "case fst (cs_renew_node (ne_store E) d node ttl rvn w) of Done (Ok _) \<Rightarrow> False | _ \<Rightarrow> True"
    using assms(1) unfolding cut_off_def by blast
  then show ?thesis using assms(2) by (auto split: timed.splits sum.splits)
qed

section \<open>What the task may rely on\<close>

text \<open>
  \<open>clock\<close> is the monotonic clock behind \<open>Instant::now\<close>.  No task but this one writes the
  authority (\<open>renew\<close> and \<open>fence\<close> are private to \<open>node.rs\<close>), and a sleep that is not cut short
  by the shutdown signal reaches its instant.
\<close>

locale renewal_rely =
  fixes E :: "('a, 'w, 'c, 's) node_env" and clock :: "'w \<Rightarrow> instant"
  assumes other_authority: "ne_other E (srv, w) = (srv', w') \<Longrightarrow> authority srv' = authority srv"
    and sleep_authority: "ne_sleep E t (srv, w) = (b, srv', w') \<Longrightarrow> authority srv' = authority srv"
    and now_reads: "ne_instant_now E w = (t, w') \<Longrightarrow> clock w \<le> t \<and> t \<le> clock w'"
    and random_clock: "ne_random E w = (r, w') \<Longrightarrow> clock w \<le> clock w'"
    and other_clock: "ne_other E (srv, w) = (srv', w') \<Longrightarrow> clock w \<le> clock w'"
    and sleep_clock: "ne_sleep E t (srv, w) = (b, srv', w') \<Longrightarrow>
      clock w \<le> clock w' \<and> (\<not> b \<longrightarrow> t \<le> clock w')"
    and renew_clock: "cs_renew_node (ne_store E) d node ttl rvn w = (x, w') \<Longrightarrow> clock w \<le> clock w'"
    and read_lease_clock: "cs_read_node_lease (ne_store E) d n w = (y, w') \<Longrightarrow> clock w \<le> clock w'"
begin

lemma self_fence_fences:
  assumes "self_fence T E (srv, w) = (srv', w')" and "authority srv = Some a" and "na_valid a"
  shows "fenced_off srv'"
proof -
  obtain srv1 w1 where o: "ne_other E (snd (fence_begin (update_authority authority_fence srv)), w) = (srv1, w1)"
    by fastforce
  then have "authority srv1 = Some (authority_fence a)"
    using other_authority [OF o] assms(2) by simp
  moreover have "fence_finish T (ne_tx E) (srv1, w1) = (srv', w')"
    using assms(1) o by (simp add: self_fence_def runtime_fence_def)
  ultimately show ?thesis
    using fence_finish_clears assms(3) unfolding fenced_off_def by (force simp: authority_fence_def)
qed

lemma confirm_rounds_clock:
  "confirm_node_lease_rounds n E expected deadline op_timeout w = (x, w') \<Longrightarrow> clock w \<le> clock w'"
proof (induction n arbitrary: w)
  case 0
  then show ?case by simp
next
  case (Suc n)
  obtain now w1 where now: "ne_instant_now E w = (now, w1)" by fastforce
  obtain y w2 where y: "cs_read_node_lease (ne_store E) (min op_timeout (deadline - now)) (nr_node_id expected) w1 = (y, w2)"
    by fastforce
  have "w' = w1 \<or> w' = w2 \<or> confirm_node_lease_rounds n E expected deadline op_timeout w2 = (x, w')"
    using Suc.prems now y
    by (auto split: timed.splits sum.splits option.splits prod.splits if_splits)
  then show ?case
    using now_reads [OF now] read_lease_clock [OF y] Suc.IH [of w2] by force
qed

lemma confirm_rounds_Some:
  assumes "confirm_node_lease_rounds n E expected deadline op_timeout w = (Some rvn, w')"
  shows "\<exists>d w1. clock w \<le> clock w1 \<and> clock w1 \<le> clock w'
    \<and> cs_read_node_lease (ne_store E) d (nr_node_id expected) w1 = (Done (Ok (Some (expected, rvn))), w')"
  using assms
proof (induction n arbitrary: w)
  case 0
  then show ?case by simp
next
  case (Suc n)
  obtain now w1 where now: "ne_instant_now E w = (now, w1)" by fastforce
  obtain y w2 where y: "cs_read_node_lease (ne_store E) (min op_timeout (deadline - now)) (nr_node_id expected) w1 = (y, w2)"
    by fastforce
  note mono = now_reads [OF now] read_lease_clock [OF y]
  consider "y = Done (Ok (Some (expected, rvn)))" "w' = w2"
    | "confirm_node_lease_rounds n E expected deadline op_timeout w2 = (Some rvn, w')"
    using Suc.prems now y
    by (auto split: timed.splits sum.splits option.splits prod.splits if_splits)
  then show ?case
  proof cases
    case 1
    then show ?thesis using y mono by (auto intro!: exI [of _ w1])
  next
    case 2
    then show ?thesis using Suc.IH [OF 2] mono by (meson order_trans)
  qed
qed

text \<open>A round either fences, or keeps the authority, or renews it from a confirmed write.\<close>

definition renewal_kept ::
  "renewal_timing \<Rightarrow> instant \<Rightarrow> node_record \<Rightarrow> revision \<Rightarrow> node_authority \<Rightarrow> renewal_progress
     \<Rightarrow> ('a, 'w, 'c, 's) server \<Rightarrow> bool" where
  "renewal_kept timing started node rvn a p srv' \<longleftrightarrow>
     (case p of
        RenewalExits e \<Rightarrow> e = \<lparr>re_node_id = nr_node_id node, re_revision = rvn, re_release = False\<rparr> \<and> fenced_off srv'
      | RenewalContinues node' rvn' \<Rightarrow>
          node' = node
          \<and> (rvn' = rvn \<and> authority srv' = Some a
             \<or> lease_confirmed clock E (tm_ttl timing) started node rvn rvn'
               \<and> authority srv' = Some (authority_renew started a)))"

lemma renewal_fenced_kept:
  assumes "renewal_fenced T E node rvn (srv, w) = (p, srv', w')" and "authority srv = Some a" and "na_valid a"
  shows "renewal_kept timing started node rvn a p srv'"
  using assms self_fence_fences [of T srv w srv' w' a] by (auto simp: renewal_fenced_def renewal_kept_def)

lemma renewal_unconfirmed_kept:
  assumes run: "renewal_outcome T E timing started node rvn (Done (Ok (Indeterminate err))) (srv, w) = (p, srv', w')"
    and a: "authority srv = Some a" "na_valid a"
    and sent: "cs_renew_node (ne_store E) d node (tm_ttl timing) rvn w0 = (Done (Ok (Indeterminate err)), w1)"
      "started \<le> clock w0" "clock w1 \<le> clock w"
  shows "renewal_kept timing started node rvn a p srv'"
proof -
  obtain found w2 where c: "confirm_node_lease E node (na_deadline a) (tm_operation_timeout timing) w = (found, w2)"
    by fastforce
  obtain srv3 w3 where o: "ne_other E (srv, w2) = (srv3, w3)" by fastforce
  have a3: "authority srv3 = Some a" using other_authority [OF o] a(1) by simp
  show ?thesis
  proof (cases found)
    case None
    then show ?thesis
      using run renewal_fenced_kept [OF _ a3 a(2)] a by (simp add: renewal_outcome_def c o)
  next
    case (Some nx)
    obtain d' u where u: "clock w \<le> clock u"
      "cs_read_node_lease (ne_store E) d' (nr_node_id node) u = (Done (Ok (Some (node, nx))), w2)"
      using confirm_rounds_Some [OF c [unfolded confirm_node_lease_def Some]] by blast
    then have "clock w1 \<le> clock u" using sent(3) by simp
    then have "lease_confirmed clock E (tm_ttl timing) started node rvn nx"
      using u(2) sent(1,2) unfolding lease_confirmed_def by blast
    then show ?thesis
      using run a a3 by (auto simp: renewal_outcome_def c o Some renewal_kept_def)
  qed
qed

lemma renewal_outcome_kept:
  assumes run: "renewal_outcome T E timing started node rvn outcome (srv, w) = (p, srv', w')"
    and a: "authority srv = Some a" "na_valid a"
    and sent: "cs_renew_node (ne_store E) d node (tm_ttl timing) rvn w0 = (outcome, w1)"
      "started \<le> clock w0" "clock w1 \<le> clock w"
  shows "renewal_kept timing started node rvn a p srv'"
proof -
  have proceed: ?thesis
    if "(case ne_instant_now E w of (now, w1) \<Rightarrow>
          if \<not> authority_is_valid (shared_authority srv) now then renewal_fenced T E node rvn (srv, w1)
          else (RenewalContinues node rvn, srv, w1)) = (p, srv', w')"
    using that renewal_fenced_kept [OF _ a] a
    by (auto simp: renewal_kept_def split: prod.splits if_splits)
  show ?thesis
  proof (cases outcome)
    case Elapsed
    then show ?thesis using run proceed by (simp add: renewal_outcome_def)
  next
    case (Done r)
    show ?thesis
    proof (cases r)
      case (Inl e)
      then show ?thesis using run proceed Done by (simp add: renewal_outcome_def)
    next
      case (Inr m)
      note r = Done Inr
      show ?thesis
      proof (cases m)
        case (Applied nx)
        then have "lease_confirmed clock E (tm_ttl timing) started node rvn nx"
          using sent(1,2) unfolding lease_confirmed_def r by blast
        then show ?thesis using run a Applied by (auto simp: renewal_outcome_def renewal_kept_def r)
      next
        case Conflict
        then show ?thesis
          using run renewal_fenced_kept [OF _ a] by (simp add: renewal_outcome_def r)
      next
        case (Indeterminate err)
        then show ?thesis
          using renewal_unconfirmed_kept [OF run [unfolded r Indeterminate] a] sent unfolding r by blast
      qed
    qed
  qed
qed

lemma renewal_attempt_kept:
  assumes run: "renewal_attempt T E timing node rvn (srv, w) = (p, srv', w')"
    and a: "authority srv = Some a" "na_valid a"
  shows "\<exists>started node'. clock w \<le> started \<and> renewal_kept timing started node' rvn a p srv'
    \<and> (node' = node \<and> (\<exists>e. p = RenewalExits e) \<or> (\<exists>wall. node' = next_sample T wall srv node))
    \<and> ((\<exists>n r. p = RenewalContinues n r) \<longrightarrow> started \<le> na_deadline a)"
proof -
  obtain woken w1 where c1: "ne_instant_now E w = (woken, w1)" by fastforce
  obtain started w2 where c2: "ne_instant_now E w1 = (started, w2)" by fastforce
  obtain now w3 where c3: "ne_instant_now E w2 = (now, w3)" by fastforce
  define node' where "node' = next_sample T (ne_wall_millis E w2) srv node"
  note mono = now_reads [OF c1] now_reads [OF c2] now_reads [OF c3]
  have fence: ?thesis if "renewal_fenced T E n rvn (srv, u) = (p, srv', w')"
    "n = node \<or> n = node'" for n u
  proof -
    have "\<exists>e. p = RenewalExits e" using that(1) by (auto simp: renewal_fenced_def)
    then show ?thesis
      using renewal_fenced_kept [OF that(1) a, of timing started] that(2) mono
      by (auto simp: node'_def intro!: exI [of _ started])
  qed
  show ?thesis
  proof (cases "\<not> authority_is_valid a woken \<or> na_deadline a < now")
    case True
    then show ?thesis
      using run fence [of node w1] fence [of node' w3] a
      by (auto simp: renewal_attempt_def c1 c2 c3 Let_def authority_remaining_def node'_def next_sample_def
          split: if_splits)
  next
    case False
    obtain outcome w4 where r: "cs_renew_node (ne_store E) (min (tm_operation_timeout timing) (na_deadline a - now))
        node' (tm_ttl timing) rvn w3 = (outcome, w4)" by fastforce
    obtain srv5 w5 where o: "ne_other E (srv, w4) = (srv5, w5)" by fastforce
    have "renewal_outcome T E timing started node' rvn outcome (srv5, w5) = (p, srv', w')"
      using run False a r o
      by (simp add: renewal_attempt_def c1 c2 c3 Let_def authority_remaining_def node'_def next_sample_def)
    then have "renewal_kept timing started node' rvn a p srv'"
      by (rule renewal_outcome_kept [OF _ _ a(2) r])
        (use other_authority [OF o] other_clock [OF o] a(1) mono in simp_all)
    then show ?thesis using mono False by (intro exI [of _ started] exI [of _ node']) (auto simp: node'_def)
  qed
qed

text \<open>Over all rounds: what backs the authority \<open>a'\<close> and revision the task has reached.\<close>

definition backed ::
  "duration \<Rightarrow> node_authority \<Rightarrow> revision \<Rightarrow> node_authority \<Rightarrow> revision \<Rightarrow> bool" where
  "backed ttl a rvn a' rvn' \<longleftrightarrow>
     a' = a \<and> rvn' = rvn
     \<or> (\<exists>started node r. lease_confirmed clock E ttl started node r rvn' \<and> a' = authority_renew started a)"

lemma backed_renewed:
  "lease_confirmed clock E ttl started node r rvn' \<Longrightarrow> backed ttl (authority_renew started a) rvn' b rvn'' \<Longrightarrow>
     backed ttl a rvn b rvn''"
  unfolding backed_def by (auto simp: authority_renew_def)

lemma backed_step:
  assumes "renewal_kept timing started node rvn a (RenewalContinues node' rvn') srv'"
  shows "\<exists>a'. authority srv' = Some a' \<and> na_valid a' = na_valid a
    \<and> (\<forall>b r. backed (tm_ttl timing) a' rvn' b r \<longrightarrow> backed (tm_ttl timing) a rvn b r)"
  using assms backed_renewed unfolding renewal_kept_def by (auto simp: authority_renew_def)

lemma renewal_loop_exit:
  assumes "renewal_loop n T E timing node rvn (srv, w) = Some (e, srv', w')"
    and "authority srv = Some a" and "na_valid a"
  shows "re_node_id e = nr_node_id node
    \<and> (if re_release e then \<exists>a'. authority srv' = Some a' \<and> na_valid a' \<and> backed (tm_ttl timing) a rvn a' (re_revision e)
       else fenced_off srv')"
  using assms
proof (induction n arbitrary: node rvn srv w a)
  case 0
  then show ?case by simp
next
  case (Suc n)
  obtain r w1 where r: "ne_random E w = (r, w1)" by fastforce
  obtain now w2 where now: "ne_instant_now E w1 = (now, w2)" by fastforce
  obtain stop srv3 w3 where sl: "ne_sleep E (renewal_wake timing r now (shared_authority srv)) (srv, w2) = (stop, srv3, w3)"
    by (metis prod_cases3)
  have a3: "authority srv3 = Some a" using sleep_authority [OF sl] Suc.prems(2) by simp
  show ?case
  proof (cases stop)
    case True
    then show ?thesis using Suc.prems(1,3) r now sl a3 by (auto simp: backed_def)
  next
    case False
    obtain p srv4 w4 where at: "renewal_attempt T E timing node rvn (srv3, w3) = (p, srv4, w4)"
      by (metis prod_cases3)
    obtain started node' where k: "renewal_kept timing started node' rvn a p srv4"
      and node': "nr_node_id node' = nr_node_id node"
      using renewal_attempt_kept [OF at a3 Suc.prems(3)]
      by (auto simp: next_sample_def update_capacity_sample_def Let_def)
    show ?thesis
    proof (cases p)
      case (RenewalExits e')
      then show ?thesis using Suc.prems(1) r now sl False at k node' by (auto simp: renewal_kept_def)
    next
      case (RenewalContinues node'' rvn'')
      obtain a' where a': "authority srv4 = Some a'" "na_valid a' = na_valid a"
        "\<And>b r. backed (tm_ttl timing) a' rvn'' b r \<Longrightarrow> backed (tm_ttl timing) a rvn b r"
        using backed_step [OF k [unfolded RenewalContinues]] by metis
      have "renewal_loop n T E timing node'' rvn'' (srv4, w4) = Some (e, srv', w')"
        using Suc.prems(1) r now sl False at RenewalContinues by simp
      from Suc.IH [OF this a'(1)] show ?thesis
        using a'(2,3) Suc.prems(3) k node' RenewalContinues by (auto simp: renewal_kept_def)
    qed
  qed
qed

text \<open>A round whose write has no answer leaves the authority as it is, or fences.\<close>

lemma renewal_attempt_unanswered:
  assumes run: "renewal_attempt T E timing node rvn (srv, w) = (p, srv', w')"
    and a: "authority srv = Some a" "na_valid a"
    and cut: "cut_off E"
  shows "case p of
           RenewalExits e \<Rightarrow> \<not> re_release e \<and> fenced_off srv'
         | RenewalContinues _ _ \<Rightarrow> authority srv' = Some a \<and> clock w < na_deadline a \<and> clock w \<le> clock w'"
proof (cases p)
  case (RenewalExits e)
  then show ?thesis using renewal_attempt_kept [OF run a] by (auto simp: renewal_kept_def)
next
  case (RenewalContinues n r)
  obtain woken w1 where c1: "ne_instant_now E w = (woken, w1)" by fastforce
  obtain started w2 where c2: "ne_instant_now E w1 = (started, w2)" by fastforce
  obtain now w3 where c3: "ne_instant_now E w2 = (now, w3)" by fastforce
  obtain outcome w4 where r: "cs_renew_node (ne_store E) (min (tm_operation_timeout timing) (na_deadline a - now))
      (next_sample T (ne_wall_millis E w2) srv node) (tm_ttl timing) rvn w3 = (outcome, w4)" by fastforce
  obtain srv5 w5 where o: "ne_other E (srv, w4) = (srv5, w5)" by fastforce
  obtain late w6 where c6: "ne_instant_now E w5 = (late, w6)" by fastforce
  have a5: "authority srv5 = Some a" using other_authority [OF o] a(1) by simp
  have valid: "authority_is_valid a woken" "now \<le> na_deadline a"
    using run RenewalContinues a
    by (auto simp: renewal_attempt_def renewal_fenced_def c1 c2 c3 Let_def authority_remaining_def split: if_splits)
  have "renewal_outcome T E timing started (next_sample T (ne_wall_millis E w2) srv node) rvn outcome (srv5, w5) = (p, srv', w')"
    using run valid a r o
    by (simp add: renewal_attempt_def c1 c2 c3 Let_def authority_remaining_def next_sample_def)
  then have "srv' = srv5" "w' = w6"
    using cut_offD [OF cut r] RenewalContinues c6 by (auto simp: renewal_outcome_def renewal_fenced_def split: if_splits)
  then show ?thesis
    using RenewalContinues a5 valid now_reads [OF c1] now_reads [OF c2] now_reads [OF c3] renew_clock [OF r]
      other_clock [OF o] now_reads [OF c6]
    by (auto simp: authority_is_valid_def)
qed

lemma renewal_round_unanswered:
  assumes cut: "cut_off E"
    and awake: "unsignalled E"
    and step: "\<And>r. m \<le> duration_mul_f64 (tm_interval timing) (jitter r)"
    and a: "authority srv = Some a" "na_valid a"
  shows "(\<exists>e srv' w'. renewal_loop (Suc n) T E timing node rvn (srv, w) = Some (e, srv', w')
            \<and> \<not> re_release e \<and> fenced_off srv')
    \<or> (\<exists>node' rvn' srv' w'. renewal_loop (Suc n) T E timing node rvn (srv, w) =
            renewal_loop n T E timing node' rvn' (srv', w')
          \<and> authority srv' = Some a \<and> clock w + m \<le> clock w' \<and> clock w < na_deadline a)"
proof -
  obtain r w1 where r: "ne_random E w = (r, w1)" by fastforce
  obtain now w2 where now: "ne_instant_now E w1 = (now, w2)" by fastforce
  obtain stop srv3 w3 where sl: "ne_sleep E (renewal_wake timing r now a) (srv, w2) = (stop, srv3, w3)"
    by (metis prod_cases3)
  have stop: "\<not> stop" using awake sl by (metis unsignalled_def fst_conv)
  obtain p srv4 w4 where at: "renewal_attempt T E timing node rvn (srv3, w3) = (p, srv4, w4)"
    by (metis prod_cases3)
  have a3: "authority srv3 = Some a" using sleep_authority [OF sl] a(1) by simp
  note t = random_clock [OF r] now_reads [OF now] sleep_clock [OF sl]
  note u = renewal_attempt_unanswered [OF at a3 a(2) cut]
  show ?thesis
  proof (cases p)
    case (RenewalExits e)
    then show ?thesis using u r now sl stop at a by auto
  next
    case (RenewalContinues node' rvn')
    have "clock w3 < na_deadline a" "clock w3 \<le> clock w4" "authority srv4 = Some a"
      using u RenewalContinues by auto
    moreover have "now + m \<le> clock w3"
      using calculation(1) t(3) stop step [of r] by (auto simp: renewal_wake_def min_def split: if_splits)
    ultimately show ?thesis
      using t r now sl stop at a RenewalContinues
      by (intro disjI2 exI [of _ node'] exI [of _ rvn'] exI [of _ srv4] exI [of _ w4]) auto
  qed
qed

lemma renewal_cut_off:
  assumes cut: "cut_off E"
    and awake: "unsignalled E"
    and step: "\<And>r. m \<le> duration_mul_f64 (tm_interval timing) (jitter r)"
    and "authority srv = Some a" and valid: "na_valid a" and "na_deadline a \<le> clock w + k * m"
  shows "\<exists>e srv' w'. renewal_loop (Suc k) T E timing node rvn (srv, w) = Some (e, srv', w')
    \<and> \<not> re_release e \<and> fenced_off srv'"
  using assms(4,6)
proof (induction k arbitrary: node rvn srv w)
  case 0
  then show ?case
    using renewal_round_unanswered [OF cut awake step 0(1) valid, where n = 0 and w = w] by auto
next
  case (Suc k)
  from renewal_round_unanswered [OF cut awake step Suc.prems(1) valid, where n = "Suc k" and T = T and node = node and rvn = rvn and w = w]
  consider (fenced) "\<exists>e srv' w'. renewal_loop (Suc (Suc k)) T E timing node rvn (srv, w) = Some (e, srv', w')
            \<and> \<not> re_release e \<and> fenced_off srv'"
    | (round) node' rvn' srv' w' where "renewal_loop (Suc (Suc k)) T E timing node rvn (srv, w) =
            renewal_loop (Suc k) T E timing node' rvn' (srv', w')"
        "authority srv' = Some a" "clock w + m \<le> clock w'"
    by metis
  then show ?case
  proof cases
    case fenced
    then show ?thesis .
  next
    case round
    have "na_deadline a \<le> clock w' + k * m" using round(3) Suc.prems(2) by simp
    from Suc.IH [OF round(2) this, of node' rvn'] show ?thesis unfolding round(1) .
  qed
qed

end

end
