(* ===== verification/Node_World.thy ===== *)
theory Node_World
  imports Node_Lease Memory_Store Runtime_Properties
begin

text \<open>
  A concrete world for a node: the in-memory coordination store, a clock that ticks at every
  reading, a log of what the transport accepted, and other tasks that serve a script of inbound
  envelopes with the Server's own \<open>dispatch_inbound\<close>.  The contract of the renewal task is
  interpreted on it, which discharges, for the dispatcher, that nothing but the renewal task
  writes the authority.
\<close>

section \<open>The dispatcher and the authority\<close>

lemma small_op_authority [simp]:
  "authority (drop_route T a srv) = authority srv"
  "authority (drop_reservation T b srv) = authority srv"
  "authority (answer m x srv) = authority srv"
  by (simp_all add: drop_route_def drop_reservation_def answer_def split: option.splits mailbox_message.splits)

lemma activate_route_authority:
  "activate_route T a m b srv = (x, srv') \<Longrightarrow> authority srv' = authority srv"
  by (auto simp: activate_route_def Let_def fail_message_def split: option.splits prod.splits if_splits)

lemma mailbox_try_send_authority:
  "mailbox_try_send T t tid m srv = (x, srv') \<Longrightarrow> authority srv' = authority srv"
  by (auto simp: mailbox_try_send_def split: prod.splits)

lemma dispatch_commit_authority:
  "dispatch_commit T a m b srv = (x, srv') \<Longrightarrow> authority srv' = authority srv"
  by (auto simp: dispatch_commit_def
      split: option.splits route_state.splits prod.splits try_send_result.splits
      dest!: activate_route_authority mailbox_try_send_authority)

lemma dispatch_message_authority:
  "dispatch_message T now a m b srv = (x, srv') \<Longrightarrow> authority srv' = authority srv"
  by (auto simp: dispatch_message_def split: option.splits dest!: dispatch_commit_authority)

lemma close_local_session_authority [simp]: "authority (close_local_session T a sid srv) = authority srv"
  by (auto simp: close_local_session_def dispatch_message_if_active_def Let_def
      split: prod.splits option.splits route_state.splits dest!: mailbox_try_send_authority)

lemma open_begin_authority:
  "open_local_session_begin T now a sid snk c b srv = (p, srv') \<Longrightarrow> authority srv' = authority srv"
  by (auto simp: open_local_session_begin_def
      split: if_splits prod.splits bool.splits option.splits sum.splits dest!: dispatch_message_authority)

lemma inbound_opening_authority:
  assumes "inbound_opening tx reply raw a sid c (open_local_session_begin T now a sid snk c b srv) w = (q, srv', w')"
  shows "authority srv' = authority srv"
proof -
  obtain p srv1 where o: "open_local_session_begin T now a sid snk c b srv = (p, srv1)" by fastforce
  then have "srv' = srv1" using assms by (auto simp: inbound_opening_def split: open_progress.splits)
  then show ?thesis using open_begin_authority [OF o] by simp
qed

lemma inbound_open_authority:
  "inbound_session_open T S tx now v reply raw a sid c srv w = (q, srv', w') \<Longrightarrow> authority srv' = authority srv"
  by (auto simp: inbound_session_open_def Let_def
      split: if_splits option.splits prod.splits sum.splits resolved_owner.splits dest!: inbound_opening_authority)

lemma dispatch_inbound_authority:
  assumes "dispatch_inbound T S tx now c env reply srv w = (q, srv', w')"
  shows "authority srv' = authority srv"
  using assms
  by (auto simp: dispatch_inbound_def dispatch_remote_message_def Let_def
      split: option.splits kind.splits if_splits prod.splits sum.splits
      dest!: dispatch_message_authority inbound_open_authority)

section \<open>The world\<close>

record node_world =
  nw_store :: test_store
  nw_clock :: instant
  nw_sent :: sent
  nw_random :: "u16 list"
  nw_stops :: "bool list"
  nw_inbound :: "(sender_id \<times> envelope) list list"

text \<open>The in-memory store; during an \<open>outage\<close> a renewal is never answered.\<close>

definition on_store :: "(test_store \<Rightarrow> 'x \<times> test_store) \<Rightarrow> node_world \<Rightarrow> 'x \<times> node_world" where
  "on_store call w =
     (case call (nw_store w) of (x, s) \<Rightarrow> (x, w\<lparr>nw_store := s, nw_clock := Suc (nw_clock w)\<rparr>))"

definition world_store :: "bool \<Rightarrow> node_world coordination_store" where
  "world_store outage =
     \<lparr>cs_read_node = (\<lambda>d n. on_store (cs_read_node memory_store d n)),
      cs_list_nodes = (\<lambda>d. on_store (cs_list_nodes memory_store d)),
      cs_read_node_lease = (\<lambda>d n. on_store (cs_read_node_lease memory_store d n)),
      cs_acquire_node = (\<lambda>d node ttl. on_store (cs_acquire_node memory_store d node ttl)),
      cs_renew_node = (\<lambda>d node ttl rvn w.
        if outage then (Elapsed, w\<lparr>nw_clock := nw_clock w + d\<rparr>)
        else on_store (cs_renew_node memory_store d node ttl rvn) w),
      cs_release_node = (\<lambda>n rvn. on_store (cs_release_node memory_store n rvn)),
      cs_read_actor_owner = (\<lambda>d a. on_store (cs_read_actor_owner memory_store d a)),
      cs_compare_exchange_actor_owner =
        (\<lambda>d a rec rvn. on_store (cs_compare_exchange_actor_owner memory_store d a rec rvn))\<rparr>"

definition world_tx :: "node_world transport" where
  "world_tx k env w = (Ok (), w\<lparr>nw_sent := (k, env) # nw_sent w\<rparr>)"

definition serve_inbound ::
  "(mailbox_message, 'c, 's) tokio \<Rightarrow> bool \<Rightarrow> sender_id \<times> envelope
     \<Rightarrow> ('a, node_world, 'c, 's) task_state \<Rightarrow> ('a, node_world, 'c, 's) task_state" where
  "serve_inbound T outage = (\<lambda>(sender, env) (srv, w).
     case dispatch_inbound T (world_store outage) world_tx (nw_clock w) 0 env (Some sender) srv w of
       (_, srv', w') \<Rightarrow> (srv', w'))"

text \<open>One batch of envelopes at every await; it takes one tick.\<close>

definition world_other ::
  "(mailbox_message, 'c, 's) tokio \<Rightarrow> bool
     \<Rightarrow> ('a, node_world, 'c, 's) task_state \<Rightarrow> ('a, node_world, 'c, 's) task_state" where
  "world_other T outage = (\<lambda>(srv, w).
     case fold (serve_inbound T outage) (concat (take 1 (nw_inbound w))) (srv, w) of
       (srv', w') \<Rightarrow> (srv', w'\<lparr>nw_inbound := drop 1 (nw_inbound w), nw_clock := Suc (nw_clock w)\<rparr>))"

text \<open>\<open>quiet\<close>: nobody asks the Server to shut down; otherwise \<open>nw_stops\<close> says at which sleep.\<close>

definition world_env ::
  "(mailbox_message, 'c, 's) tokio \<Rightarrow> bool \<Rightarrow> bool \<Rightarrow> ('a, node_world, 'c, 's) node_env" where
  "world_env T outage quiet =
     \<lparr>ne_store = world_store outage, ne_tx = world_tx,
      ne_instant_now = (\<lambda>w. (nw_clock w, w\<lparr>nw_clock := Suc (nw_clock w)\<rparr>)),
      ne_wall_millis = (\<lambda>w. ts_wall_time_millis (nw_store w)),
      ne_random = (\<lambda>w. (case nw_random w of [] \<Rightarrow> 0 | r # _ \<Rightarrow> r, w\<lparr>nw_random := drop 1 (nw_random w)\<rparr>)),
      ne_sleep = (\<lambda>t (srv, w).
        (\<not> quiet \<and> is_some_and id (newest (nw_stops w)),
         world_other T outage
           (srv, w\<lparr>nw_clock := max t (nw_clock w), nw_stops := drop 1 (nw_stops w)\<rparr>))),
      ne_other = world_other T outage\<rparr>"

lemma serve_inbound_authority:
  "serve_inbound T outage x (srv, w) = (srv', w') \<Longrightarrow> authority srv' = authority srv"
  by (auto simp: serve_inbound_def split: prod.splits dest!: dispatch_inbound_authority)

lemma serve_all_authority:
  "fold (serve_inbound T outage) xs (srv, w) = (srv', w') \<Longrightarrow> authority srv' = authority srv"
proof (induction xs arbitrary: srv w)
  case (Cons x xs)
  obtain srv1 w1 where one: "serve_inbound T outage x (srv, w) = (srv1, w1)" by fastforce
  then show ?case using Cons.IH [of srv1 w1] Cons.prems serve_inbound_authority [OF one] by simp
qed simp

lemma world_other_spec:
  "world_other T outage (srv, w) = (srv', w') \<Longrightarrow>
     authority srv' = authority srv \<and> nw_clock w' = Suc (nw_clock w)"
  by (auto simp: world_other_def split: prod.splits dest: serve_all_authority)

lemma on_store_clock: "on_store call w = (x, w') \<Longrightarrow> nw_clock w \<le> nw_clock w'"
  by (auto simp: on_store_def split: prod.splits)

interpretation world: renewal_rely "world_env T outage quiet" nw_clock for T outage quiet
proof
  fix srv w srv' w' t b
  show "authority srv' = authority srv" if "ne_other (world_env T outage quiet) (srv, w) = (srv', w')"
    using that world_other_spec by (fastforce simp: world_env_def)
  show "nw_clock w \<le> nw_clock w'" if "ne_other (world_env T outage quiet) (srv, w) = (srv', w')"
    using that world_other_spec [of T outage srv w srv' w'] by (simp add: world_env_def)
  show "authority srv' = authority srv" if "ne_sleep (world_env T outage quiet) t (srv, w) = (b, srv', w')"
    using that world_other_spec [of T outage srv _ srv' w'] by (auto simp: world_env_def)
  show "nw_clock w \<le> nw_clock w' \<and> (\<not> b \<longrightarrow> t \<le> nw_clock w')"
    if "ne_sleep (world_env T outage quiet) t (srv, w) = (b, srv', w')"
    using that world_other_spec [of T outage srv _ srv' w'] by (auto simp: world_env_def)
next
  fix w w' :: node_world and t r d node ttl rvn x n y
  show "nw_clock w \<le> t \<and> t \<le> nw_clock w'" if "ne_instant_now (world_env T outage quiet) w = (t, w')"
    using that by (auto simp: world_env_def)
  show "nw_clock w \<le> nw_clock w'" if "ne_random (world_env T outage quiet) w = (r, w')"
    using that by (auto simp: world_env_def)
  show "nw_clock w \<le> nw_clock w'"
    if "cs_renew_node (ne_store (world_env T outage quiet)) d node ttl rvn w = (x, w')"
    using that on_store_clock by (fastforce simp: world_env_def world_store_def split: if_splits)
  show "nw_clock w \<le> nw_clock w'"
    if "cs_read_node_lease (ne_store (world_env T outage quiet)) d n w = (y, w')"
    using that on_store_clock by (fastforce simp: world_env_def world_store_def)
qed

end
