(* ===== verification/Socket_Address.thy ===== *)
theory Socket_Address
  imports Decimal_Text
begin

text \<open>
  \<open>std::net::SocketAddr\<close> as the source uses it: \<open>FromStr\<close>, \<open>Display\<close> and the port.  The parser
  follows the standard library's: a cursor over ASCII text whose alternatives restore the
  position on failure, decimal octets without leading zeros, up to four hexadecimal digits per
  IPv6 group, one \<open>::\<close>, an embedded IPv4 tail, a decimal scope, a decimal port with leading
  zeros allowed.  \<open>Display\<close> compresses the first longest run of at least two zero groups and
  writes IPv4-mapped addresses with a dotted tail.
\<close>

section \<open>Numbers\<close>

text \<open>\<open>char::to_digit\<close>\<close>

definition to_digit :: "nat \<Rightarrow> char \<Rightarrow> nat option" where
  "to_digit radix c =
     (let x = of_char c;
          d = (if 48 \<le> x \<and> x \<le> 57 then Some (x - 48)
               else if 97 \<le> x \<and> x \<le> 122 then Some (x - 87)
               else if 65 \<le> x \<and> x \<le> 90 then Some (x - 55)
               else None)
      in case d of Some v \<Rightarrow> if v < radix then Some v else None | None \<Rightarrow> None)"

definition is_digit_of :: "nat \<Rightarrow> char \<Rightarrow> bool" where
  "is_digit_of radix c \<longleftrightarrow> to_digit radix c \<noteq> None"

definition radix_value :: "nat \<Rightarrow> string \<Rightarrow> nat" where
  "radix_value radix s = foldl (\<lambda>acc c. radix * acc + the (to_digit radix c)) 0 s"

text \<open>
  \<open>read_number\<close>: the whole run of digits; it fails on none, on more than \<open>max_digits\<close>, on a
  forbidden leading zero, and above the type's maximum.
\<close>

definition read_number :: "nat \<Rightarrow> nat option \<Rightarrow> bool \<Rightarrow> nat \<Rightarrow> string \<Rightarrow> (nat \<times> string) option" where
  "read_number radix max_digits allow_zero_prefix maximum s =
     (let ds = takeWhile (is_digit_of radix) s; rest = dropWhile (is_digit_of radix) s in
      if ds = [] then None
      else if is_some_and (\<lambda>m. m < length ds) max_digits then None
      else if \<not> allow_zero_prefix \<and> hd ds = CHR ''0'' \<and> 1 < length ds then None
      else if maximum < radix_value radix ds then None
      else Some (radix_value radix ds, rest))"

definition read_given_char :: "char \<Rightarrow> string \<Rightarrow> string option" where
  "read_given_char c s = (case s of x # rest \<Rightarrow> if x = c then Some rest else None | [] \<Rightarrow> None)"

definition read_separator :: "char \<Rightarrow> nat \<Rightarrow> (string \<Rightarrow> ('a \<times> string) option) \<Rightarrow> string \<Rightarrow> ('a \<times> string) option" where
  "read_separator sep index inner s =
     (if 0 < index then (case read_given_char sep s of None \<Rightarrow> None | Some rest \<Rightarrow> inner rest) else inner s)"

section \<open>Addresses\<close>

datatype ip_addr = Ipv4 "nat list" | Ipv6 "nat list" nat

text \<open>Four octets; eight groups and a scope.\<close>

record socket_addr =
  sa_ip :: ip_addr
  sa_port :: nat

definition socket_addr_ok :: "socket_addr \<Rightarrow> bool" where
  "socket_addr_ok a \<longleftrightarrow>
     sa_port a < 2 ^ 16
     \<and> (case sa_ip a of
          Ipv4 os \<Rightarrow> length os = 4 \<and> (\<forall>x \<in> set os. x < 2 ^ 8)
        | Ipv6 gs scope \<Rightarrow> length gs = 8 \<and> (\<forall>x \<in> set gs. x < 2 ^ 16) \<and> scope < 2 ^ 32)"

section \<open>Parsing\<close>

fun read_octets :: "nat \<Rightarrow> nat \<Rightarrow> string \<Rightarrow> (nat list \<times> string) option" where
  "read_octets 0 i s = Some ([], s)"
| "read_octets (Suc n) i s =
     (case read_separator (CHR ''.'') i (read_number 10 (Some 3) False 255) s of
        None \<Rightarrow> None
      | Some (x, rest) \<Rightarrow> map_option (\<lambda>(xs, r). (x # xs, r)) (read_octets n (Suc i) rest))"

definition read_ipv4_addr :: "string \<Rightarrow> (nat list \<times> string) option" where
  "read_ipv4_addr = read_octets 4 0"

definition ipv4_groups :: "nat list \<Rightarrow> nat list" where
  "ipv4_groups os = [256 * (os ! 0) + os ! 1, 256 * (os ! 2) + os ! 3]"

text \<open>\<open>read_groups\<close>: \<open>n\<close> groups are still to be read, \<open>i\<close> have been; the flag says whether an IPv4 tail ended it.\<close>

fun read_groups :: "nat \<Rightarrow> nat \<Rightarrow> string \<Rightarrow> nat list \<times> bool \<times> string" where
  "read_groups 0 i s = ([], False, s)"
| "read_groups (Suc n) i s =
     (case (if 0 < n then read_separator (CHR '':'') i read_ipv4_addr s else None) of
        Some (os, rest) \<Rightarrow> (ipv4_groups os, True, rest)
      | None \<Rightarrow>
          (case read_separator (CHR '':'') i (read_number 16 (Some 4) True 65535) s of
             None \<Rightarrow> ([], False, s)
           | Some (g, rest) \<Rightarrow> (case read_groups n (Suc i) rest of (gs, v4, r) \<Rightarrow> (g # gs, v4, r))))"

definition read_ipv6_addr :: "string \<Rightarrow> (nat list \<times> string) option" where
  "read_ipv6_addr s =
     (case read_groups 8 0 s of
        (head, head_ipv4, s1) \<Rightarrow>
          if length head = 8 then Some (head, s1)
          else if head_ipv4 then None
          else (case read_given_char (CHR '':'') s1 of
                  None \<Rightarrow> None
                | Some s2 \<Rightarrow>
                    (case read_given_char (CHR '':'') s2 of
                       None \<Rightarrow> None
                     | Some s3 \<Rightarrow>
                         (case read_groups (7 - length head) 0 s3 of
                            (tail, _, s4) \<Rightarrow>
                              Some (head @ replicate (8 - length head - length tail) 0 @ tail, s4)))))"

definition read_port :: "string \<Rightarrow> (nat \<times> string) option" where
  "read_port s =
     (case read_given_char (CHR '':'') s of None \<Rightarrow> None | Some rest \<Rightarrow> read_number 10 None True 65535 rest)"

definition read_scope_id :: "string \<Rightarrow> (nat \<times> string) option" where
  "read_scope_id s =
     (case read_given_char (CHR ''%'') s of None \<Rightarrow> None | Some rest \<Rightarrow> read_number 10 None True (2 ^ 32 - 1) rest)"

definition read_socket_addr_v4 :: "string \<Rightarrow> (socket_addr \<times> string) option" where
  "read_socket_addr_v4 s =
     (case read_ipv4_addr s of
        None \<Rightarrow> None
      | Some (os, s1) \<Rightarrow> map_option (\<lambda>(p, r). (\<lparr>sa_ip = Ipv4 os, sa_port = p\<rparr>, r)) (read_port s1))"

definition read_socket_addr_v6 :: "string \<Rightarrow> (socket_addr \<times> string) option" where
  "read_socket_addr_v6 s =
     (case read_given_char (CHR ''['') s of
        None \<Rightarrow> None
      | Some s1 \<Rightarrow>
          (case read_ipv6_addr s1 of
             None \<Rightarrow> None
           | Some (gs, s2) \<Rightarrow>
               (case (case read_scope_id s2 of Some (v, r) \<Rightarrow> (v, r) | None \<Rightarrow> (0, s2)) of
                  (scope, s3) \<Rightarrow>
                    (case read_given_char (CHR '']'') s3 of
                       None \<Rightarrow> None
                     | Some s4 \<Rightarrow>
                         map_option (\<lambda>(p, r). (\<lparr>sa_ip = Ipv6 gs scope, sa_port = p\<rparr>, r)) (read_port s4)))))"

definition SocketAddr_from_str :: "string \<Rightarrow> socket_addr option" where
  "SocketAddr_from_str s =
     (case (case read_socket_addr_v4 s of Some x \<Rightarrow> Some x | None \<Rightarrow> read_socket_addr_v6 s) of
        Some (a, []) \<Rightarrow> Some a
      | _ \<Rightarrow> None)"

section \<open>Printing\<close>

definition hex_char :: "nat \<Rightarrow> char" where
  "hex_char d = (if d < 10 then char_of (48 + d) else char_of (87 + d))"

fun show_hex :: "nat \<Rightarrow> string" where
  "show_hex n = (if n < 16 then [hex_char n] else show_hex (n div 16) @ [hex_char (n mod 16)])"

declare show_hex.simps [simp del]

fun join :: "char \<Rightarrow> string list \<Rightarrow> string" where
  "join c [] = []"
| "join c [x] = x"
| "join c (x # y # xs) = x @ c # join c (y # xs)"

definition ipv4_to_string :: "nat list \<Rightarrow> string" where
  "ipv4_to_string os = join (CHR ''.'') (map show_nat os)"

text \<open>\<open>to_ipv4_mapped\<close>\<close>

definition to_ipv4_mapped :: "nat list \<Rightarrow> nat list option" where
  "to_ipv4_mapped gs =
     (if take 5 gs = replicate 5 0 \<and> gs ! 5 = 65535
      then Some [gs ! 6 div 256, gs ! 6 mod 256, gs ! 7 div 256, gs ! 7 mod 256] else None)"

text \<open>The first longest run of zero groups, as start and length: the loop carries the current and the longest run.\<close>

fun zero_run :: "nat \<Rightarrow> nat list \<Rightarrow> nat \<times> nat \<Rightarrow> nat \<times> nat \<Rightarrow> nat \<times> nat" where
  "zero_run i [] current longest = longest"
| "zero_run i (g # gs) (start, len) longest =
     (if g = 0
      then let current = (if len = 0 then i else start, Suc len)
           in zero_run (Suc i) gs current (if snd longest < snd current then current else longest)
      else zero_run (Suc i) gs (0, 0) longest)"

definition fmt_subslice :: "nat list \<Rightarrow> string" where
  "fmt_subslice gs = join (CHR '':'') (map show_hex gs)"

definition ipv6_to_string :: "nat list \<Rightarrow> string" where
  "ipv6_to_string gs =
     (case to_ipv4_mapped gs of
        Some os \<Rightarrow> ''::ffff:'' @ ipv4_to_string os
      | None \<Rightarrow>
          (case zero_run 0 gs (0, 0) (0, 0) of
             (start, len) \<Rightarrow>
               if 1 < len then fmt_subslice (take start gs) @ ''::'' @ fmt_subslice (drop (start + len) gs)
               else fmt_subslice gs))"

definition SocketAddr_to_string :: "socket_addr \<Rightarrow> string" where
  "SocketAddr_to_string a =
     (case sa_ip a of
        Ipv4 os \<Rightarrow> ipv4_to_string os @ '':'' @ show_nat (sa_port a)
      | Ipv6 gs scope \<Rightarrow>
          ''['' @ ipv6_to_string gs @ (if scope = 0 then [] else ''%'' @ show_nat scope) @ '']:''
            @ show_nat (sa_port a))"

end
