(* ===== verification/Socket_Roundtrip.thy ===== *)
theory Socket_Roundtrip
  imports Socket_Address
begin

text \<open>Parsing what \<open>Display\<close> wrote gives the address back, for every IPv4 and IPv6 socket address.\<close>

section \<open>Numbers\<close>

lemma to_digit_hex_char: "d < 16 \<Longrightarrow> to_digit 16 (hex_char d) = Some d"
  by (auto simp: to_digit_def hex_char_def Let_def)

lemma is_digit_hex_char: "d < 16 \<Longrightarrow> is_digit_of 16 (hex_char d)"
  by (simp add: is_digit_of_def to_digit_hex_char)

lemma to_digit_10: "to_digit 10 c = (if is_ascii_digit c then Some (digit_value c) else None)"
  by (auto simp: to_digit_def is_ascii_digit_def digit_value_def Let_def)

lemma is_digit_of_10: "is_digit_of 10 c \<longleftrightarrow> is_ascii_digit c"
  by (simp add: is_digit_of_def to_digit_10)

lemma is_digit_10_16: "is_digit_of 10 c \<Longrightarrow> is_digit_of 16 c"
  by (auto simp: is_digit_of_def to_digit_def Let_def split: if_splits)

lemma radix_value_snoc: "radix_value r (s @ [c]) = r * radix_value r s + the (to_digit r c)"
  by (simp add: radix_value_def)

lemma radix_value_10: "list_all is_ascii_digit s \<Longrightarrow> radix_value 10 s = digits_value s"
proof (induction s rule: rev_induct)
  case Nil
  then show ?case by (simp add: radix_value_def digits_value_def)
next
  case (snoc c s)
  then show ?case by (simp add: radix_value_snoc to_digit_10)
qed

lemma show_hex_props:
  "radix_value 16 (show_hex n) = n \<and> list_all (is_digit_of 16) (show_hex n) \<and> show_hex n \<noteq> []"
proof (induction n rule: show_hex.induct)
  case (1 n)
  show ?case
  proof (cases "n < 16")
    case True
    then show ?thesis
      by (simp add: show_hex.simps [of n] radix_value_def to_digit_hex_char is_digit_hex_char)
  next
    case False
    with "1" show ?thesis
      by (simp add: show_hex.simps [of n] radix_value_snoc to_digit_hex_char is_digit_hex_char)
  qed
qed

lemma show_hex_length: "n < 16 ^ k \<Longrightarrow> 0 < k \<Longrightarrow> length (show_hex n) \<le> k"
proof (induction n arbitrary: k rule: show_hex.induct)
  case (1 n k)
  show ?case
  proof (cases "n < 16")
    case True
    then show ?thesis using "1.prems" by (simp add: show_hex.simps [of n])
  next
    case False
    then obtain j where k: "k = Suc j" "0 < j"
      using "1.prems" by (cases k; cases "k - 1") auto
    then have "n div 16 < 16 ^ j" using "1.prems"(1) by (simp add: div_less_iff_less_mult mult.commute)
    then have "length (show_hex (n div 16)) \<le> j" using "1.IH" [OF False] k(2) by blast
    then show ?thesis using False k by (simp add: show_hex.simps [of n])
  qed
qed

lemma show_nat_length: "n < 10 ^ k \<Longrightarrow> 0 < k \<Longrightarrow> length (show_nat n) \<le> k"
proof (induction n arbitrary: k rule: show_nat.induct)
  case (1 n k)
  show ?case
  proof (cases "n < 10")
    case True
    then show ?thesis using "1.prems" by (simp add: show_nat.simps [of n])
  next
    case False
    then obtain j where k: "k = Suc j" "0 < j"
      using "1.prems" by (cases k; cases "k - 1") auto
    then have "n div 10 < 10 ^ j" using "1.prems"(1) by (simp add: div_less_iff_less_mult mult.commute)
    then have "length (show_nat (n div 10)) \<le> j" using "1.IH" [OF False] k(2) by blast
    then show ?thesis using False k by (simp add: show_nat.simps [of n])
  qed
qed

lemma show_nat_no_leading_zero: "hd (show_nat n) = CHR ''0'' \<Longrightarrow> length (show_nat n) = 1"
proof (induction n rule: show_nat.induct)
  case (1 n)
  show ?case
  proof (cases "n < 10")
    case True
    then show ?thesis by (simp add: show_nat.simps [of n])
  next
    case False
    let ?m = "n div 10"
    have "hd (show_nat ?m) = CHR ''0''" using "1.prems" False by (simp add: show_nat.simps [of n])
    then have "length (show_nat ?m) = 1" using "1.IH" False by simp
    then have "?m < 10" "show_nat ?m = [digit_char ?m]"
      by (auto simp: show_nat.simps [of ?m] split: if_splits)
    moreover from this have "digit_char ?m = CHR ''0''" using \<open>hd (show_nat ?m) = CHR ''0''\<close> by simp
    then have "digit_value (digit_char ?m) = 0" by (simp add: digit_value_def)
    ultimately have "?m = 0" by simp
    then show ?thesis using False by simp
  qed
qed

section \<open>Reading a number that was printed\<close>

definition stops :: "(char \<Rightarrow> bool) \<Rightarrow> string \<Rightarrow> bool" where
  "stops p rest \<longleftrightarrow> (case rest of [] \<Rightarrow> True | c # _ \<Rightarrow> \<not> p c)"

lemma stops_simps [simp]: "stops p []" "stops p (c # cs) = (\<not> p c)"
  by (simp_all add: stops_def)

lemma take_drop_while:
  assumes "list_all p ds" and "stops p rest"
  shows "takeWhile p (ds @ rest) = ds" and "dropWhile p (ds @ rest) = rest"
  using assms by (cases rest; auto simp: list_all_iff takeWhile_append dropWhile_append takeWhile_eq_all_conv)+

lemma read_number_show_nat:
  assumes "n \<le> maximum" and "stops is_ascii_digit rest"
    and "case md of None \<Rightarrow> True | Some m \<Rightarrow> length (show_nat n) \<le> m"
  shows "read_number 10 md zp maximum (show_nat n @ rest) = Some (n, rest)"
proof -
  have p: "is_digit_of 10 = is_ascii_digit" by (rule ext) (rule is_digit_of_10)
  have "\<not> (hd (show_nat n) = CHR ''0'' \<and> 1 < length (show_nat n))"
    using show_nat_no_leading_zero [of n] by auto
  then show ?thesis
    using assms take_drop_while [OF show_nat_digits assms(2), of n]
    by (auto simp: read_number_def p radix_value_10 show_nat_digits split: option.splits)
qed

lemma read_number_show_hex:
  assumes "n < 2 ^ 16" and "stops (is_digit_of 16) rest"
  shows "read_number 16 (Some 4) True 65535 (show_hex n @ rest) = Some (n, rest)"
proof -
  have "length (show_hex n) \<le> 4" using assms(1) by (intro show_hex_length) simp_all
  then show ?thesis
    using assms show_hex_props [of n] take_drop_while [of "is_digit_of 16" "show_hex n" rest]
    by (simp add: read_number_def Let_def)
qed

lemma read_number_stops: "stops (is_digit_of r) s \<Longrightarrow> read_number r md zp maximum s = None"
  by (cases s) (simp_all add: read_number_def)

section \<open>IPv4\<close>

lemma dot_no_digit: "\<not> is_ascii_digit (CHR ''.'')"
  by (simp add: is_ascii_digit_def)

lemma octets_roundtrip:
  assumes "\<forall>x \<in> set os. x < 256" and "os \<noteq> []" and "stops is_ascii_digit rest"
  shows "read_octets (length os) i ((if 0 < i then ''.'' else []) @ ipv4_to_string os @ rest) = Some (os, rest)"
  using assms
proof (induction os arbitrary: i)
  case Nil
  then show ?case by simp
next
  case (Cons x xs)
  let ?more = "(if xs = [] then [] else ''.'' @ ipv4_to_string xs) @ rest"
  have "stops is_ascii_digit ?more" using Cons.prems(3) by (cases "xs = []") (simp_all add: dot_no_digit)
  moreover have "length (show_nat x) \<le> 3" using Cons.prems(1) by (intro show_nat_length) simp_all
  ultimately have n: "read_number 10 (Some 3) False 255 (show_nat x @ ?more) = Some (x, ?more)"
    using Cons.prems(1) by (intro read_number_show_nat) simp_all
  have t: "ipv4_to_string (x # xs) @ rest = show_nat x @ ?more"
    by (cases xs) (simp_all add: ipv4_to_string_def)
  have "read_separator (CHR ''.'') i (read_number 10 (Some 3) False 255)
      ((if 0 < i then ''.'' else []) @ ipv4_to_string (x # xs) @ rest) = Some (x, ?more)"
    using n unfolding t by (simp add: read_separator_def read_given_char_def)
  moreover have "read_octets (length xs) (Suc i) ?more = Some (xs, rest)"
    using Cons.IH [of "Suc i"] Cons.prems by (cases "xs = []") simp_all
  ultimately show ?case by (simp only: list.size add_0 Nat.add_Suc_right read_octets.simps) simp
qed

lemma ipv4_roundtrip:
  assumes "\<forall>x \<in> set os. x < 256" and "length os = 4" and "stops is_ascii_digit rest"
  shows "read_ipv4_addr (ipv4_to_string os @ rest) = Some (os, rest)"
proof -
  have "os \<noteq> []" using assms(2) by auto
  then show ?thesis
    using octets_roundtrip [OF assms(1) _ assms(3), of 0] assms(2) by (simp add: read_ipv4_addr_def)
qed

text \<open>A run of hexadecimal digits that is not followed by a dot is no IPv4 address.\<close>

lemma read_ipv4_hex:
  assumes "list_all (is_digit_of 16) tok" and "stops (\<lambda>c. is_digit_of 16 c \<or> c = CHR ''.'') rest"
  shows "read_ipv4_addr (tok @ rest) = None"
proof -
  have "stops (\<lambda>c. c = CHR ''.'') (dropWhile (is_digit_of 10) (tok @ rest))"
    using assms
  proof (induction tok)
    case Nil
    then show ?case by (cases rest) (auto dest: is_digit_10_16)
  next
    case (Cons c tok)
    have "c \<noteq> CHR ''.''" using Cons.prems(1) by (auto simp: is_digit_of_def to_digit_def)
    then show ?case using Cons by simp
  qed
  moreover have "read_octets (Suc (Suc (Suc 0))) 1 s = None" if "stops (\<lambda>c. c = CHR ''.'') s" for s
    using that by (cases s) (simp_all add: read_separator_def read_given_char_def)
  ultimately have "read_octets (Suc (Suc (Suc 0))) 1 (dropWhile (is_digit_of 10) (tok @ rest)) = None"
    by blast
  then show ?thesis
    by (simp add: read_ipv4_addr_def numeral_eq_Suc read_separator_def read_number_def Let_def)
qed

section \<open>IPv6 groups\<close>

text \<open>Text after which no further group follows.\<close>

definition closes :: "string \<Rightarrow> bool" where
  "closes rest \<longleftrightarrow>
     stops (\<lambda>c. is_digit_of 16 c \<or> c = CHR ''.'') rest
     \<and> (case rest of c # cs \<Rightarrow> c = CHR '':'' \<longrightarrow> (\<exists>cs'. cs = CHR '':'' # cs') | [] \<Rightarrow> True)"

lemma colon_no_digit: "\<not> is_digit_of 16 (CHR '':'')"
  by (simp add: is_digit_of_def to_digit_def)

lemma read_groups_closes:
  assumes "closes rest"
  shows "read_groups n i rest = ([], False, rest)"
proof (cases n)
  case 0
  then show ?thesis by simp
next
  case (Suc m)
  have no: "read_ipv4_addr s = None \<and> read_number 16 (Some 4) True 65535 s = None"
    if "stops (\<lambda>c. is_digit_of 16 c \<or> c = CHR ''.'') s" for s
  proof -
    have "stops (is_digit_of 16) s" using that by (cases s) simp_all
    then show ?thesis using read_ipv4_hex [of "[]" s] that by (simp add: read_number_stops)
  qed
  have "read_given_char (CHR '':'') rest = None
      \<or> (\<exists>cs. read_given_char (CHR '':'') rest = Some (CHR '':'' # cs))"
    using assms by (cases rest) (auto simp: closes_def read_given_char_def)
  then show ?thesis
    using Suc no [of rest] no [of "CHR '':'' # cs" for cs] assms
    by (auto simp: closes_def read_separator_def colon_no_digit)
qed

lemma groups_roundtrip:
  assumes "\<forall>g \<in> set gs. g < 2 ^ 16" and "length gs \<le> n" and "closes rest"
  shows "read_groups n i ((if 0 < i \<and> gs \<noteq> [] then '':'' else []) @ fmt_subslice gs @ rest) = (gs, False, rest)"
  using assms
proof (induction gs arbitrary: n i)
  case Nil
  then show ?case by (simp add: read_groups_closes fmt_subslice_def)
next
  case (Cons g gs)
  obtain m where n: "n = Suc m" using Cons.prems(2) by (cases n) simp_all
  let ?more = "(if gs \<noteq> [] then '':'' else []) @ fmt_subslice gs @ rest"
  have stop: "stops (\<lambda>c. is_digit_of 16 c \<or> c = CHR ''.'') ?more"
    using Cons.prems(3) by (cases "gs = []") (simp_all add: colon_no_digit closes_def fmt_subslice_def)
  have t: "fmt_subslice (g # gs) @ rest = show_hex g @ ?more"
    by (cases gs) (simp_all add: fmt_subslice_def)
  have "stops (is_digit_of 16) ?more" using stop by (cases ?more) simp_all
  then have "read_number 16 (Some 4) True 65535 (show_hex g @ ?more) = Some (g, ?more)"
    using Cons.prems(1) by (intro read_number_show_hex) simp_all
  moreover have "read_ipv4_addr (show_hex g @ ?more) = None"
    using read_ipv4_hex [OF _ stop] show_hex_props [of g] by blast
  moreover have "read_groups m (Suc i) ?more = (gs, False, rest)"
    using Cons.IH [of m "Suc i"] Cons.prems n by simp
  moreover define more where "more = ?more"
  ultimately have "read_number 16 (Some 4) True 65535 (show_hex g @ more) = Some (g, more)"
    "read_ipv4_addr (show_hex g @ more) = None" "read_groups m (Suc i) more = (gs, False, rest)"
    by simp_all
  then show ?case
    unfolding n t more_def [symmetric]
    by (cases "i = 0"; cases "m = 0") (simp_all add: read_separator_def read_given_char_def)
qed

section \<open>The run of zeros\<close>

definition zeros_at :: "nat list \<Rightarrow> nat \<times> nat \<Rightarrow> bool" where
  "zeros_at gs = (\<lambda>(start, len). 0 < len \<longrightarrow>
     start + len \<le> length gs \<and> take len (drop start gs) = replicate len 0)"

lemma zeros_at_extend:
  assumes "zeros_at (xs @ 0 # ys) (start, len)" and "0 < len \<longrightarrow> start + len = length xs"
  shows "zeros_at (xs @ 0 # ys) (if len = 0 then length xs else start, Suc len)"
proof (cases "len = 0")
  case True
  then show ?thesis by (simp add: zeros_at_def)
next
  case False
  then have "drop start (xs @ 0 # ys) = drop start xs @ 0 # ys" "length (drop start xs) = len"
    using assms(2) by simp_all
  then show ?thesis using assms False
    by (simp add: zeros_at_def replicate_append_same [symmetric])
qed

lemma zero_run_zeros:
  assumes "zeros_at (xs @ gs) current" and "zeros_at (xs @ gs) longest"
    and "0 < snd current \<longrightarrow> fst current + snd current = length xs"
  shows "zeros_at (xs @ gs) (zero_run (length xs) gs current longest)"
  using assms
proof (induction gs arbitrary: xs current longest)
  case Nil
  then show ?case by simp
next
  case (Cons g gs)
  obtain start len where c: "current = (start, len)" by fastforce
  show ?case
  proof (cases "g = 0")
    case True
    let ?cur = "(if len = 0 then length xs else start, Suc len)"
    have "zeros_at (xs @ 0 # gs) ?cur"
      using Cons.prems(1,3) True c by (intro zeros_at_extend) simp_all
    then show ?thesis
      using Cons.IH [of "xs @ [g]" ?cur "if snd longest < Suc len then ?cur else longest"] Cons.prems(2,3) True c
      by (auto simp: Let_def)
  next
    case False
    then show ?thesis
      using Cons.IH [of "xs @ [g]" "(0, 0)" longest] Cons.prems(2) c by (simp add: zeros_at_def)
  qed
qed

lemma zero_run_split:
  assumes "zero_run 0 gs (0, 0) (0, 0) = (start, len)" and "1 < len"
  shows "gs = take start gs @ replicate len 0 @ drop (start + len) gs" and "start + len \<le> length gs"
proof -
  have z: "zeros_at gs (start, len)"
    using zero_run_zeros [of "[]" gs "(0, 0)" "(0, 0)"] assms(1) by (simp add: zeros_at_def)
  then show "start + len \<le> length gs" using assms(2) by (simp add: zeros_at_def)
  have "gs = take start gs @ take len (drop start gs) @ drop len (drop start gs)"
    unfolding append_take_drop_id by (rule refl)
  then show "gs = take start gs @ replicate len 0 @ drop (start + len) gs"
    using z assms(2) by (simp add: zeros_at_def add.commute)
qed

section \<open>IPv6 and socket addresses\<close>

lemma ipv6_mapped_roundtrip:
  assumes gs: "length gs = 8" "\<forall>g \<in> set gs. g < 2 ^ 16" and "to_ipv4_mapped gs = Some os" and "closes rest"
  shows "read_ipv6_addr (''::ffff:'' @ ipv4_to_string os @ rest) = Some (gs, rest)"
proof -
  have os: "os = [gs ! 6 div 256, gs ! 6 mod 256, gs ! 7 div 256, gs ! 7 mod 256]"
    and pre: "take 5 gs = replicate 5 0" "gs ! 5 = 65535"
    using assms(3) by (auto simp: to_ipv4_mapped_def split: if_splits)
  have "gs ! 6 < 65536" "gs ! 7 < 65536" using gs by (simp_all add: all_set_conv_all_nth)
  then have lim: "\<forall>x \<in> set os. x < 256" by (auto simp: os div_less_iff_less_mult)
  obtain a b c d e f x y where all: "gs = [a, b, c, d, e, f, x, y]"
    using gs(1) by (auto simp: eval_nat_numeral length_Suc_conv)
  have five: "replicate 5 (0 :: nat) = [0, 0, 0, 0, 0]" by (simp add: eval_nat_numeral)
  have eq: "gs = [0, 0, 0, 0, 0, 65535, gs ! 6, gs ! 7]"
    using pre unfolding all five by simp
  have stop: "stops is_ascii_digit rest"
    using assms(4) is_digit_10_16 by (cases rest) (auto simp: closes_def is_digit_of_10 [symmetric])
  have v4: "read_ipv4_addr (ipv4_to_string os @ rest) = Some (os, rest)"
    using ipv4_roundtrip [OF lim _ stop] by (simp add: os)
  have c: "closes (''::ffff:'' @ ipv4_to_string os @ rest)"
    by (simp add: closes_def colon_no_digit)
  have "hex_char 15 = CHR ''f''" by code_simp
  then have hex: "show_hex 65535 = ''ffff''" by (simp add: show_hex.simps)
  have f: "read_number 16 (Some 4) True 65535 (''ffff'' @ CHR '':'' # s) = Some (65535, CHR '':'' # s)" for s
    using read_number_show_hex [of 65535 "CHR '':'' # s"] by (simp add: hex colon_no_digit)
  have no4: "read_ipv4_addr (''ffff'' @ CHR '':'' # s) = None" for s
    using read_ipv4_hex [of "''ffff''" "CHR '':'' # s"] show_hex_props [of 65535] by (simp add: hex colon_no_digit)
  have "read_groups 7 0 (''ffff:'' @ ipv4_to_string os @ rest) = (65535 # ipv4_groups os, True, rest)"
  proof -
    have "(7 :: nat) = Suc (Suc 5)" by simp
    then show ?thesis
      using f [of "ipv4_to_string os @ rest"] no4 [of "ipv4_to_string os @ rest"] v4
      by (simp only: read_groups.simps) (simp add: read_separator_def read_given_char_def)
  qed
  then show ?thesis
    using read_groups_closes [OF c, of 8 0]
    by (subst eq) (simp add: read_ipv6_addr_def read_given_char_def ipv4_groups_def os five)
qed

lemma ipv6_roundtrip:
  assumes gs: "length gs = 8" "\<forall>g \<in> set gs. g < 2 ^ 16" and rest: "closes rest" "stops (\<lambda>c. c = CHR '':'') rest"
  shows "read_ipv6_addr (ipv6_to_string gs @ rest) = Some (gs, rest)"
proof (cases "to_ipv4_mapped gs")
  case (Some os)
  then show ?thesis using ipv6_mapped_roundtrip [OF gs Some rest(1)] by (simp add: ipv6_to_string_def)
next
  case None
  obtain start len where z: "zero_run 0 gs (0, 0) (0, 0) = (start, len)" by fastforce
  show ?thesis
  proof (cases "1 < len")
    case False
    then show ?thesis
      using None z groups_roundtrip [OF gs(2) _ rest(1), of 8 0] gs(1)
      by (simp add: ipv6_to_string_def read_ipv6_addr_def)
  next
    case True
    define h t where "h = take start gs" and "t = drop (start + len) gs"
    note sp = zero_run_split [OF z True]
    have gs_eq: "gs = h @ replicate len 0 @ t" using sp(1) by (simp add: h_def t_def)
    have len: "length h + len + length t = 8" using gs(1) by (metis gs_eq add.assoc length_append length_replicate)
    have small: "\<forall>g \<in> set h. g < 2 ^ 16" "\<forall>g \<in> set t. g < 2 ^ 16"
      using gs(2) by (auto simp: h_def t_def dest: in_set_takeD in_set_dropD)
    have c: "closes (''::'' @ fmt_subslice t @ rest)" by (simp add: closes_def colon_no_digit)
    have head: "read_groups 8 0 (fmt_subslice h @ ''::'' @ fmt_subslice t @ rest)
        = (h, False, ''::'' @ fmt_subslice t @ rest)"
      using groups_roundtrip [OF small(1) _ c, of 8 0] len by simp
    have tail: "read_groups (7 - length h) 0 (fmt_subslice t @ rest) = (t, False, rest)"
      using groups_roundtrip [OF small(2) _ rest(1), of "7 - length h" 0] len True by simp
    have "ipv6_to_string gs @ rest = fmt_subslice h @ ''::'' @ fmt_subslice t @ rest"
      using None z True by (simp add: ipv6_to_string_def h_def t_def)
    moreover have "8 - length h - length t = len" "length h \<noteq> 8" using len True by simp_all
    ultimately show ?thesis
      using head tail gs_eq by (simp add: read_ipv6_addr_def read_given_char_def)
  qed
qed

lemma stops_port: "stops is_ascii_digit []" by simp

lemma read_port_roundtrip: "p < 2 ^ 16 \<Longrightarrow> read_port ('':'' @ show_nat p) = Some (p, [])"
  using read_number_show_nat [of p 65535 "[]" None True] by (simp add: read_port_def read_given_char_def)

lemma read_scope_roundtrip:
  assumes "n < 2 ^ 32" and "stops is_ascii_digit rest"
  shows "read_scope_id (''%'' @ show_nat n @ rest) = Some (n, rest)"
  using read_number_show_nat [of n "2 ^ 32 - 1" rest None True] assms
  by (simp add: read_scope_id_def read_given_char_def)

lemma socket_v4_roundtrip:
  assumes "length os = 4" and "\<forall>x \<in> set os. x < 2 ^ 8" and "p < 2 ^ 16"
  shows "read_socket_addr_v4 (ipv4_to_string os @ '':'' @ show_nat p) = Some (\<lparr>sa_ip = Ipv4 os, sa_port = p\<rparr>, [])"
proof -
  have "stops is_ascii_digit ('':'' @ show_nat p)" by (simp add: is_ascii_digit_def)
  then show ?thesis
    using ipv4_roundtrip [of os "'':'' @ show_nat p"] assms read_port_roundtrip [OF assms(3)]
    by (simp add: read_socket_addr_v4_def)
qed

lemma socket_v6_roundtrip:
  assumes "length gs = 8" and "\<forall>x \<in> set gs. x < 2 ^ 16" and "scope < 2 ^ 32" and "p < 2 ^ 16"
  shows "read_socket_addr_v6 (''['' @ ipv6_to_string gs @ (if scope = 0 then [] else ''%'' @ show_nat scope)
           @ '']:'' @ show_nat p) = Some (\<lparr>sa_ip = Ipv6 gs scope, sa_port = p\<rparr>, [])"
proof -
  define rest where "rest = (if scope = 0 then [] else ''%'' @ show_nat scope) @ '']:'' @ show_nat p"
  have "closes rest" "stops (\<lambda>c. c = CHR '':'') rest"
    by (auto simp: rest_def closes_def is_digit_of_def to_digit_def)
  then have ip: "read_ipv6_addr (ipv6_to_string gs @ rest) = Some (gs, rest)"
    using ipv6_roundtrip assms(1,2) by blast
  have sc: "(case read_scope_id rest of Some (v, r) \<Rightarrow> (v, r) | None \<Rightarrow> (0, rest)) = (scope, '']:'' @ show_nat p)"
  proof (cases "scope = 0")
    case True
    then show ?thesis by (simp add: rest_def read_scope_id_def read_given_char_def)
  next
    case False
    have "stops is_ascii_digit ('']:'' @ show_nat p)" by (simp add: is_ascii_digit_def)
    then show ?thesis using False read_scope_roundtrip [OF assms(3)] by (simp add: rest_def)
  qed
  show ?thesis
    using ip sc read_port_roundtrip [OF assms(4)]
    unfolding rest_def [symmetric] read_socket_addr_v6_def by (simp add: read_given_char_def)
qed

text \<open>The type invariant of \<open>SocketAddr\<close> is all that the round trip needs.\<close>

lemma socket_addr_roundtrip:
  assumes "socket_addr_ok a"
  shows "SocketAddr_from_str (SocketAddr_to_string a) = Some a"
proof (cases "sa_ip a")
  case (Ipv4 os)
  then show ?thesis
    using assms socket_v4_roundtrip [of os "sa_port a"]
    by (cases a) (simp add: SocketAddr_from_str_def SocketAddr_to_string_def socket_addr_ok_def)
next
  case (Ipv6 gs scope)
  have "read_socket_addr_v4 (CHR ''['' # s) = None" for s
    using read_ipv4_hex [of "[]" "CHR ''['' # s"]
    by (simp add: read_socket_addr_v4_def is_digit_of_def to_digit_def)
  then show ?thesis
    using assms Ipv6 socket_v6_roundtrip [of gs scope "sa_port a"]
    by (cases a) (simp add: SocketAddr_from_str_def SocketAddr_to_string_def socket_addr_ok_def)
qed

end
