(* ===== verification/Endpoint_Names.thy ===== *)
theory Endpoint_Names
  imports Socket_Roundtrip "HOL-Library.Sublist"
begin

text \<open>
  The advertised endpoint of a node (\<open>canonical_endpoint\<close> of \<open>coactor/src/cluster/authority.rs\<close>):
  a socket address in its printed form, or a lower-case DNS name with a decimal port.  Clients
  and Servers compare endpoints as strings, so the point of the function is that its results are
  fixed by it.
\<close>

section \<open>Definitions\<close>

definition to_ascii_lowercase :: "string \<Rightarrow> string" where
  "to_ascii_lowercase = map (\<lambda>c. if is_ascii_uppercase c then char_of ((of_char c :: nat) + 32) else c)"

text \<open>\<open>str::rsplit_once\<close>: around the last separator.\<close>

definition rsplit_once :: "char \<Rightarrow> string \<Rightarrow> (string \<times> string) option" where
  "rsplit_once c s =
     (if c \<in> set s
      then let after = rev (takeWhile (\<lambda>x. x \<noteq> c) (rev s))
           in Some (take (length s - Suc (length after)) s, after)
      else None)"

definition canonical_endpoint :: "string \<Rightarrow> string option" where
  "canonical_endpoint value =
     (if value = [] \<or> sublist ''://'' value \<or> CHR ''/'' \<in> set value \<or> CHR ''?'' \<in> set value \<or> CHR ''#'' \<in> set value
      then None
      else case SocketAddr_from_str value of
             Some address \<Rightarrow> if sa_port address \<noteq> 0 then Some (SocketAddr_to_string address) else None
           | None \<Rightarrow>
               (case rsplit_once (CHR '':'') value of
                  None \<Rightarrow> None
                | Some (host, port) \<Rightarrow>
                    if host = [] \<or> first_char host = Some (CHR ''['') \<or> last_char host = Some (CHR '']'')
                       \<or> CHR '':'' \<in> set host
                    then None
                    else (case parse_unsigned 65535 port of
                            None \<Rightarrow> None
                          | Some p \<Rightarrow>
                              let h = to_ascii_lowercase host in
                              if p = 0 \<or> 253 < length h \<or> list_ex (\<lambda>label. \<not> is_dns_label label) (split_on (CHR ''.'') h)
                              then None
                              else Some (h @ '':'' @ show_nat p))))"

section \<open>What the parser accepts\<close>

lemma read_number_max: "read_number r md zp m s = Some (n, rest) \<Longrightarrow> n \<le> m"
  by (auto simp: read_number_def Let_def split: if_splits)

lemma read_separator_Some:
  "read_separator c i inner s = Some x \<Longrightarrow> \<exists>s'. inner s' = Some x \<and> s = (if 0 < i then [c] else []) @ s'"
  by (auto simp: read_separator_def read_given_char_def split: if_splits option.splits list.splits)

lemma read_octets_ok:
  "read_octets n i s = Some (os, rest) \<Longrightarrow> length os = n \<and> (\<forall>x \<in> set os. x < 2 ^ 8)"
proof (induction n arbitrary: i s os)
  case 0
  then show ?case by simp
next
  case (Suc n)
  obtain x s1 xs where r: "read_separator (CHR ''.'') i (read_number 10 (Some 3) False 255) s = Some (x, s1)"
    "read_octets n (Suc i) s1 = Some (xs, rest)" "os = x # xs"
    using Suc.prems by (auto split: option.splits)
  then have "x \<le> 255" using read_separator_Some [OF r(1)] read_number_max by blast
  then show ?case using Suc.IH [OF r(2)] r(3) by auto
qed

lemma read_groups_ok:
  "read_groups n i s = (gs, v4, rest) \<Longrightarrow> length gs \<le> n \<and> (\<forall>g \<in> set gs. g < 2 ^ 16)"
proof (induction n arbitrary: i s gs v4)
  case 0
  then show ?case by simp
next
  case (Suc n)
  show ?case
  proof (cases "if 0 < n then read_separator (CHR '':'') i read_ipv4_addr s else None")
    case (Some p)
    obtain os r where p: "p = (os, r)" by fastforce
    have n: "0 < n" and "read_separator (CHR '':'') i read_ipv4_addr s = Some (os, r)"
      using Some p by (auto split: if_splits)
    then obtain s' where "read_octets 4 0 s' = Some (os, r)"
      using read_separator_Some by (metis read_ipv4_addr_def)
    then have "length os = 4" and small: "\<forall>x \<in> set os. x < 2 ^ 8" using read_octets_ok by blast+
    then have "os ! 0 < 256" "os ! 1 < 256" "os ! 2 < 256" "os ! 3 < 256" by (simp_all add: all_set_conv_all_nth)
    moreover have "gs = ipv4_groups os" using Suc.prems Some p by simp
    ultimately show ?thesis using n by (simp add: ipv4_groups_def)
  next
    case None
    show ?thesis
    proof (cases "read_separator (CHR '':'') i (read_number 16 (Some 4) True 65535) s")
      case None': None
      then show ?thesis using Suc.prems None by simp
    next
      case (Some p)
      obtain g r where p: "p = (g, r)" by fastforce
      have "g \<le> 65535" using Some read_separator_Some read_number_max unfolding p by blast
      moreover obtain gs' v4' where "read_groups n (Suc i) r = (gs', v4', rest)" "gs = g # gs'"
        using Suc.prems None Some p by (auto split: prod.splits)
      ultimately show ?thesis using Suc.IH by fastforce
    qed
  qed
qed

lemma read_ipv6_ok:
  assumes "read_ipv6_addr s = Some (gs, rest)"
  shows "length gs = 8 \<and> (\<forall>g \<in> set gs. g < 2 ^ 16)"
proof -
  obtain h v4 s1 where h: "read_groups 8 0 s = (h, v4, s1)" by (metis prod_cases3)
  note hok = read_groups_ok [OF h]
  show ?thesis
  proof (cases "length h = 8")
    case True
    then show ?thesis using assms h hok by (simp add: read_ipv6_addr_def)
  next
    case False
    then obtain s3 t v s4 where t: "read_groups (7 - length h) 0 s3 = (t, v, s4)"
      "gs = h @ replicate (8 - length h - length t) 0 @ t"
      using assms h by (auto simp: read_ipv6_addr_def split: if_splits option.splits prod.splits)
    have "length h + length t \<le> 8" "\<forall>g \<in> set t. g < 2 ^ 16"
      using read_groups_ok [OF t(1)] hok False by auto
    then show ?thesis using hok t(2) by auto
  qed
qed

lemma read_port_ok: "read_port s = Some (p, rest) \<Longrightarrow> p < 2 ^ 16"
  by (auto simp: read_port_def split: option.splits dest!: read_number_max)

lemma parsed_socket_addr_ok:
  assumes "SocketAddr_from_str s = Some a"
  shows "socket_addr_ok a"
proof -
  consider "read_socket_addr_v4 s = Some (a, [])" | "read_socket_addr_v6 s = Some (a, [])"
    using assms by (auto simp: SocketAddr_from_str_def split: option.splits list.splits)
  then show ?thesis
  proof cases
    case 1
    then show ?thesis
      by (auto simp: read_socket_addr_v4_def read_ipv4_addr_def socket_addr_ok_def
          split: option.splits dest!: read_port_ok read_octets_ok)
  next
    case 2
    have "scope < 2 ^ 32" if "read_scope_id x = Some (scope, y)" for x scope y
      using that by (auto simp: read_scope_id_def split: option.splits dest!: read_number_max)
    then show ?thesis
      using 2 by (auto simp: read_socket_addr_v6_def socket_addr_ok_def
          split: option.splits prod.splits dest!: read_port_ok read_ipv6_ok)
  qed
qed

section \<open>Text that parses as an IPv4 address\<close>

lemma show_digits_value:
  assumes "list_all is_ascii_digit ds" and "ds \<noteq> []" and "hd ds = CHR ''0'' \<Longrightarrow> length ds = 1"
  shows "show_nat (digits_value ds) = ds"
  using assms
proof (induction ds rule: rev_induct)
  case Nil
  then show ?case by simp
next
  case (snoc c ds)
  have c: "digit_value c < 10" "digit_char (digit_value c) = c"
    using snoc.prems(1) by (auto simp: is_ascii_digit_def digit_value_def digit_char_def)
  show ?case
  proof (cases "ds = []")
    case True
    then show ?thesis using c by (simp add: digits_value_def show_nat.simps [of "digit_value c"])
  next
    case False
    have "hd ds \<noteq> CHR ''0''" using snoc.prems(3) False by auto
    then have ih: "show_nat (digits_value ds) = ds" using snoc.IH snoc.prems(1) False by simp
    have "digits_value ds \<noteq> 0"
    proof
      assume "digits_value ds = 0"
      then have "ds = [digit_char 0]" using ih by (simp add: show_nat.simps [of 0])
      moreover have "digit_char 0 = CHR ''0''" by code_simp
      ultimately show False using \<open>hd ds \<noteq> CHR ''0''\<close> by simp
    qed
    then show ?thesis
      using ih c by (simp add: show_nat.simps [of "10 * digits_value ds + digit_value c"])
  qed
qed

lemma read_number_text:
  assumes "read_number 10 md False m s = Some (n, rest)"
  shows "s = show_nat n @ rest"
proof -
  let ?ds = "takeWhile is_ascii_digit s"
  have p: "is_digit_of 10 = is_ascii_digit" by (rule ext) (rule is_digit_of_10)
  have d: "list_all is_ascii_digit ?ds" by (auto simp: list_all_iff dest: set_takeWhileD)
  have ds: "?ds \<noteq> []" "hd ?ds = CHR ''0'' \<Longrightarrow> length ?ds = 1" "n = digits_value ?ds" "rest = dropWhile is_ascii_digit s"
    using assms d
    by (auto simp: read_number_def p radix_value_10 Let_def not_less le_Suc_eq split: if_splits)
  then show ?thesis using show_digits_value [OF d] takeWhile_dropWhile_id [of is_ascii_digit s] by simp
qed

lemma read_octets_text:
  "read_octets n i s = Some (os, rest) \<Longrightarrow>
     s = (if 0 < i \<and> os \<noteq> [] then ''.'' else []) @ ipv4_to_string os @ rest"
proof (induction n arbitrary: i s os)
  case 0
  then show ?case by (simp add: ipv4_to_string_def)
next
  case (Suc n)
  obtain x s1 xs where r: "read_separator (CHR ''.'') i (read_number 10 (Some 3) False 255) s = Some (x, s1)"
    "read_octets n (Suc i) s1 = Some (xs, rest)" "os = x # xs"
    using Suc.prems by (auto split: option.splits)
  have "s = (if 0 < i then ''.'' else []) @ show_nat x @ s1"
    using read_separator_Some [OF r(1)] read_number_text by blast
  moreover have "s1 = (if xs \<noteq> [] then ''.'' else []) @ ipv4_to_string xs @ rest"
    using Suc.IH [OF r(2)] by simp
  moreover have "ipv4_to_string (x # xs) = show_nat x @ (if xs \<noteq> [] then ''.'' else []) @ ipv4_to_string xs"
    by (cases xs) (simp_all add: ipv4_to_string_def)
  ultimately show ?case using r(3) by simp
qed

section \<open>Characters of an endpoint\<close>

lemma set_join: "set (join c xs) \<subseteq> insert c (\<Union> (set ` set xs))"
  by (induction c xs rule: join.induct) auto

lemma digit_no_slash: "is_digit_of 16 c \<Longrightarrow> c \<notin> {CHR ''/'', CHR ''?'', CHR ''#'', CHR '':''}"
  by (auto simp: is_digit_of_def to_digit_def)

lemma show_nat_chars: "c \<in> set (show_nat n) \<Longrightarrow> is_digit_of 16 c"
  using show_nat_digits [of n] by (auto simp: list_all_iff is_digit_of_10 [symmetric] intro: is_digit_10_16)

lemma show_hex_chars: "c \<in> set (show_hex n) \<Longrightarrow> is_digit_of 16 c"
  using show_hex_props [of n] by (auto simp: list_all_iff)

lemma ipv4_chars: "c \<in> set (ipv4_to_string os) \<Longrightarrow> is_digit_of 16 c \<or> c = CHR ''.''"
  using set_join [of "CHR ''.''" "map show_nat os"] by (auto simp: ipv4_to_string_def dest: show_nat_chars)

lemma subslice_chars: "c \<in> set (fmt_subslice gs) \<Longrightarrow> is_digit_of 16 c \<or> c = CHR '':''"
  using set_join [of "CHR '':''" "map show_hex gs"] by (auto simp: fmt_subslice_def dest: show_hex_chars)

lemma ipv6_chars: "c \<in> set (ipv6_to_string gs) \<Longrightarrow> is_digit_of 16 c \<or> c \<in> {CHR '':'', CHR ''.''}"
proof -
  have "is_digit_of 16 (CHR ''f'')" by (simp add: is_digit_of_def to_digit_def)
  then show "c \<in> set (ipv6_to_string gs) \<Longrightarrow> is_digit_of 16 c \<or> c \<in> {CHR '':'', CHR ''.''}"
    by (auto simp: ipv6_to_string_def split: option.splits prod.splits if_splits
        dest: ipv4_chars subslice_chars)
qed

lemma socket_chars:
  "c \<in> set (SocketAddr_to_string a) \<Longrightarrow> c \<notin> {CHR ''/'', CHR ''?'', CHR ''#''}"
  by (auto simp: SocketAddr_to_string_def split: ip_addr.splits if_splits
      dest!: ipv4_chars ipv6_chars show_nat_chars dest: digit_no_slash)

lemma scheme_has_slash: "sublist ''://'' s \<Longrightarrow> CHR ''/'' \<in> set s"
  using set_mono_sublist by fastforce

lemma canonical_socket:
  assumes "SocketAddr_from_str s = Some a" and "sa_port a \<noteq> 0"
  shows "canonical_endpoint (SocketAddr_to_string a) = Some (SocketAddr_to_string a)"
proof -
  let ?t = "SocketAddr_to_string a"
  have "?t \<noteq> []" by (simp add: SocketAddr_to_string_def split: ip_addr.splits)
  moreover have "CHR ''/'' \<notin> set ?t" "CHR ''?'' \<notin> set ?t" "CHR ''#'' \<notin> set ?t"
    using socket_chars [of _ a] by blast+
  moreover have "SocketAddr_from_str ?t = Some a"
    using socket_addr_roundtrip [OF parsed_socket_addr_ok [OF assms(1)]] .
  ultimately show ?thesis
    using assms(2) scheme_has_slash [of ?t] by (auto simp: canonical_endpoint_def)
qed

section \<open>Host names\<close>

lemma split_on_chars: "x \<in> set s \<Longrightarrow> x = c \<or> (\<exists>p \<in> set (split_on c s). x \<in> set p)"
  by (induction s) (auto split: list.splits)

definition host_ok :: "string \<Rightarrow> bool" where
  "host_ok h \<longleftrightarrow> h \<noteq> [] \<and> length h \<le> 253 \<and> list_all is_dns_label (split_on (CHR ''.'') h)"

lemma host_chars:
  assumes "host_ok h" and "c \<in> set h"
  shows "is_ascii_lowercase c \<or> is_ascii_digit c \<or> c = CHR ''-'' \<or> c = CHR ''.''"
  using split_on_chars [OF assms(2), of "CHR ''.''"] assms(1) dns_label_chars
  unfolding host_ok_def list_all_iff by blast

lemma host_no_chars:
  assumes "host_ok h"
  shows "set h \<inter> {CHR ''/'', CHR ''?'', CHR ''#'', CHR '':'', CHR ''['', CHR '']''} = {}"
proof -
  have "\<not> (is_ascii_lowercase c \<or> is_ascii_digit c \<or> c = CHR ''-'' \<or> c = CHR ''.'')"
    if "c \<in> {CHR ''/'', CHR ''?'', CHR ''#'', CHR '':'', CHR ''['', CHR '']''}" for c
    using that by (auto simp: is_ascii_lowercase_def is_ascii_digit_def)
  then show ?thesis using host_chars [OF assms] by blast
qed

lemma host_lowercase: "host_ok h \<Longrightarrow> to_ascii_lowercase h = h"
proof -
  assume h: "host_ok h"
  have "\<not> is_ascii_uppercase c" if "c \<in> set h" for c
    using host_chars [OF h that] by (auto simp: is_ascii_lowercase_def is_ascii_uppercase_def is_ascii_digit_def)
  then show ?thesis unfolding to_ascii_lowercase_def by (intro map_idI) simp
qed

lemma rsplit_once_colon:
  assumes "c \<notin> set q"
  shows "rsplit_once c (h @ c # q) = Some (h, q)"
proof -
  have "takeWhile (\<lambda>x. x \<noteq> c) (rev (h @ c # q)) = rev q"
    using assms by (simp add: takeWhile_append takeWhile_eq_all_conv)
  then show ?thesis by (simp add: rsplit_once_def Let_def)
qed

lemma port_no_colon: "CHR '':'' \<notin> set (show_nat p)"
  using show_nat_chars [of "CHR '':''" p] colon_no_digit by blast

lemma host_as_socket:
  assumes h: "host_ok h" and a: "SocketAddr_from_str (h @ '':'' @ show_nat p) = Some a"
  shows "SocketAddr_to_string a = h @ '':'' @ show_nat p \<and> sa_port a = p"
proof -
  let ?s = "h @ '':'' @ show_nat p"
  have "hd ?s \<noteq> CHR ''[''" "?s \<noteq> []"
    using host_no_chars [OF h] h by (cases h; auto simp: host_ok_def)+
  then have "read_socket_addr_v6 ?s = None"
    by (cases ?s) (auto simp: read_socket_addr_v6_def read_given_char_def)
  then have "read_socket_addr_v4 ?s = Some (a, [])"
    using a by (auto simp: SocketAddr_from_str_def split: option.splits list.splits)
  then obtain os s1 q where o: "read_octets 4 0 ?s = Some (os, s1)" "read_port s1 = Some (q, [])"
    "a = \<lparr>sa_ip = Ipv4 os, sa_port = q\<rparr>"
    by (auto simp: read_socket_addr_v4_def read_ipv4_addr_def split: option.splits)
  obtain t where t: "s1 = CHR '':'' # t" "read_number 10 None True 65535 t = Some (q, [])"
    using o(2) by (auto simp: read_port_def read_given_char_def split: option.splits list.splits if_splits)
  have "?s = ipv4_to_string os @ CHR '':'' # t"
    using read_octets_text [OF o(1)] t(1) by simp
  moreover have "CHR '':'' \<notin> set h" using host_no_chars [OF h] by blast
  moreover have "CHR '':'' \<notin> set (ipv4_to_string os)"
    using ipv4_chars [of "CHR '':''" os] colon_no_digit by auto
  ultimately have eq: "h = ipv4_to_string os" "show_nat p = t"
    using separator_unique [of "CHR '':''" h "ipv4_to_string os" "show_nat p" t] by simp_all
  have "is_digit_of 10 = is_ascii_digit" by (rule ext) (rule is_digit_of_10)
  then have "q = radix_value 10 (takeWhile is_ascii_digit (show_nat p))"
    using t(2) unfolding eq(2) [symmetric] by (auto simp: read_number_def Let_def split: if_splits)
  moreover have "takeWhile is_ascii_digit (show_nat p) = show_nat p"
    using show_nat_digits [of p] by (simp add: takeWhile_eq_all_conv list_all_iff)
  ultimately have "q = p" by (simp add: radix_value_10 show_nat_digits)
  then show ?thesis using o(3) eq(1) by (simp add: SocketAddr_to_string_def)
qed

lemma canonical_host:
  assumes h: "host_ok h" and p: "p \<noteq> 0" "p \<le> 65535"
  shows "canonical_endpoint (h @ '':'' @ show_nat p) = Some (h @ '':'' @ show_nat p)"
proof -
  let ?s = "h @ '':'' @ show_nat p"
  note no = host_no_chars [OF h]
  have clean: "?s \<noteq> []" "CHR ''/'' \<notin> set ?s" "CHR ''?'' \<notin> set ?s" "CHR ''#'' \<notin> set ?s"
    using no show_nat_chars [of _ p] digit_no_slash by auto
  then have scheme: "\<not> sublist ''://'' ?s" using scheme_has_slash by blast
  show ?thesis
  proof (cases "SocketAddr_from_str ?s")
    case (Some a)
    then show ?thesis
      using host_as_socket [OF h Some] clean scheme p(1) by (simp add: canonical_endpoint_def)
  next
    case None
    have "last_char h = Some c \<Longrightarrow> c \<in> set h" for c by (cases h) (auto simp: last_char_def)
    then have "first_char h \<noteq> Some (CHR ''['')" "last_char h \<noteq> Some (CHR '']'')"
      using no by (auto simp: first_char_def split: list.splits)
    moreover have "rsplit_once (CHR '':'') ?s = Some (h, show_nat p)"
      using rsplit_once_colon [OF port_no_colon] by simp
    moreover have "parse_unsigned 65535 (show_nat p) = Some p" using p(2) by simp
    moreover have "\<not> list_ex (\<lambda>label. \<not> is_dns_label label) (split_on (CHR ''.'') h)" "\<not> 253 < length h" "h \<noteq> []"
      using h by (auto simp: host_ok_def list_all_iff list_ex_iff)
    ultimately show ?thesis
      using None clean scheme p(1) no host_lowercase [OF h] by (simp add: canonical_endpoint_def Let_def)
  qed
qed

section \<open>Properties\<close>

text \<open>
  C40. \<open>canonical_endpoint\<close> is idempotent: whatever text a node is configured with, IPv4, IPv6
  with or without compression and scope, or host name, the endpoint it advertises is accepted
  unchanged: every advertised endpoint is its own canonical form.
\<close>

theorem canonical_endpoint_idempotent:
  assumes "canonical_endpoint value = Some e"
  shows "canonical_endpoint e = Some e"
proof (cases "SocketAddr_from_str value")
  case (Some a)
  then show ?thesis
    using assms canonical_socket [OF Some] by (auto simp: canonical_endpoint_def split: if_splits)
next
  case None
  then obtain host port p where "rsplit_once (CHR '':'') value = Some (host, port)"
    and "parse_unsigned 65535 port = Some p" and "p \<noteq> 0"
    and e: "e = to_ascii_lowercase host @ '':'' @ show_nat p" and "host_ok (to_ascii_lowercase host)"
    using assms
    by (auto simp: canonical_endpoint_def host_ok_def to_ascii_lowercase_def Let_def list_ex_iff list_all_iff
        split: if_splits option.splits prod.splits)
  then show ?thesis using canonical_host parse_unsigned_bound by blast
qed

theorem canonical_endpoint_idempotent_witness:
  "canonical_endpoint ''Node-1.EXAMPLE:070'' = Some ''node-1.example:70''
   \<and> canonical_endpoint ''node-1.example:70'' = Some ''node-1.example:70''"
proof -
  let ?v = "''Node-1.EXAMPLE:070''"
  have "SocketAddr_from_str ?v = None"
    using read_ipv4_hex [of "[]" ?v]
    by (simp add: SocketAddr_from_str_def read_socket_addr_v4_def read_socket_addr_v6_def read_given_char_def
        is_digit_of_def to_digit_def)
  moreover have "rsplit_once (CHR '':'') ?v = Some (''Node-1.EXAMPLE'', ''070'')"
    by code_simp
  moreover have "to_ascii_lowercase ''Node-1.EXAMPLE'' = ''node-1.example''" by code_simp
  moreover have "parse_unsigned 65535 ''070'' = Some 70"
    by (simp add: parse_unsigned_def strip_plus_def is_ascii_digit_def digits_value_def digit_value_def)
  moreover have "list_all is_dns_label (split_on (CHR ''.'') ''node-1.example'')" by code_simp
  moreover have "show_nat 70 = ''70''" by code_simp
  moreover have "\<not> sublist ''://'' ?v" using scheme_has_slash [of ?v] by auto
  ultimately have "canonical_endpoint ?v = Some ''node-1.example:70''"
    by (simp add: canonical_endpoint_def first_char_def last_char_def list_ex_iff list_all_iff)
  then show ?thesis using canonical_endpoint_idempotent [of ?v "''node-1.example:70''"] by simp
qed

end
