(* ===== verification/Server_Start.thy ===== *)
theory Server_Start
  imports Node_Lease Endpoint_Names
begin

text \<open>
  From the builder to a running node: \<open>ServerBuilder\<close> with its setters and checks
  (\<open>coactor/src/runtime.rs\<close>), \<open>ServerRuntimeConfig\<close> and \<open>ServerStarter::start\<close>
  (\<open>coactor/src/cluster/authority.rs\<close>), the end of a node (\<open>ClusterTasks::shutdown\<close>,
  \<open>Server::wait\<close>), and the accept loop and the task of one inbound stream (\<open>spawn_transport\<close> of
  \<open>coactor/src/cluster/node.rs\<close>).  Binding the socket, drawing a UUID and listening are the
  operating system's and the transport's; a result \<open>None\<close> is a panic.
\<close>

section \<open>Builder\<close>

record ('a, 'w) server_builder =
  sb_core :: "('a, 'w) builder_core"
  sb_bind_address :: "socket_addr option"
  sb_advertised_endpoint :: "string option"
  sb_node_id :: "string option"
  sb_node_lease_ttl :: duration
  sb_coordination_timeout :: duration

definition Server_builder :: "('a, 'w) server_builder" where
  "Server_builder =
     \<lparr>sb_core = ServerBuilderCore_base, sb_bind_address = None, sb_advertised_endpoint = None,
      sb_node_id = None, sb_node_lease_ttl = from_secs 10, sb_coordination_timeout = from_secs 15\<rparr>"

definition builder_actor ::
  "('a, 'w) registration \<Rightarrow> actor_config \<Rightarrow> ('a, 'w) server_builder \<Rightarrow> ('a, 'w) server_builder" where
  "builder_actor A config b = b\<lparr>sb_core := add_actor A config (sb_core b)\<rparr>"

definition builder_advertised_endpoint :: "string \<Rightarrow> ('a, 'w) server_builder \<Rightarrow> ('a, 'w) server_builder" where
  "builder_advertised_endpoint e b = b\<lparr>sb_advertised_endpoint := Some e\<rparr>"

definition builder_node_id :: "string \<Rightarrow> ('a, 'w) server_builder \<Rightarrow> ('a, 'w) server_builder" where
  "builder_node_id n b = b\<lparr>sb_node_id := Some n\<rparr>"

definition builder_default_mailbox_capacity :: "usize \<Rightarrow> ('a, 'w) server_builder \<Rightarrow> ('a, 'w) server_builder" where
  "builder_default_mailbox_capacity c b = b\<lparr>sb_core := (sb_core b)\<lparr>bc_mailbox_capacity := c\<rparr>\<rparr>"

definition builder_max_active_actors :: "usize \<Rightarrow> ('a, 'w) server_builder \<Rightarrow> ('a, 'w) server_builder" where
  "builder_max_active_actors m b = b\<lparr>sb_core := (sb_core b)\<lparr>bc_max_active_actors := m\<rparr>\<rparr>"

definition builder_default_idle_timeout :: "duration \<Rightarrow> ('a, 'w) server_builder \<Rightarrow> ('a, 'w) server_builder" where
  "builder_default_idle_timeout d b = b\<lparr>sb_core := (sb_core b)\<lparr>bc_idle_timeout := d\<rparr>\<rparr>"

definition builder_deactivation_timeout :: "duration \<Rightarrow> ('a, 'w) server_builder \<Rightarrow> ('a, 'w) server_builder" where
  "builder_deactivation_timeout d b = b\<lparr>sb_core := (sb_core b)\<lparr>bc_deactivation_timeout := d\<rparr>\<rparr>"

definition builder_shutdown_timeout :: "duration \<Rightarrow> ('a, 'w) server_builder \<Rightarrow> ('a, 'w) server_builder" where
  "builder_shutdown_timeout d b = b\<lparr>sb_core := (sb_core b)\<lparr>bc_shutdown_timeout := d\<rparr>\<rparr>"

definition builder_node_lease_ttl :: "duration \<Rightarrow> ('a, 'w) server_builder \<Rightarrow> ('a, 'w) server_builder" where
  "builder_node_lease_ttl d b = b\<lparr>sb_node_lease_ttl := d\<rparr>"

definition builder_coordination_timeout :: "duration \<Rightarrow> ('a, 'w) server_builder \<Rightarrow> ('a, 'w) server_builder" where
  "builder_coordination_timeout d b = b\<lparr>sb_coordination_timeout := d\<rparr>"

definition parse_listen_address :: "string \<Rightarrow> server_error + socket_addr" where
  "parse_listen_address address =
     (let parse = (\<lambda>s. case SocketAddr_from_str s of None \<Rightarrow> Err InvalidListenAddress | Some a \<Rightarrow> Ok a)
      in case address of
           c # port \<Rightarrow>
             if c = CHR '':''
             then if port = [] \<or> CHR '':'' \<in> set port then Err InvalidListenAddress
                  else parse (''0.0.0.0:'' @ port)
             else parse address
         | [] \<Rightarrow> parse address)"

section \<open>Configuration\<close>

record server_runtime_config =
  rc_node_id :: string
  rc_bind_address :: "socket_addr option"
  rc_advertised_endpoint :: string
  rc_node_lease_ttl :: duration
  rc_coordination_timeout :: duration

definition ServerRuntimeConfig_production ::
  "string \<Rightarrow> socket_addr \<Rightarrow> string \<Rightarrow> duration \<Rightarrow> duration \<Rightarrow> server_runtime_config" where
  "ServerRuntimeConfig_production node_id bind_address advertised_endpoint node_lease_ttl coordination_timeout =
     \<lparr>rc_node_id = node_id, rc_bind_address = Some bind_address, rc_advertised_endpoint = advertised_endpoint,
      rc_node_lease_ttl = node_lease_ttl, rc_coordination_timeout = coordination_timeout\<rparr>"

definition renewal_interval :: "server_runtime_config \<Rightarrow> duration" where
  "renewal_interval config = rc_node_lease_ttl config div 3"

definition into_starter :: "('a, 'w) server_builder \<Rightarrow> (server_error + server_runtime_config) option" where
  "into_starter b =
     (case sb_bind_address b of
        None \<Rightarrow> None
      | Some bind_address \<Rightarrow>
          Some (case sb_advertised_endpoint b of
            None \<Rightarrow> Err MissingAdvertisedEndpoint
          | Some raw_endpoint \<Rightarrow>
              (case canonical_endpoint raw_endpoint of
                 None \<Rightarrow> Err InvalidAdvertisedEndpoint
               | Some advertised_endpoint \<Rightarrow>
                   (case (case sb_node_id b of
                            Some node_id \<Rightarrow> if is_dns_label node_id then Some node_id else None
                          | None \<Rightarrow> Some advertised_endpoint) of
                      None \<Rightarrow> Err InvalidNodeId
                    | Some node_id \<Rightarrow>
                        if sb_node_lease_ttl b = 0 then Err InvalidNodeLeaseTtl
                        else if sb_coordination_timeout b = 0 then Err InvalidCoordinationTimeout
                        else Ok (ServerRuntimeConfig_production node_id bind_address advertised_endpoint
                               (sb_node_lease_ttl b) (sb_coordination_timeout b))))))"

section \<open>Start\<close>

record 'w launch_env =
  le_bind :: "socket_addr \<Rightarrow> 'w \<Rightarrow> bool \<times> 'w"
  le_uuid :: "'w \<Rightarrow> string \<times> 'w"
  le_listen :: "string \<Rightarrow> 'w \<Rightarrow> bool \<times> 'w"

record ('a, 'w, 'c, 's) running_node =
  rn_server :: "('a, 'w, 'c, 's) server"
  rn_node :: node_record
  rn_revision :: revision
  rn_timing :: renewal_timing

definition initial_node_record :: "('a, 'w) builder_core \<Rightarrow> server_runtime_config \<Rightarrow> node_session_id \<Rightarrow> u64 \<Rightarrow> node_record" where
  "initial_node_record core config session_id sampled =
     \<lparr>nr_node_id = rc_node_id config, nr_session_id = session_id,
      nr_advertised_endpoint = rc_advertised_endpoint config,
      nr_protocol_version = TRANSPORT_PROTOCOL_VERSION, nr_lease_generation = 0,
      nr_sampled_at_unix_ms = sampled, nr_active_actor_count = 0,
      nr_max_actor_count = bc_max_active_actors core, nr_pressured = False, nr_draining = False\<rparr>"

definition ClusterRouter_new :: "string \<Rightarrow> node_session_id \<Rightarrow> duration \<Rightarrow> router" where
  "ClusterRouter_new node_id session_id op_timeout =
     \<lparr>router_node_id = node_id, router_session_id = session_id, operation_timeout = op_timeout\<rparr>"

text \<open>The lease: acquire it within the time it would last, and confirm an ambiguous answer.\<close>

definition acquire_lease ::
  "('a, 'w, 'c, 's) node_env \<Rightarrow> server_runtime_config \<Rightarrow> node_record \<Rightarrow> instant \<Rightarrow> 'w
     \<Rightarrow> (server_error + revision) \<times> 'w" where
  "acquire_lease E config node started w =
     (case cs_acquire_node (ne_store E) (min (rc_coordination_timeout config) (rc_node_lease_ttl config))
             node (rc_node_lease_ttl config) w of
        (Elapsed, w1) \<Rightarrow> (Err LeaseUnconfirmed, w1)
      | (Done (Err e), w1) \<Rightarrow> (Err (Coordination_failed e), w1)
      | (Done (Ok (Applied rvn)), w1) \<Rightarrow> (Ok rvn, w1)
      | (Done (Ok Conflict), w1) \<Rightarrow> (Err LeaseConflict, w1)
      | (Done (Ok (Indeterminate _)), w1) \<Rightarrow>
          (case confirm_node_lease E node (started + rc_node_lease_ttl config) (rc_coordination_timeout config) w1 of
             (Some rvn, w2) \<Rightarrow> (Ok rvn, w2)
           | (None, w2) \<Rightarrow> (Err LeaseUnconfirmed, w2)))"

text \<open>From the node session's ID on: acquire the lease, build the Server under it, listen.\<close>

definition start_session ::
  "(mailbox_message, 'c, 's) tokio \<Rightarrow> ('a, 'w, 'c, 's) node_env \<Rightarrow> 'w launch_env \<Rightarrow> ('a, 'w) builder_core
     \<Rightarrow> server_runtime_config \<Rightarrow> node_session_id \<Rightarrow> 'w
     \<Rightarrow> (server_error + ('a, 'w, 'c, 's) running_node) option \<times> 'w" where
  "start_session T E L core config session_id w =
     (let node = initial_node_record core config session_id (ne_wall_millis E w)
      in (case ne_instant_now E w of
        (authority_started, w1) \<Rightarrow>
          (case acquire_lease E config node authority_started w1 of
             (Err e, w2) \<Rightarrow> (Some (Err e), w2)
           | (Ok rvn, w2) \<Rightarrow>
               let authority = NodeAuthority_new authority_started (rc_node_lease_ttl config)
               in (case ne_instant_now E w2 of
                  (now, w3) \<Rightarrow>
                    if \<not> authority_is_valid authority now then (Some (Err LeaseUnconfirmed), w3)
                    else (case build_with_authority T core (Some authority)
                                 (Some (ClusterRouter_new (rc_node_id config) session_id
                                    (rc_coordination_timeout config))) of
                            None \<Rightarrow> (None, w3)
                          | Some (Err e) \<Rightarrow> (Some (Err e), w3)
                          | Some (Ok srv) \<Rightarrow>
                              (case le_listen L (rc_advertised_endpoint config) w3 of
                                 (False, w4) \<Rightarrow> (None, w4)
                               | (True, w4) \<Rightarrow>
                                   (Some (Ok \<lparr>rn_server = srv, rn_node = node, rn_revision = rvn,
                                      rn_timing = \<lparr>tm_ttl = rc_node_lease_ttl config,
                                        tm_operation_timeout = rc_coordination_timeout config,
                                        tm_interval = renewal_interval config\<rparr>\<rparr>), w4)))))))"

definition server_start ::
  "(mailbox_message, 'c, 's) tokio \<Rightarrow> ('a, 'w, 'c, 's) node_env \<Rightarrow> 'w launch_env \<Rightarrow> ('a, 'w) builder_core
     \<Rightarrow> server_runtime_config \<Rightarrow> 'w \<Rightarrow> (server_error + ('a, 'w, 'c, 's) running_node) option \<times> 'w" where
  "server_start T E L core config w =
     (case builder_validate core of
        Err e \<Rightarrow> (Some (Err e), w)
      | Ok _ \<Rightarrow>
          (case (case rc_bind_address config of Some address \<Rightarrow> le_bind L address w | None \<Rightarrow> (True, w)) of
             (False, w1) \<Rightarrow> (Some (Err BindFailed_server), w1)
           | (True, w1) \<Rightarrow>
               (case le_uuid L w1 of (session_id, w2) \<Rightarrow> start_session T E L core config session_id w2)))"

section \<open>Stop\<close>

text \<open>The renewal task has ended with \<open>exit\<close> (\<open>None\<close>: it panicked); the lease is released last.\<close>

definition cluster_tasks_shutdown :: "('a, 'w, 'c, 's) node_env \<Rightarrow> renewal_exit option \<Rightarrow> 'w \<Rightarrow> 'w" where
  "cluster_tasks_shutdown E exit w =
     (case exit of
        Some e \<Rightarrow> if re_release e then snd (cs_release_node (ne_store E) (re_node_id e) (re_revision e) w) else w
      | None \<Rightarrow> w)"

text \<open>
  \<open>Server::wait\<close> on the three watch channels: the value of \<open>fenced\<close> and \<open>transport_stopped\<close>,
  and which senders are gone.  \<open>None\<close>: nothing to report yet.
\<close>

record cluster_watch =
  cw_fenced :: bool
  cw_fenced_gone :: bool
  cw_transport_stopped :: bool
  cw_transport_gone :: bool
  cw_renewal_gone :: bool

definition wait_poll :: "cluster_watch \<Rightarrow> server_error option" where
  "wait_poll c =
     (if cw_fenced c then Some Fenced
      else if cw_transport_stopped c then Some ServiceStopped
      else if cw_fenced_gone c then Some ServiceStopped
      else if cw_transport_gone c then Some ServiceStopped
      else if cw_renewal_gone c then Some ServiceStopped
      else None)"

fun server_wait :: "cluster_watch list \<Rightarrow> server_error option" where
  "server_wait [] = None"
| "server_wait (c # cs) = (case wait_poll c of Some e \<Rightarrow> Some e | None \<Rightarrow> server_wait cs)"

text \<open>\<open>result.and(shutdown_result)\<close>\<close>

definition serve_result :: "server_error + unit \<Rightarrow> server_error + unit \<Rightarrow> server_error + unit" where
  "serve_result result shutdown_result = (case result of Ok _ \<Rightarrow> shutdown_result | Err e \<Rightarrow> Err e)"

text \<open>
  \<open>ServerInner::shutdown\<close> as one operation: \<open>timed_out\<close> says how the wait for the Actor tasks
  ended, during which other tasks ran.
\<close>

definition runtime_shutdown ::
  "(mailbox_message, 'c, 's) tokio \<Rightarrow> ('a, 'w, 'c, 's) node_env \<Rightarrow> bool \<Rightarrow> ('a, 'w, 'c, 's) task_state
     \<Rightarrow> (server_error + unit) \<times> ('a, 'w, 'c, 's) task_state" where
  "runtime_shutdown T E timed_out = (\<lambda>(srv, w).
     case shutdown_begin srv of
       None \<Rightarrow> (Ok (), srv, w)
     | Some (aborts, srv1) \<Rightarrow> shutdown_finish T (ne_tx E) timed_out aborts (ne_other E (srv1, w)))"

definition server_shutdown ::
  "(mailbox_message, 'c, 's) tokio \<Rightarrow> ('a, 'w, 'c, 's) node_env \<Rightarrow> bool \<Rightarrow> renewal_exit option
     \<Rightarrow> ('a, 'w, 'c, 's) task_state \<Rightarrow> (server_error + unit) \<times> ('a, 'w, 'c, 's) task_state" where
  "server_shutdown T E timed_out exit st =
     (case runtime_shutdown T E timed_out st of
        (result, srv, w) \<Rightarrow> (result, srv, cluster_tasks_shutdown E exit w))"

text \<open>
  \<open>serve\<close>: \<open>running\<close> is the life of the node, up to a result of \<open>wait\<close> or the shutdown signal,
  with what the shutdown then meets.
\<close>

definition serve_with_state ::
  "(mailbox_message, 'c, 's) tokio \<Rightarrow> ('a, 'w, 'c, 's) node_env \<Rightarrow> 'w launch_env
     \<Rightarrow> (('a, 'w, 'c, 's) running_node \<Rightarrow> 'w
          \<Rightarrow> (server_error + unit) \<times> bool \<times> renewal_exit option \<times> ('a, 'w, 'c, 's) task_state)
     \<Rightarrow> string \<Rightarrow> ('a, 'w) server_builder \<Rightarrow> 'w \<Rightarrow> (server_error + unit) option \<times> 'w" where
  "serve_with_state T E L running address b w =
     (case parse_listen_address address of
        Err e \<Rightarrow> (Some (Err e), w)
      | Ok bind_address \<Rightarrow>
          (case into_starter (b\<lparr>sb_bind_address := Some bind_address\<rparr>) of
             None \<Rightarrow> (None, w)
           | Some (Err e) \<Rightarrow> (Some (Err e), w)
           | Some (Ok config) \<Rightarrow>
               (case server_start T E L (sb_core b) config w of
                  (None, w1) \<Rightarrow> (None, w1)
                | (Some (Err e), w1) \<Rightarrow> (Some (Err e), w1)
                | (Some (Ok n), w1) \<Rightarrow>
                    (case running n w1 of
                       (result, timed_out, exit, st) \<Rightarrow>
                         (case server_shutdown T E timed_out exit st of
                            (shutdown_result, _, w2) \<Rightarrow> (Some (serve_result result shutdown_result), w2))))))"

section \<open>Inbound streams\<close>

text \<open>
  One turn of the task that serves a stream: an envelope, the oneshot it uses and what the Actor
  answered on it.  A panic ends the task without the clean-up that follows the loop.
\<close>

definition inbound_turn ::
  "(mailbox_message, 'c, 's) tokio \<Rightarrow> ('a, 'w, 'c, 's) node_env \<Rightarrow> sender_id
     \<Rightarrow> envelope \<times> oneshot_id \<times> (send_error + unit) option \<Rightarrow> ('a, 'w, 'c, 's) task_state
     \<Rightarrow> ('a, 'w, 'c, 's) task_state option" where
  "inbound_turn T E sender = (\<lambda>(env, complete, received) (srv, w).
     case ne_instant_now E w of
       (now, w1) \<Rightarrow>
         (case dispatch_inbound T (ne_store E) (ne_tx E) now complete env (Some sender) srv w1 of
            (InboundPanicked, srv', w') \<Rightarrow> None
          | (InboundDone, srv', w') \<Rightarrow> Some (srv', w')
          | (InboundAwaiting address sid _, srv', w') \<Rightarrow>
              (case ne_other E (srv', w') of
                 (srv'', w'') \<Rightarrow> Some (inbound_opened (ne_tx E) (Some sender) address sid received srv'' w''))))"

fun stream_task ::
  "(mailbox_message, 'c, 's) tokio \<Rightarrow> ('a, 'w, 'c, 's) node_env \<Rightarrow> (task_id \<Rightarrow> bool) \<Rightarrow> sender_id
     \<Rightarrow> (envelope \<times> oneshot_id \<times> (send_error + unit) option) list \<Rightarrow> ('a, 'w, 'c, 's) task_state
     \<Rightarrow> ('a, 'w, 'c, 's) task_state option" where
  "stream_task T E finished sender [] (srv, w) =
     Some (retain_inbound_tasks finished (close_sessions_for_sender T sender srv), w)"
| "stream_task T E finished sender (x # xs) st =
     (case ne_other E st of
        st1 \<Rightarrow>
          (case inbound_turn T E sender x st1 of
             None \<Rightarrow> None
           | Some st2 \<Rightarrow> stream_task T E finished sender xs st2))"


section \<open>Accepting streams\<close>

text \<open>
  The task \<open>spawn_transport\<close> spawns, as the sequence of branches its \<open>select!\<close> takes; other tasks run
  while it waits.  \<open>shut\<close> is the listener's \<open>shutdown\<close>.  The result says whether the task has stopped
  and which stream tasks it spawned.
\<close>

datatype accept_event =
    ShutdownChanged bool
  | ForceStop
  | StreamAccepted task_id sender_id
  | AcceptEnded

fun accept_loop ::
  "('a, 'w, 'c, 's) node_env \<Rightarrow> (task_id \<Rightarrow> bool) \<Rightarrow> ('w \<Rightarrow> 'w) \<Rightarrow> accept_event list \<Rightarrow> ('a, 'w, 'c, 's) task_state
     \<Rightarrow> bool \<times> (task_id \<times> sender_id) list \<times> ('a, 'w, 'c, 's) task_state" where
  "accept_loop E finished shut [] st = (False, [], st)"
| "accept_loop E finished shut (event # events) st =
     (case ne_other E st of
        (srv, w) \<Rightarrow>
          (case event of
             ShutdownChanged stop \<Rightarrow> accept_loop E finished shut events (srv, if stop then shut w else w)
           | ForceStop \<Rightarrow> (True, [], srv, w)
           | AcceptEnded \<Rightarrow> (True, [], srv, w)
           | StreamAccepted handle sender \<Rightarrow>
               (case accept_loop E finished shut events (register_inbound_task finished handle srv, w) of
                  (stopped, spawned, st') \<Rightarrow> (stopped, (handle, sender) # spawned, st'))))"

text \<open>As long as nobody aborts them, the stream tasks that have not finished are all registered.\<close>

lemma accepted_tasks_registered:
  assumes quiet: "\<And>st t. t \<in> set (inbound_tasks (fst st)) \<Longrightarrow> \<not> finished t \<Longrightarrow> t \<in> set (inbound_tasks (fst (ne_other E st)))"
    and "accept_loop E finished shut events st = (stopped, spawned, st')"
    and "\<not> finished t" and "t \<in> fst ` set spawned \<or> t \<in> set (inbound_tasks (fst st))"
  shows "t \<in> set (inbound_tasks (fst st'))"
  using assms(2,4)
proof (induction events arbitrary: st spawned)
  case (Cons event events)
  obtain srv w where other: "ne_other E st = (srv, w)" by fastforce
  have here: "t \<in> set (inbound_tasks srv)" if "t \<in> set (inbound_tasks (fst st))"
    using quiet [OF that assms(3)] by (simp add: other)
  show ?case
  proof (cases event)
    case (ShutdownChanged stop)
    then show ?thesis
      using Cons.IH [of "(srv, if stop then shut w else w)"] Cons.prems other here by auto
  next
    case (StreamAccepted handle sender)
    then obtain more where "accept_loop E finished shut events (register_inbound_task finished handle srv, w)
        = (stopped, more, st')" "spawned = (handle, sender) # more"
      using Cons.prems(1) other by (auto split: prod.splits)
    then show ?thesis
      using Cons.IH Cons.prems(2) here assms(3) by (force simp: register_inbound_task_def)
  qed (use Cons.prems other quiet [OF _ assms(3), of st] in auto)
qed simp

text \<open>
  \<open>Server::shutdown\<close> ends the runtime, and with it the stream tasks registered until then, before it
  stops the accept loop.  A stream accepted in between keeps its task after the Server has stopped.
\<close>

lemma late_stream_outlives_shutdown:
  assumes "ne_other E = (\<lambda>st. st)" and "inbound_tasks (fst st) = []"
  shows "\<exists>st'. accept_loop E finished shut [StreamAccepted t sender, ShutdownChanged True, ForceStop] st
      = (True, [(t, sender)], st') \<and> inbound_tasks (fst st') = [t]"
  using assms by (cases st) (simp add: register_inbound_task_def)

end
