(* ===== verification/Node_Properties.thy ===== *)
theory Node_Properties
  imports Node_World Server_Start
begin

text \<open>
  What holds of a node from start to fence: the renewal task keeps authority only on confirmed
  writes and fences in every other case, a node without its store fences itself after a bounded
  number of rounds, a started Server holds the lease it claims ownership under, and the end of
  a connection closes exactly its Sessions.
\<close>

section \<open>Renewal timing\<close>

lemma jittered_third:
  assumes "20 \<le> ttl"
  shows "ttl \<le> 5 * duration_mul_f64 (ttl div 3) (jitter r)"
proof -
  let ?d = "duration_mul_f64 (ttl div 3) (jitter r)"
  have "ttl \<le> 3 * (ttl div 3) + 2" by presburger
  then have t: "(of_nat ttl :: rat) \<le> 3 * of_nat (ttl div 3) + 2"
    by (metis (mono_tags, lifting) of_nat_add of_nat_le_iff of_nat_mult of_nat_numeral)
  have "(20 :: rat) \<le> of_nat ttl" using assms by (metis of_nat_le_iff of_nat_numeral)
  then have "(of_nat ttl :: rat) \<le> 5 * of_nat ?d" using t jittered_ge [of "ttl div 3" r] by linarith
  then show ?thesis by (metis of_nat_le_iff of_nat_mult of_nat_numeral)
qed

lemma jittered_half:
  assumes "6 \<le> ttl"
  shows "2 * duration_mul_f64 (ttl div 3) (jitter r) \<le> ttl"
proof -
  let ?d = "duration_mul_f64 (ttl div 3) (jitter r)"
  have "3 * (ttl div 3) \<le> ttl" by presburger
  then have t: "3 * (of_nat (ttl div 3) :: rat) \<le> of_nat ttl"
    by (metis of_nat_le_iff of_nat_mult of_nat_numeral)
  have "(6 :: rat) \<le> of_nat ttl" using assms by (metis of_nat_le_iff of_nat_numeral)
  then have "2 * (of_nat ?d :: rat) \<le> of_nat ttl" using t jittered_le [of "ttl div 3" r] by linarith
  then show ?thesis by (metis of_nat_le_iff of_nat_mult of_nat_numeral)
qed

section \<open>Properties\<close>

text \<open>
  C12. The renewal task ends in one of two ways.  Asked to shut down, it hands back the lease it
  still holds: the authority is valid as a flag, and deadline and revision are the initial ones
  or those of a write the store confirmed, counted from before that write was sent.  In every
  other case (authority expired, lease taken over, confirmation failed) the node has fenced
  itself: the authority is invalid for good, and no Route, Session or inbound task is left at the
  end of the fence's clean-up (in which no other task runs between the three sections).
\<close>

theorem renewal_task_safe:
  assumes "renewal_rely E clock" and "authority srv = Some a" and "na_valid a"
    and "renewal_loop n T E timing node rvn (srv, w) = Some (e, srv', w')"
  shows "re_node_id e = nr_node_id node
     \<and> (if re_release e
        then \<exists>a'. authority srv' = Some a' \<and> na_valid a'
               \<and> (a' = a \<and> re_revision e = rvn
                  \<or> (\<exists>started node' r. lease_confirmed clock E (tm_ttl timing) started node' r (re_revision e)
                       \<and> a' = authority_renew started a))
        else fenced_off srv')"
  using renewal_rely.renewal_loop_exit [OF assms(1,4,2,3)]
  unfolding renewal_rely.backed_def [OF assms(1)] .

text \<open>
  C20. A node that its store no longer answers, and that nobody shuts down, fences itself: six
  rounds of the renewal loop are enough for any TTL of 20 ns or more, whatever jitter is drawn,
  when the interval is a third of the TTL.
\<close>

theorem renewal_fences_when_cut_off:
  assumes "renewal_rely E clock" and "cut_off E" and "unsignalled E"
    and "20 \<le> tm_ttl timing" and "tm_interval timing = tm_ttl timing div 3"
    and "authority srv = Some a" and "na_valid a" and "na_deadline a \<le> clock w + tm_ttl timing"
  shows "\<exists>e srv' w'. renewal_loop 6 T E timing node rvn (srv, w) = Some (e, srv', w')
    \<and> \<not> re_release e \<and> fenced_off srv'"
proof -
  define m where "m = (tm_ttl timing + 4) div 5"
  have "m \<le> duration_mul_f64 (tm_interval timing) (jitter r)" for r
    using jittered_third [OF assms(4), of r] unfolding m_def assms(5) by linarith
  moreover have "na_deadline a \<le> clock w + 5 * m" using assms(8) unfolding m_def by linarith
  ultimately show ?thesis
    using renewal_rely.renewal_cut_off [OF assms(1-3) _ assms(6,7), of m timing w 5 T node rvn]
    by (simp add: eval_nat_numeral)
qed

text \<open>
  C39. The renewal loop wakes up with at least half of the lease to spare: for a TTL of 6 ns or
  more and the interval the configuration gives, it sleeps at most half the TTL, and never past
  the deadline.
\<close>

theorem renewal_leaves_half:
  assumes "6 \<le> rc_node_lease_ttl config"
  shows "renewal_wake \<lparr>tm_ttl = rc_node_lease_ttl config, tm_operation_timeout = d, tm_interval = renewal_interval config\<rparr>
           r now a \<le> now + rc_node_lease_ttl config div 2
     \<and> renewal_wake \<lparr>tm_ttl = rc_node_lease_ttl config, tm_operation_timeout = d, tm_interval = renewal_interval config\<rparr>
           r now a \<le> na_deadline a"
proof -
  have "duration_mul_f64 (renewal_interval config) (jitter r) \<le> rc_node_lease_ttl config div 2"
    using jittered_half [OF assms, of r] unfolding renewal_interval_def by linarith
  then show ?thesis by (simp add: renewal_wake_def min_le_iff_disj)
qed

section \<open>Start\<close>

text \<open>The lease of \<open>node\<close>, requested no earlier than \<open>started\<close>, was acquired as \<open>rvn\<close>, known by \<open>now\<close>.\<close>

definition lease_acquired ::
  "('w \<Rightarrow> instant) \<Rightarrow> ('a, 'w, 'c, 's) node_env \<Rightarrow> duration \<Rightarrow> instant \<Rightarrow> node_record \<Rightarrow> revision \<Rightarrow> instant \<Rightarrow> bool" where
  "lease_acquired clock E ttl started node rvn now \<longleftrightarrow>
     (\<exists>d w x w'. started \<le> clock w \<and> clock w' \<le> now
        \<and> cs_acquire_node (ne_store E) d node ttl w = (Done (Ok x), w')
        \<and> (x = Applied rvn
           \<or> (\<exists>e d' w1 w2. x = Indeterminate e \<and> clock w' \<le> clock w1 \<and> clock w2 \<le> now
                \<and> cs_read_node_lease (ne_store E) d' (nr_node_id node) w1 = (Done (Ok (Some (node, rvn))), w2))))"

context renewal_rely
begin

lemma acquire_lease_acquired:
  assumes "acquire_lease E config node started w = (Ok rvn, w')" and "started \<le> clock w" and "clock w' \<le> now"
  shows "lease_acquired clock E (rc_node_lease_ttl config) started node rvn now"
proof -
  obtain y w1 where q: "cs_acquire_node (ne_store E) (min (rc_coordination_timeout config) (rc_node_lease_ttl config))
      node (rc_node_lease_ttl config) w = (y, w1)" by fastforce
  consider "y = Done (Ok (Applied rvn))" "w' = w1"
    | err where "y = Done (Ok (Indeterminate err))"
        "confirm_node_lease E node (started + rc_node_lease_ttl config) (rc_coordination_timeout config) w1 = (Some rvn, w')"
    using assms(1) q
    by (auto simp: acquire_lease_def split: timed.splits sum.splits mutation_outcome.splits option.splits prod.splits)
  then show ?thesis
  proof cases
    case 1
    then show ?thesis using q assms(2,3) unfolding lease_acquired_def by blast
  next
    case 2
    note c = 2(2) [unfolded confirm_node_lease_def]
    obtain d' u where u: "clock w1 \<le> clock u"
      "cs_read_node_lease (ne_store E) d' (nr_node_id node) u = (Done (Ok (Some (node, rvn))), w')"
      using confirm_rounds_Some [OF c] by blast
    have "clock w1 \<le> now" using confirm_rounds_clock [OF c] assms(3) by simp
    then show ?thesis using u q 2(1) assms(2,3) unfolding lease_acquired_def by blast
  qed
qed

end

text \<open>
  C21. A Server that has started holds the lease it works under: the store confirmed the write
  of its node record, the deadline counts one TTL from before that write was sent and had not
  passed after the confirmation, the configuration was valid, the Server is freshly built and
  running, and the router claims Actors under the node and session of that very record.
\<close>

theorem start_holds_lease:
  assumes "renewal_rely E clock" and "server_start T E L core config w = (Some (Ok n), w')"
  shows "\<exists>started now.
     lease_acquired clock E (rc_node_lease_ttl config) started (rn_node n) (rn_revision n) now
     \<and> now < started + rc_node_lease_ttl config \<and> builder_ok core
     \<and> rn_server n = initial_server T core (Some (NodeAuthority_new started (rc_node_lease_ttl config)))
         (Some \<lparr>router_node_id = nr_node_id (rn_node n), router_session_id = nr_session_id (rn_node n),
                operation_timeout = rc_coordination_timeout config\<rparr>)
     \<and> nr_node_id (rn_node n) = rc_node_id config
     \<and> nr_advertised_endpoint (rn_node n) = rc_advertised_endpoint config"
proof -
  obtain session_id w2 where run: "start_session T E L core config session_id w2 = (Some (Ok n), w')"
    using assms(2) by (auto simp: server_start_def split: sum.splits prod.splits bool.splits)
  define node where "node = initial_node_record core config session_id (ne_wall_millis E w2)"
  obtain started w3 where s: "ne_instant_now E w2 = (started, w3)" by fastforce
  obtain rvn w4 where a: "acquire_lease E config node started w3 = (Ok rvn, w4)"
    using run s by (auto simp: start_session_def Let_def node_def split: sum.splits prod.splits)
  obtain now w5 where c: "ne_instant_now E w4 = (now, w5)" by fastforce
  let ?au = "NodeAuthority_new started (rc_node_lease_ttl config)"
  let ?cl = "ClusterRouter_new (rc_node_id config) session_id (rc_coordination_timeout config)"
  have valid: "authority_is_valid ?au now"
    using run s a c by (auto simp: start_session_def Let_def node_def split: if_splits)
  obtain srv where b: "build_with_authority T core (Some ?au) (Some ?cl) = Some (Ok srv)"
    using run s a c valid by (auto simp: start_session_def Let_def node_def split: sum.splits option.splits)
  have n: "rn_server n = srv" "rn_node n = node" "rn_revision n = rvn"
    using run s a c valid b by (auto simp: start_session_def Let_def node_def split: prod.splits bool.splits)
  have "lease_acquired clock E (rc_node_lease_ttl config) started node rvn now"
    using renewal_rely.acquire_lease_acquired [OF assms(1) a] renewal_rely.now_reads [OF assms(1)] s c by blast
  moreover have "now < started + rc_node_lease_ttl config"
    using valid by (simp add: authority_is_valid_def NodeAuthority_new_def)
  ultimately show ?thesis
    using b n by (intro exI [of _ started] exI [of _ now])
      (simp add: build_Ok_iff ClusterRouter_new_def node_def initial_node_record_def)
qed

section \<open>Streams\<close>

lemma close_sessions_fold:
  "sink (sessions (fold (\<lambda>(a, sid). close_local_session T a sid) xs srv)) a s =
     (if (a, s) \<in> set xs then None else sink (sessions srv) a s)"
proof (induction xs arbitrary: srv)
  case (Cons x xs)
  obtain b t where x: "x = (b, t)" by fastforce
  show ?case using Cons [of "close_local_session T b t srv"] x by (simp add: close_local_session_sink)
qed simp

text \<open>
  When a connection ends, exactly the Sessions bound to it are closed: none of them is left,
  and every other Session keeps its sink.
\<close>

theorem stream_end_closes_its_sessions:
  assumes "registry_ok (sessions srv)" and "stream_task T E finished sender [] (srv, w) = Some (srv', w')"
  shows "sink (sessions srv') a s = (if sink (sessions srv) a s = Some (Remote sender) then None else sink (sessions srv) a s)"
proof -
  have "sessions srv' = sessions (close_sessions_for_sender T sender srv)"
    using assms(2) by (auto simp: retain_inbound_tasks_def)
  then show ?thesis
    using by_sender_snapshot_mem [OF assms(1)] by (simp add: close_sessions_for_sender_def close_sessions_fold)
qed

section \<open>A concrete node\<close>

text \<open>A node without Actor Types that renews, or cannot renew, a lease of ten seconds.\<close>

abbreviation demo_env :: "bool \<Rightarrow> bool \<Rightarrow> (nat, node_world, mailbox_message bounded_channel, nat) node_env" where
  "demo_env \<equiv> world_env bounded_tokio"

definition demo_world :: node_world where
  "demo_world = \<lparr>nw_store = TestCoordinationStore_default, nw_clock = 5, nw_sent = [], nw_random = [],
     nw_stops = [], nw_inbound = []\<rparr>"

definition demo_launch :: "node_world launch_env" where
  "demo_launch = \<lparr>le_bind = (\<lambda>_ w. (True, w)), le_uuid = (\<lambda>w. (''session-1'', w)), le_listen = (\<lambda>_ w. (True, w))\<rparr>"

definition demo_config :: server_runtime_config where
  "demo_config = ServerRuntimeConfig_production ''node-1'' \<lparr>sa_ip = Ipv4 [0, 0, 0, 0], sa_port = 80\<rparr>
     ''node-1.example:70'' (from_secs 10) (from_secs 15)"

lemma base_valid: "builder_validate ServerBuilderCore_base = Ok ()"
  by (simp add: builder_validate_def ServerBuilderCore_base_def from_secs_def)

lemma base_permits: "\<not> MAX_PERMITS < unat (bc_max_active_actors ServerBuilderCore_base)"
  by (simp add: ServerBuilderCore_base_def MAX_PERMITS_def)

lemma demo_start:
  "\<exists>n w'. server_start bounded_tokio (demo_env False False) demo_launch ServerBuilderCore_base demo_config demo_world
     = (Some (Ok n), w')"
  by (simp add: server_start_def start_session_def acquire_lease_def base_valid demo_config_def demo_launch_def
      ServerRuntimeConfig_production_def demo_world_def world_env_def world_store_def on_store_def memory_store_def
      interfere_def TestCoordinationStore_default_def test_acquire_node_def live_lease_def test_put_lease_def
      NodeAuthority_new_def authority_is_valid_def build_with_authority_def from_secs_def Let_def base_permits
      initial_node_record_def)

theorem start_holds_lease_witness:
  "\<exists>n w' started now.
     server_start bounded_tokio (demo_env False False) demo_launch ServerBuilderCore_base demo_config demo_world
       = (Some (Ok n), w')
     \<and> lease_acquired nw_clock (demo_env False False) (from_secs 10) started (rn_node n) (rn_revision n) now"
proof -
  obtain n w' where run: "server_start bounded_tokio (demo_env False False) demo_launch ServerBuilderCore_base demo_config demo_world
     = (Some (Ok n), w')" using demo_start by blast
  have "rc_node_lease_ttl demo_config = from_secs 10"
    by (simp add: demo_config_def ServerRuntimeConfig_production_def)
  then show ?thesis
    using start_holds_lease [OF world.renewal_rely_axioms run] run by metis
qed

definition demo_server :: "(nat, node_world, mailbox_message bounded_channel, nat) server" where
  "demo_server = initial_server bounded_tokio ServerBuilderCore_base
     (Some (NodeAuthority_new 0 (from_secs 10))) None"

abbreviation demo_timing :: renewal_timing where
  "demo_timing \<equiv> \<lparr>tm_ttl = from_secs 10, tm_operation_timeout = from_secs 15, tm_interval = from_secs 10 div 3\<rparr>"

abbreviation demo_node :: node_record where
  "demo_node \<equiv> initial_node_record (ServerBuilderCore_base :: (nat, node_world) builder_core) demo_config ''session-1'' 0"

lemma demo_outage: "cut_off (demo_env True True)" "unsignalled (demo_env True True)"
  by (auto simp: cut_off_def unsignalled_def world_env_def world_store_def)

theorem renewal_fences_when_cut_off_witness:
  "\<exists>e srv' w'. renewal_loop 6 bounded_tokio (demo_env True True) demo_timing demo_node ''r'' (demo_server, demo_world)
       = Some (e, srv', w') \<and> \<not> re_release e \<and> fenced_off srv'"
  by (rule renewal_fences_when_cut_off [OF world.renewal_rely_axioms demo_outage,
        where a = "NodeAuthority_new 0 (from_secs 10)"])
    (simp_all add: demo_server_def demo_world_def NodeAuthority_new_def from_secs_def)

text \<open>One renewal against the in-memory store, then the shutdown signal.\<close>

definition renewing_world :: node_world where
  "renewing_world = demo_world
     \<lparr>nw_store := snd (test_put_lease demo_node (from_secs 10) TestCoordinationStore_default),
      nw_stops := [False, True]\<rparr>"

abbreviation eager_timing :: renewal_timing where
  "eager_timing \<equiv> \<lparr>tm_ttl = from_secs 10, tm_operation_timeout = from_secs 15, tm_interval = 0\<rparr>"

lemma no_delay: "duration_mul_f64 0 f = 0"
  by (simp add: duration_mul_f64_def as_secs_f64_def from_secs_f64_def f64_add_def f64_mul_def f64_div_def
      f64_round_def)

lemma renewing_run:
  "map_option (\<lambda>(e, srv', _). (re_release e, re_revision e, map_option na_deadline (authority srv')))
     (renewal_loop 2 bounded_tokio (demo_env False False) eager_timing demo_node (test_revision 1)
        (demo_server, renewing_world))
   = Some (True, test_revision 2, Some (from_secs 10 + 8))"
  by (simp add: numeral_2_eq_2 renewal_wake_def no_delay renewing_world_def demo_server_def demo_world_def
      world_env_def world_other_def world_store_def on_store_def renewal_attempt_def renewal_outcome_def
      NodeAuthority_new_def authority_is_valid_def authority_remaining_def authority_renew_def
      memory_store_def interfere_def TestCoordinationStore_default_def test_renew_node_def test_put_lease_def
      update_capacity_sample_def from_secs_def Let_def initial_node_record_def hm_exec_simps)

theorem renewal_task_safe_witness:
  "\<exists>e srv' w' started node' r a'.
     renewal_loop 2 bounded_tokio (demo_env False False) eager_timing demo_node (test_revision 1) (demo_server, renewing_world)
       = Some (e, srv', w')
     \<and> lease_confirmed nw_clock (demo_env False False) (from_secs 10) started node' r (re_revision e)
     \<and> authority srv' = Some a' \<and> a' = authority_renew started (NodeAuthority_new 0 (from_secs 10))"
proof -
  obtain e srv' w' where run: "renewal_loop 2 bounded_tokio (demo_env False False) eager_timing demo_node
      (test_revision 1) (demo_server, renewing_world) = Some (e, srv', w')"
    and e: "re_release e" "map_option na_deadline (authority srv') = Some (from_secs 10 + 8)"
    using renewing_run by auto
  have a: "authority demo_server = Some (NodeAuthority_new 0 (from_secs 10))" "na_valid (NodeAuthority_new 0 (from_secs 10))"
    by (simp_all add: demo_server_def NodeAuthority_new_def)
  have "authority srv' \<noteq> Some (NodeAuthority_new 0 (from_secs 10))"
    using e(2) by (auto simp: NodeAuthority_new_def)
  then show ?thesis
    using renewal_task_safe [OF world.renewal_rely_axioms a run] e(1) run by auto
qed

theorem renewal_leaves_half_witness:
  "renewal_wake \<lparr>tm_ttl = from_secs 10, tm_operation_timeout = from_secs 15, tm_interval = renewal_interval demo_config\<rparr>
     400 7 (NodeAuthority_new 0 (from_secs 10)) \<le> 7 + from_secs 5"
  using renewal_leaves_half [of demo_config "from_secs 15" 400 7 "NodeAuthority_new 0 (from_secs 10)"]
  by (simp add: demo_config_def ServerRuntimeConfig_production_def from_secs_def)

text \<open>A Server with one Session, of connection 7, which ends.\<close>

definition connected_server :: "(nat, node_world, mailbox_message bounded_channel, nat) server" where
  "connected_server = demo_server\<lparr>sessions := snd (register_actor SessionRegistry_new room sid0 (Remote 7))\<rparr>"

theorem stream_end_closes_its_sessions_witness:
  "\<exists>srv' w'. stream_task bounded_tokio (demo_env False False) (\<lambda>_. False) 7 [] (connected_server, demo_world) = Some (srv', w')
     \<and> sink (sessions connected_server) room sid0 = Some (Remote 7) \<and> sink (sessions srv') room sid0 = None"
proof -
  have r: "sessions connected_server = [(room, [(sid0, Remote 7)])]"
    by (simp add: connected_server_def register_actor_def SessionRegistry_new_def hm_exec_simps)
  have ok: "registry_ok (sessions connected_server)"
    by (simp add: r registry_ok_def hm_ok_def hm_keys_def)
  obtain srv' w' where run: "stream_task bounded_tokio (demo_env False False) (\<lambda>_. False) 7 [] (connected_server, demo_world) = Some (srv', w')"
    by simp
  have "sink (sessions connected_server) room sid0 = Some (Remote 7)" by (simp add: r sink_def)
  then show ?thesis using stream_end_closes_its_sessions [OF ok run, of room sid0] run by auto
qed

end
