(* ===== verification/Transports.thy ===== *)
theory Transports
  imports Runtime_Core
begin

text \<open>
  The two transports.  gRPC (\<open>coactor/src/transport/grpc.rs\<close>): the outbound half of a stream is a
  bounded channel behind a mutex, drained by \<open>tonic\<close>; what \<open>tonic\<close> does with it is outside.
  In-memory (\<open>coactor/src/transport/inmem.rs\<close>): a registry of listening endpoints and of
  connections, each with two bounded channels, a shared closed flag and a watch.  \<open>T\<close> are the
  channels of envelopes, \<open>A\<close> the channels of accepted streams.  A receiver whose peer has dropped
  every sender without closing the connection is not modelled: it waits.
\<close>

section \<open>gRPC\<close>

record 'c grpc_sender =
  gs_sender :: "'c option"

definition grpc_try_send ::
  "(envelope, 'c, 's) tokio \<Rightarrow> envelope \<Rightarrow> 'c grpc_sender \<Rightarrow> (transport_error + unit) \<times> 'c grpc_sender" where
  "grpc_try_send T env s =
     (case gs_sender s of
        None \<Rightarrow> (Err TransportClosed, s)
      | Some c \<Rightarrow>
          (case tk_try_send T c env of
             (Sent, c') \<Rightarrow> (Ok (), s\<lparr>gs_sender := Some c'\<rparr>)
           | (SendFull _, c') \<Rightarrow> (Err TransportFull, s\<lparr>gs_sender := Some c'\<rparr>)
           | (SendClosed _, c') \<Rightarrow> (Err TransportClosed, s\<lparr>gs_sender := Some c'\<rparr>)))"

definition grpc_close :: "'c grpc_sender \<Rightarrow> 'c grpc_sender" where
  "grpc_close s = s\<lparr>gs_sender := None\<rparr>"

definition TRANSPORT_CHANNEL_CAPACITY :: nat where
  "TRANSPORT_CHANNEL_CAPACITY = 1024"

text \<open>The Server's end of a new stream; \<open>None\<close>: the accept backlog is full or closed.\<close>

definition grpc_exchange ::
  "(envelope, 'c, 's) tokio \<Rightarrow> (sender_id, 'd, 'q) tokio \<Rightarrow> sender_id \<Rightarrow> 'd \<Rightarrow> 'c grpc_sender option \<times> 'd" where
  "grpc_exchange T A stream accepted =
     (case tk_try_send A accepted stream of
        (Sent, accepted') \<Rightarrow> (Some \<lparr>gs_sender = Some (tk_channel T 1)\<rparr>, accepted')
      | (_, accepted') \<Rightarrow> (None, accepted'))"

definition grpc_listen :: "(sender_id, 'd, 'q) tokio \<Rightarrow> bool \<Rightarrow> transport_error + 'd" where
  "grpc_listen A bound =
     (if bound then Ok (tk_channel A 32) else Err (BindFailed ''grpc transport requires a bound socket''))"

text \<open>The Client's end, once \<open>tonic\<close> has connected.\<close>

definition grpc_connect_sender :: "(envelope, 'c, 's) tokio \<Rightarrow> 'c grpc_sender" where
  "grpc_connect_sender T = \<lparr>gs_sender = Some (tk_channel T TRANSPORT_CHANNEL_CAPACITY)\<rparr>"

text \<open>
  What \<open>connect\<close> dials.  \<open>tonic\<close> is a parameter: it may refuse the address, fail or let the
  timeout pass (\<open>None\<close>) while connecting, and fail the \<open>exchange\<close> call.
\<close>

fun contains_text :: "string \<Rightarrow> string \<Rightarrow> bool" where
  "contains_text pat [] \<longleftrightarrow> pat = []"
| "contains_text pat (c # cs) \<longleftrightarrow> take (length pat) (c # cs) = pat \<or> contains_text pat cs"

definition grpc_endpoint_uri :: "string \<Rightarrow> string" where
  "grpc_endpoint_uri endpoint = (if contains_text ''://'' endpoint then endpoint else ''http://'' @ endpoint)"

record ('e, 'n, 'i) tonic_client =
  tn_endpoint :: "string \<Rightarrow> string + 'e"
  tn_connect :: "'e \<Rightarrow> (string + 'n) option"
  tn_exchange :: "'n \<Rightarrow> string + 'i"

definition grpc_connect ::
  "(envelope, 'c, 's) tokio \<Rightarrow> ('e, 'n, 'i) tonic_client \<Rightarrow> string \<Rightarrow> transport_error + ('c grpc_sender \<times> 'i)" where
  "grpc_connect T N endpoint =
     (case tn_endpoint N (grpc_endpoint_uri endpoint) of
        Err e \<Rightarrow> Err (ConnectFailed e)
      | Ok target \<Rightarrow>
          (case tn_connect N target of
             None \<Rightarrow> Err (ConnectFailed ''connect timeout'')
           | Some (Err e) \<Rightarrow> Err (ConnectFailed e)
           | Some (Ok ch) \<Rightarrow>
               (case tn_exchange N ch of
                  Err e \<Rightarrow> Err (ConnectFailed e)
                | Ok inbound \<Rightarrow> Ok (grpc_connect_sender T, inbound))))"

text \<open>The item \<open>tonic\<close> yields: \<open>None\<close> at the end of the stream, an error status ends it too.\<close>

definition grpc_recv :: "('e + envelope) option \<Rightarrow> envelope option" where
  "grpc_recv item = (case item of Some (Ok env) \<Rightarrow> Some env | _ \<Rightarrow> None)"

text \<open>The senders of a Server as the \<open>'w transport\<close> of the runtime.\<close>

definition grpc_transport :: "(envelope, 'c, 's) tokio \<Rightarrow> (sender_id, 'c grpc_sender) hmap transport" where
  "grpc_transport T k env w =
     (case hm_get w k of
        None \<Rightarrow> (Err TransportClosed, w)
      | Some s \<Rightarrow> (case grpc_try_send T env s of (r, s') \<Rightarrow> (r, hm_insert k s' w)))"

section \<open>In-memory registry\<close>

definition INMEM_CHANNEL_CAPACITY :: nat where
  "INMEM_CHANNEL_CAPACITY = 1024"

datatype side = ClientSide | ServerSide

text \<open>What the two ends of a connection share, and whether each has seen the watch change.\<close>

record 'c inmem_link =
  lk_flag :: bool
  lk_watch :: bool
  lk_to_server :: 'c
  lk_to_client :: 'c
  lk_client_seen :: bool
  lk_server_seen :: bool

record ('c, 'd) inmem_registry =
  im_endpoints :: "(string, nat) hmap"
  im_next_connection_id :: u64
  im_connections :: "(u64, string) hmap"
  im_envelopes :: "(u64 \<times> bytes) list"
  im_links :: "(u64, 'c inmem_link) hmap"
  im_accepting :: "(nat, 'd) hmap"
  im_next_listener :: nat

definition InmemRegistry_new :: "('c, 'd) inmem_registry" where
  "InmemRegistry_new = \<lparr>im_endpoints = hm_empty, im_next_connection_id = 0, im_connections = hm_empty,
     im_envelopes = [], im_links = hm_empty, im_accepting = hm_empty, im_next_listener = 0\<rparr>"

definition update_link ::
  "u64 \<Rightarrow> ('c inmem_link \<Rightarrow> 'c inmem_link) \<Rightarrow> ('c, 'd) inmem_registry \<Rightarrow> ('c, 'd) inmem_registry" where
  "update_link i f r =
     (case hm_get (im_links r) i of None \<Rightarrow> r | Some l \<Rightarrow> r\<lparr>im_links := hm_insert i (f l) (im_links r)\<rparr>)"

definition connection_ids :: "string \<Rightarrow> ('c, 'd) inmem_registry \<Rightarrow> u64 list" where
  "connection_ids endpoint r = map fst (filter (\<lambda>(_, e). e = endpoint) (im_connections r))"

text \<open>Taking a connection out of the registry closes it; \<open>close_connection\<close> is the test's hook for it.\<close>

definition close_connection :: "u64 \<Rightarrow> ('c, 'd) inmem_registry \<Rightarrow> ('c, 'd) inmem_registry" where
  "close_connection i r =
     (case hm_get (im_connections r) i of
        None \<Rightarrow> r
      | Some _ \<Rightarrow> update_link i (\<lambda>l. l\<lparr>lk_flag := True, lk_watch := True\<rparr>)
                   (r\<lparr>im_connections := hm_remove i (im_connections r)\<rparr>))"

section \<open>In-memory streams\<close>

definition link_closed :: "u64 \<Rightarrow> ('c, 'd) inmem_registry \<Rightarrow> bool" where
  "link_closed i r \<longleftrightarrow> is_some_and lk_flag (hm_get (im_links r) i)"

definition inmem_try_send ::
  "(envelope, 'c, 's) tokio \<Rightarrow> side \<Rightarrow> u64 \<Rightarrow> envelope \<Rightarrow> ('c, 'd) inmem_registry
     \<Rightarrow> (transport_error + unit) \<times> ('c, 'd) inmem_registry" where
  "inmem_try_send T sd i env r =
     (case hm_get (im_links r) i of
        None \<Rightarrow> (Err TransportClosed, r)
      | Some l \<Rightarrow>
          if lk_flag l then (Err TransportClosed, r)
          else let r1 = (if sd = ClientSide then r\<lparr>im_envelopes := im_envelopes r @ [(i, env_session_id env)]\<rparr> else r)
               in case tk_try_send T (if sd = ClientSide then lk_to_server l else lk_to_client l) env of
                    (res, c) \<Rightarrow>
                      (case res of Sent \<Rightarrow> Ok () | SendFull _ \<Rightarrow> Err TransportFull | SendClosed _ \<Rightarrow> Err TransportClosed,
                       update_link i (if sd = ClientSide then lk_to_server_update (\<lambda>_. c)
                                      else lk_to_client_update (\<lambda>_. c)) r1))"

definition inmem_close :: "u64 \<Rightarrow> ('c, 'd) inmem_registry \<Rightarrow> ('c, 'd) inmem_registry" where
  "inmem_close i r =
     (if link_closed i r then r else close_connection i (update_link i (lk_flag_update (\<lambda>_. True)) r))"

datatype recv_result = RecvItem envelope | RecvEnd | RecvWaits

definition inmem_recv ::
  "(envelope, 'c, 's) tokio \<Rightarrow> side \<Rightarrow> u64 \<Rightarrow> ('c, 'd) inmem_registry \<Rightarrow> recv_result \<times> ('c, 'd) inmem_registry" where
  "inmem_recv T sd i r =
     (case hm_get (im_links r) i of
        None \<Rightarrow> (RecvEnd, r)
      | Some l \<Rightarrow>
          if lk_watch l \<and> \<not> (if sd = ClientSide then lk_client_seen l else lk_server_seen l)
          then (RecvEnd, update_link i (if sd = ClientSide then lk_client_seen_update (\<lambda>_. True)
                                        else lk_server_seen_update (\<lambda>_. True)) r)
          else case tk_try_recv T (if sd = ClientSide then lk_to_client l else lk_to_server l) of
                 (m, c) \<Rightarrow>
                   (case m of Some env \<Rightarrow> RecvItem env | None \<Rightarrow> RecvWaits,
                    update_link i (if sd = ClientSide then lk_to_client_update (\<lambda>_. c)
                                   else lk_to_server_update (\<lambda>_. c)) r))"

text \<open>
  Dropping a stream drops its receiver: \<open>tokio\<close> closes the channel and discards what is queued,
  which leaves a closed and empty channel; the other side's sends then find it closed.
\<close>

definition inmem_drop_stream ::
  "(envelope, 'c, 's) tokio \<Rightarrow> side \<Rightarrow> u64 \<Rightarrow> ('c, 'd) inmem_registry \<Rightarrow> ('c, 'd) inmem_registry" where
  "inmem_drop_stream T sd i r =
     (let gone = tk_close T (tk_channel T INMEM_CHANNEL_CAPACITY)
      in update_link i (if sd = ClientSide then lk_to_client_update (\<lambda>_. gone) else lk_to_server_update (\<lambda>_. gone)) r)"

section \<open>In-memory listeners\<close>

definition inmem_listen ::
  "(u64, 'd, 'q) tokio \<Rightarrow> string \<Rightarrow> ('c, 'd) inmem_registry \<Rightarrow> (transport_error + nat) \<times> ('c, 'd) inmem_registry" where
  "inmem_listen A key r =
     (let i = im_next_listener r;
          c = tk_channel A 32;
          r1 = r\<lparr>im_endpoints := hm_insert key i (im_endpoints r), im_next_listener := Suc i\<rparr>
      in if hm_get (im_endpoints r) key \<noteq> None
         then (Err (BindFailed (''inmem endpoint `'' @ key @ ''` already registered'')),
               r1\<lparr>im_accepting := hm_insert i (tk_close A c) (im_accepting r)\<rparr>)
         else (Ok i, r1\<lparr>im_accepting := hm_insert i c (im_accepting r)\<rparr>))"

definition inmem_listener_shutdown :: "string \<Rightarrow> ('c, 'd) inmem_registry \<Rightarrow> ('c, 'd) inmem_registry" where
  "inmem_listener_shutdown key r = r\<lparr>im_endpoints := hm_remove key (im_endpoints r)\<rparr>"

text \<open>\<open>accept\<close> ends when no endpoint names the listener any more and nothing is queued.\<close>

datatype accept_result = Accepted_stream u64 | AcceptEnd | AcceptWaits

definition inmem_accept ::
  "(u64, 'd, 'q) tokio \<Rightarrow> nat \<Rightarrow> ('c, 'd) inmem_registry \<Rightarrow> accept_result \<times> ('c, 'd) inmem_registry" where
  "inmem_accept A j r =
     (case hm_get (im_accepting r) j of
        None \<Rightarrow> (AcceptEnd, r)
      | Some d \<Rightarrow>
          (case tk_try_recv A d of
             (Some i, d') \<Rightarrow> (Accepted_stream i, r\<lparr>im_accepting := hm_insert j d' (im_accepting r)\<rparr>)
           | (None, _) \<Rightarrow>
               (if list_ex (\<lambda>(_, k). k = j) (im_endpoints r) then AcceptWaits else AcceptEnd, r)))"

definition inmem_connect ::
  "(envelope, 'c, 's) tokio \<Rightarrow> (u64, 'd, 'q) tokio \<Rightarrow> string \<Rightarrow> ('c, 'd) inmem_registry
     \<Rightarrow> (transport_error + u64) \<times> ('c, 'd) inmem_registry" where
  "inmem_connect T A key r =
     (case hm_get (im_endpoints r) key of
        None \<Rightarrow> (Err (ConnectFailed (''unknown endpoint `'' @ key @ ''`'')), r)
      | Some j \<Rightarrow>
          (case hm_get (im_accepting r) j of
             None \<Rightarrow> (Err TransportClosed, r)
           | Some d \<Rightarrow>
               let i = im_next_connection_id r;
                   l = \<lparr>lk_flag = False, lk_watch = False,
                        lk_to_server = tk_channel T INMEM_CHANNEL_CAPACITY,
                        lk_to_client = tk_channel T INMEM_CHANNEL_CAPACITY,
                        lk_client_seen = False, lk_server_seen = False\<rparr>;
                   r1 = r\<lparr>im_next_connection_id := i + 1,
                           im_connections := hm_insert i key (im_connections r),
                           im_links := hm_insert i l (im_links r)\<rparr>
               in case tk_try_send A d i of
                    (Sent, d') \<Rightarrow> (Ok i, r1\<lparr>im_accepting := hm_insert j d' (im_accepting r)\<rparr>)
                  | (_, _) \<Rightarrow> (Err TransportClosed, close_connection i r1)))"

section \<open>Lemmas on gRPC\<close>

lemma contains_text_append: "contains_text pat (a @ pat @ b)"
proof (induction a)
  case Nil
  have "take (length pat) (pat @ b) = pat" by simp
  then show ?case by (cases "pat @ b") (simp_all del: append_is_Nil_conv)
qed simp

lemma grpc_endpoint_uri_contains: "contains_text ''://'' (grpc_endpoint_uri endpoint)"
  using contains_text_append [of "''://''" "''http''" endpoint] by (simp add: grpc_endpoint_uri_def)

lemma grpc_endpoint_uri_idem: "grpc_endpoint_uri (grpc_endpoint_uri endpoint) = grpc_endpoint_uri endpoint"
  using grpc_endpoint_uri_contains [of endpoint] by (subst grpc_endpoint_uri_def) simp

lemma grpc_closed_refuses: "grpc_try_send T env (grpc_close s) = (Err TransportClosed, grpc_close s)"
  by (simp add: grpc_try_send_def grpc_close_def)

section \<open>Lemmas on the registry\<close>

lemma get_update_link [simp]:
  "hm_get (im_links (update_link i f r)) k =
     (if k = i then map_option f (hm_get (im_links r) i) else hm_get (im_links r) k)"
  by (simp add: update_link_def split: option.splits)

lemma update_link_frame [simp]:
  "im_connections (update_link i f r) = im_connections r" "im_endpoints (update_link i f r) = im_endpoints r"
  "im_accepting (update_link i f r) = im_accepting r"
  "im_next_connection_id (update_link i f r) = im_next_connection_id r"
  by (simp_all add: update_link_def split: option.splits)

definition close_link :: "'c inmem_link \<Rightarrow> 'c inmem_link" where
  "close_link l = l\<lparr>lk_flag := True, lk_watch := True\<rparr>"

lemma close_link_simps [simp]:
  "lk_flag (close_link l)" "lk_watch (close_link l)" "lk_to_server (close_link l) = lk_to_server l"
  "lk_to_client (close_link l) = lk_to_client l" "lk_client_seen (close_link l) = lk_client_seen l"
  "lk_server_seen (close_link l) = lk_server_seen l"
  by (simp_all add: close_link_def)

lemma close_connection_links:
  "hm_get (im_links (close_connection i r)) k =
     (if k = i \<and> hm_get (im_connections r) i \<noteq> None then map_option close_link (hm_get (im_links r) i)
      else hm_get (im_links r) k)"
  "hm_get (im_connections (close_connection i r)) k = (if k = i then None else hm_get (im_connections r) k)"
  by (auto simp: close_connection_def close_link_def [abs_def] split: option.splits)

text \<open>
  The flag and the watch agree, a live connection is in the registry, and nobody has seen the
  end of a live connection.
\<close>

definition link_ok :: "bool \<Rightarrow> 'c inmem_link \<Rightarrow> bool" where
  "link_ok listed l \<longleftrightarrow>
     lk_watch l = lk_flag l \<and> (lk_flag l \<or> listed) \<and> (lk_client_seen l \<or> lk_server_seen l \<longrightarrow> lk_watch l)"

definition inmem_inv :: "('c, 'd) inmem_registry \<Rightarrow> bool" where
  "inmem_inv r \<longleftrightarrow>
     (\<forall>i l. hm_get (im_links r) i = Some l \<longrightarrow> link_ok (hm_get (im_connections r) i \<noteq> None) l)"

lemma inmem_invI:
  "(\<And>i l. hm_get (im_links r) i = Some l \<Longrightarrow> link_ok (hm_get (im_connections r) i \<noteq> None) l) \<Longrightarrow> inmem_inv r"
  unfolding inmem_inv_def by blast

lemma inmem_invD:
  "inmem_inv r \<Longrightarrow> hm_get (im_links r) i = Some l \<Longrightarrow> link_ok (hm_get (im_connections r) i \<noteq> None) l"
  unfolding inmem_inv_def by blast

lemma link_ok_close [simp]: "link_ok listed (close_link l)"
  by (simp add: link_ok_def)

lemma inmem_inv_cong:
  "inmem_inv r \<Longrightarrow> im_links r' = im_links r \<Longrightarrow> im_connections r' = im_connections r \<Longrightarrow> inmem_inv r'"
  unfolding inmem_inv_def by simp

lemma close_connection_inv: "inmem_inv r \<Longrightarrow> inmem_inv (close_connection i r)"
  by (rule inmem_invI) (auto simp: close_connection_links split: if_splits dest: inmem_invD)

lemma close_connection_absent: "hm_get (im_connections r) i = None \<Longrightarrow> close_connection i r = r"
  by (simp add: close_connection_def)

lemma inmem_connect_inv:
  assumes "inmem_inv r" and "inmem_connect T A key r = (x, r')"
  shows "inmem_inv r'"
proof -
  define l where "l = \<lparr>lk_flag = False, lk_watch = False, lk_to_server = tk_channel T INMEM_CHANNEL_CAPACITY,
      lk_to_client = tk_channel T INMEM_CHANNEL_CAPACITY, lk_client_seen = False, lk_server_seen = False\<rparr>"
  define r1 where "r1 = r\<lparr>im_next_connection_id := im_next_connection_id r + 1,
      im_connections := hm_insert (im_next_connection_id r) key (im_connections r),
      im_links := hm_insert (im_next_connection_id r) l (im_links r)\<rparr>"
  have ok: "inmem_inv r1"
    by (rule inmem_invI) (auto simp: r1_def l_def link_ok_def split: if_splits dest: inmem_invD [OF assms(1)])
  consider "r' = r" | d where "r' = r1\<lparr>im_accepting := d\<rparr>" | "r' = close_connection (im_next_connection_id r) r1"
    using assms(2)
    by (auto simp: inmem_connect_def Let_def r1_def l_def split: option.splits prod.splits try_send_result.splits)
  then show ?thesis
  proof cases
    case 1
    then show ?thesis using assms(1) by simp
  next
    case 2
    show ?thesis unfolding 2 by (rule inmem_inv_cong [OF ok]) simp_all
  next
    case 3
    then show ?thesis using close_connection_inv [OF ok] by simp
  qed
qed

lemma inmem_close_link:
  assumes "inmem_inv r"
  shows "hm_get (im_links (inmem_close i r)) k =
     (if k = i then map_option close_link (hm_get (im_links r) i) else hm_get (im_links r) k)"
proof (cases "hm_get (im_links r) i")
  case None
  then show ?thesis by (simp add: inmem_close_def link_closed_def close_connection_links)
next
  case (Some l)
  note ok = inmem_invD [OF assms Some]
  show ?thesis
  proof (cases "lk_flag l")
    case True
    then have "close_link l = l" using ok by (cases l) (simp add: link_ok_def close_link_def)
    then show ?thesis using True Some by (simp add: inmem_close_def link_closed_def)
  next
    case False
    then show ?thesis
      using ok Some by (simp add: inmem_close_def link_closed_def close_connection_links link_ok_def close_link_def)
  qed
qed

lemma inmem_close_connections:
  "k \<noteq> i \<Longrightarrow> hm_get (im_connections (inmem_close i r)) k = hm_get (im_connections r) k"
  by (simp add: inmem_close_def close_connection_links)

lemma inmem_close_inv:
  assumes "inmem_inv r"
  shows "inmem_inv (inmem_close i r)"
proof (rule inmem_invI)
  fix k l assume "hm_get (im_links (inmem_close i r)) k = Some l"
  then show "link_ok (hm_get (im_connections (inmem_close i r)) k \<noteq> None) l"
    using inmem_invD [OF assms, of k l] inmem_close_connections [of k i r]
    by (cases "k = i") (auto simp: inmem_close_link [OF assms])
qed

text \<open>Sending and receiving change one link, and of it only a channel or what has been seen.\<close>

lemma update_link_inv:
  assumes "inmem_inv r" and "\<And>l. hm_get (im_links r) i = Some l \<Longrightarrow> link_ok (hm_get (im_connections r) i \<noteq> None) (f l)"
  shows "inmem_inv (update_link i f r)"
  by (rule inmem_invI) (use assms(2) in \<open>auto split: if_splits dest: inmem_invD [OF assms(1)]\<close>)

lemma inmem_try_send_inv:
  assumes "inmem_inv r" and "inmem_try_send T sd i env r = (x, r')"
  shows "inmem_inv r'"
proof -
  consider "r' = r" | c r1 where "r' = update_link i (if sd = ClientSide then lk_to_server_update (\<lambda>_. c)
      else lk_to_client_update (\<lambda>_. c)) r1" "im_links r1 = im_links r" "im_connections r1 = im_connections r"
    using assms(2) by (auto simp: inmem_try_send_def Let_def split: option.splits prod.splits if_splits)
  then show ?thesis
  proof cases
    case 1
    then show ?thesis using assms(1) by simp
  next
    case 2
    have ok: "inmem_inv r1" using inmem_inv_cong [OF assms(1) 2(2,3)] .
    show ?thesis unfolding 2(1)
      by (rule update_link_inv [OF ok]) (use inmem_invD [OF ok] in \<open>auto simp: link_ok_def\<close>)
  qed
qed

lemma inmem_drop_stream_inv: "inmem_inv r \<Longrightarrow> inmem_inv (inmem_drop_stream T sd i r)"
  unfolding inmem_drop_stream_def Let_def
  by (rule update_link_inv) (auto simp: link_ok_def dest: inmem_invD)

lemma inmem_recv_inv:
  assumes "inmem_inv r" and "inmem_recv T sd i r = (x, r')"
  shows "inmem_inv r'"
proof (cases "hm_get (im_links r) i")
  case None
  then show ?thesis using assms by (simp add: inmem_recv_def)
next
  case (Some l)
  note ok = inmem_invD [OF assms(1) Some]
  show ?thesis
  proof (cases "lk_watch l \<and> \<not> (if sd = ClientSide then lk_client_seen l else lk_server_seen l)")
    case True
    then have r': "r' = update_link i (if sd = ClientSide then lk_client_seen_update (\<lambda>_. True)
        else lk_server_seen_update (\<lambda>_. True)) r"
      using assms(2) Some by (simp add: inmem_recv_def)
    show ?thesis unfolding r'
      by (rule update_link_inv [OF assms(1)]) (use ok Some True in \<open>auto simp: link_ok_def\<close>)
  next
    case False
    then obtain c where r': "r' = update_link i (if sd = ClientSide then lk_to_client_update (\<lambda>_. c)
        else lk_to_server_update (\<lambda>_. c)) r"
      using assms(2) Some by (cases sd) (auto simp: inmem_recv_def split: prod.splits)
    show ?thesis unfolding r'
      by (rule update_link_inv [OF assms(1)]) (use ok Some in \<open>auto simp: link_ok_def\<close>)
  qed
qed

section \<open>Runs\<close>

text \<open>
  All interleavings of the operations, with what each side of a connection has been allowed to
  send and has received.  Connection numbers are drawn from a 64-bit counter; a run in which it
  wraps into a number still in use is left out.
\<close>

type_synonym wire_log = "side \<Rightarrow> u64 \<Rightarrow> envelope list"

definition log_append :: "wire_log \<Rightarrow> side \<Rightarrow> u64 \<Rightarrow> envelope \<Rightarrow> wire_log" where
  "log_append g sd i env = (\<lambda>sd' i'. if sd' = sd \<and> i' = i then g sd i @ [env] else g sd' i')"

inductive inmem_run ::
  "(envelope, 'c, 's) tokio \<Rightarrow> (u64, 'd, 'q) tokio \<Rightarrow> ('c, 'd) inmem_registry \<Rightarrow> wire_log \<Rightarrow> wire_log \<Rightarrow> bool"
  for T A where
  start: "inmem_run T A InmemRegistry_new (\<lambda>_ _. []) (\<lambda>_ _. [])"
| listen: "inmem_run T A r sent got \<Longrightarrow> inmem_listen A key r = (x, r') \<Longrightarrow> inmem_run T A r' sent got"
| stop_listening: "inmem_run T A r sent got \<Longrightarrow> inmem_run T A (inmem_listener_shutdown key r) sent got"
| accept: "inmem_run T A r sent got \<Longrightarrow> inmem_accept A j r = (y, r') \<Longrightarrow> inmem_run T A r' sent got"
| connect: "inmem_run T A r sent got \<Longrightarrow> hm_get (im_links r) (im_next_connection_id r) = None \<Longrightarrow>
     inmem_connect T A key r = (z, r') \<Longrightarrow> inmem_run T A r' sent got"
| sent: "inmem_run T A r sent got \<Longrightarrow> inmem_try_send T sd i env r = (Ok (), r') \<Longrightarrow>
     inmem_run T A r' (log_append sent sd i env) got"
| refused: "inmem_run T A r sent got \<Longrightarrow> inmem_try_send T sd i env r = (Err e, r') \<Longrightarrow> inmem_run T A r' sent got"
| received: "inmem_run T A r sent got \<Longrightarrow> inmem_recv T sd i r = (RecvItem env, r') \<Longrightarrow>
     inmem_run T A r' sent (log_append got sd i env)"
| idle: "inmem_run T A r sent got \<Longrightarrow> inmem_recv T sd i r = (v, r') \<Longrightarrow> v \<in> {RecvEnd, RecvWaits} \<Longrightarrow>
     inmem_run T A r' sent got"
| shut: "inmem_run T A r sent got \<Longrightarrow> inmem_run T A (inmem_close i r) sent got"
| dropped: "inmem_run T A r sent got \<Longrightarrow> inmem_run T A (inmem_drop_stream T sd i r) sent got"
| cut: "inmem_run T A r sent got \<Longrightarrow> inmem_run T A (close_connection i r) sent got"

lemma link_frames:
  "inmem_listen A key r = (x, r') \<Longrightarrow> im_links r' = im_links r \<and> im_connections r' = im_connections r"
  "inmem_accept A j r = (y, r') \<Longrightarrow> im_links r' = im_links r \<and> im_connections r' = im_connections r"
  "im_links (inmem_listener_shutdown key r) = im_links r"
  "im_connections (inmem_listener_shutdown key r) = im_connections r"
  by (auto simp: inmem_listen_def inmem_accept_def inmem_listener_shutdown_def Let_def
      split: if_splits option.splits prod.splits)

lemma inmem_run_inv: "inmem_run T A r sent got \<Longrightarrow> inmem_inv r"
proof (induction rule: inmem_run.induct)
  case start
  then show ?case by (simp add: inmem_inv_def InmemRegistry_new_def)
next
  case (listen r sent got key x r')
  then show ?case using inmem_inv_cong [of r r'] link_frames(1) by metis
next
  case (stop_listening r sent got key)
  then show ?case using inmem_inv_cong link_frames(3,4) by metis
next
  case (accept r sent got j y r')
  then show ?case using inmem_inv_cong [of r r'] link_frames(2) by metis
qed (blast intro: close_connection_inv inmem_close_inv inmem_connect_inv inmem_try_send_inv inmem_recv_inv
    inmem_drop_stream_inv)+

text \<open>The two directions of a link, by the side that receives.\<close>

definition inbox :: "side \<Rightarrow> 'c inmem_link \<Rightarrow> 'c" where
  "inbox sd l = (if sd = ClientSide then lk_to_client l else lk_to_server l)"

fun peer :: "side \<Rightarrow> side" where
  "peer ClientSide = ServerSide"
| "peer ServerSide = ClientSide"

text \<open>
  A channel whose receiver is there holds what was sent and not yet received.  One whose receiver
  was dropped is empty; what it held is lost.
\<close>

definition channel_agrees :: "('c \<Rightarrow> envelope list) \<Rightarrow> ('c \<Rightarrow> bool) \<Rightarrow> 'c \<Rightarrow> envelope list \<Rightarrow> envelope list \<Rightarrow> bool" where
  "channel_agrees queued shut c sent got \<longleftrightarrow>
     (if shut c then queued c = [] \<and> prefix got sent else sent = got @ queued c)"

definition delivered_in_order ::
  "('c \<Rightarrow> envelope list) \<Rightarrow> ('c \<Rightarrow> bool) \<Rightarrow> ('c, 'd) inmem_registry \<Rightarrow> wire_log \<Rightarrow> wire_log \<Rightarrow> bool" where
  "delivered_in_order queued shut r sent got \<longleftrightarrow>
     (\<forall>sd i. case hm_get (im_links r) i of
        None \<Rightarrow> sent sd i = [] \<and> got sd i = []
      | Some l \<Rightarrow> channel_agrees queued shut (inbox sd l) (sent (peer sd) i) (got sd i))"

lemma channel_agrees_prefix: "channel_agrees queued shut c sent got \<Longrightarrow> prefix got sent"
  by (auto simp: channel_agrees_def split: if_splits)

lemma deliveredD:
  assumes "delivered_in_order queued shut r sent got"
  shows "hm_get (im_links r) i = Some l \<Longrightarrow> channel_agrees queued shut (inbox sd l) (sent (peer sd) i) (got sd i)"
    and "hm_get (im_links r) i = None \<Longrightarrow> sent sd i = []" and "hm_get (im_links r) i = None \<Longrightarrow> got sd i = []"
proof -
  note at_i = assms [unfolded delivered_in_order_def, rule_format, of sd i]
  then show "hm_get (im_links r) i = Some l \<Longrightarrow> channel_agrees queued shut (inbox sd l) (sent (peer sd) i) (got sd i)" by simp
  from at_i show "hm_get (im_links r) i = None \<Longrightarrow> sent sd i = []" by simp
  from at_i show "hm_get (im_links r) i = None \<Longrightarrow> got sd i = []" by simp
qed

lemma delivered_prefix:
  assumes "delivered_in_order queued shut r sent got"
  shows "prefix (got sd i) (sent (peer sd) i)"
proof (cases "hm_get (im_links r) i")
  case None
  then show ?thesis using deliveredD(3) [OF assms, of i sd] by simp
next
  case (Some l)
  show ?thesis by (rule channel_agrees_prefix [OF deliveredD(1) [OF assms Some]])
qed

lemma inbox_close [simp]: "inbox sd (close_link l) = inbox sd l"
  by (simp add: inbox_def)

lemma try_send_inbox:
  assumes "mpsc_contract T queued shut" and "inmem_try_send T sd i env r = (Ok (), r')"
  obtains l l' where "hm_get (im_links r) i = Some l" "hm_get (im_links r') i = Some l'"
    "queued (inbox (peer sd) l') = queued (inbox (peer sd) l) @ [env]" "inbox sd l' = inbox sd l"
    "\<And>k. k \<noteq> i \<Longrightarrow> hm_get (im_links r') k = hm_get (im_links r) k"
    "\<not> shut (inbox (peer sd) l)" "\<not> shut (inbox (peer sd) l')"
proof -
  obtain l where l: "hm_get (im_links r) i = Some l" "\<not> lk_flag l"
    using assms(2) by (auto simp: inmem_try_send_def split: option.splits if_splits)
  obtain x c where t: "tk_try_send T (inbox (peer sd) l) env = (x, c)" by fastforce
  have c': "(if sd = ClientSide then lk_to_server l else lk_to_client l) = inbox (peer sd) l"
    by (cases sd) (simp_all add: inbox_def)
  have "x = Sent"
    using assms(2) l t by (cases x) (simp_all add: inmem_try_send_def c' Let_def)
  then have q: "queued c = queued (inbox (peer sd) l) @ [env]" "\<not> shut (inbox (peer sd) l)" "\<not> shut c"
    using mpsc_contract.try_send_SentD [OF assms(1), of "inbox (peer sd) l" env]
      mpsc_contract.try_send_Sent_iff [OF assms(1), of "inbox (peer sd) l" env] t by simp_all
  define f :: "'a inmem_link \<Rightarrow> 'a inmem_link" where
    "f = (if sd = ClientSide then lk_to_server_update (\<lambda>_. c) else lk_to_client_update (\<lambda>_. c))"
  have "hm_get (im_links r') k = (if k = i then Some (f l) else hm_get (im_links r) k)" for k
    using assms(2) l t by (auto simp: inmem_try_send_def c' Let_def f_def)
  moreover have "inbox (peer sd) (f l) = c" "inbox sd (f l) = inbox sd l"
    by (cases sd; simp add: inbox_def f_def)+
  ultimately show thesis using that [of l "f l"] l(1) q by simp
qed

lemma recv_inbox:
  assumes "mpsc_contract T queued shut" and "inmem_recv T sd i r = (RecvItem env, r')"
  obtains l l' where "hm_get (im_links r) i = Some l" "hm_get (im_links r') i = Some l'"
    "queued (inbox sd l) = env # queued (inbox sd l')" "inbox (peer sd) l' = inbox (peer sd) l"
    "\<And>k. k \<noteq> i \<Longrightarrow> hm_get (im_links r') k = hm_get (im_links r) k" "shut (inbox sd l') = shut (inbox sd l)"
proof -
  obtain l where l: "hm_get (im_links r) i = Some l"
    "\<not> (lk_watch l \<and> \<not> (if sd = ClientSide then lk_client_seen l else lk_server_seen l))"
    using assms(2) by (auto simp: inmem_recv_def split: option.splits if_splits)
  obtain x c where t: "tk_try_recv T (inbox sd l) = (x, c)" by fastforce
  have c': "(if sd = ClientSide then lk_to_client l else lk_to_server l) = inbox sd l" by (simp add: inbox_def)
  define f :: "'a inmem_link \<Rightarrow> 'a inmem_link" where
    "f = (if sd = ClientSide then lk_to_client_update (\<lambda>_. c) else lk_to_server_update (\<lambda>_. c))"
  have eq: "inmem_recv T sd i r = (case x of Some env \<Rightarrow> RecvItem env | None \<Rightarrow> RecvWaits, update_link i f r)"
    using l t by (simp only: inmem_recv_def c' f_def option.case if_False prod.case)
  then have "x = Some env" and r': "r' = update_link i f r"
    using assms(2) by (auto split: option.splits)
  then have "queued (inbox sd l) = env # queued c \<and> shut c = shut (inbox sd l)"
    using mpsc_contract.try_recv_empty [OF assms(1), of "inbox sd l"]
      mpsc_contract.try_recv_cons [OF assms(1), of "inbox sd l"] t
    by (cases "queued (inbox sd l)") auto
  moreover have "inbox sd (f l) = c" "inbox (peer sd) (f l) = inbox (peer sd) l"
    by (cases sd; simp add: inbox_def f_def)+
  ultimately show thesis using that [of l "f l"] l(1) r' by simp
qed

text \<open>Operations that deliver nothing leave the channels as they are.\<close>

definition boxes :: "('c, 'd) inmem_registry \<Rightarrow> u64 \<Rightarrow> (side \<Rightarrow> 'c) option" where
  "boxes r i = map_option (\<lambda>l sd. inbox sd l) (hm_get (im_links r) i)"

lemma boxes_Some: "hm_get (im_links r) i = Some l \<Longrightarrow> boxes r i = Some (\<lambda>sd. inbox sd l)"
  by (simp add: boxes_def)

lemma delivered_boxes:
  "delivered_in_order queued shut r sent got \<longleftrightarrow>
     (\<forall>sd i. case boxes r i of
        None \<Rightarrow> sent sd i = [] \<and> got sd i = []
      | Some b \<Rightarrow> channel_agrees queued shut (b sd) (sent (peer sd) i) (got sd i))"
  unfolding delivered_in_order_def boxes_def by (simp split: option.splits)

lemma delivered_cong: "delivered_in_order queued shut r sent got \<Longrightarrow> boxes r' = boxes r \<Longrightarrow> delivered_in_order queued shut r' sent got"
  by (simp add: delivered_boxes)

lemma boxes_links: "im_links r' = im_links r \<Longrightarrow> boxes r' = boxes r"
  by (rule ext) (simp add: boxes_def)

lemma boxes_close: "boxes (close_connection i r) = boxes r"
  by (rule ext) (auto simp: boxes_def close_connection_links option.map_comp comp_def)

lemma boxes_update:
  assumes "\<And>l sd. hm_get (im_links r) i = Some l \<Longrightarrow> inbox sd (f l) = inbox sd l"
  shows "boxes (update_link i f r) = boxes r"
proof (rule ext)
  fix k show "boxes (update_link i f r) k = boxes r k"
    using assms by (cases "k = i"; cases "hm_get (im_links r) i") (simp_all add: boxes_def)
qed

lemma boxes_inmem_close: "boxes (inmem_close i r) = boxes r"
  using boxes_update [of r i "lk_flag_update (\<lambda>_. True)"]
  by (simp add: inmem_close_def boxes_close inbox_def)

lemma boxes_refused:
  assumes "mpsc_contract T queued shut" and "inmem_try_send T sd i env r = (Err e, r')"
  shows "boxes r' = boxes r"
proof (cases "hm_get (im_links r) i")
  case None
  then show ?thesis using assms(2) by (simp add: inmem_try_send_def)
next
  case (Some l)
  obtain x c where t: "tk_try_send T (inbox (peer sd) l) env = (x, c)" by fastforce
  have c': "(if sd = ClientSide then lk_to_server l else lk_to_client l) = inbox (peer sd) l"
    by (cases sd) (simp_all add: inbox_def)
  show ?thesis
  proof (cases "lk_flag l")
    case True
    then show ?thesis using assms(2) Some by (simp add: inmem_try_send_def)
  next
    case False
    have "x \<noteq> Sent" using assms(2) Some False t by (auto simp: inmem_try_send_def c' Let_def)
    then have "c = inbox (peer sd) l"
      using mpsc_contract.try_send_not_sent [OF assms(1), of "inbox (peer sd) l" env] t by simp
    moreover define r1 where
      "r1 = (if sd = ClientSide then r\<lparr>im_envelopes := im_envelopes r @ [(i, env_session_id env)]\<rparr> else r)"
    moreover have "im_links r1 = im_links r" by (simp add: r1_def)
    moreover have "r' = update_link i (if sd = ClientSide then lk_to_server_update (\<lambda>_. c)
        else lk_to_client_update (\<lambda>_. c)) r1"
      using assms(2) Some False t by (simp add: inmem_try_send_def c' Let_def r1_def)
    ultimately show ?thesis
      using Some boxes_links [of r1 r] boxes_update [of r1 i "if sd = ClientSide then lk_to_server_update (\<lambda>_. c)
        else lk_to_client_update (\<lambda>_. c)"]
      by (cases sd) (auto simp: inbox_def)
  qed
qed

lemma boxes_idle:
  assumes "mpsc_contract T queued shut" and "inmem_recv T sd i r = (v, r')" and "v \<in> {RecvEnd, RecvWaits}"
  shows "boxes r' = boxes r"
proof (cases "hm_get (im_links r) i")
  case None
  then show ?thesis using assms(2) by (simp add: inmem_recv_def)
next
  case (Some l)
  obtain x c where t: "tk_try_recv T (inbox sd l) = (x, c)" by fastforce
  have c': "(if sd = ClientSide then lk_to_client l else lk_to_server l) = inbox sd l" by (simp add: inbox_def)
  show ?thesis
  proof (cases "lk_watch l \<and> \<not> (if sd = ClientSide then lk_client_seen l else lk_server_seen l)")
    case True
    then have "r' = update_link i (if sd = ClientSide then lk_client_seen_update (\<lambda>_. True)
        else lk_server_seen_update (\<lambda>_. True)) r"
      using assms(2) Some by (simp add: inmem_recv_def)
    then show ?thesis by (cases sd) (simp_all add: boxes_update inbox_def)
  next
    case False
    then have eq: "inmem_recv T sd i r = (case x of Some env \<Rightarrow> RecvItem env | None \<Rightarrow> RecvWaits,
        update_link i (if sd = ClientSide then lk_to_client_update (\<lambda>_. c) else lk_to_server_update (\<lambda>_. c)) r)"
      using Some t by (simp only: inmem_recv_def c' option.case if_False prod.case)
    then have "x = None" using assms(2,3) by (auto split: option.splits)
    then have "c = inbox sd l"
      using mpsc_contract.try_recv_empty [OF assms(1), of "inbox sd l"]
        mpsc_contract.try_recv_cons [OF assms(1), of "inbox sd l"] t
      by (cases "queued (inbox sd l)") auto
    then show ?thesis
      using eq assms(2) Some boxes_update [of r i] by (cases sd) (auto simp: inbox_def)
  qed
qed

lemma delivered_connect:
  assumes contract: "mpsc_contract T queued shut" and d: "delivered_in_order queued shut r sent got"
    and fresh: "hm_get (im_links r) (im_next_connection_id r) = None" and run: "inmem_connect T A key r = (z, r')"
  shows "delivered_in_order queued shut r' sent got"
proof -
  define i where "i = im_next_connection_id r"
  define c where "c = tk_channel T INMEM_CHANNEL_CAPACITY"
  define r1 where "r1 = r\<lparr>im_next_connection_id := i + 1, im_connections := hm_insert i key (im_connections r),
      im_links := hm_insert i \<lparr>lk_flag = False, lk_watch = False, lk_to_server = c, lk_to_client = c,
        lk_client_seen = False, lk_server_seen = False\<rparr> (im_links r)\<rparr>"
  have b1: "boxes r1 = (boxes r)(i := Some (\<lambda>_. c))"
    by (rule ext) (auto simp: boxes_def r1_def inbox_def fun_eq_iff)
  consider "r' = r" | x where "r' = r1\<lparr>im_accepting := x\<rparr>" | "r' = close_connection i r1"
    using run
    by (auto simp: inmem_connect_def Let_def r1_def i_def c_def split: option.splits prod.splits try_send_result.splits)
  then have "r' = r \<or> boxes r' = (boxes r)(i := Some (\<lambda>_. c))"
  proof cases
    case 2
    then show ?thesis using boxes_links [of r' r1] b1 by simp
  qed (simp_all add: boxes_close b1)
  moreover have "queued c = []" "\<not> shut c"
    using mpsc_contract.channel_new [OF contract, of INMEM_CHANNEL_CAPACITY]
    by (simp_all add: c_def INMEM_CHANNEL_CAPACITY_def)
  moreover have "sent sd i = []" "got sd i = []" for sd
    using deliveredD(2,3) [OF d] fresh by (simp_all add: i_def)
  ultimately show ?thesis
    using d unfolding delivered_boxes by (elim disjE) (simp_all add: fun_upd_apply channel_agrees_def)
qed

lemma delivered_step:
  assumes d: "delivered_in_order queued shut r sent got"
    and l: "hm_get (im_links r) i = Some l" "hm_get (im_links r') i = Some l'"
    and frame: "\<And>k. k \<noteq> i \<Longrightarrow> hm_get (im_links r') k = hm_get (im_links r) k"
    and logs: "\<And>sd k. k \<noteq> i \<Longrightarrow> sent' sd k = sent sd k \<and> got' sd k = got sd k"
    and step: "\<And>sd. channel_agrees queued shut (inbox sd l) (sent (peer sd) i) (got sd i) \<Longrightarrow>
      channel_agrees queued shut (inbox sd l') (sent' (peer sd) i) (got' sd i)"
  shows "delivered_in_order queued shut r' sent' got'"
  unfolding delivered_in_order_def
proof (intro allI)
  fix sd k
  show "case hm_get (im_links r') k of None \<Rightarrow> sent' sd k = [] \<and> got' sd k = []
      | Some l \<Rightarrow> channel_agrees queued shut (inbox sd l) (sent' (peer sd) k) (got' sd k)"
  proof (cases "k = i")
    case True
    then show ?thesis using l(2) step [OF deliveredD(1) [OF d l(1)]] by simp
  next
    case False
    then show ?thesis
      using d [unfolded delivered_in_order_def, rule_format, of sd k] frame logs by (simp split: option.splits)
  qed
qed

lemma delivered_drop:
  assumes contract: "mpsc_contract T queued shut" and d: "delivered_in_order queued shut r sent got"
  shows "delivered_in_order queued shut (inmem_drop_stream T sd i r) sent got"
proof (cases "hm_get (im_links r) i")
  case None
  then show ?thesis using d by (simp add: inmem_drop_stream_def update_link_def)
next
  case (Some l)
  define gone where "gone = tk_close T (tk_channel T INMEM_CHANNEL_CAPACITY)"
  have gone: "queued gone = []" "shut gone"
    using mpsc_contract.close_keeps [OF contract, of "tk_channel T INMEM_CHANNEL_CAPACITY"]
      mpsc_contract.channel_new [OF contract, of INMEM_CHANNEL_CAPACITY]
    by (simp_all add: gone_def INMEM_CHANNEL_CAPACITY_def)
  define l' where "l' = (if sd = ClientSide then lk_to_client_update (\<lambda>_. gone) else lk_to_server_update (\<lambda>_. gone)) l"
  have box: "inbox k l' = (if k = sd then gone else inbox k l)" for k
    by (cases k; cases sd) (simp_all add: l'_def inbox_def)
  show ?thesis
  proof (rule delivered_step [OF d Some, of _ l'])
    fix k assume k: "channel_agrees queued shut (inbox k l) (sent (peer k) i) (got k i)"
    show "channel_agrees queued shut (inbox k l') (sent (peer k) i) (got k i)"
      using k channel_agrees_prefix [OF k] gone by (cases "k = sd") (simp_all add: box channel_agrees_def [of _ _ gone])
  qed (simp_all add: inmem_drop_stream_def gone_def [symmetric] Some l'_def)
qed

lemma inmem_run_delivered:
  assumes contract: "mpsc_contract T queued shut" and "inmem_run T A r sent got"
  shows "delivered_in_order queued shut r sent got"
  using assms(2)
proof (induction rule: inmem_run.induct)
  case start
  then show ?case by (simp add: delivered_in_order_def InmemRegistry_new_def)
next
  case (listen r sent got key x r')
  then show ?case using delivered_cong boxes_links link_frames(1) by metis
next
  case (stop_listening r sent got key)
  then show ?case using delivered_cong boxes_links link_frames(3) by metis
next
  case (accept r sent got j y r')
  then show ?case using delivered_cong boxes_links link_frames(2) by metis
next
  case (connect r sent got key z r')
  then show ?case using delivered_connect [OF contract] by blast
next
  case (sent r sent got sd i env r')
  obtain l l' where l: "hm_get (im_links r) i = Some l" "hm_get (im_links r') i = Some l'"
    "queued (inbox (peer sd) l') = queued (inbox (peer sd) l) @ [env]" "inbox sd l' = inbox sd l"
    "\<And>k. k \<noteq> i \<Longrightarrow> hm_get (im_links r') k = hm_get (im_links r) k"
    "\<not> shut (inbox (peer sd) l)" "\<not> shut (inbox (peer sd) l')"
    using try_send_inbox [OF contract sent.hyps(2)] by metis
  show ?case
  proof (rule delivered_step [OF sent.IH l(1,2,5)])
    fix k assume "channel_agrees queued shut (inbox k l) (sent (peer k) i) (got k i)"
    then show "channel_agrees queued shut (inbox k l') (log_append sent sd i env (peer k) i) (got k i)"
      using l(3,4,6,7) by (cases k; cases sd) (auto simp: log_append_def channel_agrees_def)
  qed (simp_all add: log_append_def)
next
  case (refused r sent got sd i env e r')
  then show ?case using delivered_cong boxes_refused [OF contract] by blast
next
  case (received r sent got sd i env r')
  obtain l l' where l: "hm_get (im_links r) i = Some l" "hm_get (im_links r') i = Some l'"
    "queued (inbox sd l) = env # queued (inbox sd l')" "inbox (peer sd) l' = inbox (peer sd) l"
    "\<And>k. k \<noteq> i \<Longrightarrow> hm_get (im_links r') k = hm_get (im_links r) k" "shut (inbox sd l') = shut (inbox sd l)"
    using recv_inbox [OF contract received.hyps(2)] by metis
  show ?case
  proof (rule delivered_step [OF received.IH l(1,2,5)])
    fix k assume "channel_agrees queued shut (inbox k l) (sent (peer k) i) (got k i)"
    then show "channel_agrees queued shut (inbox k l') (sent (peer k) i) (log_append got sd i env k i)"
      using l(3,4,6) by (cases k; cases sd) (auto simp: log_append_def channel_agrees_def split: if_splits)
  qed (simp_all add: log_append_def)
next
  case (idle r sent got sd i v r')
  then show ?case using delivered_cong boxes_idle [OF contract] by blast
next
  case (shut r sent got i)
  then show ?case using delivered_cong boxes_inmem_close by blast
next
  case (dropped r sent got sd i)
  then show ?case using delivered_drop [OF contract] by blast
next
  case (cut r sent got i)
  then show ?case using delivered_cong boxes_close by blast
qed


text \<open>
  C26.  Over every interleaving of listening, connecting, sending, receiving, closing and dropping
  in-memory streams: as long as the receiving side has not dropped its stream, what the other side
  of the connection has been allowed to send is exactly what has been received followed by what
  is still queued: in order, nothing lost, duplicated or taken from another connection.  Once the
  stream was dropped (nothing else closes the channel), nothing is queued any more, and what had
  been received is the first part of what was sent.
\<close>

theorem inmem_delivers_in_order:
  assumes "mpsc_contract T queued shut" and "inmem_run T A r sent got"
    and "hm_get (im_links r) i = Some l"
  shows "(\<not> shut (inbox sd l) \<longrightarrow> sent (peer sd) i = got sd i @ queued (inbox sd l))
     \<and> (shut (inbox sd l) \<longrightarrow> queued (inbox sd l) = [] \<and> prefix (got sd i) (sent (peer sd) i))"
  using deliveredD(1) [OF inmem_run_delivered [OF assms(1,2)] assms(3), of sd]
  by (auto simp: channel_agrees_def)

text \<open>
  Closing an in-memory connection from either side ends it for both: every later send of
  either side is refused, and a side that has not seen the end yet sees it at its next receive,
  before anything still queued.
\<close>

theorem inmem_close_ends_both_sides:
  assumes "inmem_run T A r sent got" and "hm_get (im_links r) i = Some l"
  shows "fst (inmem_try_send T sd i env (inmem_close i r)) = Err TransportClosed
    \<and> (\<not> lk_flag l \<longrightarrow> fst (inmem_recv T sd i (inmem_close i r)) = RecvEnd)"
proof (intro conjI impI)
  note inv = inmem_run_inv [OF assms(1)]
  have l: "hm_get (im_links (inmem_close i r)) i = Some (close_link l)"
    using assms(2) by (simp add: inmem_close_link [OF inv])
  then show "fst (inmem_try_send T sd i env (inmem_close i r)) = Err TransportClosed"
    by (simp add: inmem_try_send_def)
  assume "\<not> lk_flag l"
  then have "\<not> lk_client_seen l" "\<not> lk_server_seen l"
    using inmem_invD [OF inv assms(2)] by (auto simp: link_ok_def)
  then show "fst (inmem_recv T sd i (inmem_close i r)) = RecvEnd"
    using l by (simp add: inmem_recv_def)
qed

text \<open>
  Listening twice on one endpoint is refused, but the refused attempt has already replaced the
  first listener: no Client can connect to the endpoint from then on.
\<close>

theorem duplicate_listen_cuts_off_first:
  assumes "mpsc_contract A queued shut" and "inmem_listen A key r = (Ok j, r1)"
    and "inmem_listen A key r1 = (x, r2)"
  shows "\<exists>e. x = Err (BindFailed e)" and "fst (inmem_connect T A key r2) = Err TransportClosed"
proof -
  have reg: "hm_get (im_endpoints r1) key = Some j"
    using assms(2) by (auto simp: inmem_listen_def Let_def split: if_splits)
  with assms(3) show "\<exists>e. x = Err (BindFailed e)"
    by (auto simp: inmem_listen_def Let_def)
  have r2: "hm_get (im_endpoints r2) key = Some (im_next_listener r1)"
    "hm_get (im_accepting r2) (im_next_listener r1) = Some (tk_close A (tk_channel A 32))"
    using assms(3) reg by (auto simp: inmem_listen_def Let_def)
  have "shut (tk_close A (tk_channel A 32))" using mpsc_contract.close_keeps [OF assms(1)] by blast
  then have "tk_try_send A (tk_close A (tk_channel A 32)) n = (SendClosed n, tk_close A (tk_channel A 32))" for n
    by (rule mpsc_contract.try_send_closed [OF assms(1)])
  then show "fst (inmem_connect T A key r2) = Err TransportClosed"
    using r2 by (simp add: inmem_connect_def Let_def)
qed

text \<open>
  The Server's end of a gRPC stream holds one envelope.  While one is waiting to be written,
  the acknowledgement of a Session opening is dropped without a trace: the Client's opening
  stays unanswered although the Session is bound on the Server.
\<close>

theorem opened_ack_lost_behind_envelope:
  assumes "mpsc_contract T queued shut"
    and "grpc_exchange T A stream accepted = (Some s, accepted')"
    and "grpc_try_send T env s = (Ok (), s')" and "hm_get w k = Some s'"
  shows "hm_get (send_opened_ack (grpc_transport T) (Some k) sid result w) k = Some s'"
proof -
  define c where "c = tk_channel T 1"
  have new: "queued c = []" "\<not> shut c" "tk_max_capacity T c = 1"
    using mpsc_contract.channel_new [OF assms(1), of 1] by (simp_all add: c_def)
  have "s = \<lparr>gs_sender = Some c\<rparr>"
    using assms(2) by (auto simp: grpc_exchange_def c_def split: prod.splits try_send_result.splits)
  moreover have "fst (tk_try_send T c env) = Sent"
    using new by (simp add: mpsc_contract.try_send_Sent_iff [OF assms(1)])
  ultimately have s': "s' = \<lparr>gs_sender = Some (snd (tk_try_send T c env))\<rparr>"
    using assms(3) by (auto simp: grpc_try_send_def split: prod.splits)
  have full: "tk_try_send T (snd (tk_try_send T c env)) m = (SendFull m, snd (tk_try_send T c env))" for m
    by (rule mpsc_contract.try_send_full [OF assms(1)])
      (use mpsc_contract.try_send_room [OF assms(1), of c env] new in simp_all)
  show ?thesis
    using assms(4) by (simp add: send_opened_ack_def grpc_transport_def grpc_try_send_def s' full Let_def)
qed

section \<open>A concrete run\<close>

definition demo_wire :: "(envelope bounded_channel, u64 bounded_channel) inmem_registry" where
  "demo_wire = snd (inmem_connect bounded_tokio bounded_tokio ''a:1'' (snd (inmem_listen bounded_tokio ''a:1'' InmemRegistry_new)))"

definition demo_envelope :: envelope where
  "demo_envelope = reply_envelope [7] (Kind_SessionOpenedAck None)"

definition demo_sent :: "(envelope bounded_channel, u64 bounded_channel) inmem_registry" where
  "demo_sent = snd (inmem_try_send bounded_tokio ClientSide 0 demo_envelope demo_wire)"

definition demo_got :: "(envelope bounded_channel, u64 bounded_channel) inmem_registry" where
  "demo_got = snd (inmem_recv bounded_tokio ServerSide 0 demo_sent)"

lemmas demo_wire_defs = demo_wire_def demo_sent_def demo_got_def inmem_connect_def inmem_listen_def
  InmemRegistry_new_def inmem_try_send_def inmem_recv_def update_link_def INMEM_CHANNEL_CAPACITY_def
  bounded_try_send_def bounded_try_recv_def

lemma demo_wire_run: "inmem_run bounded_tokio bounded_tokio demo_wire (\<lambda>_ _. []) (\<lambda>_ _. [])"
  unfolding demo_wire_def
  by (rule inmem_run.connect [OF inmem_run.listen [OF inmem_run.start] _ surjective_pairing])
    (simp_all add: inmem_listen_def InmemRegistry_new_def Let_def prod_eq_iff)

lemma demo_results:
  "inmem_try_send bounded_tokio ClientSide 0 demo_envelope demo_wire = (Ok (), demo_sent)"
  "inmem_recv bounded_tokio ServerSide 0 demo_sent = (RecvItem demo_envelope, demo_got)"
  by (simp_all add: demo_wire_defs Let_def)

lemma demo_got_run:
  "inmem_run bounded_tokio bounded_tokio demo_got (log_append (\<lambda>_ _. []) ClientSide 0 demo_envelope)
     (log_append (\<lambda>_ _. []) ServerSide 0 demo_envelope)"
  by (rule inmem_run.received [OF inmem_run.sent [OF demo_wire_run demo_results(1)] demo_results(2)])

theorem inmem_delivers_in_order_witness:
  "\<exists>l. hm_get (im_links demo_got) 0 = Some l \<and> \<not> bc_closed (inbox ServerSide l)
     \<and> log_append (\<lambda>_ _. []) ClientSide 0 demo_envelope ClientSide 0 = [demo_envelope]
     \<and> [demo_envelope] = log_append (\<lambda>_ _. []) ServerSide 0 demo_envelope ServerSide 0 @ bc_queue (inbox ServerSide l)"
proof -
  obtain l where l: "hm_get (im_links demo_got) 0 = Some l" "\<not> bc_closed (inbox ServerSide l)"
    by (simp add: demo_wire_defs Let_def inbox_def)
  show ?thesis
    using l inmem_delivers_in_order [OF bt.mpsc_contract_axioms demo_got_run l(1), of ServerSide]
    by (intro exI [of _ l]) (simp add: log_append_def)
qed

theorem inmem_close_ends_both_sides_witness:
  "hm_get (im_links demo_wire) 0 \<noteq> None
   \<and> fst (inmem_try_send bounded_tokio ServerSide 0 demo_envelope (inmem_close 0 demo_wire)) = Err TransportClosed
   \<and> fst (inmem_recv bounded_tokio ClientSide 0 (inmem_close 0 demo_wire)) = RecvEnd"
proof -
  obtain l where l: "hm_get (im_links demo_wire) 0 = Some l" "\<not> lk_flag l"
    by (simp add: demo_wire_defs Let_def)
  show ?thesis
    using l inmem_close_ends_both_sides [OF demo_wire_run l(1)] by simp
qed

theorem opened_ack_lost_behind_envelope_witness:
  "\<exists>s s'. fst (grpc_exchange bounded_tokio bounded_tokio 3 (tk_channel bounded_tokio 32)) = Some s
     \<and> grpc_try_send bounded_tokio demo_envelope s = (Ok (), s')
     \<and> hm_get (send_opened_ack (grpc_transport bounded_tokio) (Some 3) [7] (Ok (Ok ())) (hm_insert 3 s' hm_empty)) 3
         = Some s'"
proof -
  let ?A = "tk_channel bounded_tokio 32 :: sender_id bounded_channel"
  obtain s where s: "grpc_exchange bounded_tokio bounded_tokio 3 ?A = (Some s, snd (grpc_exchange bounded_tokio bounded_tokio 3 ?A))"
    by (simp add: grpc_exchange_def bounded_try_send_def)
  obtain s' where s': "grpc_try_send bounded_tokio demo_envelope s = (Ok (), s')"
    using s by (auto simp: grpc_exchange_def grpc_try_send_def bounded_try_send_def)
  have "fst (grpc_exchange bounded_tokio bounded_tokio 3 ?A) = Some s" by (subst s) (rule fst_conv)
  then show ?thesis
    using s' opened_ack_lost_behind_envelope [OF bt.mpsc_contract_axioms s s', of "hm_insert 3 s' hm_empty" 3 "[7]" "Ok (Ok ())"]
    by auto
qed

end
