(* ===== verification/Actor_Interface.thy ===== *)
theory Actor_Interface
  imports Runtime_Shutdown
begin

text \<open>
  What a consumer writes and what the runtime sees of it: the \<open>Actor\<close> trait with the handles given
  to an Actor (\<open>coactor/src/runtime/actor.rs\<close>), the code \<open>#[actor]\<close> generates for a type
  (\<open>coactor-macros/src/expansion.rs\<close>) and \<open>Registration::of\<close> (\<open>message.rs\<close>).

  The runtime keeps an Actor as a \<open>Box<dyn Any>\<close>: a value with the identity of its type.  The
  generated code downcasts it before every callback and panics on a mismatch.

  The locale \<open>actor_invariant\<close> of \<open>Actor_Invariants\<close> is the proof principle for consumers: what the
  constructor of each Actor Type establishes and each of its callbacks keeps holds of every Actor in
  every state of the Server.

  A shared \<open>Arc\<close> of the Session registry is the registry at the moment of use; every callback is
  given it as an argument.
\<close>

section \<open>Handles\<close>

record actor_runtime =
  ar_address :: actor_address

record session_handle =
  sh_address :: actor_address
  sh_session_id :: session_id

record message_context =
  mc_address :: actor_address
  mc_session :: session_handle

definition make_actor_runtime :: "actor_address \<Rightarrow> actor_runtime" where
  "make_actor_runtime address = \<lparr>ar_address = address\<rparr>"

definition make_message_context :: "actor_address \<Rightarrow> session_id \<Rightarrow> message_context" where
  "make_message_context address sid =
     \<lparr>mc_address = address, mc_session = \<lparr>sh_address = address, sh_session_id = sid\<rparr>\<rparr>"

text \<open>\<open>ActorRuntime::broadcast\<close>; \<open>None\<close>: the Server is gone and the weak reference does not upgrade.\<close>

definition actor_broadcast :: "'w transport \<Rightarrow> registry option \<Rightarrow> actor_runtime \<Rightarrow> bytes \<Rightarrow> 'w \<Rightarrow> 'w" where
  "actor_broadcast tx runtime handle msg w =
     (case runtime of
        None \<Rightarrow> w
      | Some r \<Rightarrow> broadcast_to tx r (ar_address handle) msg (by_actor_snapshot r (ar_address handle)) w)"

definition session_handle_send ::
  "'w transport \<Rightarrow> registry \<Rightarrow> session_handle \<Rightarrow> bytes \<Rightarrow> 'w \<Rightarrow> (send_error + unit) \<times> 'w" where
  "session_handle_send tx r handle msg w = deliver_event tx r (sh_address handle) (sh_session_id handle) msg w"

definition context_send ::
  "'w transport \<Rightarrow> registry \<Rightarrow> message_context \<Rightarrow> bytes \<Rightarrow> 'w \<Rightarrow> (send_error + unit) \<times> 'w" where
  "context_send tx r ctx msg w = session_handle_send tx r (mc_session ctx) msg w"

section \<open>The Actor trait\<close>

record ('x, 'w) actor_impl =
  actor_new :: "actor_runtime \<Rightarrow> 'x caught"
  on_message :: "registry \<Rightarrow> message_context \<Rightarrow> bytes \<Rightarrow> 'x \<Rightarrow> 'w \<Rightarrow> unit caught \<times> 'x \<times> 'w"
  on_activate :: "registry \<Rightarrow> 'x \<Rightarrow> 'w \<Rightarrow> (string + unit) caught \<times> 'x \<times> 'w"
  on_deactivate :: "registry \<Rightarrow> deactivation_reason \<Rightarrow> 'x \<Rightarrow> 'w \<Rightarrow> unit caught timed \<times> 'x \<times> 'w"
  on_session_opened :: "registry \<Rightarrow> message_context \<Rightarrow> 'x \<Rightarrow> 'w \<Rightarrow> unit caught \<times> 'x \<times> 'w"
  on_session_closed :: "registry \<Rightarrow> message_context \<Rightarrow> 'x \<Rightarrow> 'w \<Rightarrow> unit caught \<times> 'x \<times> 'w"

text \<open>The methods a consumer has to write, with the trait's defaults for the others.\<close>

definition actor_defaults ::
  "(actor_runtime \<Rightarrow> 'x caught)
   \<Rightarrow> (registry \<Rightarrow> message_context \<Rightarrow> bytes \<Rightarrow> 'x \<Rightarrow> 'w \<Rightarrow> unit caught \<times> 'x \<times> 'w) \<Rightarrow> ('x, 'w) actor_impl" where
  "actor_defaults create message =
     \<lparr>actor_new = create, on_message = message,
      on_activate = (\<lambda>_ x w. (Returned (Ok ()), x, w)),
      on_deactivate = (\<lambda>_ _ x w. (Done (Returned ()), x, w)),
      on_session_opened = (\<lambda>_ _ x w. (Returned (), x, w)),
      on_session_closed = (\<lambda>_ _ x w. (Returned (), x, w))\<rparr>"

section \<open>Type erasure\<close>

type_synonym type_id = nat

datatype 'u any_box = AnyBox (box_type: type_id) (box_value: 'u)

text \<open>A concrete type: its \<open>TypeId\<close>, and how its values lie in the universe of all values.\<close>

record ('x, 'u) rust_type =
  ty_id :: type_id
  ty_up :: "'x \<Rightarrow> 'u"
  ty_down :: "'u \<Rightarrow> 'x"

definition type_ok :: "('x, 'u) rust_type \<Rightarrow> bool" where
  "type_ok A \<longleftrightarrow> (\<forall>x. ty_down A (ty_up A x) = x)"

definition box_any :: "('x, 'u) rust_type \<Rightarrow> 'x \<Rightarrow> 'u any_box" where
  "box_any A x = AnyBox (ty_id A) (ty_up A x)"

definition downcast_mut :: "('x, 'u) rust_type \<Rightarrow> 'u any_box \<Rightarrow> 'x option" where
  "downcast_mut A b = (if box_type b = ty_id A then Some (ty_down A (box_value b)) else None)"

text \<open>
  \<open>.downcast_mut::<A>().expect(...)\<close> and the callback on the value behind it; \<open>panicked\<close> is how the
  caller sees the panic.
\<close>

definition with_downcast ::
  "('x, 'u) rust_type \<Rightarrow> 'o \<Rightarrow> ('x \<Rightarrow> 'w \<Rightarrow> 'o \<times> 'x \<times> 'w) \<Rightarrow> 'u any_box \<Rightarrow> 'w \<Rightarrow> 'o \<times> 'u any_box \<times> 'w" where
  "with_downcast A panicked f b w =
     (case downcast_mut A b of
        None \<Rightarrow> (panicked, b, w)
      | Some x \<Rightarrow> (case f x w of (out, x', w') \<Rightarrow> (out, box_any A x', w')))"

section \<open>What the macro generates\<close>

record ('b, 'w) erased_actor =
  ea_create :: "actor_runtime \<Rightarrow> 'b caught"
  ea_activate :: "registry \<Rightarrow> 'b \<Rightarrow> 'w \<Rightarrow> (string + unit) caught \<times> 'b \<times> 'w"
  ea_deactivate :: "registry \<Rightarrow> deactivation_reason \<Rightarrow> 'b \<Rightarrow> 'w \<Rightarrow> unit caught timed \<times> 'b \<times> 'w"
  ea_handle :: "registry \<Rightarrow> message_context \<Rightarrow> bytes \<Rightarrow> 'b \<Rightarrow> 'w \<Rightarrow> message_outcome caught \<times> 'b \<times> 'w"
  ea_session_opened :: "registry \<Rightarrow> message_context \<Rightarrow> 'b \<Rightarrow> 'w \<Rightarrow> unit caught \<times> 'b \<times> 'w"
  ea_session_closed :: "registry \<Rightarrow> message_context \<Rightarrow> 'b \<Rightarrow> 'w \<Rightarrow> unit caught \<times> 'b \<times> 'w"

text \<open>\<open>debug\<close> is \<open>format!("{error:?}")\<close>.\<close>

definition erased_impl ::
  "(string \<Rightarrow> string) \<Rightarrow> ('x, 'u) rust_type \<Rightarrow> ('x, 'w) actor_impl \<Rightarrow> ('u any_box, 'w) erased_actor" where
  "erased_impl debug A I =
     \<lparr>ea_create = (\<lambda>runtime. map_caught (box_any A) (actor_new I runtime)),
      ea_activate = (\<lambda>r. with_downcast A Unwound (\<lambda>x w.
         case on_activate I r x w of
           (out, x', w') \<Rightarrow> (map_caught (map_sum debug id) out, x', w'))),
      ea_deactivate = (\<lambda>r reason. with_downcast A (Done Unwound) (on_deactivate I r reason)),
      ea_handle = (\<lambda>r ctx payload. with_downcast A Unwound (\<lambda>x w.
         case on_message I r ctx payload x w of
           (out, x', w') \<Rightarrow> (map_caught (\<lambda>_. Completed) out, x', w'))),
      ea_session_opened = (\<lambda>r ctx. with_downcast A Unwound (on_session_opened I r ctx)),
      ea_session_closed = (\<lambda>r ctx. with_downcast A Unwound (on_session_closed I r ctx))\<rparr>"

definition expand_actor ::
  "(string \<Rightarrow> string) \<Rightarrow> string \<Rightarrow> ('x, 'u) rust_type \<Rightarrow> ('x, 'w) actor_impl \<Rightarrow> string + ('u any_box, 'w) erased_actor" where
  "expand_actor debug attribute A I =
     (if attribute \<noteq> []
      then Err ''#[actor] takes no attributes; the Actor Type name is passed to register(name) by the consumer''
      else Ok (erased_impl debug A I))"

text \<open>
  The function pointers \<open>Registration::of\<close> takes from the generated code, with the contexts the
  runtime builds around each call; \<open>Registration_of\<close> of \<open>Server_Builder\<close> adds the name.
\<close>

definition erased_registration :: "('b, 'w) erased_actor \<Rightarrow> ('b, 'w) registration" where
  "erased_registration E =
     \<lparr>reg_name = [],
      reg_create = (\<lambda>address. ea_create E (make_actor_runtime address)),
      reg_activate = (\<lambda>r address. ea_activate E r),
      reg_deactivate = (\<lambda>r address reason. ea_deactivate E r reason),
      reg_handle = (\<lambda>r address sid payload. ea_handle E r (make_message_context address sid) payload),
      reg_session_opened = (\<lambda>r address sid. ea_session_opened E r (make_message_context address sid)),
      reg_session_closed = (\<lambda>r address sid. ea_session_closed E r (make_message_context address sid)),
      mailbox_capacity = None, idle_timeout = None\<rparr>"

section \<open>Lemmas on erasure\<close>

lemma box_type_box_any [simp]: "box_type (box_any A x) = ty_id A"
  by (simp add: box_any_def)

lemma downcast_box_any [simp]: "type_ok A \<Longrightarrow> downcast_mut A (box_any A x) = Some x"
  by (simp add: downcast_mut_def box_any_def type_ok_def)

lemma with_downcast_box_any:
  "type_ok A \<Longrightarrow> with_downcast A p f (box_any A x) w = (case f x w of (out, x', w') \<Rightarrow> (out, box_any A x', w'))"
  by (simp add: with_downcast_def)

lemma with_downcast_type: "box_type (fst (snd (with_downcast A p f b w))) = box_type b"
  by (auto simp: with_downcast_def downcast_mut_def split: option.splits prod.splits)

lemma map_caught_eq [simp]: "map_caught f c = Returned v \<longleftrightarrow> (\<exists>u. c = Returned u \<and> v = f u)"
  "map_caught f c = Unwound \<longleftrightarrow> c = Unwound"
  by (cases c; auto)+

lemma broadcast_event_handle:
  "broadcast_event tx address payload srv w =
     actor_broadcast tx (Some (sessions srv)) (make_actor_runtime address) payload w"
  by (simp add: broadcast_event_def actor_broadcast_def make_actor_runtime_def)

end
