(* ===== verification/Actor_Invariants.thy ===== *)
theory Actor_Invariants
  imports Actor_Interface
begin

text \<open>
  Invariants of the Actors a Server hosts.  \<open>handler_step\<close> has one rule per handler of the runtime;
  the locale \<open>actor_invariant\<close> shows once that what constructors establish and callbacks keep holds of
  every Actor after any number of handlers.  A predicate on the Actor's own state is enough; nothing
  has to be known about the runtime.
\<close>

section \<open>Handlers\<close>

definition task_registration :: "('a, 'w, 'c, 's) server \<Rightarrow> ('a, 'c) actor_task \<Rightarrow> ('a, 'w) registration option" where
  "task_registration srv t = hm_get (registrations srv) (actor_type (task_address t))"

text \<open>
  The rules up to \<open>fence_ends\<close> are whole handlers between two awaits, \<open>inbound_session_open\<close>,
  \<open>shutdown_finish\<close> and \<open>fence_finish\<close> run without a pause.  The code gives way inside these three, and
  their sections are rules of their own, so that other handlers may run between them: an ownership
  resolution changes the capacity and the world (\<open>elsewhere\<close>), after which a Session is opened in
  whatever state the Server has by then (\<open>resolved\<close>); Routes are cleared, the Sessions of one Actor
  terminated, inbound tasks aborted (\<open>elsewhere\<close>) and the status set one after the other.
\<close>

inductive internal_step ::
  "(mailbox_message, 'c, 's) tokio \<Rightarrow> 'w coordination_store \<Rightarrow> 'w transport
     \<Rightarrow> ('a, 'w, 'c, 's) task_state \<Rightarrow> ('a, 'w, 'c, 's) task_state \<Rightarrow> bool" for T S tx where
  opened: "internal_step T S tx (srv, w) (inbound_opened tx reply a sid received srv w)"
| stream_end: "internal_step T S tx (srv, w) (close_sessions_for_sender T sender srv, w)"
| activate: "hm_get (tasks srv) tid = Some t \<Longrightarrow> task_registration srv t = Some reg \<Longrightarrow>
     activation T tx reg tid t (srv, w) = (p, st') \<Longrightarrow> internal_step T S tx (srv, w) st'"
| serve: "hm_get (tasks srv) tid = Some t \<Longrightarrow> task_registration srv t = Some reg \<Longrightarrow>
     serve_once T S tx reg tid t (srv, w) = (p, st') \<Longrightarrow> internal_step T S tx (srv, w) st'"
| aborted: "internal_step T S tx (srv, w) (abort_takes_effect T tid srv, w)"
| shutdown_begins: "shutdown_begin srv = Some (tids, srv') \<Longrightarrow> internal_step T S tx (srv, w) (srv', w)"
| shutdown_ends: "shutdown_finish T tx timed_out tids (srv, w) = (res, st') \<Longrightarrow> internal_step T S tx (srv, w) st'"
| fence_begins: "fence_begin srv = (tids, srv') \<Longrightarrow> internal_step T S tx (srv, w) (srv', w)"
| fence_ends: "internal_step T S tx (srv, w) (fence_finish T tx (srv, w))"
| resolved: "inbound_opening tx reply raw a sid c
       (open_local_session_begin T now a sid snk c reservation srv) w = (p, srv', w') \<Longrightarrow>
     internal_step T S tx (srv, w) (srv', w')"
| clears: "internal_step T S tx (srv, w) (clear_actors T (fold abort_task tids srv), w)"
| terminates: "internal_step T S tx (srv, w) (terminate_sessions tx a error (srv, w))"
| stops: "internal_step T S tx (srv, w) (srv\<lparr>status := STOPPED\<rparr>, w)"
| elsewhere: "internal_step T S tx (srv, w) (srv\<lparr>authority := au, inbound_tasks := it, capacity := cap\<rparr>, w')"

text \<open>A handler is that of an envelope that arrives from a sender, or an internal one.\<close>

inductive handler_step ::
  "(mailbox_message, 'c, 's) tokio \<Rightarrow> 'w coordination_store \<Rightarrow> 'w transport
     \<Rightarrow> ('a, 'w, 'c, 's) task_state \<Rightarrow> ('a, 'w, 'c, 's) task_state \<Rightarrow> bool" for T S tx where
  inbound: "dispatch_inbound T S tx now complete env reply srv w = (p, srv', w') \<Longrightarrow>
     handler_step T S tx (srv, w) (srv', w')"
| internal: "internal_step T S tx st st' \<Longrightarrow> handler_step T S tx st st'"

definition handler_reach ::
  "(mailbox_message, 'c, 's) tokio \<Rightarrow> 'w coordination_store \<Rightarrow> 'w transport
     \<Rightarrow> ('a, 'w, 'c, 's) task_state \<Rightarrow> ('a, 'w, 'c, 's) task_state \<Rightarrow> bool" where
  "handler_reach T S tx = (handler_step T S tx)\<^sup>*\<^sup>*"

section \<open>Hosted Actors\<close>

definition actors_ok ::
  "(actor_address \<Rightarrow> 'a \<Rightarrow> bool) \<Rightarrow> (string, ('a, 'w) registration) hmap \<Rightarrow> ('a, 'w, 'c, 's) server \<Rightarrow> bool" where
  "actors_ok P regs srv \<longleftrightarrow>
     registrations srv = regs
     \<and> (\<forall>tid t. hm_get (tasks srv) tid = Some t \<longrightarrow> P (task_address t) (task_actor t))"

lemma actors_okD: "actors_ok P regs srv \<Longrightarrow> hm_get (tasks srv) tid = Some t \<Longrightarrow> P (task_address t) (task_actor t)"
  by (simp add: actors_ok_def)

lemma actors_ok_regs: "actors_ok P regs srv \<Longrightarrow> registrations srv = regs"
  by (simp add: actors_ok_def)

lemma actors_ok_fields [simp]:
  "actors_ok P regs (srv\<lparr>actors := x1\<rparr>) = actors_ok P regs srv"
  "actors_ok P regs (srv\<lparr>sessions := x2\<rparr>) = actors_ok P regs srv"
  "actors_ok P regs (srv\<lparr>capacity := x3\<rparr>) = actors_ok P regs srv"
  "actors_ok P regs (srv\<lparr>status := x4\<rparr>) = actors_ok P regs srv"
  "actors_ok P regs (srv\<lparr>authority := x5\<rparr>) = actors_ok P regs srv"
  "actors_ok P regs (srv\<lparr>inbound_tasks := x6\<rparr>) = actors_ok P regs srv"
  "actors_ok P regs (srv\<lparr>answers := x7\<rparr>) = actors_ok P regs srv"
  "actors_ok P regs (srv\<lparr>next_generation := x8\<rparr>) = actors_ok P regs srv"
  "actors_ok P regs (srv\<lparr>next_task := x9\<rparr>) = actors_ok P regs srv"
  by (simp_all add: actors_ok_def)

lemma actors_ok_insert:
  "actors_ok P regs srv \<Longrightarrow> P (task_address t) (task_actor t) \<Longrightarrow>
   actors_ok P regs (srv\<lparr>tasks := hm_insert tid t (tasks srv)\<rparr>)"
  by (simp add: actors_ok_def)

lemma actors_ok_update:
  assumes "actors_ok P regs srv"
    and "\<And>t. hm_get (tasks srv) tid = Some t \<Longrightarrow> P (task_address (f t)) (task_actor (f t))"
  shows "actors_ok P regs (update_task tid f srv)"
  using assms by (auto simp: update_task_def actors_ok_def split: option.splits)

lemma actors_ok_small [simp]:
  "actors_ok P regs (answer message outcome srv) = actors_ok P regs srv"
  "actors_ok P regs (drop_route T address srv) = actors_ok P regs srv"
  "actors_ok P regs (remove_route T address generation srv) = actors_ok P regs srv"
  "actors_ok P regs (drop_reservation T reservation srv) = actors_ok P regs srv"
  "actors_ok P regs (fail_message message error srv) = actors_ok P regs srv"
  "actors_ok P regs (clear_actors T srv) = actors_ok P regs srv"
  "actors_ok P regs (snd (abort_inbound_tasks srv)) = actors_ok P regs srv"
  by (simp_all add: answer_def drop_route_def remove_route_def drop_reservation_def fail_message_def
      clear_actors_def abort_inbound_tasks_def split: mailbox_message.splits option.splits)

lemma actors_ok_deactivation [simp]:
  "actors_ok P regs (snd (begin_deactivation T a g c srv)) = actors_ok P regs srv"
  by (simp add: begin_deactivation_def split: option.splits)

text \<open>Operations on the entry of one task that leave its address and its Actor alone.\<close>

lemma actors_ok_same:
  assumes "actors_ok P regs srv" and "\<And>t. task_address (f t) = task_address t" and "\<And>t. task_actor (f t) = task_actor t"
  shows "actors_ok P regs (update_task tid f srv)"
  using actors_ok_update [OF assms(1)] actors_okD [OF assms(1)] by (simp add: assms(2,3))

lemma actors_ok_entry [intro]:
  assumes "actors_ok P regs srv"
  shows "actors_ok P regs (close_mailbox T tid srv)" "actors_ok P regs (request_shutdown tid srv)"
    "actors_ok P regs (abort_task tid srv)" "actors_ok P regs (task_guard_drop T tid t srv)"
    "actors_ok P regs (abort_takes_effect T tid srv)"
  using assms
  by (auto simp: close_mailbox_def request_shutdown_def abort_task_def task_guard_drop_def abort_takes_effect_def
      intro!: actors_ok_same split: option.splits)

lemma actors_ok_fold:
  "(\<And>x srv. actors_ok P regs srv \<Longrightarrow> actors_ok P regs (f x srv)) \<Longrightarrow> actors_ok P regs srv \<Longrightarrow>
   actors_ok P regs (fold f xs srv)"
  by (induction xs arbitrary: srv) auto

lemma actors_ok_mailbox_send:
  assumes "actors_ok P regs srv" and "hm_get (tasks srv) tid = Some t"
    and "mailbox_try_send T t tid message srv = (r, srv')"
  shows "actors_ok P regs srv'"
  using assms(3) actors_ok_insert [OF assms(1), of "t\<lparr>mailbox := c\<rparr>" tid for c] actors_okD [OF assms(1,2)]
  by (auto simp: mailbox_try_send_def split: prod.splits)

lemma actors_ok_deliver:
  assumes "actors_ok P regs srv"
  shows "actors_ok P regs (snd (dispatch_message_if_active T address message srv))"
  using assms
  by (auto simp: dispatch_message_if_active_def split: option.splits route_state.splits prod.splits
      intro: actors_ok_mailbox_send)

lemma actors_ok_receive:
  assumes "actors_ok P regs srv" and "receive T tid srv = (x, srv')"
  shows "actors_ok P regs srv'"
  using assms(2) actors_ok_insert [OF assms(1)] actors_okD [OF assms(1)] assms(1)
  by (auto simp: receive_def Let_def split: option.splits prod.splits)

lemma actors_ok_fail_pending: "actors_ok P regs srv \<Longrightarrow> actors_ok P regs (fail_pending n T tid error srv)"
  by (induction n arbitrary: srv) (auto split: option.splits prod.splits dest: actors_ok_receive)

lemma actors_ok_terminate [simp]:
  "actors_ok P regs (fst (terminate_sessions tx a e st)) = actors_ok P regs (fst st)"
  "actors_ok P regs (fst (terminate_all_sessions tx e st)) = actors_ok P regs (fst st)"
proof -
  show "actors_ok P regs (fst (terminate_sessions tx a e st)) = actors_ok P regs (fst st)"
    by (cases st) (simp add: terminate_sessions_frame)
  show "actors_ok P regs (fst (terminate_all_sessions tx e st)) = actors_ok P regs (fst st)"
    by (cases st) (metis actors_ok_fields(2) fst_conv terminate_all_sessions_frame)
qed


section \<open>The proof principle\<close>

locale actor_invariant =
  fixes P :: "actor_address \<Rightarrow> 'a \<Rightarrow> bool"
    and regs :: "(string, ('a, 'w) registration) hmap"
  assumes created:
      "hm_get regs (actor_type a) = Some reg \<Longrightarrow> reg_create reg a = Returned x \<Longrightarrow> P a x"
    and activated:
      "hm_get regs (actor_type a) = Some reg \<Longrightarrow> P a x \<Longrightarrow> reg_activate reg r a x w = (o1, x', w') \<Longrightarrow> P a x'"
    and deactivated:
      "hm_get regs (actor_type a) = Some reg \<Longrightarrow> P a x \<Longrightarrow> reg_deactivate reg r a reason x w = (o2, x', w') \<Longrightarrow> P a x'"
    and handled:
      "hm_get regs (actor_type a) = Some reg \<Longrightarrow> P a x \<Longrightarrow> reg_handle reg r a sid payload x w = (o3, x', w') \<Longrightarrow> P a x'"
    and session_opened:
      "hm_get regs (actor_type a) = Some reg \<Longrightarrow> P a x \<Longrightarrow> reg_session_opened reg r a sid x w = (o4, x', w') \<Longrightarrow> P a x'"
    and session_closed:
      "hm_get regs (actor_type a) = Some reg \<Longrightarrow> P a x \<Longrightarrow> reg_session_closed reg r a sid x w = (o4, x', w') \<Longrightarrow> P a x'"
begin

abbreviation ok :: "('a, 'w, 'c, 's) server \<Rightarrow> bool" where
  "ok srv \<equiv> actors_ok P regs srv"

text \<open>Dispatch: a new task holds what the constructor returned.\<close>

lemma activate_route_ok:
  assumes "ok srv" and "activate_route T address message reservation srv = (x, srv')"
  shows "ok srv'"
proof -
  have spawned: "P (task_address t) (task_actor t)" if "spawn_actor T address g s = Some t" "registrations s = regs" for g s t
    using that created by (auto simp: spawn_actor_def split: option.splits prod.splits caught.splits if_splits)
  show ?thesis
    using assms
    by (auto simp: activate_route_def Let_def actors_ok_def fail_message_def answer_def
        split: option.splits prod.splits if_splits mailbox_message.splits dest!: spawned)
qed

lemma dispatch_commit_ok:
  assumes "ok srv" and "dispatch_commit T address message reservation srv = (x, srv')"
  shows "ok srv'"
  using assms
  by (auto simp: dispatch_commit_def split: option.splits route_state.splits prod.splits try_send_result.splits
      dest: actors_ok_mailbox_send dest!: activate_route_ok [rotated])

lemma dispatch_message_ok:
  assumes "ok srv" and "dispatch_message T now address message reservation srv = (x, srv')"
  shows "ok srv'"
  using assms by (auto simp: dispatch_message_def split: option.splits dest: dispatch_commit_ok)

lemma close_local_session_ok: "ok srv \<Longrightarrow> ok (close_local_session T a sid srv)"
  by (auto simp: close_local_session_def Let_def split: prod.splits intro: actors_ok_deliver)

lemma open_begin_ok:
  assumes "ok srv" and "open_local_session_begin T now a sid snk c reservation srv = (p, srv')"
  shows "ok srv'"
  using assms
  by (auto simp: open_local_session_begin_def split: if_splits prod.splits bool.splits option.splits sum.splits
      dest: dispatch_message_ok [rotated])

lemma inbound_opening_ok:
  assumes "ok srv"
    and "inbound_opening tx reply raw a sid c (open_local_session_begin T now a sid snk c reservation srv) w = (q, srv', w')"
  shows "ok srv'"
  using assms open_begin_ok [OF assms(1)]
  by (auto simp: inbound_opening_def split: open_progress.splits prod.splits)

lemma inbound_open_ok:
  assumes "ok srv" and "inbound_session_open T S tx now v reply raw a sid c srv w = (p, srv', w')"
  shows "ok srv'"
  using assms
  by (auto simp: inbound_session_open_def Let_def
      split: if_splits option.splits prod.splits sum.splits resolved_owner.splits
      dest: inbound_opening_ok [rotated])

lemma dispatch_remote_ok:
  assumes "ok srv" and "dispatch_remote_message T now a sid payload srv = (x, srv')"
  shows "ok srv'"
  using assms
  by (auto simp: dispatch_remote_message_def close_local_session_ok split: option.splits if_splits
      dest: dispatch_message_ok)

lemma dispatch_inbound_ok:
  assumes "ok srv" and "dispatch_inbound T S tx now c env reply srv w = (p, srv', w')"
  shows "ok srv'"
  using assms dispatch_remote_ok [OF assms(1)] inbound_open_ok [OF assms(1)] close_local_session_ok [OF assms(1)]
  by (auto simp: dispatch_inbound_def Let_def split: option.splits kind.splits if_splits prod.splits sum.splits)

text \<open>The Actor task: a callback runs on the Actor of its own entry, under the registration of its address.\<close>

lemma set_actor_ok:
  assumes "ok srv" and "\<And>t. hm_get (tasks srv) tid = Some t \<Longrightarrow> P (task_address t) actor"
  shows "ok (set_actor tid actor srv)"
  unfolding set_actor_def by (rule actors_ok_update [OF assms(1)]) (use assms(2) in simp)

text \<open>What a handler that runs callbacks may rely on: \<open>reg\<close> is the registration of the task's address.\<close>

definition runs_as :: "('a, 'w, 'c, 's) server \<Rightarrow> task_id \<Rightarrow> actor_address \<Rightarrow> ('a, 'w) registration \<Rightarrow> bool" where
  "runs_as srv tid a reg \<longleftrightarrow>
     ok srv \<and> hm_get regs (actor_type a) = Some reg
     \<and> (\<forall>t. hm_get (tasks srv) tid = Some t \<longrightarrow> task_address t = a)"

lemma runs_as_ok: "runs_as srv tid a reg \<Longrightarrow> ok srv"
  by (simp add: runs_as_def)

lemma runs_as_set_actor:
  assumes "runs_as srv tid a reg" and "P a actor"
  shows "runs_as (set_actor tid actor srv) tid a reg"
proof -
  have "ok (set_actor tid actor srv)"
    using assms by (intro set_actor_ok) (auto simp: runs_as_def)
  moreover have "task_address t = a" if "hm_get (tasks (set_actor tid actor srv)) tid = Some t" for t
    using that assms(1) by (auto simp: set_actor_def update_task_def runs_as_def split: option.splits)
  ultimately show ?thesis using assms(1) by (simp add: runs_as_def)
qed

lemma runs_as_update:
  assumes "runs_as srv tid a reg" and "\<And>t. task_address (f t) = task_address t" and "\<And>t. task_actor (f t) = task_actor t"
  shows "runs_as (update_task tid f srv) tid a reg"
proof -
  have "ok (update_task tid f srv)" by (rule actors_ok_same [OF runs_as_ok [OF assms(1)] assms(2,3)])
  moreover have "task_address t = a" if t: "hm_get (tasks (update_task tid f srv)) tid = Some t" for t
  proof -
    obtain t0 where "hm_get (tasks srv) tid = Some t0" "t = f t0"
      using t by (auto simp: update_task_def split: option.splits)
    then show ?thesis using assms(1) assms(2) [of t0] by (simp add: runs_as_def)
  qed
  ultimately show ?thesis using assms(1) by (simp add: runs_as_def)
qed

lemma runs_as_answer: "runs_as srv tid a reg \<Longrightarrow> runs_as (answer message outcome srv) tid a reg"
  by (simp add: runs_as_def answer_def split: mailbox_message.splits)

lemma runs_as_receive:
  assumes "runs_as srv tid a reg" and "receive T tid srv = (x, srv')"
  shows "runs_as srv' tid a reg"
  using assms actors_ok_receive [OF runs_as_ok [OF assms(1)] assms(2)]
  by (auto simp: runs_as_def receive_def Let_def split: option.splits prod.splits)

lemma receive_task:
  assumes "runs_as srv tid a reg" and "receive T tid srv = (Some (message, t), srv')"
  shows "P a (task_actor t)" and "task_address t = a"
proof -
  obtain t0 c where t0: "hm_get (tasks srv) tid = Some t0" and t: "t = t0\<lparr>mailbox := c\<rparr>"
    using assms(2) by (auto simp: receive_def Let_def split: option.splits prod.splits)
  have "task_address t0 = a" using assms(1) t0 by (simp add: runs_as_def)
  then show "P a (task_actor t)" "task_address t = a"
    using actors_okD [OF runs_as_ok [OF assms(1)] t0] t by simp_all
qed

lemma runs_as_execute:
  assumes "runs_as srv tid a reg" and "P a (task_actor t)" and "task_address t = a"
    and "execute_message reg tid t message (srv, w) = (b, srv', w')"
  shows "runs_as srv' tid a reg"
proof -
  have reg: "hm_get regs (actor_type a) = Some reg" using assms(1) by (simp add: runs_as_def)
  show ?thesis
  proof (cases message)
    case (Action sid payload)
    obtain out x' w1 where c: "reg_handle reg (sessions srv) a sid payload (task_actor t) w = (out, x', w1)"
      by (metis prod_cases3)
    show ?thesis
      using runs_as_set_actor [OF assms(1) handled [OF reg assms(2) c]] assms(3,4) c Action
      by (simp add: execute_message_def)
  next
    case (SessionOpened sid complete)
    obtain out x' w1 where c: "reg_session_opened reg (sessions srv) a sid (task_actor t) w = (out, x', w1)"
      by (metis prod_cases3)
    show ?thesis
      using runs_as_answer [OF runs_as_set_actor [OF assms(1) session_opened [OF reg assms(2) c]]] assms(3,4) c SessionOpened
      by (auto simp: execute_message_def split: caught.splits)
  next
    case (SessionClosed sid)
    obtain out x' w1 where c: "reg_session_closed reg (sessions srv) a sid (task_actor t) w = (out, x', w1)"
      by (metis prod_cases3)
    show ?thesis
      using runs_as_set_actor [OF assms(1) session_closed [OF reg assms(2) c]] assms(3,4) c SessionClosed
      by (auto simp: execute_message_def split: caught.splits)
  qed
qed

lemma runs_as_drain:
  "runs_as srv tid a reg \<Longrightarrow> drain n T reg tid (srv, w) = (b, srv', w') \<Longrightarrow> runs_as srv' tid a reg"
proof (induction n arbitrary: srv w)
  case (Suc n)
  obtain x srv1 where r: "receive T tid srv = (x, srv1)" by fastforce
  note r1 = runs_as_receive [OF Suc.prems(1) r]
  show ?case
  proof (cases x)
    case None
    then show ?thesis using Suc.prems(2) r r1 by simp
  next
    case (Some mt)
    obtain m t where mt: "mt = (m, t)" by fastforce
    obtain c srv2 w2 where e: "execute_message reg tid t m (srv1, w) = (c, srv2, w2)" by (metis prod_cases3)
    have "runs_as srv2 tid a reg"
      using runs_as_execute [OF r1 _ _ e] receive_task [OF Suc.prems(1)] r Some mt by simp
    then show ?thesis
      using Suc.IH [of srv2 w2] Suc.prems(2) r Some mt e by (cases c) auto
  qed
qed simp

lemma runs_as_deactivate:
  assumes "runs_as srv tid a reg" and "run_deactivate reg reason tid a (srv, w) = (srv', w')"
  shows "runs_as srv' tid a reg"
proof (cases "hm_get (tasks srv) tid")
  case None
  then show ?thesis using assms by (simp add: run_deactivate_def)
next
  case (Some t)
  obtain out x' w1 where c: "reg_deactivate reg (sessions srv) a reason (task_actor t) w = (out, x', w1)"
    by (metis prod_cases3)
  have "P a (task_actor t)" "hm_get regs (actor_type a) = Some reg"
    using assms(1) actors_okD [OF runs_as_ok [OF assms(1)] Some] Some by (auto simp: runs_as_def)
  from runs_as_set_actor [OF assms(1) deactivated [OF this(2,1) c]]
  show ?thesis using assms(2) Some c by (simp add: run_deactivate_def)
qed

lemma terminate_ok:
  assumes "ok srv" and "terminate_sessions tx a e (srv, w) = (srv', w')"
  shows "ok srv'"
  using actors_ok_terminate(1) [of P regs tx a e "(srv, w)"] assms by simp

lemma message_failed_ok:
  assumes "ok srv" and "message_failed T tx tid t (srv, w) = (srv', w')"
  shows "ok srv'"
proof -
  obtain srv1 w1 where t: "terminate_sessions tx (task_address t) ActorStopped (srv, w) = (srv1, w1)" by fastforce
  have "srv' = task_guard_drop T tid t srv1" using assms(2) t by (simp add: message_failed_def)
  then show ?thesis using actors_ok_entry(4) [OF terminate_ok [OF assms(1) t]] by simp
qed

lemma activation_failed_ok:
  assumes "ok srv" and "activation_failed T tx tid t e (srv, w) = (srv', w')"
  shows "ok srv'"
proof -
  define srv3 where "srv3 = fail_pending (tk_max_capacity T (mailbox t)) T tid e
      (remove_route T (task_address t) (task_generation t) (close_mailbox T tid srv))"
  obtain srv4 w4 where t: "terminate_sessions tx (task_address t) e (srv3, w) = (srv4, w4)" by fastforce
  have "ok srv3" unfolding srv3_def using assms(1) by (intro actors_ok_fail_pending) auto
  moreover have "srv' = task_guard_drop T tid t srv4"
    using assms(2) t by (simp add: activation_failed_def Let_def srv3_def)
  ultimately show ?thesis using actors_ok_entry(4) terminate_ok [OF _ t] by blast
qed

lemma runs_as_tasks: "runs_as srv tid a reg \<Longrightarrow> ok srv' \<Longrightarrow> tasks srv' = tasks srv \<Longrightarrow> runs_as srv' tid a reg"
  by (simp add: runs_as_def)

lemma activation_ok:
  assumes "runs_as srv tid (task_address t) reg" and "hm_get (tasks srv) tid = Some t"
    and "activation T tx reg tid t (srv, w) = (p, srv', w')"
  shows "ok srv'"
proof -
  obtain out x' w1 where c: "reg_activate reg (sessions srv) (task_address t) (task_actor t) w = (out, x', w1)"
    by (metis prod_cases3)
  have "P (task_address t) x'"
    using activated [OF _ _ c] assms(1) actors_okD [OF runs_as_ok [OF assms(1)] assms(2)] by (simp add: runs_as_def)
  then have "ok (set_actor tid x' srv)" using runs_as_set_actor [OF assms(1)] runs_as_ok by blast
  then show ?thesis
    using assms(3) c by (auto simp: activation_def Let_def split: caught.splits sum.splits dest: activation_failed_ok)
qed

lemma shutdown_drain_ok:
  assumes "runs_as srv tid (task_address t) reg" and "shutdown_drain T tx reg tid t (srv, w) = (srv', w')"
  shows "ok srv'"
proof -
  have r0: "runs_as (close_mailbox T tid srv) tid (task_address t) reg"
    unfolding close_mailbox_def by (rule runs_as_update [OF assms(1)]) simp_all
  obtain b srv1 w1 where d: "drain (tk_max_capacity T (mailbox t)) T reg tid (close_mailbox T tid srv, w) = (b, srv1, w1)"
    by (metis prod_cases3)
  note r1 = runs_as_drain [OF r0 d]
  obtain srv2 w2 where t: "terminate_sessions tx (task_address t) RuntimeShuttingDown (srv1, w1) = (srv2, w2)" by fastforce
  have "tasks srv2 = tasks srv1"
    using terminate_sessions_frame [of tx "task_address t" RuntimeShuttingDown srv1 w1] t by simp
  then have r2: "runs_as srv2 tid (task_address t) reg"
    by (rule runs_as_tasks [OF r1 terminate_ok [OF runs_as_ok [OF r1] t]])
  obtain srv3 w3 where e: "run_deactivate reg Shutdown tid (task_address t) (srv2, w2) = (srv3, w3)" by fastforce
  have ok3: "ok srv3" by (rule runs_as_ok [OF runs_as_deactivate [OF r2 e]])
  show ?thesis
  proof (cases b)
    case True
    then have "srv' = task_guard_drop T tid t (remove_route T (task_address t) (task_generation t) srv3)"
      using assms(2) d t e by (simp add: shutdown_drain_def)
    moreover have "ok (remove_route T (task_address t) (task_generation t) srv3)" using ok3 by simp
    ultimately show ?thesis using actors_ok_entry(4) by blast
  next
    case False
    then have "message_failed T tx tid t (srv1, w1) = (srv', w')" using assms(2) d by (simp add: shutdown_drain_def)
    then show ?thesis by (rule message_failed_ok [OF runs_as_ok [OF r1]])
  qed
qed

lemma idle_elapsed_ok:
  assumes "runs_as srv tid (task_address t) reg" and "idle_elapsed T S reg tid t (srv, w) = (p, srv', w')"
  shows "ok srv'"
proof -
  obtain b srv1 where d: "begin_deactivation T (task_address t) (task_generation t) (mailbox t) srv = (b, srv1)" by fastforce
  have "ok srv1" using runs_as_ok [OF assms(1)] actors_ok_deactivation d by (metis snd_conv)
  moreover have "tasks srv1 = tasks srv"
    using d by (auto simp: begin_deactivation_def split: option.splits if_splits)
  ultimately have r1: "runs_as srv1 tid (task_address t) reg" by (rule runs_as_tasks [OF assms(1)])
  obtain srv2 w2 where e: "run_deactivate reg Idle tid (task_address t) (srv1, w) = (srv2, w2)" by fastforce
  have "ok srv2" by (rule runs_as_ok [OF runs_as_deactivate [OF r1 e]])
  then have "ok (task_guard_drop T tid t (remove_route T (task_address t) (task_generation t) srv2))"
    by (intro actors_ok_entry(4)) simp
  then show ?thesis
    using assms(2) d e \<open>ok srv1\<close> runs_as_ok [OF assms(1)]
    by (cases b) (auto simp: idle_elapsed_def Let_def split: if_splits)
qed

lemma serve_once_ok:
  assumes "runs_as srv tid (task_address t) reg" and "serve_once T S tx reg tid t (srv, w) = (p, srv', w')"
  shows "ok srv'"
proof (cases "shutdown_changed t")
  case True
  define srv1 where "srv1 = update_task tid (\<lambda>t. t\<lparr>shutdown_changed := False\<rparr>) srv"
  have r1: "runs_as srv1 tid (task_address t) reg"
    unfolding srv1_def by (rule runs_as_update [OF assms(1)]) simp_all
  show ?thesis
  proof (cases "shutdown_flag t")
    case True
    then have "shutdown_drain T tx reg tid t (srv1, w) = (srv', w')"
      using assms(2) \<open>shutdown_changed t\<close> by (simp add: serve_once_def srv1_def Let_def)
    then show ?thesis by (rule shutdown_drain_ok [OF r1])
  next
    case False
    then show ?thesis
      using assms(2) \<open>shutdown_changed t\<close> runs_as_ok [OF r1] by (simp add: serve_once_def srv1_def Let_def)
  qed
next
  case False
  obtain x srv1 where r: "receive T tid srv = (x, srv1)" by fastforce
  note r1 = runs_as_receive [OF assms(1) r]
  show ?thesis
  proof (cases x)
    case None
    have "ok (task_guard_drop T tid t (remove_route T (task_address t) (task_generation t) srv1))"
      by (intro actors_ok_entry(4)) (simp add: runs_as_ok [OF r1])
    moreover have "ok srv'" if "idle_elapsed T S reg tid t (srv1, w) = (p, srv', w')"
      by (rule idle_elapsed_ok [OF r1 that])
    ultimately show ?thesis
      using assms(2) False r None runs_as_ok [OF assms(1)] by (simp add: serve_once_def split: if_splits)
  next
    case (Some mt)
    obtain m t' where mt: "mt = (m, t')" by fastforce
    obtain b srv2 w2 where e: "execute_message reg tid t' m (srv1, w) = (b, srv2, w2)" by (metis prod_cases3)
    have "ok srv2"
      using runs_as_ok [OF runs_as_execute [OF r1 _ _ e]] receive_task [OF assms(1)] r Some mt by simp
    moreover have "ok srv'" if "message_failed T tx tid t (srv2, w2) = (srv', w')"
      by (rule message_failed_ok [OF \<open>ok srv2\<close> that])
    ultimately show ?thesis
      using assms(2) False r Some mt e runs_as_ok [OF assms(1)]
      by (cases b) (simp_all add: serve_once_def split: if_splits)
  qed
qed

lemma internal_step_ok:
  assumes "internal_step T S tx st st'" and "ok (fst st)"
  shows "ok (fst st')"
  using assms
proof (cases rule: internal_step.cases)
  case (opened srv w reply a sid received)
  then show ?thesis
    using assms(2) by (auto simp: inbound_opened_def open_local_session_finish_def Let_def split: option.splits sum.splits)
next
  case (stream_end srv w sender)
  then show ?thesis
    using assms(2) close_local_session_ok
    by (auto simp: close_sessions_for_sender_def split_beta intro!: actors_ok_fold)
next
  case (activate srv tid t reg w p)
  have "runs_as srv tid (task_address t) reg"
    using assms(2) activate by (simp add: runs_as_def task_registration_def actors_ok_regs)
  then show ?thesis using activation_ok activate by (metis prod.collapse)
next
  case (serve srv tid t reg w p)
  have "runs_as srv tid (task_address t) reg"
    using assms(2) serve by (simp add: runs_as_def task_registration_def actors_ok_regs)
  then show ?thesis using serve_once_ok serve by (metis prod.collapse)
next
  case (aborted srv w tid)
  then show ?thesis using assms(2) actors_ok_entry(5) by simp
next
  case (shutdown_begins srv tids srv' w)
  then show ?thesis
    using assms(2) by (auto simp: shutdown_begin_def split: if_splits intro!: actors_ok_fold)
next
  case (shutdown_ends timed_out tids srv w res)
  define srv1 where "srv1 = (if timed_out then clear_actors T (fold abort_task tids srv) else srv)"
  have "ok srv1" unfolding srv1_def using assms(2) shutdown_ends(1) by (auto intro!: actors_ok_fold)
  moreover obtain srv2 w2 where t: "terminate_all_sessions tx RuntimeShuttingDown (srv1, w) = (srv2, w2)" by fastforce
  ultimately have "ok srv2" using actors_ok_terminate(2) [of P regs tx RuntimeShuttingDown "(srv1, w)"] by simp
  then show ?thesis using shutdown_ends(2) t by (auto simp: shutdown_finish_def srv1_def Let_def)
next
  case (fence_begins srv tids srv' w)
  then show ?thesis using assms(2) by (auto simp: fence_begin_def intro!: actors_ok_fold)
next
  case (fence_ends srv w)
  obtain srv2 w2 where t: "terminate_all_sessions tx NodeFenced (clear_actors T srv, w) = (srv2, w2)" by fastforce
  have "ok srv2"
    using actors_ok_terminate(2) [of P regs tx NodeFenced "(clear_actors T srv, w)"] assms(2) fence_ends(1) t by simp
  then show ?thesis using fence_ends(2) t by (simp add: fence_finish_def)
next
  case (resolved reply raw a sid c now snk reservation srv w p srv' w')
  then show ?thesis using inbound_opening_ok assms(2) by (metis fst_conv)
next
  case (clears srv w tids)
  have "ok (fold abort_task tids srv)" using assms(2) clears(1) by (auto intro!: actors_ok_fold)
  then show ?thesis using clears(2) by simp
next
  case (terminates srv w a error)
  then show ?thesis using assms(2) by (simp add: terminate_sessions_frame)
next
  case (stops srv w)
  then show ?thesis using assms(2) by simp
next
  case (elsewhere srv w au it cap w')
  then show ?thesis using assms(2) by simp
qed

lemma handler_step_ok:
  assumes "handler_step T S tx st st'" and "ok (fst st)"
  shows "ok (fst st')"
  using assms
proof cases
  case (inbound now complete env reply srv w p srv' w')
  then show ?thesis using assms(2) dispatch_inbound_ok by fastforce
next
  case internal
  then show ?thesis using internal_step_ok assms(2) by blast
qed

lemma handler_reach_ok:
  assumes "handler_reach T S tx st st'" and "ok (fst st)"
  shows "ok (fst st')"
  using assms(1) unfolding handler_reach_def
  by (induction rule: rtranclp_induct) (use assms(2) handler_step_ok in blast)+

end

section \<open>Actors of a generated type\<close>

text \<open>
  One Actor Type among those of a Server, registered from its generated code; \<open>Q\<close> is an invariant
  of the consumer's own type.
\<close>

definition generated_as :: "('x, 'u) rust_type \<Rightarrow> ('x, 'w) actor_impl \<Rightarrow> ('u any_box, 'w) registration \<Rightarrow> bool" where
  "generated_as A I reg \<longleftrightarrow>
     (\<exists>debug E name cap idle. expand_actor debug [] A I = Ok E
        \<and> reg = (erased_registration E)\<lparr>reg_name := name, mailbox_capacity := cap, idle_timeout := idle\<rparr>)"

locale hosted_actor =
  fixes A :: "('x, 'u) rust_type" and I :: "('x, 'w) actor_impl"
    and Q :: "actor_address \<Rightarrow> 'x \<Rightarrow> bool"
    and name :: string and regs :: "(string, ('u any_box, 'w) registration) hmap"
  assumes type_ok: "type_ok A"
    and generated: "hm_get regs name = Some reg \<Longrightarrow> generated_as A I reg"
    and new: "actor_new I (make_actor_runtime a) = Returned x \<Longrightarrow> Q a x"
    and activate: "Q a x \<Longrightarrow> on_activate I r x w = (o1, x', w') \<Longrightarrow> Q a x'"
    and deactivate: "Q a x \<Longrightarrow> on_deactivate I r reason x w = (o2, x', w') \<Longrightarrow> Q a x'"
    and message: "Q a x \<Longrightarrow> on_message I r (make_message_context a sid) payload x w = (o3, x', w') \<Longrightarrow> Q a x'"
    and opened: "Q a x \<Longrightarrow> on_session_opened I r (make_message_context a sid) x w = (o3, x', w') \<Longrightarrow> Q a x'"
    and closed: "Q a x \<Longrightarrow> on_session_closed I r (make_message_context a sid) x w = (o3, x', w') \<Longrightarrow> Q a x'"

definition holds_in_box :: "('x, 'u) rust_type \<Rightarrow> (actor_address \<Rightarrow> 'x \<Rightarrow> bool) \<Rightarrow> string \<Rightarrow> actor_address \<Rightarrow> 'u any_box \<Rightarrow> bool" where
  "holds_in_box A Q name a b \<longleftrightarrow> (actor_type a = name \<longrightarrow> (\<exists>x. b = box_any A x \<and> Q a x))"

lemma holds_with_downcast:
  assumes "type_ok A" and "holds_in_box A Q name a b" and "actor_type a = name"
    and "with_downcast A p f b w = (out, b', w')"
    and "\<And>x x'. Q a x \<Longrightarrow> f x w = (out, x', w') \<Longrightarrow> Q a x'"
  shows "holds_in_box A Q name a b'"
proof -
  obtain x where x: "b = box_any A x" "Q a x" using assms(2,3) by (auto simp: holds_in_box_def)
  then show ?thesis
    using assms(4) assms(5) [OF x(2)] by (auto simp: holds_in_box_def with_downcast_box_any [OF assms(1)] split: prod.splits)
qed

lemma generated_callbacks:
  assumes "generated_as A I reg"
  shows "reg_create reg a = map_caught (box_any A) (actor_new I (make_actor_runtime a))"
    and "\<exists>debug. reg_activate reg r a = with_downcast A Unwound (\<lambda>x w.
           case on_activate I r x w of (out, x', w') \<Rightarrow> (map_caught (map_sum debug id) out, x', w'))"
    and "reg_deactivate reg r a reason = with_downcast A (Done Unwound) (on_deactivate I r reason)"
    and "reg_handle reg r a sid payload = with_downcast A Unwound (\<lambda>x w.
           case on_message I r (make_message_context a sid) payload x w of
             (out, x', w') \<Rightarrow> (map_caught (\<lambda>_. Completed) out, x', w'))"
    and "reg_session_opened reg r a sid =
           with_downcast A Unwound (on_session_opened I r (make_message_context a sid))"
    and "reg_session_closed reg r a sid =
           with_downcast A Unwound (on_session_closed I r (make_message_context a sid))"
  using assms by (auto simp: generated_as_def expand_actor_def erased_impl_def erased_registration_def)


lemma holds_other: "actor_type a \<noteq> name \<Longrightarrow> holds_in_box A Q name a b"
  by (simp add: holds_in_box_def)

lemma holds_callback:
  assumes "type_ok A" and "holds_in_box A Q name a b"
    and "actor_type a = name \<Longrightarrow> \<exists>f. with_downcast A p f b w = (out, b', w')
           \<and> (\<forall>x x' w'. Q a x \<longrightarrow> (\<exists>out. f x w = (out, x', w')) \<longrightarrow> Q a x')"
  shows "holds_in_box A Q name a b'"
proof (cases "actor_type a = name")
  case True
  then obtain f where f: "with_downcast A p f b w = (out, b', w')"
    and keep: "\<forall>x x' w'. Q a x \<longrightarrow> (\<exists>out. f x w = (out, x', w')) \<longrightarrow> Q a x'"
    using assms(3) by blast
  show ?thesis by (rule holds_with_downcast [OF assms(1,2) True f]) (use keep in blast)
qed (rule holds_other)

sublocale hosted_actor \<subseteq> actor_invariant "holds_in_box A Q name" regs
proof
  fix a :: actor_address and reg b
  assume reg: "hm_get regs (actor_type a) = Some reg"
  have gen: "generated_as A I reg" if "actor_type a = name" using generated reg that by simp
  show "holds_in_box A Q name a b" if c: "reg_create reg a = Returned b"
  proof (cases "actor_type a = name")
    case True
    then obtain x where "b = box_any A x" "actor_new I (make_actor_runtime a) = Returned x"
      using c generated_callbacks(1) [OF gen] by auto
    then show ?thesis using new by (auto simp: holds_in_box_def)
  qed (rule holds_other)
  assume b: "holds_in_box A Q name a b"
  fix r w b' w'
  show "holds_in_box A Q name a b'" if call: "reg_activate reg r a b w = (o1, b', w')" for o1
  proof (rule holds_callback [OF type_ok b])
    assume n: "actor_type a = name"
    obtain debug where "reg_activate reg r a = with_downcast A Unwound (\<lambda>x w.
        case on_activate I r x w of (out, x', w') \<Rightarrow> (map_caught (map_sum debug id) out, x', w'))"
      using generated_callbacks(2) [OF gen [OF n]] by blast
    with call show "\<exists>f. with_downcast A Unwound f b w = (o1, b', w')
        \<and> (\<forall>x x' w'. Q a x \<longrightarrow> (\<exists>out. f x w = (out, x', w')) \<longrightarrow> Q a x')"
      by (intro exI conjI) (auto split: prod.splits dest: activate)
  qed
  show "holds_in_box A Q name a b'" if call: "reg_deactivate reg r a reason b w = (o2, b', w')" for reason o2
    by (rule holds_callback [OF type_ok b])
      (use call generated_callbacks(3) [OF gen] deactivate in \<open>auto intro!: exI conjI\<close>)
  show "holds_in_box A Q name a b'" if call: "reg_handle reg r a sid payload b w = (o3, b', w')" for sid payload o3
  proof (rule holds_callback [OF type_ok b])
    assume n: "actor_type a = name"
    show "\<exists>f. with_downcast A Unwound f b w = (o3, b', w')
        \<and> (\<forall>x x' w'. Q a x \<longrightarrow> (\<exists>out. f x w = (out, x', w')) \<longrightarrow> Q a x')"
      using call generated_callbacks(4) [OF gen [OF n]]
      by (intro exI conjI) (auto split: prod.splits dest: message)
  qed
  show "holds_in_box A Q name a b'" if call: "reg_session_opened reg r a sid b w = (o4, b', w')" for sid o4
    by (rule holds_callback [OF type_ok b])
      (use call generated_callbacks(5) [OF gen] opened in \<open>auto intro!: exI conjI\<close>)
  show "holds_in_box A Q name a b'" if call: "reg_session_closed reg r a sid b w = (o4, b', w')" for sid o4
    by (rule holds_callback [OF type_ok b])
      (use call generated_callbacks(6) [OF gen] closed in \<open>auto intro!: exI conjI\<close>)
qed

context hosted_actor
begin

lemma boxed:
  assumes "handler_reach T S tx (srv, w) (srv', w')" and "registrations srv = regs" and "tasks srv = hm_empty"
    and "hm_get (tasks srv') tid = Some t" and "actor_type (task_address t) = name"
  obtains x where "task_actor t = box_any A x" and "Q (task_address t) x"
proof -
  have "actors_ok (holds_in_box A Q name) regs srv" using assms(2,3) by (simp add: actors_ok_def)
  then have "actors_ok (holds_in_box A Q name) regs srv'" using handler_reach_ok [OF assms(1)] by simp
  then have "holds_in_box A Q name (task_address t) (task_actor t)" using actors_okD assms(4) by blast
  then show ?thesis using that assms(5) by (auto simp: holds_in_box_def)
qed

end

section \<open>Properties\<close>

text \<open>
  C14. The runtime never confuses Actors.  In every state handlers reach from a Server without
  tasks, an Actor of a type registered from its generated code is a box of that very type, so no
  downcast of the generated code panics: message, activation, deactivation and Session callbacks
  all run the consumer's method on the value in the box, and put back a value of the same type.
\<close>

theorem erased_actor_keeps_type:
  assumes "type_ok A" and "hm_get (registrations srv) name = Some reg" and "generated_as A I reg"
    and "tasks srv = hm_empty" and "handler_reach T S tx (srv, w) (srv', w')"
    and "hm_get (tasks srv') tid = Some t" and "actor_type (task_address t) = name"
  shows "\<exists>x debug. task_actor t = box_any A x
     \<and> reg_handle reg r a sid payload (task_actor t) v =
         (case on_message I r (make_message_context a sid) payload x v of
            (out, x', v') \<Rightarrow> (map_caught (\<lambda>_. Completed) out, box_any A x', v'))
     \<and> reg_activate reg r a (task_actor t) v =
         (case on_activate I r x v of (out, x', v') \<Rightarrow> (map_caught (map_sum debug id) out, box_any A x', v'))
     \<and> reg_deactivate reg r a reason (task_actor t) v =
         (case on_deactivate I r reason x v of (out, x', v') \<Rightarrow> (out, box_any A x', v'))
     \<and> reg_session_opened reg r a sid (task_actor t) v =
         (case on_session_opened I r (make_message_context a sid) x v of (out, x', v') \<Rightarrow> (out, box_any A x', v'))
     \<and> reg_session_closed reg r a sid (task_actor t) v =
         (case on_session_closed I r (make_message_context a sid) x v of (out, x', v') \<Rightarrow> (out, box_any A x', v'))"
proof -
  have "hosted_actor A I (\<lambda>_ _. True) name (registrations srv)"
    by unfold_locales (use assms(1-3) in auto)
  then obtain x where x: "task_actor t = box_any A x"
    using hosted_actor.boxed [OF _ assms(5) refl assms(4,6,7)] by blast
  note call = generated_callbacks [OF assms(3)] with_downcast_box_any [OF assms(1)]
  obtain debug where "reg_activate reg r a = with_downcast A Unwound (\<lambda>x w.
      case on_activate I r x w of (out, x', w') \<Rightarrow> (map_caught (map_sum debug id) out, x', w'))"
    using call(2) by blast
  then show ?thesis
    by (intro exI [of _ x] exI [of _ debug]) (simp add: x call(1,3-) split: prod.splits)
qed

end
