(* ===== verification/Action_Delivery.thy ===== *)
theory Action_Delivery
  imports Actor_Invariants
begin

text \<open>
  Actions are delivered at most once and in order (\<open>coactor/src/lib.rs\<close> promises at-most-once
  delivery).  An Action that arrives is put into at most one mailbox, a mailbox is read in order, and
  what is read is handed to the Actor once.

  \<open>history\<close> reads off an Actor what it has been given; \<open>recorded_actors\<close> says that it does.  What a
  task has taken are the Actions its Actor was given and those still in its mailbox.  Every handler
  shrinks what each task has taken, except that an arriving Action is added to at most one task.
\<close>

section \<open>What a task has taken\<close>

type_synonym addressed_action = "actor_address \<times> session_id \<times> bytes"

fun action_of :: "mailbox_message \<Rightarrow> (session_id \<times> bytes) list" where
  "action_of (Action sid payload) = [(sid, payload)]"
| "action_of _ = []"

definition actions_of :: "mailbox_message list \<Rightarrow> (session_id \<times> bytes) list" where
  "actions_of q = concat (map action_of q)"

definition taken ::
  "('c \<Rightarrow> mailbox_message list) \<Rightarrow> ('a \<Rightarrow> (session_id \<times> bytes) list) \<Rightarrow> ('a, 'c) actor_task \<Rightarrow> addressed_action list" where
  "taken queued history t = map (Pair (task_address t)) (history (task_actor t) @ actions_of (queued (mailbox t)))"

definition taken_at ::
  "('c \<Rightarrow> mailbox_message list) \<Rightarrow> ('a \<Rightarrow> (session_id \<times> bytes) list) \<Rightarrow> ('a, 'w, 'c, 's) server \<Rightarrow> task_id
     \<Rightarrow> addressed_action list" where
  "taken_at queued history srv tid =
     (case hm_get (tasks srv) tid of None \<Rightarrow> [] | Some t \<Rightarrow> taken queued history t)"

lemma actions_of_simps [simp]:
  "actions_of [] = []" "actions_of (m # q) = action_of m @ actions_of q"
  "actions_of (q @ q') = actions_of q @ actions_of q'"
  by (simp_all add: actions_of_def)

lemma subseq_concat_map: "subseq xs ys \<Longrightarrow> subseq (concat (map f xs)) (concat (map f ys))"
  by (induction rule: list_emb.induct) (auto intro: list_emb_append_mono subseq_rev_drop_many)

lemma subseq_actions_of: "subseq q q' \<Longrightarrow> subseq (actions_of q) (actions_of q')"
  by (simp add: actions_of_def subseq_concat_map)

text \<open>The Actions an envelope carries, as the dispatcher reads it.\<close>

definition received_action :: "envelope \<Rightarrow> addressed_action list" where
  "received_action env =
     (case (env_kind env, SessionId_from_bytes (env_session_id env),
            actor_address_from_envelope (env_actor_type env) (env_actor_id env)) of
        (Some (Kind_Action payload), Some sid, Some address) \<Rightarrow> [(address, sid, payload)]
      | _ \<Rightarrow> [])"

section \<open>Shrinking\<close>

text \<open>Routes name tasks of their own address; \<open>steady\<close> operations add no Route and move no task.\<close>

definition routed :: "('a, 'w, 'c, 's) server \<Rightarrow> bool" where
  "routed srv \<longleftrightarrow>
     (\<forall>a route. hm_get (actors srv) a = Some route \<longrightarrow>
        rt_task route < next_task srv \<and> (\<forall>t. hm_get (tasks srv) (rt_task route) = Some t \<longrightarrow> task_address t = a))"

definition steady :: "('a, 'w, 'c, 's) server \<Rightarrow> ('a, 'w, 'c, 's) server \<Rightarrow> bool" where
  "steady srv srv' \<longleftrightarrow>
     registrations srv' = registrations srv \<and> next_task srv \<le> next_task srv'
     \<and> (\<forall>a route'. hm_get (actors srv') a = Some route' \<longrightarrow>
          (\<exists>route. hm_get (actors srv) a = Some route \<and> rt_task route = rt_task route'))
     \<and> (\<forall>tid. map_option task_address (hm_get (tasks srv') tid) = map_option task_address (hm_get (tasks srv) tid))"

definition shrinks ::
  "('c \<Rightarrow> mailbox_message list) \<Rightarrow> ('a \<Rightarrow> (session_id \<times> bytes) list)
     \<Rightarrow> ('a, 'w, 'c, 's) server \<Rightarrow> ('a, 'w, 'c, 's) server \<Rightarrow> bool" where
  "shrinks queued history srv srv' \<longleftrightarrow>
     steady srv srv' \<and> (\<forall>tid. subseq (taken_at queued history srv' tid) (taken_at queued history srv tid))"

definition accepts ::
  "('c \<Rightarrow> mailbox_message list) \<Rightarrow> ('a \<Rightarrow> (session_id \<times> bytes) list) \<Rightarrow> addressed_action list
     \<Rightarrow> ('a, 'w, 'c, 's) server \<Rightarrow> ('a, 'w, 'c, 's) server \<Rightarrow> bool" where
  "accepts queued history xs srv srv' \<longleftrightarrow>
     registrations srv' = registrations srv \<and> (routed srv \<longrightarrow> routed srv')
     \<and> (\<exists>at_task. \<forall>tid. subseq (taken_at queued history srv' tid)
          (taken_at queued history srv tid @ (if tid = at_task then xs else [])))"

lemma steady_refl [simp]: "steady srv srv"
  by (simp add: steady_def)

lemma steady_trans: "steady a b \<Longrightarrow> steady b c \<Longrightarrow> steady a c"
  unfolding steady_def by (metis order_trans)

lemma steady_routed:
  assumes "steady srv srv'" and "routed srv"
  shows "routed srv'"
  unfolding routed_def
proof (intro allI impI conjI)
  fix a route' assume "hm_get (actors srv') a = Some route'"
  then obtain route where r: "hm_get (actors srv) a = Some route" "rt_task route = rt_task route'"
    using assms(1) unfolding steady_def by blast
  from r(1) have "rt_task route < next_task srv" using assms(2) unfolding routed_def by blast
  then show "rt_task route' < next_task srv'" using assms(1) r(2) by (simp add: steady_def)
  fix t assume t: "hm_get (tasks srv') (rt_task route') = Some t"
  have "map_option task_address (hm_get (tasks srv') (rt_task route')) = map_option task_address (hm_get (tasks srv) (rt_task route))"
    using assms(1) r(2) by (simp add: steady_def)
  then obtain u where u: "hm_get (tasks srv) (rt_task route) = Some u" "task_address u = task_address t"
    using t by (cases "hm_get (tasks srv) (rt_task route)") simp_all
  have "task_address u = a" using assms(2) r(1) u(1) unfolding routed_def by blast
  then show "task_address t = a" using u(2) by simp
qed

lemma shrinks_refl [simp, intro]: "shrinks queued history srv srv"
  by (simp add: shrinks_def)

lemma shrinks_trans [trans]:
  "shrinks queued history a b \<Longrightarrow> shrinks queued history b c \<Longrightarrow> shrinks queued history a c"
  by (auto simp: shrinks_def intro: subseq_order.trans steady_trans)

lemma shrinks_steady: "tasks srv' = tasks srv \<Longrightarrow> steady srv srv' \<Longrightarrow> shrinks queued history srv srv'"
  by (simp add: shrinks_def taken_at_def)

lemma shrinks_tasks:
  "tasks srv' = tasks srv \<Longrightarrow> registrations srv' = registrations srv \<Longrightarrow> actors srv' = actors srv \<Longrightarrow>
   next_task srv \<le> next_task srv' \<Longrightarrow> shrinks queued history srv srv'"
  by (rule shrinks_steady) (simp_all add: steady_def)

lemma acceptsI:
  assumes "registrations srv' = registrations srv" and "routed srv \<Longrightarrow> routed srv'"
    and "\<And>tid. subseq (taken_at queued history srv' tid)
          (taken_at queued history srv tid @ (if tid = k then xs else []))"
  shows "accepts queued history xs srv srv'"
  unfolding accepts_def using assms by blast

lemma acceptsE:
  assumes "accepts queued history xs srv srv'"
  obtains k where "\<And>tid. subseq (taken_at queued history srv' tid)
          (taken_at queued history srv tid @ (if tid = k then xs else []))"
  using assms unfolding accepts_def by blast

lemma acceptsD:
  assumes "accepts queued history xs srv srv'"
  shows "registrations srv' = registrations srv" and "routed srv \<Longrightarrow> routed srv'"
  using assms by (simp_all add: accepts_def)

lemma shrinksD:
  assumes "shrinks queued history srv srv'"
  shows "registrations srv' = registrations srv" and "routed srv \<Longrightarrow> routed srv'"
    and "subseq (taken_at queued history srv' tid) (taken_at queued history srv tid)"
  using assms steady_routed by (auto simp: shrinks_def steady_def)

lemma shrinks_accepts: "shrinks queued history srv srv' \<Longrightarrow> accepts queued history xs srv srv'"
  by (rule acceptsI [where k = 0]) (auto dest: shrinksD intro: subseq_rev_drop_many)

lemma accepts_shrinks:
  assumes "accepts queued history xs a b" and "shrinks queued history b c"
  shows "accepts queued history xs a c"
proof -
  obtain k where k: "\<And>tid. subseq (taken_at queued history b tid) (taken_at queued history a tid @ (if tid = k then xs else []))"
    using acceptsE [OF assms(1)] by metis
  show ?thesis
  proof (rule acceptsI [where k = k])
    show "routed c" if "routed a" using shrinksD(2) [OF assms(2)] acceptsD(2) [OF assms(1)] that by simp
    show "registrations c = registrations a" using shrinksD(1) [OF assms(2)] acceptsD(1) [OF assms(1)] by simp
    fix tid
    show "subseq (taken_at queued history c tid) (taken_at queued history a tid @ (if tid = k then xs else []))"
      by (rule subseq_order.trans [OF shrinksD(3) [OF assms(2)] k])
  qed
qed

lemma shrinks_then_accepts:
  assumes "shrinks queued history a b" and "accepts queued history xs b c"
  shows "accepts queued history xs a c"
proof -
  obtain k where k: "\<And>tid. subseq (taken_at queued history c tid) (taken_at queued history b tid @ (if tid = k then xs else []))"
    using acceptsE [OF assms(2)] by metis
  show ?thesis
  proof (rule acceptsI [where k = k])
    show "registrations c = registrations a" using shrinksD(1) [OF assms(1)] acceptsD(1) [OF assms(2)] by simp
    show "routed c" if "routed a" using shrinksD(2) [OF assms(1)] acceptsD(2) [OF assms(2)] that by simp
    fix tid
    have "subseq (taken_at queued history b tid @ ys) (taken_at queued history a tid @ ys)" for ys
      by (rule list_emb_append_mono [OF shrinksD(3) [OF assms(1)]]) simp
    then show "subseq (taken_at queued history c tid) (taken_at queued history a tid @ (if tid = k then xs else []))"
      by (rule subseq_order.trans [OF k])
  qed
qed

lemma shrinks_insert:
  "hm_get (tasks srv) tid = Some t \<Longrightarrow> task_address t' = task_address t \<Longrightarrow>
   subseq (taken queued history t') (taken queued history t) \<Longrightarrow>
   shrinks queued history srv (srv\<lparr>tasks := hm_insert tid t' (tasks srv)\<rparr>)"
  by (simp add: shrinks_def steady_def taken_at_def)

lemma shrinks_update:
  assumes "\<And>t. hm_get (tasks srv) tid = Some t \<Longrightarrow> task_address (f t) = task_address t"
    and "\<And>t. hm_get (tasks srv) tid = Some t \<Longrightarrow> subseq (taken queued history (f t)) (taken queued history t)"
  shows "shrinks queued history srv (update_task tid f srv)"
  using assms shrinks_insert by (auto simp: update_task_def split: option.splits)

lemma shrinks_fold:
  "(\<And>x srv. shrinks queued history srv (f x srv)) \<Longrightarrow> shrinks queued history srv (fold f xs srv)"
  by (induction xs arbitrary: srv) (auto intro: shrinks_trans)

text \<open>Operations that leave the tasks alone.\<close>

lemma delivery_frame [simp]:
  "tasks (answer message outcome srv) = tasks srv" "registrations (answer message outcome srv) = registrations srv"
  "actors (answer message outcome srv) = actors srv" "next_task (answer message outcome srv) = next_task srv"
  "tasks (drop_reservation T reservation srv) = tasks srv"
  "registrations (drop_reservation T reservation srv) = registrations srv"
  "actors (drop_reservation T reservation srv) = actors srv"
  "next_task (drop_reservation T reservation srv) = next_task srv"
  by (simp_all add: answer_def drop_reservation_def split: mailbox_message.splits)

lemma shrinks_frame [simp, intro]:
  "shrinks queued history srv (answer message outcome srv)"
  "shrinks queued history srv (drop_reservation T reservation srv)"
  "shrinks queued history srv (drop_route T address srv)" "shrinks queued history srv (remove_route T address generation srv)"
  "shrinks queued history srv (clear_actors T srv)" "shrinks queued history srv (snd (abort_inbound_tasks srv))"
  "shrinks queued history srv (snd (begin_deactivation T a g c srv))"
  by (rule shrinks_steady; auto simp: steady_def answer_def drop_reservation_def drop_route_def remove_route_def
      clear_actors_def abort_inbound_tasks_def begin_deactivation_def split: mailbox_message.splits option.splits if_splits)+

lemma shrinks_terminate [simp, intro]:
  "shrinks queued history (fst st) (fst (terminate_sessions tx a e st))"
  "shrinks queued history (fst st) (fst (terminate_all_sessions tx e st))"
proof -
  obtain srv w where st: "st = (srv, w)" by fastforce
  show "shrinks queued history (fst st) (fst (terminate_sessions tx a e st))"
    by (rule shrinks_tasks) (simp_all add: st terminate_sessions_frame)
  obtain r where "fst (terminate_all_sessions tx e (srv, w)) = srv\<lparr>sessions := r\<rparr>"
    using terminate_all_sessions_frame [of tx e srv w] by blast
  then show "shrinks queued history (fst st) (fst (terminate_all_sessions tx e st))"
    by (intro shrinks_tasks) (simp_all add: st)
qed

text \<open>Operations on one task that keep its Actor and may close its mailbox.\<close>

definition keeps_taken ::
  "('c \<Rightarrow> mailbox_message list) \<Rightarrow> (('a, 'c) actor_task \<Rightarrow> ('a, 'c) actor_task) \<Rightarrow> bool" where
  "keeps_taken queued f \<longleftrightarrow>
     (\<forall>t. task_address (f t) = task_address t \<and> task_actor (f t) = task_actor t
        \<and> queued (mailbox (f t)) = queued (mailbox t))"

lemma shrinks_keeps: "keeps_taken queued f \<Longrightarrow> shrinks queued history srv (update_task tid f srv)"
  by (rule shrinks_update) (simp_all add: keeps_taken_def taken_def)

lemma update_task_same [simp]: "registrations (update_task tid f srv) = registrations srv"
  by (simp add: update_task_def split: option.splits)

context mailbox_tokio
begin

lemma keeps_taken_ops [simp]:
  "keeps_taken queued (\<lambda>t. t\<lparr>mailbox := tk_close T (mailbox t)\<rparr>)"
  "keeps_taken queued (\<lambda>t. t\<lparr>task_completed := c\<rparr>)" "keeps_taken queued (\<lambda>t. t\<lparr>task_aborted := c\<rparr>)"
  "keeps_taken queued (\<lambda>t. t\<lparr>shutdown_changed := c\<rparr>)"
  "keeps_taken queued (\<lambda>t. t\<lparr>shutdown_flag := c, shutdown_changed := d\<rparr>)"
  by (simp_all add: keeps_taken_def close_keeps)

lemma shrinks_entry [intro]:
  "shrinks queued history srv (close_mailbox T tid srv)" "shrinks queued history srv (request_shutdown tid srv)"
  "shrinks queued history srv (abort_task tid srv)" "shrinks queued history srv (task_guard_drop T tid t srv)"
  "shrinks queued history srv (abort_takes_effect T tid srv)"
proof -
  show "shrinks queued history srv (close_mailbox T tid srv)" "shrinks queued history srv (request_shutdown tid srv)"
    "shrinks queued history srv (abort_task tid srv)"
    by (simp_all add: close_mailbox_def request_shutdown_def abort_task_def shrinks_keeps)
  show guard: "shrinks queued history srv (task_guard_drop T tid t srv)" for t
    unfolding task_guard_drop_def
    by (rule shrinks_trans [OF shrinks_trans [OF shrinks_frame(4) shrinks_keeps] shrinks_keeps]) simp_all
  show "shrinks queued history srv (abort_takes_effect T tid srv)"
    by (auto simp: abort_takes_effect_def guard split: option.splits)
qed

lemma try_send_queued: "subseq (queued (snd (tk_try_send T c m))) (queued c @ [m])"
proof (cases "fst (tk_try_send T c m) = Sent")
  case True
  then show ?thesis by (simp add: try_send_SentD)
next
  case False
  then show ?thesis by (simp add: try_send_not_sent subseq_rev_drop_many)
qed

lemma taken_send:
  "subseq (taken queued history (t\<lparr>mailbox := snd (tk_try_send T (mailbox t) m)\<rparr>))
     (taken queued history t @ map (Pair (task_address t)) (action_of m))"
proof -
  have "subseq (actions_of (queued (snd (tk_try_send T (mailbox t) m)))) (actions_of (queued (mailbox t)) @ action_of m)"
    using subseq_actions_of [OF try_send_queued] by simp
  from subseq_map [OF this, of "Pair (task_address t)"] show ?thesis by (simp add: taken_def subseq_append')
qed

text \<open>A message into the mailbox of a task.\<close>

lemma mailbox_send_accepts:
  assumes "hm_get (tasks srv) tid = Some t" and "mailbox_try_send T t tid m srv = (r, srv')"
  shows "accepts queued history (map (Pair (task_address t)) (action_of m)) srv srv'"
    and "r \<noteq> Sent \<Longrightarrow> shrinks queued history srv srv'"
proof -
  have srv': "srv' = srv\<lparr>tasks := hm_insert tid (t\<lparr>mailbox := snd (tk_try_send T (mailbox t) m)\<rparr>) (tasks srv)\<rparr>"
    and r: "r = fst (tk_try_send T (mailbox t) m)"
    using assms(2) by (simp_all add: mailbox_try_send_def split: prod.splits)
  have "steady srv srv'" using assms(1) by (simp add: srv' steady_def)
  then show "accepts queued history (map (Pair (task_address t)) (action_of m)) srv srv'"
    using assms(1) taken_send [of history t m] by (intro acceptsI [where k = tid]) (simp_all add: srv' taken_at_def steady_routed)
  show "shrinks queued history srv srv'" if "r \<noteq> Sent"
    using that r assms(1) by (auto simp: srv' shrinks_def steady_def taken_at_def try_send_not_sent)
qed

text \<open>A message out of it.\<close>

lemma try_recv_queued:
  "tk_try_recv T c = (Some m, c') \<Longrightarrow> queued c = m # queued c'" "tk_try_recv T c = (None, c') \<Longrightarrow> queued c = []"
  using try_recv_empty [of c] try_recv_cons [of c] by (cases "queued c"; force)+

lemma receive_SomeE:
  assumes "receive T tid srv = (Some (m, t'), srv')"
  obtains t c where "hm_get (tasks srv) tid = Some t" and "t' = t\<lparr>mailbox := c\<rparr>" and "queued (mailbox t) = m # queued c"
    and "srv' = srv\<lparr>tasks := hm_insert tid t' (tasks srv)\<rparr>"
  using assms by (auto simp: receive_def Let_def split: option.splits prod.splits dest!: try_recv_queued)

lemma receive_None: "receive T tid srv = (None, srv') \<Longrightarrow> srv' = srv"
  by (auto simp: receive_def Let_def split: option.splits prod.splits)

lemma receive_shrinks:
  assumes "receive T tid srv = (x, srv')"
  shows "shrinks queued history srv srv'"
proof (cases x)
  case (Some mt)
  then obtain m t' where "receive T tid srv = (Some (m, t'), srv')" using assms by (cases mt) simp
  then obtain t c where t: "hm_get (tasks srv) tid = Some t" "t' = t\<lparr>mailbox := c\<rparr>" "queued (mailbox t) = m # queued c"
      "srv' = srv\<lparr>tasks := hm_insert tid t' (tasks srv)\<rparr>"
    by (rule receive_SomeE)
  then show ?thesis using shrinks_insert [OF t(1)] by (simp add: taken_def subseq_append' subseq_drop_many)
qed (use assms receive_None in auto)

lemma fail_pending_shrinks: "shrinks queued history srv (fail_pending n T tid error srv)"
proof (induction n arbitrary: srv)
  case (Suc n)
  obtain x srv' where r: "receive T tid srv = (x, srv')" by fastforce
  note s = receive_shrinks [OF r]
  show ?case
  proof (cases x)
    case (Some mt)
    show ?thesis using r Some shrinks_trans [OF s shrinks_trans [OF shrinks_frame(1) Suc.IH]] by (auto split: prod.splits)
  qed (use r s in simp)
qed simp

end

section \<open>Recorded Actors\<close>

text \<open>What \<open>history\<close> gives is empty after construction, grows by each Action handed over, and stays otherwise.\<close>

locale recorded_actors =
  fixes history :: "'a \<Rightarrow> (session_id \<times> bytes) list"
    and regs :: "(string, ('a, 'w) registration) hmap"
  assumes history_created: "hm_get regs n = Some reg \<Longrightarrow> reg_create reg a = Returned x \<Longrightarrow> history x = []"
    and history_activated:
      "hm_get regs n = Some reg \<Longrightarrow> reg_activate reg r a x w = (o1, x', w') \<Longrightarrow> history x' = history x"
    and history_deactivated:
      "hm_get regs n = Some reg \<Longrightarrow> reg_deactivate reg r a reason x w = (o2, x', w') \<Longrightarrow> history x' = history x"
    and history_handled:
      "hm_get regs n = Some reg \<Longrightarrow> reg_handle reg r a sid payload x w = (o3, x', w') \<Longrightarrow>
        history x' = history x @ [(sid, payload)]"
    and history_opened:
      "hm_get regs n = Some reg \<Longrightarrow> reg_session_opened reg r a sid x w = (o4, x', w') \<Longrightarrow> history x' = history x"
    and history_closed:
      "hm_get regs n = Some reg \<Longrightarrow> reg_session_closed reg r a sid x w = (o4, x', w') \<Longrightarrow> history x' = history x"

locale recorded_mailboxes = mailbox_tokio T queued closed + recorded_actors history regs
  for T :: "(mailbox_message, 'c, 's) tokio" and queued :: "'c \<Rightarrow> mailbox_message list" and closed :: "'c \<Rightarrow> bool"
    and history :: "'a \<Rightarrow> (session_id \<times> bytes) list" and regs :: "(string, ('a, 'w) registration) hmap"
begin

abbreviation smaller :: "('a, 'w, 'c, 's) server \<Rightarrow> ('a, 'w, 'c, 's) server \<Rightarrow> bool" where
  "smaller srv srv' \<equiv> shrinks queued history srv srv'"

abbreviation takes :: "addressed_action list \<Rightarrow> ('a, 'w, 'c, 's) server \<Rightarrow> ('a, 'w, 'c, 's) server \<Rightarrow> bool" where
  "takes xs srv srv' \<equiv> accepts queued history xs srv srv'"

text \<open>Dispatch.\<close>

lemma spawned_empty:
  assumes "registrations srv = regs" and "spawn_actor T address generation srv = Some t"
  shows "taken queued history t = []" and "task_address t = address"
proof -
  obtain reg x and cap :: usize where "hm_get regs (actor_type address) = Some reg" "reg_create reg address = Returned x" "cap \<noteq> 0"
    and t: "task_actor t = x" "mailbox t = tk_channel T (unat cap)" "task_address t = address"
    using assms by (fastforce simp: spawn_actor_def split: option.splits caught.splits if_splits)
  then have "history x = []" "queued (tk_channel T (unat cap)) = []"
    using history_created channel_new by (auto simp: unat_gt_0)
  then show "taken queued history t = []" "task_address t = address" using t by (simp_all add: taken_def)
qed

lemma activate_route_takes:
  assumes "registrations srv = regs" and "activate_route T address m reservation srv = (x, srv')"
  shows "takes (map (Pair address) (action_of m)) srv srv'"
proof (cases "if reservation then Some (capacity srv) else tk_try_acquire T (capacity srv)")
  case None
  then show ?thesis
    using assms(2) by (auto simp: activate_route_def fail_message_def intro!: shrinks_accepts shrinks_tasks)
next
  case (Some cap)
  define srv1 where "srv1 = srv\<lparr>capacity := cap, next_generation := next_generation srv + 1, next_task := Suc (next_task srv)\<rparr>"
  have reg1: "registrations srv1 = regs" using assms(1) by (simp add: srv1_def)
  show ?thesis
  proof (cases "spawn_actor T address (next_generation srv) srv1")
    case None
    then have "srv' = srv1\<lparr>capacity := tk_release T cap\<rparr>"
      using assms(2) Some by (simp add: activate_route_def Let_def srv1_def)
    then show ?thesis by (auto simp: srv1_def intro!: shrinks_accepts shrinks_tasks)
  next
    case (Some t)
    note spawned = spawned_empty [OF reg1 Some]
    have tasks': "tasks srv' = hm_insert (next_task srv) (t\<lparr>mailbox := snd (tk_try_send T (mailbox t) m)\<rparr>) (tasks srv)"
      and regs': "registrations srv' = registrations srv" and next': "next_task srv' = Suc (next_task srv)"
      and actors': "actors srv' = hm_insert address \<lparr>rt_generation = next_generation srv, rt_state = Active,
          rt_task = next_task srv\<rparr> (actors srv)"
      using assms(2) \<open>_ = Some cap\<close> Some
      by (auto simp: activate_route_def Let_def srv1_def split: prod.splits)
    have "subseq (taken queued history (t\<lparr>mailbox := snd (tk_try_send T (mailbox t) m)\<rparr>)) (map (Pair address) (action_of m))"
      using taken_send [of history t m] spawned by simp
    moreover have "routed srv'" if "routed srv"
      using that spawned(2) by (fastforce simp: routed_def tasks' actors' next' split: if_splits)
    ultimately show ?thesis
      by (intro acceptsI [where k = "next_task srv"] regs') (auto simp: taken_at_def tasks' intro: subseq_drop_many)
  qed
qed

lemma dispatch_commit_takes:
  assumes "registrations srv = regs" and "routed srv" and "dispatch_commit T address m reservation srv = (x, srv')"
  shows "takes (map (Pair address) (action_of m)) srv srv'"
proof -
  have afresh: "takes (map (Pair address) (action_of m)) srv srv'"
    if "activate_route T address m reservation (drop_route T address srv1) = (x, srv')" "smaller srv srv1" for srv1
  proof -
    have "smaller srv (drop_route T address srv1)" using shrinks_trans [OF that(2) shrinks_frame(3)] .
    moreover from shrinksD(1) [OF this] have "registrations (drop_route T address srv1) = regs" using assms(1) by simp
    ultimately show ?thesis using shrinks_then_accepts activate_route_takes that(1) by blast
  qed
  show ?thesis
  proof (cases "hm_get (actors srv) address")
    case None
    then show ?thesis using activate_route_takes [OF assms(1)] assms(3) by (simp add: dispatch_commit_def)
  next
    case (Some route)
    show ?thesis
    proof (cases "rt_state route = Active \<and> hm_get (tasks srv) (rt_task route) \<noteq> None")
      case False
      then show ?thesis
        using assms(3) Some afresh [OF _ shrinks_refl]
        by (auto simp: dispatch_commit_def shrinks_accepts split: route_state.splits option.splits)
    next
      case True
      then obtain t where t: "hm_get (tasks srv) (rt_task route) = Some t" by auto
      obtain r srv1 where d: "mailbox_try_send T t (rt_task route) m srv = (r, srv1)" by fastforce
      have address: "task_address t = address" using assms(2) Some t unfolding routed_def by blast
      note sent = mailbox_send_accepts [OF t d, unfolded address]
      show ?thesis
      proof (cases r)
        case Sent
        then have "srv' = drop_reservation T reservation srv1" using assms(3) Some True t d by (simp add: dispatch_commit_def)
        then show ?thesis using accepts_shrinks [OF sent(1)] by simp
      next
        case (SendFull returned)
        then have "srv' = drop_reservation T reservation (answer returned (Err MailboxFull) srv1)"
          using assms(3) Some True t d by (simp add: dispatch_commit_def)
        then show ?thesis
          using accepts_shrinks [OF sent(1)] shrinks_trans [OF shrinks_frame(1) shrinks_frame(2)] by blast
      next
        case (SendClosed returned)
        then have "fst (tk_try_send T (mailbox t) m) = SendClosed returned"
          using d by (simp add: mailbox_try_send_def split: prod.splits)
        then have "returned = m" by (simp add: try_send_SendClosed_iff)
        then show ?thesis
          using assms(3) Some True t d SendClosed afresh [OF _ sent(2)] by (simp add: dispatch_commit_def)
      qed
    qed
  qed
qed

lemma dispatch_message_takes:
  assumes "registrations srv = regs" and "routed srv" and "dispatch_message T now address m reservation srv = (x, srv')"
  shows "takes (map (Pair address) (action_of m)) srv srv'"
  using assms dispatch_commit_takes by (auto simp: dispatch_message_def shrinks_accepts split: option.splits)

lemma dispatch_if_active_smaller:
  assumes "action_of m = []"
  shows "smaller srv (snd (dispatch_message_if_active T address m srv))"
proof -
  have "smaller srv srv1" if "hm_get (tasks srv) tid = Some t" "mailbox_try_send T t tid m srv = (r, srv1)" for tid t r srv1
  proof -
    have "subseq (taken queued history (t\<lparr>mailbox := snd (tk_try_send T (mailbox t) m)\<rparr>)) (taken queued history t)"
      using taken_send [of history t m] assms by simp
    then show ?thesis
      using that(2) shrinks_insert [OF that(1)] by (auto simp: mailbox_try_send_def split: prod.splits)
  qed
  then show ?thesis
    by (auto simp: dispatch_message_if_active_def split: option.splits route_state.splits prod.splits)
qed

lemma sessions_smaller [simp]: "smaller srv (srv\<lparr>sessions := r\<rparr>)" "smaller (srv\<lparr>sessions := r\<rparr>) srv"
  by (rule shrinks_tasks; simp)+

lemma close_local_session_smaller: "smaller srv (close_local_session T a sid srv)"
proof -
  obtain removed r where u: "unregister_actor (sessions srv) a sid = (removed, r)" by fastforce
  have "smaller srv (snd (dispatch_message_if_active T a (SessionClosed sid) (srv\<lparr>sessions := r\<rparr>)))"
    by (rule shrinks_trans [OF sessions_smaller(1) dispatch_if_active_smaller]) simp
  then show ?thesis by (simp add: close_local_session_def u Let_def)
qed

text \<open>Envelopes.\<close>

lemma open_begin_smaller:
  assumes "registrations srv = regs" and "routed srv"
    and "open_local_session_begin T now a sid snk c reservation srv = (p, srv')"
  shows "takes [] srv srv'"
proof (cases "hm_get (registrations srv) (actor_type a) = None")
  case True
  then show ?thesis using assms(3) by (auto simp: open_local_session_begin_def shrinks_accepts)
next
  case False
  obtain fresh r where reg: "register_actor (sessions srv) a sid snk = (fresh, r)" by fastforce
  obtain x srv1 where d: "dispatch_message T now a (SessionOpened sid c) reservation (srv\<lparr>sessions := r\<rparr>) = (x, srv1)"
    by fastforce
  have "routed (srv\<lparr>sessions := r\<rparr>)" using assms(2) by (simp add: routed_def)
  then have "takes [] srv srv1"
    using shrinks_then_accepts [OF sessions_smaller(1) dispatch_message_takes [OF _ _ d]] assms(1) by simp
  then have "takes [] srv (srv1\<lparr>sessions := r'\<rparr>)" "takes [] srv srv1" for r'
    using accepts_shrinks sessions_smaller(1) by blast+
  moreover have "takes [] srv (drop_reservation T reservation (srv\<lparr>sessions := r\<rparr>))"
    by (rule shrinks_accepts [OF shrinks_trans [OF sessions_smaller(1) shrinks_frame(2)]])
  ultimately show ?thesis
    using assms(3) False reg d
    by (auto simp: open_local_session_begin_def split: bool.splits option.splits sum.splits)
qed

lemma capacity_smaller [simp]: "smaller srv (srv\<lparr>capacity := cap\<rparr>)"
  by (rule shrinks_tasks) simp_all

lemma inbound_opening_smaller:
  assumes "registrations srv = regs" and "routed srv"
    and "inbound_opening tx reply raw a sid c (open_local_session_begin T now a sid snk c reservation srv) w = (q, srv', w')"
  shows "takes [] srv srv'"
  using assms(3) open_begin_smaller [OF assms(1,2)]
  by (auto simp: inbound_opening_def split: open_progress.splits prod.splits)

lemma inbound_open_smaller:
  assumes "registrations srv = regs" and "routed srv"
    and "inbound_session_open T S tx now v reply raw a sid c srv w = (p, srv', w')"
  shows "takes [] srv srv'"
proof -
  have cap: "takes [] srv srv'" if "inbound_opening tx reply raw a sid c
      (open_local_session_begin T now a sid snk c reservation (srv\<lparr>capacity := cp\<rparr>)) w1 = (p, srv', w')" for snk reservation cp w1
    using shrinks_then_accepts [OF capacity_smaller inbound_opening_smaller [OF _ _ that]] assms(1,2)
    by (simp add: routed_def)
  show ?thesis
    using assms(3) cap inbound_opening_smaller [OF assms(1,2)]
    by (auto simp: inbound_session_open_def Let_def shrinks_accepts
        split: if_splits option.splits prod.splits sum.splits resolved_owner.splits)
qed

lemma dispatch_inbound_takes:
  assumes "registrations srv = regs" and "routed srv"
    and "dispatch_inbound T S tx now c env reply srv w = (p, srv', w')"
  shows "takes (received_action env) srv srv'"
proof (cases "\<exists>k sid a. env_kind env = Some k \<and> SessionId_from_bytes (env_session_id env) = Some sid
      \<and> actor_address_from_envelope (env_actor_type env) (env_actor_id env) = Some a")
  case False
  then have "srv' = srv" using assms(3) by (auto simp: dispatch_inbound_def split: option.splits)
  then show ?thesis by (simp add: shrinks_accepts)
next
  case True
  then obtain k sid a where parsed: "env_kind env = Some k" "SessionId_from_bytes (env_session_id env) = Some sid"
    "actor_address_from_envelope (env_actor_type env) (env_actor_id env) = Some a" by blast
  show ?thesis
  proof (cases k)
    case (Kind_Action payload)
    then have "received_action env = [(a, sid, payload)]" by (simp add: received_action_def parsed)
    moreover have "takes [(a, sid, payload)] srv srv1" if "dispatch_remote_message T now a sid (Some payload) srv = (x, srv1)" for x srv1
      using that dispatch_message_takes [OF assms(1,2), of now a "Action sid payload" False]
      by (auto simp: dispatch_remote_message_def shrinks_accepts split: if_splits)
    ultimately show ?thesis
      using assms(3) Kind_Action parsed
      by (auto simp: dispatch_inbound_def Let_def shrinks_accepts split: if_splits prod.splits option.splits sum.splits)
  next
    case Kind_SessionOpen
    then have "takes [] srv srv'" "received_action env = []"
      using inbound_open_smaller [OF assms(1,2)] assms(3) parsed
      by (auto simp: dispatch_inbound_def Let_def received_action_def)
    then show ?thesis by simp
  next
    case (Kind_SessionClose x)
    then show ?thesis
      using assms(3) parsed close_local_session_smaller
      by (auto simp: dispatch_inbound_def Let_def shrinks_accepts split: if_splits)
  qed (use assms(3) parsed in \<open>auto simp: dispatch_inbound_def shrinks_accepts\<close>)
qed

text \<open>The Actor task: reading a message and handing it over moves it from the mailbox into the history.\<close>

lemma set_actor_smaller:
  assumes "\<And>t. hm_get (tasks srv) tid = Some t \<Longrightarrow> history x = history (task_actor t)"
  shows "smaller srv (set_actor tid x srv)"
  unfolding set_actor_def by (rule shrinks_update) (use assms in \<open>simp_all add: taken_def\<close>)

lemma execute_effect:
  assumes "hm_get regs n = Some reg" and "execute_message reg tid t m (srv, w) = (b, srv', w')"
  obtains x out where "history x = history (task_actor t) @ action_of m" and "srv' = answer m out (set_actor tid x srv)"
proof (cases m)
  case (Action sid payload)
  obtain o1 x w1 where c: "reg_handle reg (sessions srv) (task_address t) sid payload (task_actor t) w = (o1, x, w1)"
    by (metis prod_cases3)
  then have "srv' = answer m (Ok ()) (set_actor tid x srv)"
    using assms(2) Action by (simp add: execute_message_def answer_def)
  then show ?thesis using that history_handled [OF assms(1) c] Action by simp
next
  case (SessionOpened sid complete)
  obtain o1 x w1 where c: "reg_session_opened reg (sessions srv) (task_address t) sid (task_actor t) w = (o1, x, w1)"
    by (metis prod_cases3)
  then have "\<exists>out. srv' = answer m out (set_actor tid x srv)"
    using assms(2) SessionOpened by (cases o1) (auto simp: execute_message_def)
  then show ?thesis using that history_opened [OF assms(1) c] SessionOpened by auto
next
  case (SessionClosed sid)
  obtain o1 x w1 where c: "reg_session_closed reg (sessions srv) (task_address t) sid (task_actor t) w = (o1, x, w1)"
    by (metis prod_cases3)
  then have "srv' = answer m (Ok ()) (set_actor tid x srv)"
    using assms(2) SessionClosed by (cases o1) (simp_all add: execute_message_def answer_def)
  then show ?thesis using that history_closed [OF assms(1) c] SessionClosed by simp
qed

lemma receive_execute_smaller:
  assumes "hm_get regs n = Some reg" and "receive T tid srv = (Some (m, t'), srv1)"
    and "execute_message reg tid t' m (srv1, w) = (b, srv2, w2)"
  shows "smaller srv srv2"
proof -
  obtain t c where t: "hm_get (tasks srv) tid = Some t" "t' = t\<lparr>mailbox := c\<rparr>" "queued (mailbox t) = m # queued c"
      "srv1 = srv\<lparr>tasks := hm_insert tid t' (tasks srv)\<rparr>"
    by (rule receive_SomeE [OF assms(2)])
  obtain x out where x: "history x = history (task_actor t) @ action_of m"
    and srv2: "srv2 = answer m out (set_actor tid x srv1)"
    using execute_effect [OF assms(1,3)] t(2) by auto
  have "set_actor tid x srv1 = srv\<lparr>tasks := hm_insert tid (t'\<lparr>task_actor := x\<rparr>) (hm_insert tid t' (tasks srv))\<rparr>"
    by (simp add: set_actor_def update_task_def t(4))
  moreover have "subseq (taken queued history (t'\<lparr>task_actor := x\<rparr>)) (taken queued history t)"
    using t(2,3) x by (simp add: taken_def)
  ultimately have "smaller srv (set_actor tid x srv1)"
    using t(1,2) by (auto simp: shrinks_def steady_def taken_at_def)
  then show ?thesis using srv2 shrinks_trans [OF _ shrinks_frame(1)] by blast
qed

lemma drain_smaller:
  assumes "hm_get regs n = Some reg"
  shows "drain k T reg tid (srv, w) = (b, srv', w') \<Longrightarrow> smaller srv srv'"
proof (induction k arbitrary: srv w)
  case (Suc k)
  obtain x srv1 where r: "receive T tid srv = (x, srv1)" by fastforce
  show ?case
  proof (cases x)
    case None
    then show ?thesis using Suc.prems r receive_shrinks [OF r] by simp
  next
    case (Some mt)
    obtain m t where mt: "mt = (m, t)" by fastforce
    obtain c srv2 w2 where e: "execute_message reg tid t m (srv1, w) = (c, srv2, w2)" by (metis prod_cases3)
    have "smaller srv srv2" using receive_execute_smaller [OF assms _ e] r Some mt by simp
    then show ?thesis using Suc.IH [of srv2 w2] Suc.prems r Some mt e shrinks_trans by (cases c) auto
  qed
qed simp

lemma run_deactivate_smaller:
  assumes "hm_get regs n = Some reg"
  shows "smaller (fst st) (fst (run_deactivate reg reason tid a st))"
proof -
  obtain srv w where st: "st = (srv, w)" by fastforce
  show ?thesis
    using history_deactivated [OF assms]
    by (auto simp: st run_deactivate_def split: option.splits prod.splits intro!: set_actor_smaller)
qed

lemma message_failed_smaller: "smaller (fst st) (fst (message_failed T tx tid t st))"
proof -
  obtain srv w where e: "terminate_sessions tx (task_address t) ActorStopped st = (srv, w)" by fastforce
  have "smaller (fst st) srv" using shrinks_terminate(1) e by (metis fst_conv)
  then show ?thesis using shrinks_trans [OF _ shrinks_entry(4)] e by (simp add: message_failed_def)
qed

lemma activation_failed_smaller: "smaller (fst st) (fst (activation_failed T tx tid t e st))"
proof -
  obtain srv w where st: "st = (srv, w)" by fastforce
  define srv3 where "srv3 = fail_pending (tk_max_capacity T (mailbox t)) T tid e
      (remove_route T (task_address t) (task_generation t) (close_mailbox T tid srv))"
  obtain srv4 w4 where d: "terminate_sessions tx (task_address t) e (srv3, w) = (srv4, w4)" by fastforce
  have "smaller srv srv3"
    unfolding srv3_def by (rule shrinks_trans [OF shrinks_trans [OF shrinks_entry(1) shrinks_frame(4)] fail_pending_shrinks])
  also have "smaller srv3 srv4" using shrinks_terminate(1) d by (metis fst_conv)
  also have "smaller srv4 (task_guard_drop T tid t srv4)" by (rule shrinks_entry(4))
  finally show ?thesis using d by (simp add: activation_failed_def st Let_def srv3_def)
qed

lemma activation_smaller:
  assumes "hm_get regs n = Some reg" and "hm_get (tasks srv) tid = Some t"
    and "activation T tx reg tid t (srv, w) = (p, st')"
  shows "smaller srv (fst st')"
proof -
  obtain out x w1 where c: "reg_activate reg (sessions srv) (task_address t) (task_actor t) w = (out, x, w1)"
    by (metis prod_cases3)
  have s: "smaller srv (set_actor tid x srv)"
    by (rule set_actor_smaller) (use history_activated [OF assms(1) c] assms(2) in simp)
  have f: "smaller srv (fst (activation_failed T tx tid t e (set_actor tid x srv, w1)))" for e
    using shrinks_trans [OF s] activation_failed_smaller by (metis fst_conv)
  show ?thesis
    using assms(3) c s f by (auto simp: activation_def Let_def split: caught.splits sum.splits)
qed

lemma shutdown_drain_smaller:
  assumes "hm_get regs n = Some reg"
  shows "smaller (fst st) (fst (shutdown_drain T tx reg tid t st))"
proof -
  obtain srv w where st: "st = (srv, w)" by fastforce
  obtain b srv1 w1 where d: "drain (tk_max_capacity T (mailbox t)) T reg tid (close_mailbox T tid srv, w) = (b, srv1, w1)"
    by (metis prod_cases3)
  have s1: "smaller srv srv1" by (rule shrinks_trans [OF shrinks_entry(1) drain_smaller [OF assms d]])
  obtain srv2 w2 where e: "run_deactivate reg Shutdown tid (task_address t)
      (terminate_sessions tx (task_address t) RuntimeShuttingDown (srv1, w1)) = (srv2, w2)" by fastforce
  have "smaller srv1 srv2"
    using shrinks_trans [OF shrinks_terminate(1) run_deactivate_smaller [OF assms]] e by (metis fst_conv)
  then have "smaller srv (task_guard_drop T tid t (remove_route T (task_address t) (task_generation t) srv2))"
    using shrinks_trans [OF s1 shrinks_trans [OF _ shrinks_trans [OF shrinks_frame(4) shrinks_entry(4)]]] by blast
  moreover have "smaller srv (fst (message_failed T tx tid t (srv1, w1)))"
    using shrinks_trans [OF s1] message_failed_smaller by (metis fst_conv)
  ultimately show ?thesis using d e by (cases b) (simp_all add: shutdown_drain_def st)
qed

lemma idle_elapsed_smaller:
  assumes "hm_get regs n = Some reg" and "idle_elapsed T S reg tid t (srv, w) = (p, st')"
  shows "smaller srv (fst st')"
proof -
  obtain b srv1 where d: "begin_deactivation T (task_address t) (task_generation t) (mailbox t) srv = (b, srv1)" by fastforce
  have s1: "smaller srv srv1" using shrinks_frame(7) d by (metis snd_conv)
  obtain srv2 w2 where e: "run_deactivate reg Idle tid (task_address t) (srv1, w) = (srv2, w2)" by fastforce
  have "smaller srv1 srv2" using run_deactivate_smaller [OF assms(1)] e by (metis fst_conv)
  then have "smaller srv (task_guard_drop T tid t (remove_route T (task_address t) (task_generation t) srv2))"
    using shrinks_trans [OF s1 shrinks_trans [OF _ shrinks_trans [OF shrinks_frame(4) shrinks_entry(4)]]] by blast
  then show ?thesis
    using assms(2) d e s1 by (cases b) (auto simp: idle_elapsed_def Let_def split: if_splits)
qed

lemma serve_once_smaller:
  assumes "hm_get regs n = Some reg" and "serve_once T S tx reg tid t (srv, w) = (p, st')"
  shows "smaller srv (fst st')"
proof (cases "shutdown_changed t")
  case True
  have "smaller srv (update_task tid (\<lambda>t. t\<lparr>shutdown_changed := False\<rparr>) srv)" by (rule shrinks_keeps) simp
  then show ?thesis
    using assms(2) True shrinks_trans [OF _ shutdown_drain_smaller [OF assms(1), of "(update_task tid (\<lambda>t. t\<lparr>shutdown_changed := False\<rparr>) srv, w)"]]
    by (auto simp: serve_once_def Let_def split: if_splits)
next
  case False
  obtain x srv1 where r: "receive T tid srv = (x, srv1)" by fastforce
  show ?thesis
  proof (cases x)
    case None
    have "srv1 = srv" using receive_None r None by blast
    moreover have "smaller srv (task_guard_drop T tid t (remove_route T (task_address t) (task_generation t) srv))"
      by (rule shrinks_trans [OF shrinks_frame(4) shrinks_entry(4)])
    ultimately show ?thesis
      using assms(2) False r None idle_elapsed_smaller [OF assms(1), of S tid t srv w]
      by (auto simp: serve_once_def split: if_splits)
  next
    case (Some mt)
    obtain m t' where mt: "mt = (m, t')" by fastforce
    obtain b srv2 w2 where e: "execute_message reg tid t' m (srv1, w) = (b, srv2, w2)" by (metis prod_cases3)
    have "smaller srv srv2" using receive_execute_smaller [OF assms(1) _ e] r Some mt by simp
    moreover from this have "smaller srv (fst (message_failed T tx tid t (srv2, w2)))"
      using shrinks_trans message_failed_smaller by (metis fst_conv)
    ultimately show ?thesis
      using assms(2) False r Some mt e by (cases b) (auto simp: serve_once_def split: if_splits)
  qed
qed

lemma shutdown_finish_smaller: "smaller srv (fst (snd (shutdown_finish T tx timed_out tids (srv, w))))"
proof -
  define srv1 where "srv1 = (if timed_out then clear_actors T (fold abort_task tids srv) else srv)"
  obtain srv2 w2 where t: "terminate_all_sessions tx RuntimeShuttingDown (srv1, w) = (srv2, w2)" by fastforce
  have "smaller srv srv1"
    unfolding srv1_def
    by (cases timed_out) (auto intro: shrinks_trans [OF shrinks_fold [where f = abort_task, OF shrinks_entry(3)] shrinks_frame(5)])
  also have "smaller srv1 srv2" using shrinks_terminate(2) t by (metis fst_conv)
  also have "smaller srv2 (snd (abort_inbound_tasks srv2))" by (rule shrinks_frame(6))
  also have "smaller (snd (abort_inbound_tasks srv2)) (snd (abort_inbound_tasks srv2)\<lparr>status := STOPPED\<rparr>)"
    by (rule shrinks_tasks) simp_all
  finally show ?thesis using t by (auto simp: shutdown_finish_def srv1_def Let_def)
qed

lemma internal_step_smaller:
  assumes "internal_step T S tx st st'" and "registrations (fst st) = regs"
  shows "smaller (fst st) (fst st')
    \<or> (\<exists>reply raw a sid c now snk reservation p.
         inbound_opening tx reply raw a sid c
           (open_local_session_begin T now a sid snk c reservation (fst st)) (snd st) = (p, st'))"
proof (cases "\<exists>reply raw a sid c now snk reservation p.
         inbound_opening tx reply raw a sid c
           (open_local_session_begin T now a sid snk c reservation (fst st)) (snd st) = (p, st')")
  case True
  then show ?thesis by blast
next
  case opens: False
  have "smaller (fst st) (fst st')"
    using assms
  proof (cases rule: internal_step.cases)
    case (opened srv w reply a sid received)
    then show ?thesis
      by (auto simp: inbound_opened_def open_local_session_finish_def Let_def split: option.splits sum.splits)
  next
    case (stream_end srv w sender)
    then show ?thesis
      using close_local_session_smaller
      by (auto simp: close_sessions_for_sender_def split_beta intro!: shrinks_fold)
  next
    case (activate srv tid t reg w p)
    then show ?thesis using activation_smaller assms(2) by (auto simp: task_registration_def)
  next
    case (serve srv tid t reg w p)
    then show ?thesis using serve_once_smaller assms(2) by (auto simp: task_registration_def)
  next
    case (aborted srv w tid)
    then show ?thesis by (simp add: shrinks_entry(5))
  next
    case (shutdown_begins srv tids srv' w)
    have "smaller srv (srv\<lparr>status := SHUTTING_DOWN\<rparr>)" by (rule shrinks_tasks) simp_all
    from shrinks_trans [OF this shrinks_fold [OF shrinks_entry(2)]] show ?thesis
      using shutdown_begins by (auto simp: shutdown_begin_def split: if_splits)
  next
    case (shutdown_ends timed_out tids srv w res)
    then show ?thesis using shutdown_finish_smaller [of srv tx timed_out tids w] by (metis fst_conv snd_conv)
  next
    case (fence_begins srv tids srv' w)
    have "smaller srv (srv\<lparr>status := FENCED\<rparr>)" by (rule shrinks_tasks) simp_all
    from shrinks_trans [OF this shrinks_fold [OF shrinks_entry(3)]] show ?thesis
      using fence_begins by (auto simp: fence_begin_def)
  next
    case (fence_ends srv w)
    obtain srv2 w2 where t: "terminate_all_sessions tx NodeFenced (clear_actors T srv, w) = (srv2, w2)" by fastforce
    have "smaller (clear_actors T srv) srv2" using shrinks_terminate(2) t by (metis fst_conv)
    then have "smaller srv (snd (abort_inbound_tasks srv2))"
      using shrinks_trans [OF shrinks_frame(5) shrinks_trans [OF _ shrinks_frame(6)]] by blast
    then show ?thesis using fence_ends t by (simp add: fence_finish_def)
  next
    case (resolved reply raw a sid c now snk reservation srv w p srv' w')
    then show ?thesis using opens by auto
  next
    case (clears srv w tids)
    have "smaller srv (clear_actors T (fold abort_task tids srv))"
      by (rule shrinks_trans [OF shrinks_fold [OF shrinks_entry(3)] shrinks_frame(5)])
    then show ?thesis using clears by simp
  next
    case (terminates srv w a error)
    then show ?thesis by (auto simp: terminate_sessions_frame intro!: shrinks_tasks)
  next
    case (stops srv w)
    then show ?thesis by (auto intro: shrinks_tasks)
  next
    case (elsewhere srv w au it cap w')
    then show ?thesis by (auto intro: shrinks_tasks)
  qed
  then show ?thesis by blast
qed

lemma internal_step_takes:
  assumes "internal_step T S tx st st'" and "registrations (fst st) = regs" and "routed (fst st)"
  shows "takes [] (fst st) (fst st')"
  using internal_step_smaller [OF assms(1,2)] inbound_opening_smaller [OF assms(2,3)]
  by (metis prod.collapse shrinks_accepts)

end

section \<open>Runs\<close>

text \<open>A run of the handlers, with the envelopes that arrived in it and their senders.\<close>

inductive handler_run ::
  "(mailbox_message, 'c, 's) tokio \<Rightarrow> 'w coordination_store \<Rightarrow> 'w transport \<Rightarrow> ('a, 'w, 'c, 's) task_state
     \<Rightarrow> (sender_id option \<times> envelope) list \<Rightarrow> ('a, 'w, 'c, 's) task_state \<Rightarrow> bool" for T S tx st where
  start: "handler_run T S tx st [] st"
| arrives: "handler_run T S tx st rs (srv, w) \<Longrightarrow>
     dispatch_inbound T S tx now complete env reply srv w = (p, srv', w') \<Longrightarrow>
     handler_run T S tx st (rs @ [(reply, env)]) (srv', w')"
| internally: "handler_run T S tx st rs st' \<Longrightarrow> internal_step T S tx st' st'' \<Longrightarrow> handler_run T S tx st rs st''"

definition received_actions :: "(sender_id option \<times> envelope) list \<Rightarrow> addressed_action list" where
  "received_actions rs = concat (map (\<lambda>(_, env). received_action env) rs)"

lemma received_actions_simps [simp]:
  "received_actions [] = []" "received_actions (rs @ [(reply, env)]) = received_actions rs @ received_action env"
  by (simp_all add: received_actions_def)

lemma count_subseq: "subseq xs ys \<Longrightarrow> count_list xs a \<le> count_list ys a"
  by (induction rule: list_emb.induct) auto

lemma sum_accepted:
  assumes "\<And>k. f' k \<le> f k + (if k = j then n else (0::nat))" and "finite K"
  shows "sum f' K \<le> sum f K + n"
proof -
  have "sum f' K \<le> sum (\<lambda>k. f k + (if k = j then n else 0)) K" by (rule sum_mono) (rule assms(1))
  also have "\<dots> = sum f K + (if j \<in> K then n else 0)" using assms(2) by (simp add: sum.distrib)
  finally show ?thesis by (simp split: if_splits)
qed

context recorded_mailboxes
begin

text \<open>In order for each task, and at most once over all of them.\<close>

definition delivered :: "addressed_action list \<Rightarrow> ('a, 'w, 'c, 's) server \<Rightarrow> bool" where
  "delivered xs srv \<longleftrightarrow>
     registrations srv = regs \<and> routed srv
     \<and> (\<forall>tid. subseq (taken_at queued history srv tid) xs)
     \<and> (\<forall>x K. finite K \<longrightarrow> (\<Sum>tid\<in>K. count_list (taken_at queued history srv tid) x) \<le> count_list xs x)"

lemma delivered_takes:
  assumes "delivered xs srv" and "takes ys srv srv'"
  shows "delivered (xs @ ys) srv'"
proof -
  obtain k where k: "\<And>tid. subseq (taken_at queued history srv' tid)
      (taken_at queued history srv tid @ (if tid = k then ys else []))"
    using acceptsE [OF assms(2)] by metis
  have "subseq (taken_at queued history srv' tid) (xs @ ys)" for tid
  proof (rule subseq_order.trans [OF k])
    show "subseq (taken_at queued history srv tid @ (if tid = k then ys else [])) (xs @ ys)"
      using assms(1) by (intro list_emb_append_mono) (auto simp: delivered_def)
  qed
  moreover have "(\<Sum>tid\<in>K. count_list (taken_at queued history srv' tid) x) \<le> count_list (xs @ ys) x" if "finite K" for x K
  proof -
    have "count_list (taken_at queued history srv' tid) x
        \<le> count_list (taken_at queued history srv tid) x + (if tid = k then count_list ys x else 0)" for tid
      using count_subseq [OF k [of tid], of x] by (auto split: if_splits)
    from sum_accepted [OF this that]
    have "(\<Sum>tid\<in>K. count_list (taken_at queued history srv' tid) x)
        \<le> (\<Sum>tid\<in>K. count_list (taken_at queued history srv tid) x) + count_list ys x" .
    moreover have "(\<Sum>tid\<in>K. count_list (taken_at queued history srv tid) x) \<le> count_list xs x"
      using assms(1) that unfolding delivered_def by blast
    ultimately show ?thesis by simp
  qed
  ultimately show ?thesis
    using acceptsD [OF assms(2)] assms(1) by (simp add: delivered_def)
qed

lemma run_delivered:
  assumes "handler_run T S tx (srv, w) rs st'" and "registrations srv = regs" and "actors srv = hm_empty" and "tasks srv = hm_empty"
  shows "delivered (received_actions rs) (fst st')"
  using assms(1)
proof (induction)
  case start
  show ?case using assms(2-) by (simp add: delivered_def routed_def taken_at_def)
next
  case (arrives rs srv1 w1 now complete env reply p srv' w')
  then show ?case
    using delivered_takes [OF _ dispatch_inbound_takes [OF _ _ arrives.hyps(2)]] by (auto simp: delivered_def [of _ srv1])
next
  case (internally rs st1 st2)
  then have "takes [] (fst st1) (fst st2)"
    using internal_step_takes [OF internally.hyps(2)] by (simp add: delivered_def)
  from delivered_takes [OF internally.IH this] show ?case by simp
qed

end

section \<open>Recording any Server\<close>

text \<open>
  Any registration can be recorded: the Actor is paired with the Actions it was given, which
  nothing else reads.  A Server built from recorded registrations is the recorded Server.
\<close>

definition recording :: "('a, 'w) registration \<Rightarrow> ('a \<times> (session_id \<times> bytes) list, 'w) registration" where
  "recording reg =
     \<lparr>reg_name = reg_name reg,
      reg_create = (\<lambda>a. map_caught (\<lambda>x. (x, [])) (reg_create reg a)),
      reg_activate = (\<lambda>r a (x, h) w. case reg_activate reg r a x w of (out, x', w') \<Rightarrow> (out, (x', h), w')),
      reg_deactivate = (\<lambda>r a reason (x, h) w.
        case reg_deactivate reg r a reason x w of (out, x', w') \<Rightarrow> (out, (x', h), w')),
      reg_handle = (\<lambda>r a sid payload (x, h) w.
        case reg_handle reg r a sid payload x w of (out, x', w') \<Rightarrow> (out, (x', h @ [(sid, payload)]), w')),
      reg_session_opened = (\<lambda>r a sid (x, h) w.
        case reg_session_opened reg r a sid x w of (out, x', w') \<Rightarrow> (out, (x', h), w')),
      reg_session_closed = (\<lambda>r a sid (x, h) w.
        case reg_session_closed reg r a sid x w of (out, x', w') \<Rightarrow> (out, (x', h), w')),
      mailbox_capacity = mailbox_capacity reg, idle_timeout = idle_timeout reg\<rparr>"

definition recording_regs ::
  "(string, ('a, 'w) registration) hmap \<Rightarrow> (string, ('a \<times> (session_id \<times> bytes) list, 'w) registration) hmap" where
  "recording_regs regs = map (\<lambda>(n, reg). (n, recording reg)) regs"

lemma recording_regs_get [simp]: "hm_get (recording_regs regs) n = map_option recording (hm_get regs n)"
  by (induction regs) (auto simp: recording_regs_def)

lemma recording_regs_insert: "recording_regs (hm_insert n reg regs) = hm_insert n (recording reg) (recording_regs regs)"
  by (induction regs) (auto simp: recording_regs_def hm_insert_def)

definition record_builder :: "('a, 'w) builder_core \<Rightarrow> ('a \<times> (session_id \<times> bytes) list, 'w) builder_core" where
  "record_builder b =
     \<lparr>bc_registrations = map recording (bc_registrations b), bc_mailbox_capacity = bc_mailbox_capacity b,
      bc_max_active_actors = bc_max_active_actors b, bc_idle_timeout = bc_idle_timeout b,
      bc_deactivation_timeout = bc_deactivation_timeout b, bc_shutdown_timeout = bc_shutdown_timeout b,
      bc_transport_protocol_version = bc_transport_protocol_version b\<rparr>"

lemma record_builder_registrations:
  "registrations (initial_server T (record_builder b) au cl) = recording_regs (registrations (initial_server T' b au' cl'))"
proof -
  have "recording_regs (fold (\<lambda>r m. hm_insert (reg_name r) (configured b r) m) rs m) =
      fold (\<lambda>r m. hm_insert (reg_name r) (configured (record_builder b) r) m) (map recording rs) (recording_regs m)" for rs m
  proof (induction rs arbitrary: m)
    case (Cons r rs)
    have "recording (configured b r) = configured (record_builder b) (recording r)"
      by (simp add: recording_def configured_def record_builder_def split: option.splits)
    then show ?case using Cons by (simp add: recording_regs_insert recording_def [of r])
  qed simp
  from this [of "bc_registrations b" hm_empty] show ?thesis
    by (simp add: record_builder_def recording_regs_def hm_empty_def)
qed

interpretation recorded: recorded_actors snd "recording_regs regs" for regs
  by unfold_locales (auto simp: recording_def split: prod.splits)

interpretation recorded_bounded: recorded_mailboxes bounded_tokio bc_queue bc_closed snd "recording_regs regs" for regs
  by unfold_locales

text \<open>The delivery of a run, outside the locale.\<close>

lemma handler_run_taken:
  assumes "mailbox_tokio T queued shut" and "recorded_actors history (registrations srv)"
    and "actors srv = hm_empty" and "tasks srv = hm_empty"
    and "handler_run T S tx (srv, w) rs (srv', w')"
  shows "subseq (taken_at queued history srv' tid) (received_actions rs)"
    and "finite K \<Longrightarrow> (\<Sum>tid\<in>K. count_list (taken_at queued history srv' tid) x) \<le> count_list (received_actions rs) x"
proof -
  have loc: "recorded_mailboxes T queued shut history (registrations srv)"
    using assms(1,2) by (simp add: recorded_mailboxes_def)
  have d: "recorded_mailboxes.delivered queued history (registrations srv) (received_actions rs) srv'"
    using recorded_mailboxes.run_delivered [OF loc assms(5) refl assms(3,4)] by simp
  show "subseq (taken_at queued history srv' tid) (received_actions rs)"
    and "finite K \<Longrightarrow> (\<Sum>tid\<in>K. count_list (taken_at queued history srv' tid) x) \<le> count_list (received_actions rs) x"
    using d recorded_mailboxes.delivered_def [OF loc] by blast+
qed

lemma taken_at_task:
  "hm_get (tasks srv) tid = Some t \<Longrightarrow>
   taken_at queued history srv tid = map (Pair (task_address t)) (history (task_actor t) @ actions_of (queued (mailbox t)))"
  by (simp add: taken_at_def taken_def)

section \<open>Properties\<close>

text \<open>
  C11. Actions are delivered at most once and in order.  In any run of a Server's handlers, what an
  Actor has been given, followed by what waits in its mailbox, is a subsequence of the Actions that
  arrived for its address, in the order in which they arrived; and over all Actors of the Server
  together no Action is taken more often than it arrived.
\<close>

theorem actions_at_most_once_in_order:
  assumes "mailbox_tokio T queued shut" and "recorded_actors history (registrations srv)"
    and "actors srv = hm_empty" and "tasks srv = hm_empty"
    and "handler_run T S tx (srv, w) rs (srv', w')"
  shows "(\<forall>tid t. hm_get (tasks srv') tid = Some t \<longrightarrow>
            subseq (map (Pair (task_address t)) (history (task_actor t) @ actions_of (queued (mailbox t))))
              (received_actions rs))
     \<and> (\<forall>x K. finite K \<longrightarrow> (\<Sum>tid\<in>K. count_list (taken_at queued history srv' tid) x) \<le> count_list (received_actions rs) x)"
proof (intro conjI allI impI)
  fix tid t assume "hm_get (tasks srv') tid = Some t"
  then show "subseq (map (Pair (task_address t)) (history (task_actor t) @ actions_of (queued (mailbox t))))
      (received_actions rs)"
    using handler_run_taken(1) [OF assms, of tid] by (simp add: taken_at_task)
qed (rule handler_run_taken(2) [OF assms])

end
