(* ===== verification/Test_Server.thy ===== *)
theory Test_Server
  imports Action_Delivery Transports Server_Start Client_Open
begin

text \<open>
  The test harness of the crate, \<open>TestServer\<close> (\<open>coactor/src/test_support.rs\<close>): a Server without
  coordination, a Client, and the in-memory transport between them.  \<open>start\<close> also spawns the accept
  loop, whose streams are served by \<open>test_stream_task\<close>; unlike the production loop it does nothing
  when a stream ends.

  \<open>network_run\<close> puts the parts together: what Clients do to the in-memory transport, the stream tasks,
  which receive an envelope and dispatch it, and the other handlers of the Server.
\<close>

section \<open>Directory\<close>

definition single_read_node :: "node_record \<Rightarrow> string \<Rightarrow> coordination_error + node_record option" where
  "single_read_node node node_id = Ok (if nr_node_id node = node_id then Some node else None)"

definition single_list_nodes :: "node_record \<Rightarrow> coordination_error + node_record list" where
  "single_list_nodes node = Ok [node]"

definition single_read_actor_owner ::
  "node_record \<Rightarrow> actor_address \<Rightarrow> coordination_error + versioned_actor_owner_record option" where
  "single_read_actor_owner node address = Ok None"

text \<open>As the store of a Client, which calls no other operation.\<close>

definition single_node_store :: "node_record \<Rightarrow> 'w coordination_store \<Rightarrow> 'w coordination_store" where
  "single_node_store node S =
     S\<lparr>cs_read_node := (\<lambda>_ n w. (Done (single_read_node node n), w)),
       cs_list_nodes := (\<lambda>_ w. (Done (single_list_nodes node), w)),
       cs_read_actor_owner := (\<lambda>_ a w. (Done (single_read_actor_owner node a), w))\<rparr>"

section \<open>Builder\<close>

definition test_builder :: "('a, 'w) builder_core" where
  "test_builder = ServerBuilderCore_base"

definition test_actor :: "('a, 'w) registration \<Rightarrow> actor_config \<Rightarrow> ('a, 'w) builder_core \<Rightarrow> ('a, 'w) builder_core" where
  "test_actor A config b = add_actor A config b"

definition test_default_mailbox_capacity :: "usize \<Rightarrow> ('a, 'w) builder_core \<Rightarrow> ('a, 'w) builder_core" where
  "test_default_mailbox_capacity n b = b\<lparr>bc_mailbox_capacity := n\<rparr>"

definition test_max_active_actors :: "usize \<Rightarrow> ('a, 'w) builder_core \<Rightarrow> ('a, 'w) builder_core" where
  "test_max_active_actors n b = b\<lparr>bc_max_active_actors := n\<rparr>"

definition test_default_idle_timeout :: "duration \<Rightarrow> ('a, 'w) builder_core \<Rightarrow> ('a, 'w) builder_core" where
  "test_default_idle_timeout d b = b\<lparr>bc_idle_timeout := d\<rparr>"

definition test_deactivation_timeout :: "duration \<Rightarrow> ('a, 'w) builder_core \<Rightarrow> ('a, 'w) builder_core" where
  "test_deactivation_timeout d b = b\<lparr>bc_deactivation_timeout := d\<rparr>"

definition test_shutdown_timeout :: "duration \<Rightarrow> ('a, 'w) builder_core \<Rightarrow> ('a, 'w) builder_core" where
  "test_shutdown_timeout d b = b\<lparr>bc_shutdown_timeout := d\<rparr>"

section \<open>Start\<close>

record ('a, 'w, 'c, 's, 'p, 'e, 'd, 'n) test_server =
  te_server :: "('a, 'w, 'c, 's) server"
  te_client :: "('p, 'e) client"
  te_registry :: "('n, 'd) inmem_registry"
  te_listener :: nat
  te_directory :: node_record

definition Client_with_transport :: "'p \<Rightarrow> ('p, 'e) client" where
  "Client_with_transport default_placement =
     Client_from_parts DEFAULT_OPEN_TIMEOUT DEFAULT_MAX_OPEN_ATTEMPTS DEFAULT_MAX_CONNECTIONS_PER_ENDPOINT default_placement"

definition test_endpoint :: "u64 \<Rightarrow> string" where
  "test_endpoint n = ''inmem://test-'' @ show_nat (unat n)"

definition test_node :: "string \<Rightarrow> node_session_id \<Rightarrow> u64 \<Rightarrow> node_record" where
  "test_node key session_id now =
     \<lparr>nr_node_id = ''test'', nr_session_id = session_id, nr_advertised_endpoint = key,
      nr_protocol_version = TRANSPORT_PROTOCOL_VERSION, nr_lease_generation = 0, nr_sampled_at_unix_ms = now,
      nr_active_actor_count = 0, nr_max_actor_count = - 1, nr_pressured = False, nr_draining = False\<rparr>"

text \<open>
  \<open>n\<close> is what the endpoint counter gives, \<open>session_id\<close> the UUID drawn and \<open>now\<close> the wall clock; \<open>None\<close>
  is a panic, of the builder or of \<open>expect("in-memory listener")\<close>.
\<close>

definition test_server_start ::
  "(mailbox_message, 'c, 's) tokio \<Rightarrow> (u64, 'd, 'q) tokio \<Rightarrow> 'p \<Rightarrow> u64 \<Rightarrow> node_session_id \<Rightarrow> u64 \<Rightarrow> ('a, 'w) builder_core
     \<Rightarrow> (server_error + ('a, 'w, 'c, 's, 'p, 'e, 'd, 'n) test_server) option" where
  "test_server_start T A default_placement n session_id now core =
     (case builder_validate core of
        Err e \<Rightarrow> Some (Err e)
      | Ok _ \<Rightarrow>
          (let key = test_endpoint n
           in case build_with_authority T core None None of
                None \<Rightarrow> None
              | Some (Err e) \<Rightarrow> Some (Err e)
              | Some (Ok srv) \<Rightarrow>
                  (case inmem_listen A key InmemRegistry_new of
                     (Err _, _) \<Rightarrow> None
                   | (Ok l, r) \<Rightarrow>
                       Some (Ok \<lparr>te_server = srv, te_client = Client_with_transport default_placement,
                                 te_registry = r, te_listener = l, te_directory = test_node key session_id now\<rparr>))))"

fun test_stream_task ::
  "(mailbox_message, 'c, 's) tokio \<Rightarrow> ('a, 'w, 'c, 's) node_env \<Rightarrow> sender_id
     \<Rightarrow> (envelope \<times> oneshot_id \<times> (send_error + unit) option) list \<Rightarrow> ('a, 'w, 'c, 's) task_state
     \<Rightarrow> ('a, 'w, 'c, 's) task_state option" where
  "test_stream_task T E sender [] st = Some st"
| "test_stream_task T E sender (x # xs) st =
     (case inbound_turn T E sender x (ne_other E st) of
        None \<Rightarrow> None
      | Some st' \<Rightarrow> test_stream_task T E sender xs st')"

text \<open>\<open>shutdown\<close> aborts the accept loop, stops the Server and then the Client.\<close>

definition test_server_shutdown ::
  "(mailbox_message, 'c, 's) tokio \<Rightarrow> (session_item, 'e, 'v) tokio \<Rightarrow> ('a, 'w, 'c, 's) node_env \<Rightarrow> (sender_id \<Rightarrow> 'w \<Rightarrow> 'w)
     \<Rightarrow> bool \<Rightarrow> ('a, 'w, 'c, 's) server \<Rightarrow> ('p, 'e) client \<Rightarrow> 'w
     \<Rightarrow> ('a, 'w, 'c, 's) server \<times> ('p, 'e) client \<times> 'w" where
  "test_server_shutdown T U E tx_close timed_out srv cl w =
     (case runtime_shutdown T E timed_out (srv, w) of
        (_, srv', w') \<Rightarrow> (case client_shutdown U tx_close cl w' of (_, cl', w'') \<Rightarrow> (srv', cl', w'')))"

section \<open>Lemmas\<close>

text \<open>Starting panics only where the builder does, fails exactly on an invalid configuration, and
  offers the Client one usable node.\<close>

lemma inmem_listen_new:
  "inmem_listen A key InmemRegistry_new = (Ok 0, snd (inmem_listen A key InmemRegistry_new))"
  by (simp add: inmem_listen_def InmemRegistry_new_def Let_def)

lemma test_server_start_cases:
  "test_server_start T A pl n session_id now core =
     map_option (\<lambda>built. case built of
        Err e \<Rightarrow> Err e
      | Ok srv \<Rightarrow> Ok \<lparr>te_server = srv, te_client = Client_with_transport pl,
          te_registry = snd (inmem_listen A (test_endpoint n) InmemRegistry_new), te_listener = 0,
          te_directory = test_node (test_endpoint n) session_id now\<rparr>)
       (build_with_authority T core None None)"
  by (subst test_server_start_def, subst inmem_listen_new) (auto simp: build_with_authority_def Let_def split: sum.splits)

lemma test_node_candidate: "is_candidate (test_node (test_endpoint n) session_id now)"
  by (simp add: is_candidate_def test_node_def test_endpoint_def word_gt_0)

section \<open>The network\<close>

text \<open>A connection's identity is that of the Server's sender on it.\<close>

definition inmem_tx :: "(envelope, 'n, 'v) tokio \<Rightarrow> ('n, 'd) inmem_registry transport" where
  "inmem_tx N k env r = inmem_try_send N ServerSide (word_of_nat k) env r"

type_synonym ('n, 'd) wire = "('n, 'd) inmem_registry \<times> wire_log \<times> wire_log"

text \<open>What happens to the transport outside the Server's handlers; the logs are those of \<open>inmem_run\<close>.\<close>

inductive wire_step ::
  "(envelope, 'n, 'v) tokio \<Rightarrow> (u64, 'd, 'q) tokio \<Rightarrow> ('n, 'd) wire \<Rightarrow> ('n, 'd) wire \<Rightarrow> bool" for N A where
  listen: "inmem_listen A key r = (x, r') \<Longrightarrow> wire_step N A (r, sent, got) (r', sent, got)"
| stop_listening: "wire_step N A (r, sent, got) (inmem_listener_shutdown key r, sent, got)"
| accept: "inmem_accept A j r = (y, r') \<Longrightarrow> wire_step N A (r, sent, got) (r', sent, got)"
| connect: "hm_get (im_links r) (im_next_connection_id r) = None \<Longrightarrow> inmem_connect N A key r = (z, r') \<Longrightarrow>
     wire_step N A (r, sent, got) (r', sent, got)"
| client_sends: "inmem_try_send N ClientSide i env r = (Ok (), r') \<Longrightarrow>
     wire_step N A (r, sent, got) (r', log_append sent ClientSide i env, got)"
| client_refused: "inmem_try_send N ClientSide i env r = (Err e, r') \<Longrightarrow> wire_step N A (r, sent, got) (r', sent, got)"
| client_receives: "inmem_recv N ClientSide i r = (RecvItem env, r') \<Longrightarrow>
     wire_step N A (r, sent, got) (r', sent, log_append got ClientSide i env)"
| idle: "inmem_recv N sd i r = (v, r') \<Longrightarrow> v \<in> {RecvEnd, RecvWaits} \<Longrightarrow> wire_step N A (r, sent, got) (r', sent, got)"
| shut: "wire_step N A (r, sent, got) (inmem_close i r, sent, got)"
| dropped: "wire_step N A (r, sent, got) (inmem_drop_stream N sd i r, sent, got)"
| cut: "wire_step N A (r, sent, got) (close_connection i r, sent, got)"

text \<open>What the Server's handlers do to it: they send.\<close>

inductive server_sends ::
  "(envelope, 'n, 'v) tokio \<Rightarrow> ('n, 'd) inmem_registry \<times> wire_log \<Rightarrow> ('n, 'd) inmem_registry \<times> wire_log \<Rightarrow> bool" for N where
  nothing: "server_sends N s s"
| one: "server_sends N s (r, sent) \<Longrightarrow> inmem_try_send N ServerSide i env r = (Ok (), r') \<Longrightarrow>
     server_sends N s (r', log_append sent ServerSide i env)"
| refused: "server_sends N s (r, sent) \<Longrightarrow> inmem_try_send N ServerSide i env r = (Err e, r') \<Longrightarrow>
     server_sends N s (r', sent)"

inductive network_run ::
  "(mailbox_message, 'c, 's) tokio \<Rightarrow> (envelope, 'n, 'v) tokio \<Rightarrow> (u64, 'd, 'q) tokio
     \<Rightarrow> ('n, 'd) inmem_registry coordination_store \<Rightarrow> ('a, ('n, 'd) inmem_registry, 'c, 's) server
     \<Rightarrow> ('a, ('n, 'd) inmem_registry, 'c, 's) server \<Rightarrow> ('n, 'd) wire \<Rightarrow> (sender_id option \<times> envelope) list \<Rightarrow> bool"
  for T N A S srv0 where
  start: "network_run T N A S srv0 srv0 (InmemRegistry_new, \<lambda>_ _. [], \<lambda>_ _. []) []"
| outside: "network_run T N A S srv0 srv wr rs \<Longrightarrow> wire_step N A wr wr' \<Longrightarrow> network_run T N A S srv0 srv wr' rs"
| stream: "network_run T N A S srv0 srv (r, sent, got) rs \<Longrightarrow>
     inmem_recv N ServerSide i r = (RecvItem env, r1) \<Longrightarrow>
     dispatch_inbound T S (inmem_tx N) now oneshot env (Some (unat i)) srv r1 = (p, srv', r') \<Longrightarrow>
     server_sends N (r1, sent) (r', sent') \<Longrightarrow>
     network_run T N A S srv0 srv' (r', sent', log_append got ServerSide i env) (rs @ [(Some (unat i), env)])"
| server: "network_run T N A S srv0 srv (r, sent, got) rs \<Longrightarrow> internal_step T S (inmem_tx N) (srv, r) (srv', r') \<Longrightarrow>
     server_sends N (r, sent) (r', sent') \<Longrightarrow> network_run T N A S srv0 srv' (r', sent', got) rs"

lemma log_append_other [simp]: "sd' \<noteq> sd \<Longrightarrow> log_append g sd i env sd' = g sd'"
  by (simp add: log_append_def)

lemma wire_step_run:
  "wire_step N A (r, sent, got) (r', sent', got') \<Longrightarrow> inmem_run N A r sent got \<Longrightarrow>
   inmem_run N A r' sent' got' \<and> got' ServerSide = got ServerSide"
  by (erule wire_step.cases) (auto intro: inmem_run.intros)

lemma server_sends_run:
  assumes "server_sends N (r, sent) (r', sent')" and "inmem_run N A r sent got"
  shows "inmem_run N A r' sent' got \<and> sent' ClientSide = sent ClientSide"
proof -
  have "server_sends N s s' \<Longrightarrow> inmem_run N A (fst s) (snd s) got \<Longrightarrow>
      inmem_run N A (fst s') (snd s') got \<and> snd s' ClientSide = snd s ClientSide" for s s'
    by (induction rule: server_sends.induct) (auto intro: inmem_run.intros)
  from this [OF assms(1)] show ?thesis using assms(2) by simp
qed

lemma network_inmem: "network_run T N A S srv0 srv wr rs \<Longrightarrow> case wr of (r, sent, got) \<Rightarrow> inmem_run N A r sent got"
proof (induction rule: network_run.induct)
  case (outside srv wr rs wr')
  then show ?case using wire_step_run by (cases wr; cases wr') blast
qed (auto intro: inmem_run.start dest: server_sends_run inmem_run.received)

lemma elsewhere_same: "internal_step T S tx (srv, w) (srv, w')"
  using internal_step.elsewhere [where srv = srv and w = w and au = "authority srv" and it = "inbound_tasks srv"
      and cap = "capacity srv" and w' = w'] by simp

lemma network_handlers:
  "network_run T N A S srv0 srv wr rs \<Longrightarrow> handler_run T S (inmem_tx N) (srv0, InmemRegistry_new) rs (srv, fst wr)"
proof (induction rule: network_run.induct)
  case start
  show ?case by (simp add: handler_run.start)
next
  case (outside srv wr rs wr')
  show ?case by (rule handler_run.internally [OF outside.IH elsewhere_same])
next
  case (stream srv r sent got rs i env r1 now oneshot p srv' r' sent')
  have "handler_run T S (inmem_tx N) (srv0, InmemRegistry_new) rs (srv, r1)"
    by (rule handler_run.internally [OF stream.IH elsewhere_same])
  then show ?case unfolding fst_conv by (rule handler_run.arrives) (rule stream.hyps(3))
next
  case (server srv r sent got rs srv' r' sent')
  show ?case unfolding fst_conv by (rule handler_run.internally [OF _ server.hyps(2)]) (use server.IH in simp)
qed

lemma network_got:
  "network_run T N A S srv0 srv wr rs \<Longrightarrow>
   (\<forall>i. map snd (filter (\<lambda>(reply, _). reply = Some (unat i)) rs) = snd (snd wr) ServerSide i)
   \<and> (\<forall>x \<in> set rs. \<exists>i. fst x = Some (unat (i :: u64)))"
proof (induction rule: network_run.induct)
  case (outside srv wr rs wr')
  then have "snd (snd wr') ServerSide = snd (snd wr) ServerSide"
    using wire_step_run network_inmem [OF outside.hyps(1)] by (cases wr; cases wr') fastforce
  then show ?case using outside.IH by simp
qed (auto simp: log_append_def word_unat_eq_iff [symmetric])

section \<open>Properties\<close>

text \<open>The Actions of one Session to one Actor among a sequence of envelopes.\<close>

definition session_actions :: "actor_address \<Rightarrow> session_id \<Rightarrow> envelope list \<Rightarrow> (session_id \<times> bytes) list" where
  "session_actions a sid envs =
     map snd (filter (\<lambda>(a', s, _). a' = a \<and> s = sid) (concat (map received_action envs)))"

lemma filter_concat_only:
  assumes "\<And>x. x \<in> set xs \<Longrightarrow> \<not> Q x \<Longrightarrow> filter P (f (g x)) = []"
  shows "filter P (concat (map (\<lambda>x. f (g x)) xs)) = filter P (concat (map f (map g (filter Q xs))))"
  using assms by (induction xs) auto

lemma received_action_session: "(a, s, p) \<in> set (received_action env) \<Longrightarrow> env_session_id env = SessionId_as_bytes s"
  by (auto simp: received_action_def SessionId_from_bytes_def split: option.splits kind.splits if_splits)

text \<open>
  C3. From end to end.  On the network of a \<open>TestServer\<close>, whatever Clients, streams and handlers do in
  which order, the Actions of a Session an Actor has been given are a subsequence of the Actions the
  transport accepted from the Client for that Session and that Actor, on the one connection that
  carries the Session: none is invented, repeated or reordered.
\<close>

theorem session_actions_end_to_end:
  assumes "mailbox_tokio T queued shut" and "mpsc_contract N waiting ended"
    and "recorded_actors history (registrations srv0)" and "actors srv0 = hm_empty" and "tasks srv0 = hm_empty"
    and "network_run T N A S srv0 srv (r, sent, got) rs" and "hm_get (tasks srv) tid = Some t"
    and "\<And>j env. j \<noteq> i \<Longrightarrow> env \<in> set (sent ClientSide j) \<Longrightarrow> env_session_id env \<noteq> SessionId_as_bytes sid"
  shows "subseq (filter (\<lambda>(s, _). s = sid) (history (task_actor t)))
     (session_actions (task_address t) sid (sent ClientSide i))"
proof -
  let ?P = "\<lambda>(a', s, _). a' = task_address t \<and> s = sid"
  note got = network_got [OF assms(6), simplified]
  have pre: "\<exists>more. sent ClientSide j = got ServerSide j @ more" for j
    using delivered_prefix [OF inmem_run_delivered [OF assms(2)], of A r sent got ServerSide j] network_inmem [OF assms(6)]
    by (simp add: prefix_def)
  have only: "filter ?P (received_action (snd x)) = []" if x: "x \<in> set rs" "\<not> (\<lambda>(reply, _). reply = Some (unat i)) x" for x
  proof -
    obtain j :: u64 where j: "fst x = Some (unat j)" using got x(1) by blast
    then have "j \<noteq> i" using x(2) by (cases x) auto
    moreover have "snd x \<in> set (map snd (filter (\<lambda>(reply, _). reply = Some (unat j)) rs))"
      using x(1) j by (auto simp: split_beta intro!: image_eqI [of _ snd x])
    then have "snd x \<in> set (sent ClientSide j)" using got pre [of j] by auto
    ultimately show ?thesis using assms(8) received_action_session by (fastforce simp: filter_empty_conv)
  qed
  have "subseq (map (Pair (task_address t)) (history (task_actor t) @ actions_of (queued (mailbox t)))) (received_actions rs)"
    using handler_run_taken(1) [OF assms(1,3,4,5) network_handlers [OF assms(6), simplified], of tid] assms(7)
    by (simp add: taken_at_task)
  then have "subseq (map (Pair (task_address t)) (history (task_actor t))) (received_actions rs)"
    by (auto intro: subseq_order.trans [rotated] subseq_rev_drop_many)
  moreover have "filter ?P (received_actions rs) = filter ?P (concat (map received_action (got ServerSide i)))"
    using filter_concat_only [of rs "\<lambda>(reply, _). reply = Some (unat i)" ?P received_action snd, OF only] got
    unfolding received_actions_def split_beta' by metis
  ultimately
  have "subseq (filter ?P (map (Pair (task_address t)) (history (task_actor t))))
      (filter ?P (concat (map received_action (got ServerSide i))))"
    using subseq_filter [of _ "received_actions rs" ?P] by metis
  also obtain more where "sent ClientSide i = got ServerSide i @ more" using pre by blast
  then have "subseq (filter ?P (concat (map received_action (got ServerSide i))))
      (filter ?P (concat (map received_action (sent ClientSide i))))"
    by (simp add: subseq_rev_drop_many)
  finally have "subseq (map snd (filter ?P (map (Pair (task_address t)) (history (task_actor t)))))
      (map snd (filter ?P (concat (map received_action (sent ClientSide i)))))"
    by (rule subseq_map)
  then show ?thesis by (simp add: session_actions_def filter_map comp_def split_beta')
qed

end
