(* ===== verification/Event_Delivery.thy ===== *)
theory Event_Delivery
  imports Test_Server Client_Safety
begin

text \<open>
  Events are delivered at most once and in order, on the way from the Server's transport to the
  consumer's \<open>recv\<close>.  \<open>event_run\<close> is the life of a Client's event channels: a channel is made for one
  Session, an envelope that arrives may put an item into the channel of its Session, \<open>recv\<close> takes the
  next one out.  All other sections of the Client are \<open>quiet\<close>: they may drop Events or put errors into
  a channel, and register no Session.  \<open>events_taken\<close> and \<open>made_for\<close> are ghost variables.
\<close>

section \<open>Channels\<close>

definition event_of :: "session_item \<Rightarrow> bytes list" where
  "event_of item = (case item of Ok payload \<Rightarrow> [payload] | Err _ \<Rightarrow> [])"

definition events_of :: "session_item list \<Rightarrow> bytes list" where
  "events_of items = concat (map event_of items)"

lemma events_of_simps [simp]:
  "events_of [] = []" "events_of (x # xs) = event_of x @ events_of xs" "events_of (xs @ ys) = events_of xs @ events_of ys"
  "event_of (Ok payload) = [payload]" "event_of (Err e) = []"
  by (simp_all add: events_of_def event_of_def)

definition events_at :: "('c \<Rightarrow> session_item list) \<Rightarrow> ('p, 'c) client \<Rightarrow> channel_ref \<Rightarrow> bytes list" where
  "events_at waiting cl ch = (case hm_get (cl_channels cl) ch of None \<Rightarrow> [] | Some c \<Rightarrow> events_of (waiting c))"

text \<open>The Events an envelope carries for a Session.\<close>

definition received_event :: "session_id \<Rightarrow> envelope \<Rightarrow> bytes list" where
  "received_event sid env =
     (case (env_kind env, SessionId_from_bytes (env_session_id env)) of
        (Some (Kind_Event payload), Some s) \<Rightarrow> if s = sid then [payload] else []
      | _ \<Rightarrow> [])"

definition session_events :: "session_id \<Rightarrow> envelope list \<Rightarrow> bytes list" where
  "session_events sid envs = concat (map (received_event sid) envs)"

section \<open>Quiet sections\<close>

definition quiet :: "('c \<Rightarrow> session_item list) \<Rightarrow> ('p, 'c) client \<Rightarrow> ('p, 'c) client \<Rightarrow> bool" where
  "quiet waiting cl cl' \<longleftrightarrow>
     (\<forall>ch. subseq (events_at waiting cl' ch) (events_at waiting cl ch))
     \<and> (\<forall>s ch. hm_get (cl_receivers cl') s = Some ch \<longrightarrow> hm_get (cl_receivers cl) s = Some ch)
     \<and> (\<forall>ch. hm_get (cl_channels cl) ch \<noteq> None \<longrightarrow> hm_get (cl_channels cl') ch \<noteq> None)"

lemma quiet_refl [simp, intro]: "quiet waiting cl cl"
  by (simp add: quiet_def)

lemma quiet_trans: "quiet waiting a b \<Longrightarrow> quiet waiting b c \<Longrightarrow> quiet waiting a c"
  unfolding quiet_def by (meson subseq_order.trans)

lemma quiet_frame:
  "cl_channels cl' = cl_channels cl \<Longrightarrow> cl_receivers cl' = cl_receivers cl \<Longrightarrow> quiet waiting cl cl'"
  by (simp add: quiet_def events_at_def)

lemma quiet_fold: "(\<And>x cl. quiet waiting cl (f x cl)) \<Longrightarrow> quiet waiting cl (fold f xs cl)"
  by (induction xs arbitrary: cl) (auto intro: quiet_trans)

lemma quiet_unregister [simp]: "quiet waiting cl (unregister_local s cl)"
  by (auto simp: quiet_def unregister_local_def events_at_def split: if_splits)

lemma client_frames [simp]:
  "cl_channels (update_connection ref f cl) = cl_channels cl" "cl_receivers (update_connection ref f cl) = cl_receivers cl"
  "cl_channels (snd (take_pending s i cl)) = cl_channels cl" "cl_receivers (snd (take_pending s i cl)) = cl_receivers cl"
  "cl_channels (complete_open p x cl) = cl_channels cl" "cl_receivers (complete_open p x cl) = cl_receivers cl"
  "cl_channels (set_pool pl refs cl) = cl_channels cl" "cl_receivers (set_pool pl refs cl) = cl_receivers cl"
  "cl_channels (snd (pool e cl)) = cl_channels cl" "cl_receivers (snd (pool e cl)) = cl_receivers cl"
  "cl_channels (retain_open pl cl) = cl_channels cl" "cl_receivers (retain_open pl cl) = cl_receivers cl"
  "cl_channels (receive_end_unpool pl ref cl) = cl_channels cl" "cl_receivers (receive_end_unpool pl ref cl) = cl_receivers cl"
  "cl_channels (client_retain_inbound_tasks fin cl) = cl_channels cl"
  "cl_receivers (client_retain_inbound_tasks fin cl) = cl_receivers cl"
  by (simp_all add: update_connection_def take_pending_def complete_open_def set_pool_def pool_def retain_open_def
      receive_end_unpool_def client_retain_inbound_tasks_def Let_def split: option.splits)

locale event_channels = mpsc_contract T waiting ended
  for T :: "(session_item, 'c, 's) tokio" and waiting :: "'c \<Rightarrow> session_item list" and ended :: "'c \<Rightarrow> bool"
begin

lemma offer_events:
  "subseq (events_at waiting (offer T ch item cl) k)
     (events_at waiting cl k @ (if k = ch then event_of item else []))"
proof (cases "hm_get (cl_channels cl) ch")
  case None
  then show ?thesis by (simp add: offer_def subseq_rev_drop_many)
next
  case (Some c)
  have "subseq (events_of (waiting (snd (tk_try_send T c item)))) (events_of (waiting c) @ event_of item)"
  proof (cases "fst (tk_try_send T c item) = Sent")
    case True
    then show ?thesis by (simp add: try_send_SentD)
  next
    case False
    then show ?thesis by (simp add: try_send_not_sent subseq_rev_drop_many)
  qed
  then show ?thesis using Some by (simp add: offer_def events_at_def)
qed

lemma offer_frame [simp]:
  "cl_receivers (offer T ch item cl) = cl_receivers cl"
  "hm_get (cl_channels (offer T ch item cl)) k = None \<longleftrightarrow> hm_get (cl_channels cl) k = None"
  by (auto simp: offer_def split: option.splits)

lemma quiet_offer_error [simp]: "quiet waiting cl (offer T ch (Err e) cl)"
proof -
  have "subseq (events_at waiting (offer T ch (Err e) cl) k) (events_at waiting cl k)" for k
    using offer_events [of ch "Err e" cl k] by (simp split: if_splits)
  then show ?thesis by (simp add: quiet_def)
qed

lemma quiet_terminate [simp]: "quiet waiting cl (client_terminate T sid e cl)"
  using quiet_trans [OF quiet_unregister quiet_offer_error] by (auto simp: client_terminate_def split: option.splits)

text \<open>The sections of \<open>cl_step\<close> apart from the arrival of an envelope, \<open>recv\<close> and a new Session.\<close>

lemma quiet_sections:
  "quiet waiting cl (receive_end_close ref cl)" "quiet waiting cl (receive_end_unpool pl ref cl)"
  "quiet waiting cl (snd (receive_end_take ref cl))" "quiet waiting cl (receive_end_reset ref cl)"
  "quiet waiting cl (receive_end_session T ref s cl)" "quiet waiting cl (cl\<lparr>cl_inbound_tasks := ts\<rparr>)"
  "quiet waiting cl (snd (pool e cl))" "quiet waiting cl (retain_open pl cl)" "quiet waiting cl (set_pool pl refs cl)"
  "quiet waiting cl (snd (push_connection finished pl e s sender cl))" "quiet waiting cl (snd (reuse_connection pl s cl))"
  "quiet waiting cl (update_connection ref f cl)"
  "quiet waiting cl (cl\<lparr>cl_next_oneshot := n, cl_pending_opens := pend\<rparr>)"
  "quiet waiting cl (cl\<lparr>cl_placement := p, cl_placement_cache := cache\<rparr>)"
  "quiet waiting cl (cl\<lparr>cl_status := st\<rparr>)" "quiet waiting cl (cl\<lparr>cl_pools := pools\<rparr>)"
  "quiet waiting cl (cl\<lparr>cl_pending_opens := pend\<rparr>)"
proof -
  show "quiet waiting cl (receive_end_session T ref s cl)"
  proof (cases "hm_get (cl_connections cl) ref")
    case (Some c)
    obtain x cl' where t: "take_pending s (tc_id c) cl = (x, cl')" by fastforce
    then have q: "quiet waiting cl cl'" using client_frames(3,4) [of s "tc_id c" cl] by (auto intro: quiet_frame)
    moreover have "quiet waiting cl' (complete_open p r cl')" for p r by (rule quiet_frame) simp_all
    ultimately show ?thesis
      using Some t quiet_trans [OF q] by (auto simp: receive_end_session_def split: option.splits)
  qed (simp add: receive_end_session_def)
qed (rule quiet_frame; simp add: receive_end_close_def receive_end_take_def receive_end_reset_def push_connection_def
    reuse_connection_def client_register_inbound_task_def Let_def split: option.splits list.splits)+

lemma quiet_terminate_all: "quiet waiting cl (client_terminate_all T e cl)"
proof -
  have "quiet waiting cl (cl\<lparr>cl_receivers := hm_empty\<rparr>)" by (simp add: quiet_def events_at_def)
  then show ?thesis unfolding client_terminate_all_def by (rule quiet_trans) (rule quiet_fold, rule quiet_offer_error)
qed

lemma quiet_shutdown: "quiet waiting cl (fst (snd (client_shutdown T tx_close cl w)))"
proof (cases "cl_status cl = CLIENT_STOPPED")
  case False
  let ?cl0 = "cl\<lparr>cl_status := CLIENT_STOPPED, cl_pools := hm_empty\<rparr>"
  have closes: "cl_channels (fst (close_connections tx_close refs cl w)) = cl_channels cl
      \<and> cl_receivers (fst (close_connections tx_close refs cl w)) = cl_receivers cl" for refs w and cl :: "('p, 'c) client"
    by (induction refs arbitrary: cl w) (auto split: option.splits prod.splits)
  have drains: "cl_channels (fst (drain_pools tx_close ps cl w)) = cl_channels cl
      \<and> cl_receivers (fst (drain_pools tx_close ps cl w)) = cl_receivers cl" for ps w and cl :: "('p, 'c) client"
  proof (induction ps arbitrary: cl w)
    case (Cons p ps)
    then show ?case using closes [of "pool_connections cl p" "set_pool p [] cl" w] by (simp add: split_beta)
  qed simp
  obtain cl1 w1 where c: "drain_pools tx_close (map snd (cl_pools cl)) ?cl0 w = (cl1, w1)" by fastforce
  have "quiet waiting cl cl1"
    using drains [of "map snd (cl_pools cl)" ?cl0 w] c by (auto intro: quiet_frame)
  moreover have "quiet waiting cl1 (cl1\<lparr>cl_inbound_tasks := [], cl_pending_opens := hm_empty\<rparr>)" by (rule quiet_frame) simp_all
  ultimately have "quiet waiting cl (client_terminate_all T RuntimeStopped (cl1\<lparr>cl_inbound_tasks := [], cl_pending_opens := hm_empty\<rparr>))"
    using quiet_trans quiet_terminate_all by blast
  then show ?thesis using False c by (simp add: client_shutdown_def)
qed (simp add: client_shutdown_def)

end

section \<open>Runs\<close>

text \<open>
  \<open>arrived\<close> are the envelopes the receive loops were given, with the connection of each,
  \<open>events_taken ch\<close> the Events \<open>recv\<close> took from channel \<open>ch\<close>, and \<open>made_for ch\<close> the Session it was made for.
\<close>

inductive event_run ::
  "(session_item, 'c, 's) tokio \<Rightarrow> ('c \<Rightarrow> session_item list) \<Rightarrow> (channel_ref \<Rightarrow> session_id)
     \<Rightarrow> (conn_ref \<times> envelope) list \<Rightarrow> (channel_ref \<Rightarrow> bytes list) \<Rightarrow> ('p, 'c) client \<Rightarrow> bool" for T waiting where
  start: "cl_receivers cl = hm_empty \<Longrightarrow> cl_channels cl = hm_empty \<Longrightarrow> event_run T waiting made_for [] (\<lambda>_. []) cl"
| session: "event_run T waiting made_for arrived events_taken cl \<Longrightarrow> hm_get (cl_channels cl) ch = None \<Longrightarrow> 0 < n \<Longrightarrow>
     event_run T waiting (made_for(ch := s)) arrived (events_taken(ch := []))
       (register_local s ch (cl\<lparr>cl_channels := hm_insert ch (tk_channel T n) (cl_channels cl)\<rparr>))"
| envelope: "event_run T waiting made_for arrived events_taken cl \<Longrightarrow>
     event_run T waiting made_for (arrived @ [(ref, env)]) events_taken (handle_envelope T env ref cl)"
| recv: "event_run T waiting made_for arrived events_taken cl \<Longrightarrow> session_recv T s cl = (Some item, cl') \<Longrightarrow>
     event_run T waiting made_for arrived
       (events_taken(ss_receiver s := events_taken (ss_receiver s) @ event_of item)) cl'"
| other: "event_run T waiting made_for arrived events_taken cl \<Longrightarrow> quiet waiting cl cl' \<Longrightarrow>
     event_run T waiting made_for arrived events_taken cl'"

context event_channels
begin

definition in_order ::
  "(channel_ref \<Rightarrow> session_id) \<Rightarrow> (conn_ref \<times> envelope) list \<Rightarrow> (channel_ref \<Rightarrow> bytes list) \<Rightarrow> ('p, 'c) client \<Rightarrow> bool" where
  "in_order made_for arrived events_taken cl \<longleftrightarrow>
     (\<forall>ch. subseq (events_taken ch @ events_at waiting cl ch) (session_events (made_for ch) (map snd arrived)))
     \<and> (\<forall>s ch. hm_get (cl_receivers cl) s = Some ch \<longrightarrow> made_for ch = s \<and> hm_get (cl_channels cl) ch \<noteq> None)"

lemma session_events_append [simp]:
  "session_events s (envs @ [env]) = session_events s envs @ received_event s env"
  by (simp add: session_events_def)

lemma handle_envelope_events:
  assumes "\<And>s ch. hm_get (cl_receivers cl) s = Some ch \<Longrightarrow> made_for ch = s"
  shows "subseq (events_at waiting (handle_envelope T env ref cl) ch)
           (events_at waiting cl ch @ received_event (made_for ch) env)"
    and "cl_receivers (handle_envelope T env ref cl) = cl_receivers cl"
    and "hm_get (cl_channels (handle_envelope T env ref cl)) k = None \<longleftrightarrow> hm_get (cl_channels cl) k = None"
proof -
  have same: "subseq (events_at waiting cl' ch) (events_at waiting cl ch @ xs)" if "cl_channels cl' = cl_channels cl" for cl' xs
    using that by (simp add: events_at_def subseq_rev_drop_many)
  have item: "subseq (events_at waiting (deliver_item T s i c cl) ch) (events_at waiting cl ch @ (if made_for ch = s then event_of i else []))"
    for s i c
  proof -
    have "subseq (events_at waiting (offer T k i cl) ch) (events_at waiting cl ch @ (if made_for ch = s then event_of i else []))"
      if "hm_get (cl_receivers cl) s = Some k" for k
      using offer_events [of k i cl ch] assms [OF that] by (cases "ch = k") (auto intro: subseq_rev_drop_many)
    then show ?thesis by (auto simp: deliver_item_def subseq_rev_drop_many split: option.splits)
  qed
  have hit: "subseq (events_at waiting (deliver_item T (made_for ch) (Ok x) c cl) ch) (events_at waiting cl ch @ [x])" for x c
    using item [of "made_for ch" "Ok x" c] by simp
  have miss: "subseq (events_at waiting (deliver_item T s (Err e) c cl) ch) (events_at waiting cl ch)"
    "s \<noteq> made_for ch \<Longrightarrow> subseq (events_at waiting (deliver_item T s i c cl) ch) (events_at waiting cl ch)" for s e i c
    using item [of s "Err e" c] item [of s i c] by (auto split: if_splits)
  have frame: "cl_receivers (deliver_item T s i c cl) = cl_receivers cl"
    "hm_get (cl_channels (deliver_item T s i c cl)) k = None \<longleftrightarrow> hm_get (cl_channels cl) k = None" for s i c
    by (auto simp: deliver_item_def split: option.splits)
  have pending: "cl_channels cl' = cl_channels cl \<and> cl_receivers cl' = cl_receivers cl"
    if "take_pending s i cl = (x, cl')" for s i x cl'
    using that client_frames(3,4) [of s i cl] by simp
  have complete: "events_at waiting (complete_open p r cl') ch = events_at waiting cl' ch" for p r cl'
    by (simp add: events_at_def)
  have ack: "events_at waiting cl' ch = events_at waiting cl ch" if "take_pending s i cl = (x, cl')" for s i x cl'
    using pending [OF that] by (simp add: events_at_def)
  show "subseq (events_at waiting (handle_envelope T env ref cl) ch)
      (events_at waiting cl ch @ received_event (made_for ch) env)"
    by (auto simp: handle_envelope_def received_event_def same hit miss complete dest!: ack split: option.splits kind.splits prod.splits if_splits)
  show "cl_receivers (handle_envelope T env ref cl) = cl_receivers cl"
    using pending by (auto simp: handle_envelope_def frame split: option.splits kind.splits prod.splits)
  show "hm_get (cl_channels (handle_envelope T env ref cl)) k = None \<longleftrightarrow> hm_get (cl_channels cl) k = None"
    using pending by (auto simp: handle_envelope_def frame split: option.splits kind.splits prod.splits)
qed

lemma recv_events:
  assumes "session_recv T s cl = (Some item, cl')"
  shows "events_at waiting cl (ss_receiver s) = event_of item @ events_at waiting cl' (ss_receiver s)"
    and "k \<noteq> ss_receiver s \<Longrightarrow> events_at waiting cl' k = events_at waiting cl k"
    and "cl_receivers cl' = cl_receivers cl"
    and "hm_get (cl_channels cl') k = None \<longleftrightarrow> hm_get (cl_channels cl) k = None"
proof -
  obtain c c' where c: "hm_get (cl_channels cl) (ss_receiver s) = Some c" "tk_try_recv T c = (Some item, c')"
    and cl': "cl' = cl\<lparr>cl_channels := hm_insert (ss_receiver s) c' (cl_channels cl)\<rparr>"
    using assms by (auto simp: session_recv_def split: option.splits prod.splits)
  have "waiting c = item # waiting c'"
    using c(2) try_recv_empty [of c] try_recv_cons [of c] by (cases "waiting c") force+
  then show "events_at waiting cl (ss_receiver s) = event_of item @ events_at waiting cl' (ss_receiver s)"
    and "k \<noteq> ss_receiver s \<Longrightarrow> events_at waiting cl' k = events_at waiting cl k"
    and "cl_receivers cl' = cl_receivers cl"
    and "hm_get (cl_channels cl') k = None \<longleftrightarrow> hm_get (cl_channels cl) k = None"
    using c(1) by (auto simp: events_at_def cl')
qed

lemma run_in_order: "event_run T waiting made_for arrived events_taken cl \<Longrightarrow> in_order made_for arrived events_taken cl"
proof (induction rule: event_run.induct)
  case (start cl made_for)
  then show ?case by (simp add: in_order_def events_at_def session_events_def)
next
  case (session made_for arrived events_taken cl ch n s)
  have "hm_get (cl_receivers cl) sa \<noteq> Some ch" for sa using session.IH session.hyps(2) unfolding in_order_def by blast
  with session show ?case
    using channel_new [OF session.hyps(3)] by (auto simp: in_order_def register_local_def events_at_def split: if_splits)
next
  case (envelope made_for arrived events_taken cl ref env)
  have own: "made_for ch = s" if "hm_get (cl_receivers cl) s = Some ch" for s ch
    using envelope.IH that by (simp add: in_order_def)
  have "subseq (events_taken ch @ events_at waiting (handle_envelope T env ref cl) ch)
      (session_events (made_for ch) (map snd arrived) @ received_event (made_for ch) env)" for ch
  proof -
    have "subseq (events_taken ch @ events_at waiting (handle_envelope T env ref cl) ch)
        ((events_taken ch @ events_at waiting cl ch) @ received_event (made_for ch) env)"
      using handle_envelope_events(1) [OF own] by (simp add: subseq_append')
    moreover have "subseq \<dots> (session_events (made_for ch) (map snd arrived) @ received_event (made_for ch) env)"
      by (rule list_emb_append_mono) (use envelope.IH in \<open>auto simp: in_order_def\<close>)
    ultimately show ?thesis by (rule subseq_order.trans)
  qed
  then show ?case
    using envelope.IH handle_envelope_events(2) [of cl made_for env ref, OF own]
      handle_envelope_events(3) [of cl made_for env ref, OF own] by (simp add: in_order_def)
next
  case (recv made_for arrived events_taken cl s item cl')
  have "subseq (events_taken (ss_receiver s) @ event_of item @ events_at waiting cl' (ss_receiver s))
      (session_events (made_for (ss_receiver s)) (map snd arrived))"
    using recv.IH recv_events(1) [OF recv.hyps(2)] unfolding in_order_def by metis
  then show ?case
    using recv.IH recv_events(2-) [OF recv.hyps(2)] by (simp add: in_order_def)
next
  case (other made_for arrived events_taken cl cl')
  have "subseq (events_taken ch @ events_at waiting cl' ch) (events_taken ch @ events_at waiting cl ch)" for ch
    using other.hyps(2) by (simp add: quiet_def subseq_append')
  then show ?case
    using other.IH other.hyps(2) unfolding in_order_def quiet_def by (meson subseq_order.trans)
qed

end

interpretation bounded_events: event_channels bounded_tokio bc_queue bc_closed
  by unfold_locales

section \<open>The Client's end of the network\<close>

text \<open>
  A Client on the in-memory transport: its receive loops take envelopes from the connections, the
  transport does the rest.  A connection's identity names it in the Client as well.
\<close>

inductive client_network ::
  "(session_item, 'c, 's) tokio \<Rightarrow> ('c \<Rightarrow> session_item list) \<Rightarrow> (envelope, 'n, 'v) tokio \<Rightarrow> (u64, 'd, 'q) tokio
     \<Rightarrow> (channel_ref \<Rightarrow> session_id) \<Rightarrow> (conn_ref \<times> envelope) list \<Rightarrow> (channel_ref \<Rightarrow> bytes list) \<Rightarrow> ('p, 'c) client
     \<Rightarrow> ('n, 'd) wire \<Rightarrow> bool" for T waiting N A where
  start: "cl_receivers cl = hm_empty \<Longrightarrow> cl_channels cl = hm_empty \<Longrightarrow>
     client_network T waiting N A made_for [] (\<lambda>_. []) cl (InmemRegistry_new, \<lambda>_ _. [], \<lambda>_ _. [])"
| outside: "client_network T waiting N A made_for arrived events_taken cl wr \<Longrightarrow> wire_step N A wr wr' \<Longrightarrow>
     client_network T waiting N A made_for arrived events_taken cl wr'"
| server: "client_network T waiting N A made_for arrived events_taken cl (r, sent, got) \<Longrightarrow>
     server_sends N (r, sent) (r', sent') \<Longrightarrow>
     client_network T waiting N A made_for arrived events_taken cl (r', sent', got)"
| server_receives: "client_network T waiting N A made_for arrived events_taken cl (r, sent, got) \<Longrightarrow>
     inmem_recv N ServerSide i r = (RecvItem env, r') \<Longrightarrow>
     client_network T waiting N A made_for arrived events_taken cl (r', sent, log_append got ServerSide i env)"
| stream: "client_network T waiting N A made_for arrived events_taken cl (r, sent, got) \<Longrightarrow>
     inmem_recv N ClientSide i r = (RecvItem env, r') \<Longrightarrow>
     client_network T waiting N A made_for (arrived @ [(unat i, env)]) events_taken (handle_envelope T env (unat i) cl)
       (r', sent, log_append got ClientSide i env)"
| session: "client_network T waiting N A made_for arrived events_taken cl wr \<Longrightarrow> hm_get (cl_channels cl) ch = None \<Longrightarrow> 0 < n \<Longrightarrow>
     client_network T waiting N A (made_for(ch := s)) arrived (events_taken(ch := []))
       (register_local s ch (cl\<lparr>cl_channels := hm_insert ch (tk_channel T n) (cl_channels cl)\<rparr>)) wr"
| recv: "client_network T waiting N A made_for arrived events_taken cl wr \<Longrightarrow> session_recv T s cl = (Some item, cl') \<Longrightarrow>
     client_network T waiting N A made_for arrived
       (events_taken(ss_receiver s := events_taken (ss_receiver s) @ event_of item)) cl' wr"
| other: "client_network T waiting N A made_for arrived events_taken cl wr \<Longrightarrow> quiet waiting cl cl' \<Longrightarrow>
     client_network T waiting N A made_for arrived events_taken cl' wr"

lemma client_network_events:
  "client_network T waiting N A made_for arrived events_taken cl wr \<Longrightarrow> event_run T waiting made_for arrived events_taken cl"
proof (induction rule: client_network.induct)
  case start
  then show ?case by (rule event_run.start)
next
  case (session made_for arrived events_taken cl wr ch n s)
  show ?case using session.IH session.hyps(2,3) by (rule event_run.session)
next
  case (recv made_for arrived events_taken cl wr s item cl')
  show ?case using recv.IH recv.hyps(2) by (rule event_run.recv)
qed (assumption | erule event_run.envelope | erule event_run.other)+

lemma client_network_inmem:
  "client_network T waiting N A made_for arrived events_taken cl wr \<Longrightarrow> case wr of (r, sent, got) \<Rightarrow> inmem_run N A r sent got"
proof (induction rule: client_network.induct)
  case (outside made_for arrived events_taken cl wr wr')
  then show ?case using wire_step_run by (cases wr; cases wr') blast
qed (auto intro: inmem_run.start dest: server_sends_run inmem_run.received)

lemma log_append_grows: "subseq (g sd i) (log_append g sd' i' env sd i)"
  by (auto simp: log_append_def)

lemma wire_step_grows: "wire_step N A (r, sent, got) (r', sent', got') \<Longrightarrow> subseq (got sd i) (got' sd i)"
  by (erule wire_step.cases) (auto simp: log_append_grows)

lemma client_network_got:
  "client_network T waiting N A made_for arrived events_taken cl wr \<Longrightarrow>
   (\<forall>i. subseq (map snd (filter (\<lambda>(ref, _). ref = unat i) arrived)) (snd (snd wr) ClientSide i))
   \<and> (\<forall>x \<in> set arrived. \<exists>i. fst x = unat (i :: u64))"
proof (induction rule: client_network.induct)
  case (outside made_for arrived events_taken cl wr wr')
  obtain r sent got r' sent' got' where wr: "wr = (r, sent, got)" "wr' = (r', sent', got')" by (metis prod_cases3)
  have "subseq (got ClientSide i) (got' ClientSide i)" for i
    using wire_step_grows outside.hyps(2) unfolding wr by blast
  then have "subseq xs (got' ClientSide i)" if "subseq xs (got ClientSide i)" for i xs
    using that by (rule subseq_order.trans [rotated])
  then show ?case using outside.IH by (simp add: wr)
qed (auto simp: log_append_def word_unat_eq_iff [symmetric])

section \<open>Properties\<close>

lemma subseq_set: "subseq xs ys \<Longrightarrow> set xs \<subseteq> set ys"
  by (induction rule: list_emb.induct) auto

lemma concat_map_only:
  assumes "\<And>x. x \<in> set xs \<Longrightarrow> \<not> Q x \<Longrightarrow> f (g x) = []"
  shows "concat (map (\<lambda>x. f (g x)) xs) = concat (map f (map g (filter Q xs)))"
  using assms by (induction xs) auto

lemma received_event_session: "received_event sid env \<noteq> [] \<Longrightarrow> env_session_id env = SessionId_as_bytes sid"
  by (auto simp: received_event_def SessionId_from_bytes_def split: option.splits kind.splits if_splits)

text \<open>
  C4. Events are delivered at most once and in order.  Whatever a Client, its Sessions, the transport
  and the Servers do, the Events the consumer has received on a Session, followed by those waiting
  in its channel, are a subsequence of the Events the transport accepted from the Server for that Session
  on the one connection that carries it.
\<close>

theorem session_events_end_to_end:
  assumes "event_channels T waiting ended" and "mpsc_contract N queued shut"
    and "client_network T waiting N A made_for arrived events_taken cl (r, sent, got)"
    and "\<And>j env. j \<noteq> i \<Longrightarrow> env \<in> set (sent ServerSide j) \<Longrightarrow> env_session_id env \<noteq> SessionId_as_bytes (made_for ch)"
  shows "subseq (events_taken ch @ events_at waiting cl ch) (session_events (made_for ch) (sent ServerSide i))"
proof -
  note got = client_network_got [OF assms(3), simplified]
  have pre: "\<exists>more. sent ServerSide j = got ClientSide j @ more" for j
    using delivered_prefix [OF inmem_run_delivered [OF assms(2)], of A r sent got ClientSide j] client_network_inmem [OF assms(3)]
    by (simp add: prefix_def)
  have only: "received_event (made_for ch) (snd x) = []" if x: "x \<in> set arrived" "\<not> (\<lambda>(ref, _). ref = unat i) x" for x
  proof -
    obtain j :: u64 where j: "fst x = unat j" using got x(1) by blast
    then have "j \<noteq> i" using x(2) by (auto simp: split_beta)
    have "snd x \<in> set (map snd (filter (\<lambda>(ref, _). ref = unat j) arrived))"
      using x(1) j by (auto simp: split_beta intro!: image_eqI [of _ snd x])
    moreover have "set (map snd (filter (\<lambda>(ref, _). ref = unat j) arrived)) \<subseteq> set (got ClientSide j)"
      by (rule subseq_set) (use got in blast)
    ultimately have "snd x \<in> set (sent ServerSide j)" using pre [of j] by auto
    then show ?thesis using assms(4) [OF \<open>j \<noteq> i\<close>] received_event_session by blast
  qed
  have "subseq (events_taken ch @ events_at waiting cl ch) (session_events (made_for ch) (map snd arrived))"
    using event_channels.run_in_order [OF assms(1) client_network_events [OF assms(3)]] event_channels.in_order_def [OF assms(1)]
    by blast
  moreover have "session_events (made_for ch) (map snd arrived) =
      session_events (made_for ch) (map snd (filter (\<lambda>(ref, _). ref = unat i) arrived))"
    using concat_map_only [of arrived "\<lambda>(ref, _). ref = unat i" "received_event (made_for ch)" snd, OF only]
    by (simp add: session_events_def comp_def)
  moreover have "subseq (session_events (made_for ch) (map snd (filter (\<lambda>(ref, _). ref = unat i) arrived)))
      (session_events (made_for ch) (got ClientSide i))"
    unfolding session_events_def using got subseq_concat_map by blast
  moreover obtain more where "sent ServerSide i = got ClientSide i @ more" using pre by blast
  then have "subseq (session_events (made_for ch) (got ClientSide i)) (session_events (made_for ch) (sent ServerSide i))"
    by (simp add: session_events_def subseq_rev_drop_many)
  ultimately show ?thesis by (metis subseq_order.trans)
qed

end
