(* ===== verification/Delivery_Runs.thy ===== *)
theory Delivery_Runs
  imports Event_Delivery Runtime_Properties
begin

text \<open>
  A concrete run of the network of a \<open>TestServer\<close>: a Client connects, opens a Session, sends an Action,
  and the recorded Actor is given it.
\<close>

section \<open>The parts\<close>

definition silent :: "(unit, 'w) registration" where
  "silent =
     \<lparr>reg_name = '''', reg_create = (\<lambda>_. Returned ()),
      reg_activate = (\<lambda>_ _ x w. (Returned (Ok ()), x, w)),
      reg_deactivate = (\<lambda>_ _ _ x w. (Done (Returned ()), x, w)),
      reg_handle = (\<lambda>_ _ _ _ x w. (Returned Completed, x, w)),
      reg_session_opened = (\<lambda>_ _ _ x w. (Returned (), x, w)),
      reg_session_closed = (\<lambda>_ _ _ x w. (Returned (), x, w)),
      mailbox_capacity = None, idle_timeout = None\<rparr>"

type_synonym demo_registry = "(envelope bounded_channel, u64 bounded_channel) inmem_registry"

type_synonym demo_server = "(unit \<times> (session_id \<times> bytes) list, demo_registry, mailbox_message bounded_channel, nat) server"

definition silent_builder :: "(unit, demo_registry) builder_core" where
  "silent_builder = add_actor silent \<lparr>ac_name = ''room'', ac_mailbox_capacity = Some 2, ac_idle_timeout = None\<rparr> test_builder"

definition silent_reg :: "(unit \<times> (session_id \<times> bytes) list, demo_registry) registration" where
  "silent_reg = recording (silent\<lparr>reg_name := ''room'', mailbox_capacity := Some 2, idle_timeout := Some (from_secs 60)\<rparr>)"

definition silent_server :: demo_server where
  "silent_server = initial_server mbox_tokio (record_builder silent_builder) None None"

definition silent_task ::
  "(session_id \<times> bytes) list \<Rightarrow> mailbox_message list
     \<Rightarrow> (unit \<times> (session_id \<times> bytes) list, mailbox_message bounded_channel) actor_task" where
  "silent_task h queue =
     \<lparr>task_address = room, task_generation = 1, task_actor = ((), h),
      mailbox = \<lparr>bc_queue = queue, bc_max = 2, bc_closed = False\<rparr>,
      shutdown_flag = False, shutdown_changed = False, task_aborted = False, task_completed = False\<rparr>"

definition served_silent :: "(session_id \<times> bytes) list \<Rightarrow> mailbox_message list \<Rightarrow> (oneshot_id \<times> (send_error + unit)) list \<Rightarrow> demo_server" where
  "served_silent h queue done =
     silent_server\<lparr>actors := [(room, \<lparr>rt_generation = 1, rt_state = Active, rt_task = 0\<rparr>)],
       sessions := [(room, [(sid0, Remote 0)])], capacity := 9999, next_generation := 2,
       tasks := [(0, silent_task h queue)],
       next_task := 1, answers := done\<rparr>"

lemma silent_server_eq:
  "silent_server =
     \<lparr>registrations = [(''room'', silent_reg)], actors = [], sessions = [], capacity = 10000, max_active_actors = 10000,
      deactivation_timeout = from_secs 5, next_generation = 1, status = 0,
      shutdown_timeout = from_secs 30, transport_protocol_version = TRANSPORT_PROTOCOL_VERSION,
      authority = None, cluster = None, inbound_tasks = [], tasks = [], next_task = 0, answers = []\<rparr>"
  by (simp add: silent_server_def initial_server_def silent_builder_def record_builder_def test_builder_def add_actor_def
      Registration_of_def ServerBuilderCore_base_def Let_def configured_def recording_def silent_reg_def silent_def
      SessionRegistry_new_def RUNNING_def hm_exec_simps)

lemma silent_callbacks:
  "mailbox_capacity silent_reg = Some 2" "idle_timeout silent_reg = Some (from_secs 60)"
  "reg_create silent_reg a = Returned ((), [])"
  "reg_session_opened silent_reg r a sid (x, h) w = (Returned (), (x, h), w)"
  "reg_handle silent_reg r a sid payload (x, h) w = (Returned Completed, (x, h @ [(sid, payload)]), w)"
  by (simp_all add: silent_reg_def recording_def silent_def)

lemma room_decode:
  "SessionId_from_bytes (replicate 16 0) = Some sid0"
  "actor_address_from_envelope ''room'' (as_bytes_str ''1'') = Some room"
proof -
  have "valid_address room" by code_simp
  from address_from_own_bytes [OF this] show "actor_address_from_envelope ''room'' (as_bytes_str ''1'') = Some room" by simp
  show "SessionId_from_bytes (replicate 16 0) = Some sid0" by (simp add: SessionId_from_bytes_def)
qed

lemmas silent_exec = silent_task_def served_silent_def silent_server_eq silent_callbacks room_decode RUNNING_def hm_exec_simps Let_def

lemma silent_opens:
  "dispatch_inbound mbox_tokio nowhere tx 0 0 (envelope_session_open room sid0) (Some 0) silent_server w =
     (InboundAwaiting room sid0 0, served_silent [] [SessionOpened sid0 0] [], w)"
  by (simp add: dispatch_inbound_def envelope_session_open_def inbound_session_open_def open_local_session_begin_def
      inbound_opening_def register_actor_def dispatch_message_def dispatch_admission_def dispatch_commit_def
      activate_route_def spawn_actor_def bounded_try_send_def try_send_error_def silent_exec MAX_PERMITS_def)

lemma silent_serves_open:
  "internal_step mbox_tokio nowhere tx (served_silent [] [SessionOpened sid0 0] [], w) (served_silent [] [] [(0, Ok ())], w)"
  by (rule internal_step.serve [where tid = 0 and p = TaskContinues and reg = silent_reg
        and t = "silent_task [] [SessionOpened sid0 0]"])
    (simp_all add: task_registration_def serve_once_def route_names_task_def receive_def
      bounded_try_recv_def execute_message_def set_actor_def update_task_def answer_def silent_exec)

lemma silent_action:
  "dispatch_inbound mbox_tokio nowhere tx 0 0 (envelope_action room sid0 [5]) (Some 0) (served_silent [] [] done) w =
     (InboundDone, served_silent [] [Action sid0 [5]] done, w)"
  by (simp add: dispatch_inbound_def envelope_action_def bound_reply_def is_bound_to_def dispatch_remote_message_def
      dispatch_message_def dispatch_admission_def dispatch_commit_def sink_def mailbox_try_send_def drop_reservation_def
      bounded_try_send_def silent_exec)

lemma silent_serves_action:
  "internal_step mbox_tokio nowhere tx (served_silent [] [Action sid0 [5]] done, w) (served_silent [(sid0, [5])] [] done, w)"
  by (rule internal_step.serve [where tid = 0 and p = TaskContinues and reg = silent_reg
        and t = "silent_task [] [Action sid0 [5]]"])
    (simp_all add: task_registration_def serve_once_def route_names_task_def receive_def
      bounded_try_recv_def execute_message_def set_actor_def update_task_def silent_exec)

section \<open>The run\<close>

text \<open>The in-memory registry with one connection and \<open>q\<close> on its way to the Server.\<close>

definition wired :: "envelope list \<Rightarrow> (u64 \<times> bytes) list \<Rightarrow> demo_registry" where
  "wired q seen =
     demo_wire\<lparr>im_links := [(0, \<lparr>lk_flag = False, lk_watch = False,
         lk_to_server = \<lparr>bc_queue = q, bc_max = 1024, bc_closed = False\<rparr>,
         lk_to_client = \<lparr>bc_queue = [], bc_max = 1024, bc_closed = False\<rparr>,
         lk_client_seen = False, lk_server_seen = False\<rparr>)], im_envelopes := seen\<rparr>"

lemma wired_start: "wired [] [] = demo_wire"
  by (simp add: wired_def demo_wire_defs Let_def hm_exec_simps)

lemma wired_sends: "inmem_try_send bounded_tokio ClientSide 0 env (wired [] seen) = (Ok (), wired [env] (seen @ [(0, env_session_id env)]))"
  by (simp add: wired_def demo_wire_defs Let_def hm_exec_simps)

lemma wired_receives: "inmem_recv bounded_tokio ServerSide 0 (wired [env] seen) = (RecvItem env, wired [] seen)"
  by (simp add: wired_def demo_wire_defs Let_def hm_exec_simps)

abbreviation no_log :: wire_log where
  "no_log \<equiv> \<lambda>_ _. []"

abbreviation silent_run ::
  "demo_server \<Rightarrow> (envelope bounded_channel, u64 bounded_channel) wire \<Rightarrow> (sender_id option \<times> envelope) list \<Rightarrow> bool" where
  "silent_run \<equiv> network_run mbox_tokio bounded_tokio bounded_tokio nowhere silent_server"

abbreviation client_log :: "envelope list \<Rightarrow> wire_log" where
  "client_log xs \<equiv> \<lambda>sd i. if sd = ClientSide \<and> i = 0 then xs else []"

abbreviation server_log :: "envelope list \<Rightarrow> wire_log" where
  "server_log xs \<equiv> \<lambda>sd i. if sd = ServerSide \<and> i = 0 then xs else []"

lemma log_append_lists [simp]:
  "log_append (client_log xs) ClientSide 0 env = client_log (xs @ [env])"
  "log_append (server_log xs) ServerSide 0 env = server_log (xs @ [env])"
  by (auto simp: log_append_def fun_eq_iff)

lemma wired_run: "silent_run silent_server (wired [] [], client_log [], server_log []) []"
proof -
  have "silent_run silent_server (snd (inmem_listen bounded_tokio ''a:1'' InmemRegistry_new), no_log, no_log) []"
    by (rule network_run.outside [OF network_run.start wire_step.listen]) (rule surjective_pairing)
  then have "silent_run silent_server (demo_wire, no_log, no_log) []"
    unfolding demo_wire_def
    by (rule network_run.outside [OF _ wire_step.connect [OF _ surjective_pairing]])
      (simp add: inmem_listen_def InmemRegistry_new_def Let_def)
  then show ?thesis by (simp add: wired_start)
qed

lemma wired_round:
  assumes "silent_run srv (wired [] seen, client_log xs, server_log xs) rs"
    and "dispatch_inbound mbox_tokio nowhere (inmem_tx bounded_tokio) 0 0 env (Some 0) srv
           (wired [] (seen @ [(0, env_session_id env)])) = (p, srv', wired [] (seen @ [(0, env_session_id env)]))"
  shows "silent_run srv' (wired [] (seen @ [(0, env_session_id env)]), client_log (xs @ [env]), server_log (xs @ [env]))
     (rs @ [(Some 0, env)])"
proof -
  have "silent_run srv (wired [env] (seen @ [(0, env_session_id env)]), client_log (xs @ [env]), server_log xs) rs"
    using network_run.outside [OF assms(1) wire_step.client_sends [OF wired_sends]] by simp
  from network_run.stream [OF this wired_receives, of 0 0 p srv', OF _ server_sends.nothing] assms(2)
  show ?thesis by simp
qed

lemma served_run:
  "silent_run (served_silent [(sid0, [5])] [] [(0, Ok ())])
     (wired [] [(0, replicate 16 0), (0, replicate 16 0)],
      client_log [envelope_session_open room sid0, envelope_action room sid0 [5]],
      server_log [envelope_session_open room sid0, envelope_action room sid0 [5]])
     [(Some 0, envelope_session_open room sid0), (Some 0, envelope_action room sid0 [5])]"
proof -
  note opened = wired_round [OF wired_run silent_opens]
  note answered = network_run.server [OF opened silent_serves_open server_sends.nothing]
  note queued = wired_round [OF answered silent_action]
  note given = network_run.server [OF queued silent_serves_action server_sends.nothing]
  moreover have "env_session_id (envelope_session_open room sid0) = replicate 16 0"
      "env_session_id (envelope_action room sid0 [5]) = replicate 16 0"
    by (simp_all add: envelope_session_open_def envelope_action_def)
  ultimately show ?thesis by (simp only: append.simps)
qed

lemma silent_recorded: "recorded_actors snd (registrations silent_server)"
  unfolding silent_server_def record_builder_registrations [of _ _ _ _ mbox_tokio None None] by (rule recorded.recorded_actors_axioms)

section \<open>Witnesses\<close>

lemma silent_received:
  "received_action (envelope_session_open room sid0) = []"
  "received_action (envelope_action room sid0 [5]) = [(room, sid0, [5])]"
  by (simp_all add: received_action_def envelope_session_open_def envelope_action_def room_decode)

lemma silent_start: "actors silent_server = hm_empty" "tasks silent_server = hm_empty"
  by (simp_all add: silent_server_def)

lemma silent_served:
  "hm_get (tasks (served_silent h q d)) 0 = Some (silent_task h q)" "task_address (silent_task h q) = room"
  "task_actor (silent_task h q) = ((), h)" "mailbox (silent_task h q) = \<lparr>bc_queue = q, bc_max = 2, bc_closed = False\<rparr>"
  by (simp_all add: served_silent_def silent_task_def)

theorem actions_at_most_once_in_order_witness:
  "subseq (map (Pair room) (snd (task_actor (silent_task [(sid0, [5])] []))))
     (received_actions [(Some 0, envelope_session_open room sid0), (Some 0, envelope_action room sid0 [5])])"
  using actions_at_most_once_in_order [OF bm.mailbox_tokio_axioms silent_recorded silent_start
      network_handlers [OF served_run], THEN conjunct1, rule_format, OF silent_served(1)]
  by (simp add: silent_served)

theorem session_actions_end_to_end_witness:
  "subseq [(sid0, [5])] (session_actions room sid0 [envelope_session_open room sid0, envelope_action room sid0 [5]])"
  using session_actions_end_to_end [OF bm.mailbox_tokio_axioms bt.mpsc_contract_axioms silent_recorded silent_start
      served_run silent_served(1), of 0 sid0]
  by (simp add: silent_served)

section \<open>An Event on its way back\<close>

text \<open>A Client with one Session on its first connection, and the Event the Server sends to it.\<close>

type_synonym listening_client = "(unit, session_item bounded_channel) client"

definition reply_event :: envelope where
  "reply_event = reply_envelope (SessionId_as_bytes sid0) (Kind_Event [7])"

definition fresh_client :: listening_client where
  "fresh_client = Client_with_transport ()"

definition registered_client :: listening_client where
  "registered_client =
     register_local sid0 0 (fresh_client\<lparr>cl_channels := hm_insert 0 (tk_channel bounded_tokio 1024) (cl_channels fresh_client)\<rparr>)"

definition bound_client :: listening_client where
  "bound_client = (case pool ''a:1'' registered_client of
     (p, cl) \<Rightarrow> snd (push_connection (\<lambda>_. False) p ''a:1'' sid0 0 cl))"

definition lobby_session :: session where
  "lobby_session = \<lparr>ss_address = room, ss_session_id = sid0, ss_receiver = 0, ss_connection = 0\<rparr>"

definition notified_client :: "session_item list \<Rightarrow> listening_client" where
  "notified_client q = bound_client\<lparr>cl_channels := [(0, \<lparr>bc_queue = q, bc_max = 1024, bc_closed = False\<rparr>)]\<rparr>"

lemmas listening_defs = notified_client_def bound_client_def push_connection_def client_register_inbound_task_def
  client_retain_inbound_tasks_def registered_client_def register_local_def fresh_client_def Client_with_transport_def
  Client_from_parts_def tc_bind_def tc_insert_def tc_count_bind_def fresh_ref_def pool_def pool_connections_def
  set_pool_def reply_event_def reply_envelope_def lobby_session_def
  hm_exec_simps Let_def

lemma event_arrives: "handle_envelope bounded_tokio reply_event 0 bound_client = notified_client [Ok [7]]"
  by (simp add: handle_envelope_def deliver_item_def offer_def bounded_try_send_def room_decode listening_defs)

lemma event_received: "session_recv bounded_tokio lobby_session (notified_client [Ok [7]]) = (Some (Ok [7]), notified_client [])"
  by (simp add: session_recv_def bounded_try_recv_def listening_defs)

definition wired_down :: "envelope list \<Rightarrow> demo_registry" where
  "wired_down q =
     demo_wire\<lparr>im_links := [(0, \<lparr>lk_flag = False, lk_watch = False,
         lk_to_server = \<lparr>bc_queue = [], bc_max = 1024, bc_closed = False\<rparr>,
         lk_to_client = \<lparr>bc_queue = q, bc_max = 1024, bc_closed = False\<rparr>,
         lk_client_seen = False, lk_server_seen = False\<rparr>)]\<rparr>"

lemma wired_down_steps:
  "inmem_try_send bounded_tokio ServerSide 0 env demo_wire = (Ok (), wired_down [env])"
  "inmem_recv bounded_tokio ClientSide 0 (wired_down [env]) = (RecvItem env, wired_down [])"
  by (simp_all add: wired_down_def demo_wire_defs Let_def hm_exec_simps)

abbreviation listening_run where
  "listening_run \<equiv> client_network bounded_tokio bc_queue bounded_tokio bounded_tokio"

lemma first_logs:
  "log_append no_log ServerSide 0 env = server_log [env]" "log_append no_log ClientSide 0 env = client_log [env]"
  by (auto simp: log_append_def fun_eq_iff)

lemma listening:
  "listening_run (\<lambda>_. sid0) [(0, reply_event)] ((\<lambda>_. [])(0 := [[7]])) (notified_client [])
     (wired_down [], server_log [reply_event], client_log [reply_event])"
proof -
  let ?seen = "\<lambda>r. (r :: demo_registry, no_log, no_log)"
  have "listening_run (\<lambda>_. sid0) [] (\<lambda>_. []) fresh_client (?seen InmemRegistry_new)"
    by (rule client_network.start) (simp_all add: listening_defs hm_empty_def)
  then have "listening_run (\<lambda>_. sid0) [] (\<lambda>_. []) fresh_client (?seen (snd (inmem_listen bounded_tokio ''a:1'' InmemRegistry_new)))"
    by (rule client_network.outside [OF _ wire_step.listen]) (rule surjective_pairing)
  then have "listening_run (\<lambda>_. sid0) [] (\<lambda>_. []) fresh_client (?seen demo_wire)"
    unfolding demo_wire_def
    by (rule client_network.outside [OF _ wire_step.connect [OF _ surjective_pairing]])
      (simp add: inmem_listen_def InmemRegistry_new_def Let_def)
  then have "listening_run ((\<lambda>_. sid0)(0 := sid0)) [] ((\<lambda>_. [])(0 := [])) registered_client (?seen demo_wire)"
    unfolding registered_client_def by (rule client_network.session) (simp_all add: listening_defs)
  then have "listening_run (\<lambda>_. sid0) [] (\<lambda>_. []) registered_client (?seen demo_wire)"
    by (simp add: fun_upd_idem)
  then have "listening_run (\<lambda>_. sid0) [] (\<lambda>_. []) bound_client (?seen demo_wire)"
    unfolding bound_client_def split_beta
    by (rule client_network.other [OF client_network.other]) (rule bounded_events.quiet_sections)+
  moreover have "server_sends bounded_tokio (demo_wire, no_log) (wired_down [reply_event], server_log [reply_event])"
    using server_sends.one [OF server_sends.nothing wired_down_steps(1)] by (simp add: first_logs [symmetric])
  ultimately have "listening_run (\<lambda>_. sid0) [] (\<lambda>_. []) bound_client (wired_down [reply_event], server_log [reply_event], no_log)"
    by (rule client_network.server)
  from client_network.stream [OF this wired_down_steps(2)]
  have "listening_run (\<lambda>_. sid0) [(0, reply_event)] (\<lambda>_. []) (notified_client [Ok [7]])
      (wired_down [], server_log [reply_event], client_log [reply_event])"
    by (simp add: event_arrives first_logs)
  from client_network.recv [OF this event_received] show ?thesis by (simp add: lobby_session_def)
qed

theorem session_events_end_to_end_witness:
  "subseq [[7]] (session_events sid0 [reply_event])"
  using session_events_end_to_end [OF bounded_events.event_channels_axioms bt.mpsc_contract_axioms listening, of 0 0]
  by (auto simp: events_at_def listening_defs split: if_splits)

end
