(* ===== verification/Stale_Process.thy ===== *)
theory Stale_Process
  imports Memory_Store Runtime_Properties
begin

text \<open>
  Node identity and process identity.  A Node ID is a slot that successive processes occupy; a new
  process takes the slot over when the Node Lease of the old one has expired.  \<open>dispatch_inbound\<close>
  resolves ownership before it looks at its own authority, and \<open>resolve\<close> claims a record that names
  its own Node ID under another session without looking at the Node Lease.  So a process that has
  lost its slot can still take an Actor from its successor.  It then refuses the Session, but the
  record names a session without a lease, and the next Server takes the Actor over while the
  successor, whose lease is live, goes on serving it.

  Three Servers share the in-memory store: the old process, its successor, and another node.
\<close>

section \<open>Resolution on a quiet store\<close>

text \<open>The store after \<open>r\<close> has claimed the address whose record was \<open>v\<close>.\<close>

definition claimed_by :: "router \<Rightarrow> actor_address \<Rightarrow> versioned_actor_owner_record \<Rightarrow> test_store \<Rightarrow> test_store" where
  "claimed_by r a v w =
     snd (test_compare_exchange a (local_claim r (next_epoch (Some v))) (Some (vr_revision v)) w)"

lemma interfere_quiet [simp]: "ts_foreign w = [] \<Longrightarrow> interfere w = w"
  by (simp add: interfere_def)

lemma claimed_by_applied:
  assumes "hm_get (ts_owners w) a = Some v"
  shows "\<exists>rv. test_compare_exchange a (local_claim r (next_epoch (Some v))) (Some (vr_revision v)) w
           = (Applied rv, claimed_by r a v w)
         \<and> hm_get (ts_owners (claimed_by r a v w)) a
           = Some \<lparr>vr_record = local_claim r (next_epoch (Some v)), vr_revision = rv\<rparr>"
    and "ts_foreign (claimed_by r a v w) = ts_foreign w"
    and "live_lease (claimed_by r a v w) n = live_lease w n"
  using assms by (auto simp: claimed_by_def test_compare_exchange_def live_lease_def Let_def split: option.splits)

lemma resolve_own_node:
  assumes "ts_foreign w = []" and "hm_get (ts_owners w) a = Some v" and "owner (vr_record v) = Some ow"
    and "ao_node_id ow = router_node_id r" and "ao_session_id ow \<noteq> router_session_id r"
    and "tk_try_acquire T cap = Some cap'"
  shows "resolve T memory_store r a cap w = (Ok (Local True), cap', claimed_by r a v w)"
proof -
  obtain rv where "test_compare_exchange a (local_claim r (next_epoch (Some v))) (Some (vr_revision v)) w
      = (Applied rv, claimed_by r a v w)"
    using claimed_by_applied(1) [OF assms(2)] by blast
  then have "claim T memory_store r a (next_epoch (Some v)) (Some (vr_revision v)) cap w
      = (Ok (Local True), cap', claimed_by r a v w)"
    using assms(1,6) by (simp add: claim_def memory_store_def Let_def)
  then show ?thesis
    using assms by (simp add: resolve_def numeral_3_eq_3 resolve_round_def memory_store_def is_local_owner_def
        next_epoch_def Let_def)
qed

lemma resolve_other_node:
  assumes "ts_foreign w = []" and "hm_get (ts_owners w) a = Some v" and "owner (vr_record v) = Some ow"
    and "ao_node_id ow \<noteq> router_node_id r" and "live_lease w (ao_node_id ow) = Some l"
    and "nr_session_id (tl_node l) \<noteq> ao_session_id ow" and "tk_try_acquire T cap = Some cap'"
  shows "resolve T memory_store r a cap w = (Ok (Local True), cap', claimed_by r a v w)"
proof -
  obtain rv where "test_compare_exchange a (local_claim r (next_epoch (Some v))) (Some (vr_revision v)) w
      = (Applied rv, claimed_by r a v w)"
    using claimed_by_applied(1) [OF assms(2)] by blast
  then have "take_ownership T memory_store r a (Some v) cap w = Inl (Ok (Local True), cap', claimed_by r a v w)"
    using assms(1,7) by (simp add: take_ownership_def memory_store_def Let_def)
  then show ?thesis
    using assms by (simp add: resolve_def numeral_3_eq_3 resolve_round_def memory_store_def is_local_owner_def Let_def)
qed

section \<open>Opening a Session\<close>

lemma open_envelope_dispatched:
  assumes "valid_address a" and "valid_session_id sid" and "transport_protocol_version srv = TRANSPORT_PROTOCOL_VERSION"
    and "cluster srv = Some r" and "resolve T S r a (capacity srv) w = (Ok (Local b), cap, w')"
  shows "dispatch_inbound T S tx now c (envelope_session_open a sid) (Some k) srv w =
     inbound_opening tx (Some k) (SessionId_as_bytes sid) a sid c
       (open_local_session_begin T now a sid (Remote k) c b (srv\<lparr>capacity := cap\<rparr>)) w'"
  using assms address_from_own_bytes [OF assms(1)]
  by (simp add: dispatch_inbound_def envelope_session_open_def inbound_session_open_def Let_def)

text \<open>A Server that may not serve refuses, without a trace in its Routes.\<close>

lemma refused_opening:
  assumes "dispatch_admission now srv \<noteq> None"
    and "open_local_session_begin T now a sid snk c b srv = (p, srv')"
  shows "actors srv' = actors srv \<and> (\<exists>res. p = OpenDone res)"
proof -
  have adm: "dispatch_admission now (srv\<lparr>sessions := rg\<rparr>) = dispatch_admission now srv" for rg
    by (simp add: dispatch_admission_def)
  show ?thesis
    using assms
    by (auto simp: open_local_session_begin_def dispatch_message_def adm drop_reservation_def
        split: option.splits prod.splits if_splits bool.splits)
qed


text \<open>A Server whose opening goes on to wait for the Actor has claimed the address.\<close>

lemma opening_claims:
  assumes "valid_address a" and "valid_session_id sid" and "transport_protocol_version srv = TRANSPORT_PROTOCOL_VERSION"
    and "cluster srv = Some r"
    and resolves: "\<And>cap. tk_try_acquire T (capacity srv) = Some cap \<Longrightarrow>
           resolve T memory_store r a (capacity srv) w = (Ok (Local True), cap, claimed_by r a v w)"
    and full: "tk_try_acquire T (capacity srv) = None \<Longrightarrow>
           \<exists>w'. resolve T memory_store r a (capacity srv) w = (Err RuntimeAtCapacity, capacity srv, w')"
    and "mailbox_tokio T queued shut"
    and "dispatch_inbound T memory_store tx now c (envelope_session_open a sid) (Some k) srv w = (InboundAwaiting a sid c, srv', w')"
  shows "w' = claimed_by r a v w \<and> accepted queued shut a (SessionOpened sid c) srv'"
proof (cases "tk_try_acquire T (capacity srv)")
  case None
  then show ?thesis
    using full [OF None] assms(1-4,8) address_from_own_bytes [OF assms(1)]
    by (auto simp: dispatch_inbound_def envelope_session_open_def inbound_session_open_def Let_def)
next
  case (Some cap)
  obtain p srv1 where b: "open_local_session_begin T now a sid (Remote k) c True (srv\<lparr>capacity := cap\<rparr>) = (p, srv1)"
    by fastforce
  then have p: "p = Awaiting" "srv' = srv1" "w' = claimed_by r a v w"
    using open_envelope_dispatched [OF assms(1-4) resolves [OF Some], of tx now c k] assms(8)
    by (auto simp: inbound_opening_def split: open_progress.splits)
  then obtain rg where "dispatch_message T now a (SessionOpened sid c) True (srv\<lparr>capacity := cap, sessions := rg\<rparr>) = (Some (Ok ()), srv')"
    using b by (auto simp: open_local_session_begin_def split: option.splits prod.splits if_splits bool.splits sum.splits)
  then show ?thesis using mailbox_tokio.dispatch_message_outcome [OF assms(7)] delivered_accepted p(3) by blast
qed

section \<open>Properties\<close>

text \<open>
  C5. Two Servers with live leases serve one Actor.  The process \<open>old\<close> of node \<open>n\<close> may no longer serve
  (its authority has expired, or it is fenced or stopping); session \<open>s\<close>, its successor, owns the Actor
  and holds the lease.  A \<open>SessionOpen\<close> that reaches \<open>old\<close> is refused, but first takes the ownership
  record; the next \<open>SessionOpen\<close> that another node accepts is then a takeover, and activates the Actor
  there.  Nothing has touched the successor: its lease is live and it accepts the next Action.
\<close>

theorem stale_process_splits_ownership:
  assumes "mailbox_tokio T queued shut" and "\<And>k env w. snd (tx k env w) = w"
    and "ts_foreign w = []" and "valid_address a" and "valid_session_id sid" and "valid_session_id sid'"
    and "hm_get (ts_owners w) a = Some v" and "owner (vr_record v) = Some \<lparr>ao_node_id = n, ao_session_id = s\<rparr>"
    and "live_lease w n = Some l" and "nr_session_id (tl_node l) = s"
    and "cluster old = Some r" and "router_node_id r = n" and "router_session_id r \<noteq> s"
    and "transport_protocol_version old = TRANSPORT_PROTOCOL_VERSION"
    and "dispatch_admission t old \<noteq> None" and "tk_try_acquire T (capacity old) = Some cap"
    and "dispatch_inbound T memory_store tx t c (envelope_session_open a sid) (Some k) old w = (p, old', w1)"
    and "cluster other = Some r'" and "router_node_id r' \<noteq> n"
    and "transport_protocol_version other = TRANSPORT_PROTOCOL_VERSION"
    and "dispatch_inbound T memory_store tx t' c' (envelope_session_open a sid') (Some k') other w1
           = (InboundAwaiting a sid' c', other', w2)"
    and "dispatch_admission t'' successor = None" and "hm_get (actors successor) a = Some route"
    and "rt_state route = Active" and "hm_get (tasks successor) (rt_task route) = Some task"
    and "\<not> shut (mailbox task)" and "length (queued (mailbox task)) < tk_max_capacity T (mailbox task)"
  shows "p = InboundDone \<and> actors old' = actors old
     \<and> (\<exists>u. hm_get (ts_owners w1) a = Some u \<and> is_local_owner r (vr_record u))
     \<and> (\<exists>u. hm_get (ts_owners w2) a = Some u \<and> is_local_owner r' (vr_record u))
     \<and> live_lease w2 n = Some l
     \<and> accepted queued shut a (SessionOpened sid' c') other'
     \<and> fst (dispatch_message T t'' a m False successor) = Some (Ok ())"
proof -
  have "resolve T memory_store r a (capacity old) w = (Ok (Local True), cap, claimed_by r a v w)"
    by (rule resolve_own_node [OF assms(3,7,8)]) (use assms in auto)
  note open_old = open_envelope_dispatched [OF assms(4,5,14,11) this, of tx t c k]
  obtain q old1 where b: "open_local_session_begin T t a sid (Remote k) c True (old\<lparr>capacity := cap\<rparr>) = (q, old1)" by fastforce
  have "dispatch_admission t (old\<lparr>capacity := cap\<rparr>) = dispatch_admission t old" by (simp add: dispatch_admission_def)
  with assms(15) have "dispatch_admission t (old\<lparr>capacity := cap\<rparr>) \<noteq> None" by simp
  from refused_opening [OF this b] obtain res where "actors old1 = actors old" "q = OpenDone res" by auto
  then have one: "p = InboundDone" "actors old' = actors old" "w1 = claimed_by r a v w"
    using open_old b assms(2,17) by (auto simp: inbound_opening_def send_opened_ack_def Let_def)
  obtain rv where u: "hm_get (ts_owners w1) a = Some \<lparr>vr_record = local_claim r (next_epoch (Some v)), vr_revision = rv\<rparr>"
    using claimed_by_applied(1) [OF assms(7), of r] one(3) by blast
  let ?u = "\<lparr>vr_record = local_claim r (next_epoch (Some v)), vr_revision = rv\<rparr>"
  have q1: "ts_foreign w1 = []" "live_lease w1 n = Some l"
    using claimed_by_applied(2,3) [OF assms(7)] assms(3,9) one(3) by simp_all
  have res: "resolve T memory_store r' a (capacity other) w1 = (Ok (Local True), cap', claimed_by r' a ?u w1)"
    if "tk_try_acquire T (capacity other) = Some cap'" for cap'
    by (rule resolve_other_node [where ow = "\<lparr>ao_node_id = n, ao_session_id = router_session_id r\<rparr>" and l = l, OF q1(1) u])
      (use assms(10,12,13,19) q1(2) that in \<open>auto simp: local_claim_def\<close>)
  have full: "\<exists>w'. resolve T memory_store r' a (capacity other) w1 = (Err RuntimeAtCapacity, capacity other, w')"
    if "tk_try_acquire T (capacity other) = None"
    using that u q1 assms(10,12,13,19)
    by (simp add: resolve_def numeral_3_eq_3 resolve_round_def take_ownership_def memory_store_def is_local_owner_def
        local_claim_def Let_def)
  have two: "w2 = claimed_by r' a ?u w1" "accepted queued shut a (SessionOpened sid' c') other'"
    using opening_claims [OF assms(4,6,20,18) res full assms(1,21)] by simp_all
  have "mpsc_contract T queued shut" using assms(1) by (simp add: mailbox_tokio_def tokio_contract_def)
  then have "fst (tk_try_send T (mailbox task) m) = Sent"
    using assms(26,27) by (simp add: mpsc_contract.try_send_Sent_iff)
  then have "fst (dispatch_message T t'' a m False successor) = Some (Ok ())"
    using assms(22-25) by (auto simp: dispatch_message_def dispatch_commit_def mailbox_try_send_def split: prod.splits)
  moreover have "\<exists>u. hm_get (ts_owners w2) a = Some u \<and> is_local_owner r' (vr_record u)"
    using claimed_by_applied(1) [OF u, of r'] two(1) by (auto simp: is_local_owner_def local_claim_def)
  moreover have "\<exists>u. hm_get (ts_owners w1) a = Some u \<and> is_local_owner r (vr_record u)"
    using u by (auto simp: is_local_owner_def local_claim_def)
  moreover have "live_lease w2 n = Some l"
    using claimed_by_applied(3) [OF u] q1(2) two(1) by simp
  ultimately show ?thesis using one two(2) by blast
qed


section \<open>A concrete run\<close>

text \<open>
  Node \<open>a\<close>: process \<open>s1\<close> has lost its lease to process \<open>s3\<close>, which owns the room.  Node \<open>b\<close> is another
  Server of the deployment.
\<close>

type_synonym store_server = "(unit, test_store, mailbox_message bounded_channel, nat) server"

definition plain :: "(unit, test_store) registration" where
  "plain =
     \<lparr>reg_name = '''', reg_create = (\<lambda>_. Returned ()),
      reg_activate = (\<lambda>_ _ x w. (Returned (Ok ()), x, w)),
      reg_deactivate = (\<lambda>_ _ _ x w. (Done (Returned ()), x, w)),
      reg_handle = (\<lambda>_ _ _ _ x w. (Returned Completed, x, w)),
      reg_session_opened = (\<lambda>_ _ _ x w. (Returned (), x, w)),
      reg_session_closed = (\<lambda>_ _ _ x w. (Returned (), x, w)),
      mailbox_capacity = None, idle_timeout = None\<rparr>"

definition plain_builder :: "(unit, test_store) builder_core" where
  "plain_builder =
     add_actor plain \<lparr>ac_name = ''room'', ac_mailbox_capacity = Some 2, ac_idle_timeout = None\<rparr> ServerBuilderCore_base"

abbreviation node_a_next :: router where
  "node_a_next \<equiv> \<lparr>router_node_id = ''a'', router_session_id = ''s3'', operation_timeout = 5\<rparr>"

definition plain_server :: "instant \<Rightarrow> router \<Rightarrow> store_server" where
  "plain_server started r = initial_server mbox_tokio plain_builder (Some (NodeAuthority_new started 10)) (Some r)"

definition serving_successor :: store_server where
  "serving_successor =
     (plain_server 20 node_a_next)\<lparr>actors := [(room, \<lparr>rt_generation = 1, rt_state = Active, rt_task = 0\<rparr>)],
       tasks := [(0, \<lparr>task_address = room, task_generation = 1, task_actor = (),
          mailbox = \<lparr>bc_queue = [], bc_max = 2, bc_closed = False\<rparr>,
          shutdown_flag = False, shutdown_changed = False, task_aborted = False, task_completed = False\<rparr>)]\<rparr>"

definition idle_record :: "string \<Rightarrow> node_session_id \<Rightarrow> node_record" where
  "idle_record n s =
     \<lparr>nr_node_id = n, nr_session_id = s, nr_advertised_endpoint = ''h:1'', nr_protocol_version = TRANSPORT_PROTOCOL_VERSION,
      nr_lease_generation = 0, nr_sampled_at_unix_ms = 0, nr_active_actor_count = 0, nr_max_actor_count = 1,
      nr_pressured = False, nr_draining = False\<rparr>"

definition handed_over :: test_store where
  "handed_over =
     TestCoordinationStore_default
       \<lparr>ts_leases := [(''a'', \<lparr>tl_node = idle_record ''a'' ''s3'', tl_revision = ''r'', tl_expires_at_unix_ms = 9\<rparr>)],
        ts_owners := [(room, \<lparr>vr_record = local_claim node_a_next 2, vr_revision = ''r2''\<rparr>)]\<rparr>"

definition mute_tx :: "test_store transport" where
  "mute_tx k env w = (Ok (), w)"

lemma plain_server_eq:
  "plain_server started r =
     \<lparr>registrations = [(''room'', plain\<lparr>reg_name := ''room'', mailbox_capacity := Some 2, idle_timeout := Some (from_secs 60)\<rparr>)],
      actors = [], sessions = [], capacity = 10000, max_active_actors = 10000,
      deactivation_timeout = from_secs 5, next_generation = 1, status = 0,
      shutdown_timeout = from_secs 30, transport_protocol_version = TRANSPORT_PROTOCOL_VERSION,
      authority = Some (NodeAuthority_new started 10), cluster = Some r, inbound_tasks = [], tasks = [], next_task = 0,
      answers = []\<rparr>"
  by (simp add: plain_server_def initial_server_def plain_def plain_builder_def add_actor_def Registration_of_def
      ServerBuilderCore_base_def Let_def configured_def hm_exec_simps RUNNING_def SessionRegistry_new_def)

lemmas plain_exec = plain_server_eq NodeAuthority_new_def authority_is_valid_def dispatch_admission_def RUNNING_def hm_exec_simps Let_def

lemma valid_room: "valid_address room" "valid_session_id sid0"
proof -
  show "valid_address room" by code_simp
  show "valid_session_id sid0" by (simp add: valid_session_id_def)
qed

text \<open>Node \<open>b\<close> resolves the address and opens the Session.\<close>

lemma b_opens:
  assumes "resolve mbox_tokio memory_store node_b room 10000 w = (Ok (Local True), 9999, w')"
  shows "\<exists>srv'. dispatch_inbound mbox_tokio memory_store mute_tx 20 0 (envelope_session_open room sid0) (Some 8)
     (plain_server 20 node_b) w = (InboundAwaiting room sid0 0, srv', w')"
proof -
  have "fst (open_local_session_begin mbox_tokio 20 room sid0 (Remote 8) 0 True ((plain_server 20 node_b)\<lparr>capacity := 9999\<rparr>)) = Awaiting"
    by (simp add: open_local_session_begin_def register_actor_def dispatch_message_def dispatch_commit_def
        activate_route_def spawn_actor_def bounded_try_send_def plain_def try_send_error_def plain_exec MAX_PERMITS_def)
  then show ?thesis
    using open_envelope_dispatched [OF valid_room, of "plain_server 20 node_b" node_b mbox_tokio memory_store w True 9999 w' mute_tx 20 0 8]
      assms
    by (auto simp: inbound_opening_def plain_server_eq split: prod.splits)
qed

theorem stale_process_splits_ownership_witness:
  "\<exists>old' w1 other' w2.
     dispatch_inbound mbox_tokio memory_store mute_tx 20 0 (envelope_session_open room sid0) (Some 7)
       (plain_server 0 node_a) handed_over = (InboundDone, old', w1)
     \<and> dispatch_inbound mbox_tokio memory_store mute_tx 20 0 (envelope_session_open room sid0) (Some 8)
       (plain_server 20 node_b) w1 = (InboundAwaiting room sid0 0, other', w2)
     \<and> accepted bc_queue bc_closed room (SessionOpened sid0 0) other'
     \<and> live_lease w2 ''a'' \<noteq> None
     \<and> fst (dispatch_message mbox_tokio 20 room (Action sid0 [1]) False serving_successor) = Some (Ok ())"
proof -
  obtain p old' w1 where one: "dispatch_inbound mbox_tokio memory_store mute_tx 20 0 (envelope_session_open room sid0) (Some 7)
      (plain_server 0 node_a) handed_over = (p, old', w1)" by (metis prod_cases3)
  let ?v = "\<lparr>vr_record = local_claim node_a_next 2, vr_revision = ''r2''\<rparr>"
  have h: "ts_foreign handed_over = []" "hm_get (ts_owners handed_over) room = Some ?v"
      "owner (vr_record ?v) = Some \<lparr>ao_node_id = ''a'', ao_session_id = ''s3''\<rparr>"
      "live_lease handed_over ''a'' = Some \<lparr>tl_node = idle_record ''a'' ''s3'', tl_revision = ''r'', tl_expires_at_unix_ms = 9\<rparr>"
    by (simp_all add: handed_over_def TestCoordinationStore_default_def live_lease_def local_claim_def)
  have r1: "resolve mbox_tokio memory_store node_a room 10000 handed_over = (Ok (Local True), 9999, claimed_by node_a room ?v handed_over)"
    by (rule resolve_own_node [OF h(1-3)]) simp_all
  have w1: "w1 = claimed_by node_a room ?v handed_over"
    using open_envelope_dispatched [OF valid_room, of "plain_server 0 node_a" node_a mbox_tokio memory_store handed_over True 9999 _ mute_tx 20 0 7]
      r1 one by (auto simp: inbound_opening_def send_opened_ack_def mute_tx_def plain_server_eq Let_def split: prod.splits open_progress.splits)
  obtain u where u: "hm_get (ts_owners w1) room = Some u" "vr_record u = local_claim node_a 3"
    using claimed_by_applied(1) [OF h(2), of node_a] w1 by (auto simp: next_epoch_def local_claim_def saturating_add_def)
  have "resolve mbox_tokio memory_store node_b room 10000 w1 = (Ok (Local True), 9999, claimed_by node_b room u w1)"
    by (rule resolve_other_node [where ow = "\<lparr>ao_node_id = ''a'', ao_session_id = ''s1''\<rparr>"
          and l = "\<lparr>tl_node = idle_record ''a'' ''s3'', tl_revision = ''r'', tl_expires_at_unix_ms = 9\<rparr>", OF _ u(1)])
      (use h u(2) w1 claimed_by_applied(2,3) [OF h(2)] in \<open>simp_all add: local_claim_def idle_record_def\<close>)
  from b_opens [OF this] obtain other' where two:
      "dispatch_inbound mbox_tokio memory_store mute_tx 20 0 (envelope_session_open room sid0) (Some 8)
         (plain_server 20 node_b) w1 = (InboundAwaiting room sid0 0, other', claimed_by node_b room u w1)" by blast
  have "p = InboundDone \<and> accepted bc_queue bc_closed room (SessionOpened sid0 0) other'
      \<and> live_lease (claimed_by node_b room u w1) ''a'' \<noteq> None
      \<and> fst (dispatch_message mbox_tokio 20 room (Action sid0 [1]) False serving_successor) = Some (Ok ())"
    using stale_process_splits_ownership [OF bm.mailbox_tokio_axioms _ h(1) valid_room valid_room(2) h(2-4) _ _ _ _ _ _ _ one _ _ _ two,
        of node_a 9999 node_b 20 serving_successor "\<lparr>rt_generation = 1, rt_state = Active, rt_task = 0\<rparr>" _ "Action sid0 [1]"]
    by (simp add: mute_tx_def serving_successor_def idle_record_def plain_exec)
  then show ?thesis using one two by blast
qed

end
