(* ===== verification/Owner_Takeover.thy ===== *)
theory Owner_Takeover
  imports Lease_Protocol
begin

text \<open>
  What a takeover of an Actor may rely on.  A Server that finds an ownership record of another node
  looks that node's lease up (\<open>read_node\<close> of \<open>cluster/s3.rs\<close>) and takes the Actor over unless the lease is
  live under the recorded session.  Over the lease protocol: the recorded session then has no
  authority any more after the overlap of \<open>Lease_Protocol\<close>, unless a renewal of it takes effect after
  the lookup.  The lookup writes nothing, so such a renewal is not turned away.
\<close>

section \<open>The lookup\<close>

text \<open>The session a node finds that reads the lease in \<open>w\<close> and then its wall clock, at \<open>wall\<close>.\<close>

definition lease_lookup :: "nat \<Rightarrow> lease_world \<Rightarrow> node_session_id option" where
  "lease_lookup wall w =
     (case lw_lease w of
        None \<Rightarrow> None
      | Some (s, e) \<Rightarrow> if e \<le> wall_ms wall then None else Some s)"

lemma lost_in_past:
  assumes "lease_reach ttl skew w" and "hm_get (lw_lost w) s = Some lost"
  shows "lost \<le> lw_time w"
proof -
  have keep: "\<forall>s l. hm_get (lw_lost w) s = Some l \<longrightarrow> l \<le> lw_time w \<Longrightarrow>
      \<forall>s l. hm_get (lw_lost w') s = Some l \<longrightarrow> l \<le> lw_time w'" if "lease_step ttl skew w w'" for w w'
    using that by (induction rule: lease_step.induct) (auto split: if_splits intro: order_trans)
  have "(lease_step ttl skew)\<^sup>*\<^sup>* lease_world_empty w \<Longrightarrow> \<forall>s l. hm_get (lw_lost w) s = Some l \<longrightarrow> l \<le> lw_time w"
  proof (induction rule: rtranclp_induct)
    case base
    then show ?case by (simp add: lease_world_empty_def)
  next
    case (step w w')
    then show ?case using keep [OF step.hyps(2)] by blast
  qed
  then show ?thesis using assms unfolding lease_reach_def by blast
qed

text \<open>A session that a lookup does not find can trust no earlier write for long.\<close>

lemma lookup_miss_covers:
  assumes "lease_reach ttl skew w" and "lw_time w \<le> seen" and "reads skew seen wall" and "as_millis wall < 2 ^ 64"
    and "lease_lookup wall w \<noteq> Some s" and "(s, u) \<in> set (lw_starts w)"
  shows "u + ttl < seen + overlap skew"
proof -
  have c: "covers ttl skew (lw_lease w) (lw_lost w) s u"
    using lease_inv_starts [OF lease_reach_inv [OF assms(1)] assms(6)] .
  have lost: "u + ttl < seen + overlap skew" if "lost_covers ttl skew (lw_lost w) s u"
    using that lost_in_past [OF assms(1)] assms(2) by (fastforce simp: lost_covers_def)
  show ?thesis
  proof (cases "lw_lease w")
    case None
    then show ?thesis using c lost by simp
  next
    case (Some h)
    obtain s' e where h: "h = (s', e)" by fastforce
    show ?thesis
    proof (cases "s' = s")
      case True
      then have "e \<le> wall_ms wall" using assms(5) Some h by (auto simp: lease_lookup_def split: if_splits)
      then show ?thesis using expired_covers [OF _ _ assms(4,3) order_refl] c Some h True by simp
    qed (use c Some h lost in simp)
  qed
qed

section \<open>Properties\<close>

text \<open>
  C6. A takeover outlasts its victim.  When a node reads the lease of another, sees by its own clock
  at time \<open>seen\<close> that it is not live under session \<open>s\<close>, and no write of \<open>s\<close> takes effect after that
  read, then whatever else happens the authority of \<open>s\<close> is invalid from \<open>seen\<close> plus two milliseconds
  plus twice the clock skew on: the Actors it owned can be served elsewhere.
\<close>

theorem takeover_fences_owner:
  assumes "lease_reach ttl skew w" and "lw_time w \<le> seen" and "reads skew seen wall" and "as_millis wall < 2 ^ 64"
    and "lease_lookup wall w \<noteq> Some s"
    and "(lease_step ttl skew)\<^sup>*\<^sup>* w w'" and "\<And>u. (s, u) \<in> set (lw_starts w') \<Longrightarrow> (s, u) \<in> set (lw_starts w)"
    and "hm_get (lw_authority w') s = Some a" and "seen + overlap skew \<le> t"
  shows "\<not> authority_is_valid a t"
proof -
  have "lease_reach ttl skew w'" using assms(1,6) unfolding lease_reach_def by (rule rtranclp_trans)
  then obtain u where u: "(s, u) \<in> set (lw_starts w')" "na_deadline a = u + ttl"
    using lease_inv_authority [OF lease_reach_inv assms(8)] by blast
  show ?thesis
    using lookup_miss_covers [OF assms(1-5) assms(7) [OF u(1)]] u(2) assms(9) by (simp add: authority_is_valid_def)
qed

text \<open>Session \<open>a\<close> holds the lease until 10 s by the store; another node looks at just that moment.\<close>

definition expiring :: lease_world where
  "expiring =
     \<lparr>lw_time = 10000000000, lw_lease = Some (''a'', lease_expiry (wall_ms 999999) 10000000000),
      lw_authority = [(''a'', NodeAuthority_new 999999 10000000000)],
      lw_starts = [(''a'', 999999)], lw_lost = []\<rparr>"

lemma expiring_reached: "lease_reach 10000000000 0 expiring"
proof -
  let ?step = "lease_step 10000000000 0"
  let ?w1 = "lease_world_empty\<lparr>lw_time := 999999\<rparr>"
  let ?w2 = "?w1\<lparr>lw_lease := Some (''a'', lease_expiry (wall_ms 999999) 10000000000), lw_starts := [(''a'', 999999)]\<rparr>"
  let ?w3 = "?w2\<lparr>lw_authority := hm_insert ''a'' (NodeAuthority_new 999999 10000000000) (lw_authority ?w2)\<rparr>"
  have "?step lease_world_empty ?w1" by (rule lease_step.tick) (simp add: lease_world_empty_def)
  moreover have "?step ?w1 ?w2"
    using lease_step.acquire_absent [of ?w1 "''a''" 999999 999999 0 999999 10000000000]
    by (simp add: lease_world_empty_def reads_def as_millis_def)
  moreover have "?step ?w2 ?w3" by (rule lease_step.learn_acquired) (simp_all add: lease_world_empty_def)
  moreover have "?step ?w3 expiring"
    using lease_step.tick [of ?w3 10000000000] by (simp add: expiring_def lease_world_empty_def hm_exec_simps)
  ultimately show ?thesis
    unfolding lease_reach_def by (blast intro: converse_rtranclp_into_rtranclp rtranclp.rtrancl_refl)
qed

lemma expiring_not_found: "lease_lookup 10000000000 expiring = None"
  by (simp add: lease_lookup_def expiring_def lease_expiry_def wall_ms_def millis_u64_def as_millis_def saturating_add_def)

theorem takeover_fences_owner_witness:
  "lease_lookup 10000000000 expiring \<noteq> Some ''a''
   \<and> \<not> authority_is_valid (NodeAuthority_new 999999 10000000000) (10000000000 + overlap 0)"
  using takeover_fences_owner [OF expiring_reached, of 10000000000 10000000000 "''a''" expiring
      "NodeAuthority_new 999999 10000000000" "10000000000 + overlap 0"] expiring_not_found
  by (simp add: reads_def as_millis_def expiring_def)

text \<open>
  The condition on later writes is needed, with perfect clocks too: a renewal sent at 9.9 s takes effect
  after the lookup and is answered before the local deadline, and \<open>a\<close> has authority for almost ten
  seconds more.
\<close>

lemma renewal_outlives_takeover:
  "\<exists>w' a. lease_reach 10000000000 0 expiring \<and> lease_lookup 10000000000 expiring = None
     \<and> (lease_step 10000000000 0)\<^sup>*\<^sup>* expiring w' \<and> lw_time w' < 10000999999
     \<and> hm_get (lw_authority w') ''a'' = Some a \<and> authority_is_valid a 19800000000"
proof -
  let ?step = "lease_step 10000000000 0"
  let ?w1 = "expiring\<lparr>lw_time := 10000500000\<rparr>"
  let ?w2 = "?w1\<lparr>lw_lease := Some (''a'', lease_expiry (wall_ms 9900000000) 10000000000),
      lw_starts := (''a'', 9900000000) # lw_starts ?w1\<rparr>"
  let ?a = "authority_renew 9900000000 (NodeAuthority_new 999999 10000000000)"
  let ?w3 = "?w2\<lparr>lw_authority := hm_insert ''a'' ?a (lw_authority ?w2)\<rparr>"
  have "?step expiring ?w1" by (rule lease_step.tick) (simp add: expiring_def)
  moreover have "?step ?w1 ?w2"
    by (rule lease_step.renew [where computed = 9900000000]) (simp_all add: expiring_def reads_def as_millis_def)
  moreover have "?step ?w2 ?w3" by (rule lease_step.learn_renewed) (simp_all add: expiring_def)
  ultimately have "?step\<^sup>*\<^sup>* expiring ?w3"
    by (blast intro: converse_rtranclp_into_rtranclp rtranclp.rtrancl_refl)
  moreover have "authority_is_valid ?a 19800000000"
    by (simp add: authority_is_valid_def authority_renew_def NodeAuthority_new_def)
  moreover have "lw_time ?w3 < 10000999999" "hm_get (lw_authority ?w3) ''a'' = Some ?a" by simp_all
  ultimately show ?thesis using expiring_reached expiring_not_found by blast
qed

end
