(* ===== verification/Broadcast.thy ===== *)
theory Broadcast
  imports Test_Server
begin

text \<open>
  What a transport promises to the runtime (the traits of \<open>transport/mod.rs\<close>), as a locale, and the two
  transports as instances: \<open>grpc.rs\<close> and \<open>inmem.rs\<close> on the Server's side.  Over any such transport:
  a broadcast reaches every Session of the Actor whose connection has room, once, in the order of the
  registry, whatever happens on the other connections (\<open>ActorRuntime::broadcast\<close>).
\<close>

section \<open>The contract\<close>

text \<open>
  \<open>conn\<close> is the connection of a sender, \<open>out c w\<close> what waits to be written to connection \<open>c\<close>, and
  \<open>free c w\<close> how many more envelopes it takes; none when it is closed.
\<close>

locale message_transport =
  fixes tx :: "'w transport" and conn :: "sender_id \<Rightarrow> 'i"
    and out :: "'i \<Rightarrow> 'w \<Rightarrow> envelope list" and free :: "'i \<Rightarrow> 'w \<Rightarrow> nat"
  assumes accepts: "0 < free (conn k) w \<Longrightarrow> \<exists>w'. tx k env w = (Ok (), w')"
    and refuses: "free (conn k) w = 0 \<Longrightarrow> \<exists>e w'. tx k env w = (Err e, w')"
    and sent: "tx k env w = (Ok (), w') \<Longrightarrow>
           out c w' = (if c = conn k then out c w @ [env] else out c w)
           \<and> free c w' = (if c = conn k then free c w - 1 else free c w)"
    and refused: "tx k env w = (Err e, w') \<Longrightarrow> out c w' = out c w \<and> free c w' = free c w"
begin

text \<open>The envelopes of a list that go to connection \<open>c\<close>.\<close>

definition addressed :: "'i \<Rightarrow> (sender_id \<times> envelope) list \<Rightarrow> envelope list" where
  "addressed c ms = map snd (filter (\<lambda>(k, _). conn k = c) ms)"

fun send_all :: "(sender_id \<times> envelope) list \<Rightarrow> 'w \<Rightarrow> 'w" where
  "send_all [] w = w"
| "send_all ((k, env) # ms) w = send_all ms (snd (tx k env w))"

lemma addressed_simps [simp]:
  "addressed c [] = []" "addressed c ((k, env) # ms) = (if conn k = c then [env] else []) @ addressed c ms"
  by (simp_all add: addressed_def)

lemma tx_step:
  "out c (snd (tx k env w)) = out c w @ take (free c w) (if conn k = c then [env] else [])
   \<and> free c (snd (tx k env w)) = free c w - length (if conn k = c then [env] else [])"
proof (cases "free (conn k) w")
  case 0
  then obtain e w' where "tx k env w = (Err e, w')" using refuses by blast
  then show ?thesis using refused 0 by fastforce
next
  case (Suc n)
  then obtain w' where "tx k env w = (Ok (), w')" using accepts by (metis zero_less_Suc)
  then show ?thesis using sent Suc by fastforce
qed

text \<open>A connection gets the first envelopes addressed to it, as many as it has room for.\<close>

lemma send_all_out: "out c (send_all ms w) = out c w @ take (free c w) (addressed c ms)"
proof (induction ms arbitrary: w)
  case Nil
  then show ?case by simp
next
  case (Cons m ms)
  obtain k env where m: "m = (k, env)" by fastforce
  show ?case
    using Cons.IH [of "snd (tx k env w)"] tx_step [of c k env w] by (cases "free c w") (auto simp: m)
qed

end

section \<open>The two transports\<close>

locale envelope_channels = mpsc_contract T queued closed
  for T :: "(envelope, 'c, 's) tokio" and queued :: "'c \<Rightarrow> envelope list" and closed :: "'c \<Rightarrow> bool"
begin

definition slots :: "'c \<Rightarrow> nat" where
  "slots c = (if closed c then 0 else tk_max_capacity T c - length (queued c))"

definition grpc_channel :: "sender_id \<Rightarrow> (sender_id, 'c grpc_sender) hmap \<Rightarrow> 'c option" where
  "grpc_channel k w = (case hm_get w k of None \<Rightarrow> None | Some s \<Rightarrow> gs_sender s)"

definition inmem_channel :: "u64 \<Rightarrow> ('c, 'd) inmem_registry \<Rightarrow> 'c option" where
  "inmem_channel i r =
     (case hm_get (im_links r) i of None \<Rightarrow> None | Some l \<Rightarrow> if lk_flag l then None else Some (lk_to_client l))"

definition waits :: "'c option \<Rightarrow> envelope list" where
  "waits ch = (case ch of None \<Rightarrow> [] | Some c \<Rightarrow> queued c)"

definition room_in :: "'c option \<Rightarrow> nat" where
  "room_in ch = (case ch of None \<Rightarrow> 0 | Some c \<Rightarrow> slots c)"

lemma waits_simps [simp]: "waits None = []" "waits (Some c) = queued c" "room_in None = 0" "room_in (Some c) = slots c"
  by (simp_all add: waits_def room_in_def)

lemma slots_send:
  "tk_try_send T c env = (Sent, c') \<Longrightarrow> 0 < slots c \<and> queued c' = queued c @ [env] \<and> slots c' = slots c - 1"
  "tk_try_send T c env = (SendFull m, c') \<Longrightarrow> slots c = 0 \<and> c' = c"
  "tk_try_send T c env = (SendClosed m, c') \<Longrightarrow> slots c = 0 \<and> c' = c"
  using try_send_Sent_iff [of c env] try_send_room [of c env] try_send_not_sent [of c env] by (auto simp: slots_def)

end

sublocale envelope_channels \<subseteq> grpc: message_transport "grpc_transport T" id
  "\<lambda>k w. waits (grpc_channel k w)" "\<lambda>k w. room_in (grpc_channel k w)"
proof
  fix k c :: sender_id and env :: envelope and w w' :: "(sender_id, 'c grpc_sender) hmap" and e :: transport_error
  note defs = grpc_transport_def grpc_channel_def grpc_try_send_def
  show "\<exists>w'. grpc_transport T k env w = (Ok (), w')" if "0 < room_in (grpc_channel (id k) w)"
    using that by (auto simp: defs dest!: slots_send split: option.splits prod.splits try_send_result.splits if_splits)
  show "\<exists>e w'. grpc_transport T k env w = (Err e, w')" if "room_in (grpc_channel (id k) w) = 0"
    using that by (auto simp: defs dest!: slots_send split: option.splits prod.splits try_send_result.splits if_splits)
  show "waits (grpc_channel c w') = (if c = id k then waits (grpc_channel c w) @ [env] else waits (grpc_channel c w))
      \<and> room_in (grpc_channel c w') = (if c = id k then room_in (grpc_channel c w) - 1 else room_in (grpc_channel c w))"
    if "grpc_transport T k env w = (Ok (), w')"
    using that by (auto simp: defs dest!: slots_send split: option.splits prod.splits try_send_result.splits if_splits)
  show "waits (grpc_channel c w') = waits (grpc_channel c w) \<and> room_in (grpc_channel c w') = room_in (grpc_channel c w)"
    if "grpc_transport T k env w = (Err e, w')"
    using that by (auto simp: defs dest!: slots_send split: option.splits prod.splits try_send_result.splits if_splits)
qed

sublocale envelope_channels \<subseteq> inmem: message_transport "inmem_tx T :: ('c, 'd) inmem_registry transport" "word_of_nat :: sender_id \<Rightarrow> u64"
  "\<lambda>i r. waits (inmem_channel i r)" "\<lambda>i r. room_in (inmem_channel i r)"
proof
  fix k :: sender_id and c :: u64 and env :: envelope and w w' :: "('c, 'd) inmem_registry" and e :: transport_error
  note defs = inmem_tx_def inmem_channel_def inmem_try_send_def Let_def
  show "\<exists>w'. inmem_tx T k env w = (Ok (), w')" if "0 < room_in (inmem_channel (word_of_nat k) w)"
    using that by (auto simp: defs dest!: slots_send split: option.splits prod.splits try_send_result.splits if_splits)
  show "\<exists>e w'. inmem_tx T k env w = (Err e, w')" if "room_in (inmem_channel (word_of_nat k) w) = 0"
    using that by (auto simp: defs dest!: slots_send split: option.splits prod.splits try_send_result.splits if_splits)
  show "waits (inmem_channel c w') = (if c = word_of_nat k then waits (inmem_channel c w) @ [env] else waits (inmem_channel c w))
      \<and> room_in (inmem_channel c w') = (if c = word_of_nat k then room_in (inmem_channel c w) - 1 else room_in (inmem_channel c w))"
    if "inmem_tx T k env w = (Ok (), w')"
    using that by (auto simp: defs dest!: slots_send split: option.splits prod.splits try_send_result.splits if_splits)
  show "waits (inmem_channel c w') = waits (inmem_channel c w) \<and> room_in (inmem_channel c w') = room_in (inmem_channel c w)"
    if "inmem_tx T k env w = (Err e, w')"
    using that by (auto simp: defs dest!: slots_send split: option.splits prod.splits try_send_result.splits if_splits)
qed

interpretation wires: envelope_channels bounded_tokio bc_queue bc_closed
  by unfold_locales

section \<open>Broadcasts\<close>

text \<open>What goes out for a list of Sessions of one Actor; \<open>kind\<close> is the content.\<close>

definition addressees :: "registry \<Rightarrow> actor_address \<Rightarrow> (session_id \<Rightarrow> kind) \<Rightarrow> session_id list \<Rightarrow> (sender_id \<times> envelope) list" where
  "addressees r a kind_of sids =
     List.map_filter (\<lambda>sid. case sink r a sid of
        Some (Remote k) \<Rightarrow> Some (k, reply_envelope (SessionId_as_bytes sid) (kind_of sid))
      | None \<Rightarrow> None) sids"

lemma addressees_simps [simp]:
  "addressees r a kind_of [] = []"
  "addressees r a kind_of (sid # sids) =
     (case sink r a sid of Some (Remote k) \<Rightarrow> [(k, reply_envelope (SessionId_as_bytes sid) (kind_of sid))] | None \<Rightarrow> [])
     @ addressees r a kind_of sids"
  by (simp_all add: addressees_def List.map_filter_simps split: option.splits event_sink.splits)

context message_transport
begin

lemma broadcast_send_all:
  "broadcast_to tx r a payload sids w = send_all (addressees r a (\<lambda>_. Kind_Event payload) sids) w"
proof (induction sids arbitrary: w)
  case (Cons sid sids)
  have "snd (deliver_event tx r a sid payload w) =
      (case sink r a sid of Some (Remote k) \<Rightarrow> snd (tx k (reply_envelope (SessionId_as_bytes sid) (Kind_Event payload)) w) | None \<Rightarrow> w)"
    by (auto simp: deliver_event_def split: option.splits event_sink.splits prod.splits sum.splits)
  then show ?case using Cons by (simp split: option.splits event_sink.splits)
qed simp

lemma addressees_after_unregister:
  "sid \<notin> set sids \<Longrightarrow> addressees (snd (unregister_actor r a sid)) a kind_of sids = addressees r a kind_of sids"
  by (induction sids) (auto simp: sink_unregister split: option.splits event_sink.splits)

lemma terminate_send_all:
  "distinct sids \<Longrightarrow> snd (fold (terminate tx a error) sids (r, w)) =
     send_all (addressees r a (\<lambda>_. Kind_SessionError (to_wire error)) sids) w"
proof (induction sids arbitrary: r w)
  case (Cons sid sids)
  have step: "terminate tx a error sid (r, w) = (snd (unregister_actor r a sid),
      (case sink r a sid of Some (Remote k) \<Rightarrow> snd (tx k (reply_envelope (SessionId_as_bytes sid) (Kind_SessionError (to_wire error))) w)
       | None \<Rightarrow> w))"
    by (auto simp: terminate_def Let_def split: option.splits event_sink.splits)
  show ?case
    using Cons addressees_after_unregister [of sid sids] by (simp add: step split: option.splits event_sink.splits)
qed simp

lemma snapshot_addressees:
  "addressed c (addressees r a kind_of (by_actor_snapshot r a)) =
     map (\<lambda>sid. reply_envelope (SessionId_as_bytes sid) (kind_of sid))
       (filter (\<lambda>sid. \<exists>k. sink r a sid = Some (Remote k) \<and> conn k = c) (by_actor_snapshot r a))"
proof -
  have "addressed c (addressees r a kind_of sids) =
     map (\<lambda>sid. reply_envelope (SessionId_as_bytes sid) (kind_of sid))
       (filter (\<lambda>sid. \<exists>k. sink r a sid = Some (Remote k) \<and> conn k = c) sids)" for sids
    by (induction sids) (auto split: option.splits event_sink.splits)
  then show ?thesis .
qed

end

section \<open>Properties\<close>

text \<open>
  C19. A broadcast is best effort per connection.  Over any transport that keeps the contract, each
  connection is given the Event once for every Session of the Actor bound to it, in the order of the
  registry, as far as it has room: \<open>free\<close> envelopes, and none when it is closed.  No connection's
  failure keeps an Event from another, and nothing else is sent.
\<close>

theorem broadcast_best_effort:
  assumes "message_transport tx conn out free"
  shows "out c (broadcast_event tx a payload srv w) =
     out c w @ take (free c w)
       (map (\<lambda>sid. reply_envelope (SessionId_as_bytes sid) (Kind_Event payload))
         (filter (\<lambda>sid. \<exists>k. sink (sessions srv) a sid = Some (Remote k) \<and> conn k = c)
           (by_actor_snapshot (sessions srv) a)))"
  by (simp add: broadcast_event_def message_transport.broadcast_send_all [OF assms] message_transport.send_all_out [OF assms]
      message_transport.snapshot_addressees [OF assms])

text \<open>The same for the errors that end all Sessions of an Actor; and no Session of it is left.\<close>

lemma terminate_all_announces:
  assumes "message_transport tx conn out free" and "registry_ok r" and "terminate_all tx a error (r, w) = (r', w')"
  shows "out c w' = out c w @ take (free c w)
       (map (\<lambda>sid. reply_envelope (SessionId_as_bytes sid) (Kind_SessionError (to_wire error)))
         (filter (\<lambda>sid. \<exists>k. sink r a sid = Some (Remote k) \<and> conn k = c) (by_actor_snapshot r a)))"
proof -
  have "w' = snd (fold (terminate tx a error) (by_actor_snapshot r a) (r, w))"
    using assms(3) by (simp add: terminate_all_def)
  then show ?thesis
    using message_transport.terminate_send_all [OF assms(1) snapshot_distinct [OF assms(2)]]
    by (simp add: message_transport.send_all_out [OF assms(1)] message_transport.snapshot_addressees [OF assms(1)])
qed

text \<open>
  On gRPC a Server's end of a stream has one slot: of two Sessions on one connection, the second
  misses a broadcast that finds the slot empty.
\<close>

definition pair_server :: "(unit, (sender_id, envelope bounded_channel grpc_sender) hmap, mailbox_message bounded_channel, nat) server" where
  "pair_server =
     (initial_server bounded_tokio ServerBuilderCore_base None None)
       \<lparr>sessions := [(\<lparr>actor_type = ''room'', actor_id = ''1''\<rparr>, [(SessionId (replicate 16 0), Remote 0), (SessionId (replicate 16 1), Remote 0)])]\<rparr>"

definition idle_stream :: "(sender_id, envelope bounded_channel grpc_sender) hmap" where
  "idle_stream = [(0, \<lparr>gs_sender = Some (tk_channel bounded_tokio 1)\<rparr>)]"

theorem broadcast_best_effort_witness:
  "wires.waits (wires.grpc_channel 0 (broadcast_event (grpc_transport bounded_tokio) \<lparr>actor_type = ''room'', actor_id = ''1''\<rparr> [7]
     pair_server idle_stream)) = [reply_envelope (replicate 16 0) (Kind_Event [7])]"
  using broadcast_best_effort [OF wires.grpc.message_transport_axioms, of 0 "\<lparr>actor_type = ''room'', actor_id = ''1''\<rparr>" "[7]"
      pair_server idle_stream]
  by (simp add: pair_server_def idle_stream_def sink_def by_actor_snapshot_def hm_keys_def wires.grpc_channel_def wires.slots_def
      numeral_eq_Suc)

end
