(* ===== verification/Inmem_Queries.thy ===== *)
theory Inmem_Queries
  imports Transports
begin

text \<open>
  The queries of the in-memory registry by which tests observe pooling (\<open>transport/inmem.rs\<close>): on which
  connections a Session's envelopes were sent, and how many Sessions each connection of an endpoint
  has carried.  They read the log \<open>im_envelopes\<close>, which has every envelope a Client handed to an open
  connection, also one that was then refused.
\<close>

definition session_connection_ids :: "session_id \<Rightarrow> ('c, 'd) inmem_registry \<Rightarrow> u64 list" where
  "session_connection_ids sid r =
     remdups_adj (sort (map fst (filter (\<lambda>(_, s). s = SessionId_as_bytes sid) (im_envelopes r))))"

definition connection_session_counts :: "string \<Rightarrow> ('c, 'd) inmem_registry \<Rightarrow> nat list" where
  "connection_session_counts endpoint r =
     sort (map (\<lambda>i. length (remdups (map snd (filter (\<lambda>(c, _). c = i) (im_envelopes r))))) (connection_ids endpoint r))"

lemma session_connection_ids_set:
  "i \<in> set (session_connection_ids sid r) \<longleftrightarrow> (i, SessionId_as_bytes sid) \<in> set (im_envelopes r)"
  by (force simp: session_connection_ids_def)

lemma session_connection_ids_ordered: "sorted_wrt (<) (session_connection_ids sid r)"
proof -
  have "sorted xs \<Longrightarrow> distinct (remdups_adj xs)" for xs :: "u64 list"
    by (induction xs rule: remdups_adj.induct) (auto simp: less_le)
  from this [OF sorted_sort] show ?thesis
    unfolding strict_sorted_iff session_connection_ids_def using sorted_remdups_adj [OF sorted_sort] by blast
qed

lemma update_link_envelopes [simp]: "im_envelopes (update_link i f r) = im_envelopes r"
  by (simp add: update_link_def split: option.splits)

lemma envelope_frames:
  "inmem_listen A key r = (x, r') \<Longrightarrow> im_envelopes r' = im_envelopes r"
  "inmem_accept A j r = (y, r') \<Longrightarrow> im_envelopes r' = im_envelopes r"
  "im_envelopes (inmem_listener_shutdown key r) = im_envelopes r"
  "inmem_connect T A key r = (z, r') \<Longrightarrow> im_envelopes r' = im_envelopes r"
  "inmem_recv T sd i r = (v, r') \<Longrightarrow> im_envelopes r' = im_envelopes r"
  "im_envelopes (close_connection i r) = im_envelopes r" "im_envelopes (inmem_close i r) = im_envelopes r"
  "im_envelopes (inmem_drop_stream T sd i r) = im_envelopes r"
  by (auto simp: inmem_listen_def inmem_accept_def inmem_listener_shutdown_def inmem_connect_def inmem_recv_def
      close_connection_def inmem_close_def inmem_drop_stream_def Let_def split: if_splits option.splits prod.splits try_send_result.splits)

lemma send_logs:
  "inmem_try_send T sd i env r = (x, r') \<Longrightarrow>
   im_envelopes r' = im_envelopes r @ (if sd = ClientSide \<and> is_some_and (\<lambda>l. \<not> lk_flag l) (hm_get (im_links r) i)
     then [(i, env_session_id env)] else [])"
  by (auto simp: inmem_try_send_def Let_def split: option.splits if_splits prod.splits)

lemma send_accepted_open:
  "inmem_try_send T sd i env r = (Ok (), r') \<Longrightarrow> is_some_and (\<lambda>l. \<not> lk_flag l) (hm_get (im_links r) i)"
  by (auto simp: inmem_try_send_def split: option.splits if_splits)

text \<open>What the transport accepted from a Client is in the log, so a query never misses a connection.\<close>

lemma logged_envelopes:
  "inmem_run T A r sent got \<Longrightarrow> env \<in> set (sent ClientSide i) \<Longrightarrow> (i, env_session_id env) \<in> set (im_envelopes r)"
proof (induction arbitrary: i env rule: inmem_run.induct)
  case (sent r sent got sd k m r')
  then show ?case
    using send_logs [OF sent.hyps(2)] send_accepted_open [OF sent.hyps(2)] by (auto simp: log_append_def split: if_splits)
qed (auto simp: envelope_frames log_append_def dest: send_logs)

end
