(* ===== verification/Server_Config.thy ===== *)
theory Server_Config
  imports Server_Start Memory_Store
begin

text \<open>
  The parts of the configuration API around the builders: \<open>ActorConfig\<close> (\<open>coactor/src/actor.rs\<close>), the
  App State and the builder's phases \<open>MissingState\<close> and \<open>ReadyState\<close> (\<open>runtime.rs\<close>), and how tests start
  a cluster on the in-memory transport and inject faults (\<open>authority.rs\<close>, \<open>test_support.rs\<close>).
\<close>

section \<open>Actor configuration\<close>

definition ActorConfig_new :: "string \<Rightarrow> actor_config" where
  "ActorConfig_new name = \<lparr>ac_name = name, ac_mailbox_capacity = None, ac_idle_timeout = None\<rparr>"

definition config_mailbox_capacity :: "usize \<Rightarrow> actor_config \<Rightarrow> actor_config" where
  "config_mailbox_capacity n c = c\<lparr>ac_mailbox_capacity := Some n\<rparr>"

definition config_idle_timeout :: "duration \<Rightarrow> actor_config \<Rightarrow> actor_config" where
  "config_idle_timeout d c = c\<lparr>ac_idle_timeout := Some d\<rparr>"

text \<open>The two implementations of \<open>IntoActorConfig\<close>.\<close>

datatype actor_config_source = ConfigName string | ConfigValue actor_config

fun into_actor_config :: "actor_config_source \<Rightarrow> actor_config" where
  "into_actor_config (ConfigName name) = ActorConfig_new name"
| "into_actor_config (ConfigValue config) = config"

lemma find_snoc: "find P xs = None \<Longrightarrow> P x \<Longrightarrow> find P (xs @ [x]) = Some x"
  by (induction xs) (auto split: if_splits)

text \<open>What a registered type gets: its own setting where it has one, else the Server's.\<close>

lemma configured_actor:
  assumes "build_with_authority T (add_actor A (into_actor_config c) b) au cl = Some (Ok srv)"
  shows "\<exists>reg. hm_get (registrations srv) (ac_name (into_actor_config c)) = Some reg
     \<and> mailbox_capacity reg = Some (case ac_mailbox_capacity (into_actor_config c) of None \<Rightarrow> bc_mailbox_capacity b | Some n \<Rightarrow> n)
     \<and> idle_timeout reg = Some (case ac_idle_timeout (into_actor_config c) of None \<Rightarrow> bc_idle_timeout b | Some d \<Rightarrow> d)"
proof -
  let ?c = "into_actor_config c" and ?b = "add_actor A (into_actor_config c) b"
  let ?r = "(Registration_of A (ac_name ?c))\<lparr>mailbox_capacity := ac_mailbox_capacity ?c, idle_timeout := ac_idle_timeout ?c\<rparr>"
  have "builder_ok ?b" using assms by (simp add: build_Ok_iff)
  then have "distinct (map reg_name (bc_registrations b @ [?r]))" by (simp add: builder_ok_def add_actor_def Let_def)
  then have "find (\<lambda>r. reg_name r = ac_name ?c) (bc_registrations b) = None"
    by (auto simp: find_None_iff Registration_of_def image_iff)
  then have "find (\<lambda>r. reg_name r = ac_name ?c) (bc_registrations ?b) = Some ?r"
    using find_snoc [of _ "bc_registrations b" ?r] by (simp add: add_actor_def Let_def Registration_of_def)
  then have "hm_get (registrations srv) (ac_name ?c) = Some (configured ?b ?r)"
    using build_registrations [OF assms] by simp
  then show ?thesis
    by (auto simp: configured_def add_actor_def Let_def split: option.splits)
qed

section \<open>App State\<close>

text \<open>
  The builder with the state it holds.  The phase is a type parameter of the source: \<open>builder_of\<close> are
  the builders of each type that consumer code can make.
\<close>

datatype builder_phase = MissingState | ReadyState

record ('st, 'a, 'w) stateful_builder =
  sf_builder :: "('a, 'w) server_builder"
  sf_state :: "'st option"

definition stateful_new :: "('st, 'a, 'w) stateful_builder" where
  "stateful_new = \<lparr>sf_builder = Server_builder, sf_state = None\<rparr>"

definition with_state :: "'st \<Rightarrow> ('st, 'a, 'w) stateful_builder \<Rightarrow> ('st, 'a, 'w) stateful_builder" where
  "with_state st b = b\<lparr>sf_state := Some st\<rparr>"

inductive builder_of :: "builder_phase \<Rightarrow> ('st, 'a, 'w) stateful_builder \<Rightarrow> bool" where
  new: "builder_of MissingState stateful_new"
| setter: "builder_of phase b \<Longrightarrow> builder_of phase (b\<lparr>sf_builder := f (sf_builder b)\<rparr>)"
| ready: "builder_of MissingState b \<Longrightarrow> builder_of ReadyState (with_state st b)"

text \<open>
  \<open>serve\<close>: on a builder without state it exists for the state \<open>()\<close> only and supplies it, on a ready one
  it supplies none.  \<open>None\<close> is a panic, \<open>State is supplied before build\<close> or that of the semaphore.
\<close>

definition serve_argument :: "builder_phase \<Rightarrow> 'st \<Rightarrow> 'st option" where
  "serve_argument phase unit_state = (case phase of MissingState \<Rightarrow> Some unit_state | ReadyState \<Rightarrow> None)"

definition supply_state :: "'st option \<Rightarrow> ('st, 'a, 'w) stateful_builder \<Rightarrow> ('st, 'a, 'w) stateful_builder" where
  "supply_state st b = (case st of Some s \<Rightarrow> with_state s b | None \<Rightarrow> b)"

definition stateful_build ::
  "(mailbox_message, 'c, 's) tokio \<Rightarrow> ('st, 'a, 'w) stateful_builder \<Rightarrow> node_authority option \<Rightarrow> router option
     \<Rightarrow> (server_error + 'st \<times> ('a, 'w, 'c, 's) server) option" where
  "stateful_build T b au cl =
     (case build_with_authority T (sb_core (sf_builder b)) au cl of
        None \<Rightarrow> None
      | Some (Err e) \<Rightarrow> Some (Err e)
      | Some (Ok srv) \<Rightarrow> (case sf_state b of None \<Rightarrow> None | Some st \<Rightarrow> Some (Ok (st, srv))))"

lemma ready_has_state: "builder_of ReadyState b \<Longrightarrow> sf_state b \<noteq> None"
  by (induction ReadyState b rule: builder_of.induct) (auto simp: with_state_def)

text \<open>The phases are sound: no builder that type-checks panics for want of its state, only for too many permits.\<close>

lemma served_state:
  assumes "builder_of phase b"
    and "unat (bc_max_active_actors (sb_core (sf_builder b))) \<le> MAX_PERMITS"
  shows "stateful_build T (supply_state (serve_argument phase u) b) au cl \<noteq> None"
proof -
  have "sf_state (supply_state (serve_argument phase u) b) \<noteq> None"
  proof (cases phase)
    case MissingState
    then show ?thesis by (simp add: supply_state_def serve_argument_def with_state_def)
  next
    case ReadyState
    then show ?thesis using ready_has_state assms(1) by (simp add: supply_state_def serve_argument_def)
  qed
  moreover have "sf_builder (supply_state st b) = sf_builder b" for st
    by (simp add: supply_state_def with_state_def split: option.splits)
  ultimately show ?thesis
    using assms(2) build_panics_iff [of T "sb_core (sf_builder b)" au cl]
    by (auto simp: stateful_build_def split: sum.splits option.splits)
qed


section \<open>Clusters in tests\<close>

definition ServerRuntimeConfig_inmem :: "string \<Rightarrow> string \<Rightarrow> server_runtime_config" where
  "ServerRuntimeConfig_inmem node_id endpoint =
     \<lparr>rc_node_id = node_id, rc_bind_address = None, rc_advertised_endpoint = endpoint,
      rc_node_lease_ttl = from_secs 10, rc_coordination_timeout = from_secs 15\<rparr>"

definition cluster_endpoint :: "string \<Rightarrow> u64 \<Rightarrow> string" where
  "cluster_endpoint node_id n = ''node-'' @ node_id @ ''-'' @ show_nat (unat n)"

text \<open>\<open>n\<close> is what the endpoint counter gives; \<open>None\<close> is a panic, of the start or of its \<open>unwrap\<close>.\<close>

definition start_cluster_inmem ::
  "(mailbox_message, 'c, 's) tokio \<Rightarrow> ('a, 'w, 'c, 's) node_env \<Rightarrow> 'w launch_env \<Rightarrow> ('a, 'w) builder_core \<Rightarrow> string \<Rightarrow> u64
     \<Rightarrow> 'w \<Rightarrow> ('a, 'w, 'c, 's) running_node option \<times> 'w" where
  "start_cluster_inmem T E L core node_id n w =
     (case server_start T E L core (ServerRuntimeConfig_inmem node_id (cluster_endpoint node_id n)) w of
        (Some (Ok node), w') \<Rightarrow> (Some node, w')
      | (_, w') \<Rightarrow> (None, w'))"

definition expire_node :: "string \<Rightarrow> test_store \<Rightarrow> test_store" where
  "expire_node n w =
     (case hm_get (ts_leases w) n of
        None \<Rightarrow> w
      | Some l \<Rightarrow> w\<lparr>ts_leases := hm_insert n (l\<lparr>tl_expires_at_unix_ms := 0\<rparr>) (ts_leases w)\<rparr>)"

definition remove_node :: "string \<Rightarrow> test_store \<Rightarrow> test_store" where
  "remove_node n w = w\<lparr>ts_leases := hm_remove n (ts_leases w)\<rparr>"

text \<open>After either fault the node is not live; a renewal still works after the first, and conflicts after the second.\<close>

lemma fault_not_live: "live_lease (expire_node n w) n = None" "live_lease (remove_node n w) n = None"
  by (auto simp: expire_node_def remove_node_def live_lease_def split: option.splits)

lemma fault_renewals:
  "test_renew_node node ttl rvn (remove_node (nr_node_id node) w) = (Conflict, remove_node (nr_node_id node) w)"
  "hm_get (ts_leases w) (nr_node_id node) = Some l \<Longrightarrow> tl_revision l = rvn \<Longrightarrow>
     \<exists>rv w'. test_renew_node node ttl rvn (expire_node (nr_node_id node) w) = (Applied rv, w')"
  by (auto simp: test_renew_node_def remove_node_def expire_node_def split: prod.splits)

text \<open>
  The switch by which a test makes the next renewal panic, beside the store.  \<open>None\<close> is the panic, which
  ends the renewal task.
\<close>

definition panic_on_renewal :: "bool \<times> test_store \<Rightarrow> bool \<times> test_store" where
  "panic_on_renewal = (\<lambda>(_, w). (True, w))"

definition switched_renew_node ::
  "node_record \<Rightarrow> duration \<Rightarrow> revision \<Rightarrow> bool \<times> test_store \<Rightarrow> (revision mutation_outcome \<times> bool \<times> test_store) option" where
  "switched_renew_node node ttl rvn = (\<lambda>(panics, w).
     if panics then None else (case test_renew_node node ttl rvn w of (x, w') \<Rightarrow> Some (x, panics, w')))"

text \<open>
  A Server whose renewal task panics ends with \<open>ServiceStopped\<close>, whatever its shutdown reports, and leaves
  its lease in the store: the Node ID can be taken again only once the lease has expired.
\<close>

lemma quiet_polls: "\<forall>c\<in>set cs. wait_poll c = None \<Longrightarrow> server_wait (cs @ [c]) = wait_poll c"
  by (induction cs) (auto split: option.splits)

lemma panicked_renewal_stops_server:
  assumes "\<forall>c\<in>set cs. wait_poll c = None" and "wait_poll c = None"
    and "live_lease w (nr_node_id node) = Some l"
  shows "switched_renew_node node' ttl rvn (panic_on_renewal s) = None"
    and "server_wait (cs @ [c\<lparr>cw_renewal_gone := True\<rparr>]) = Some ServiceStopped"
    and "serve_result (Err ServiceStopped) r = Err ServiceStopped"
    and "fst (test_acquire_node node ttl (cluster_tasks_shutdown E None w)) = Conflict"
  using assms(2,3) quiet_polls [OF assms(1)]
  by (auto simp: switched_renew_node_def panic_on_renewal_def wait_poll_def serve_result_def cluster_tasks_shutdown_def
      test_acquire_node_def split: prod.splits if_splits)

text \<open>Without a socket to bind, a cluster node starts as far as the lease allows.\<close>

lemma start_cluster_inmem_unbound:
  "start_cluster_inmem T E L core node_id n w = (x, w') \<Longrightarrow> builder_validate core = Ok () \<Longrightarrow>
   \<exists>y session_id w1. le_uuid L w = (session_id, w1)
     \<and> start_session T E L core (ServerRuntimeConfig_inmem node_id (cluster_endpoint node_id n)) session_id w1 = (y, w')
     \<and> (x \<noteq> None \<longleftrightarrow> (\<exists>node. y = Some (Ok node)))"
  by (auto simp: start_cluster_inmem_def server_start_def ServerRuntimeConfig_inmem_def split: prod.splits option.splits sum.splits)

end
