(* ===== verification/Grpc_Listener.thy ===== *)
theory Grpc_Listener
  imports Transports
begin

text \<open>
  The listening side of the gRPC transport (\<open>transport/grpc.rs\<close>): the service, which hands every new
  stream to the accept backlog, the listener, which takes streams out of it, and the watch by which
  the listener ends the serving task.  What \<open>tonic\<close> does between is a step of its own: while it serves it
  may call \<open>exchange\<close>, and once the watch has changed it may stop.
\<close>

record 'd grpc_service =
  gv_accepted :: 'd
  gv_shutdown :: bool
  gv_serving :: bool

definition grpc_service_start :: "(sender_id, 'd, 'q) tokio \<Rightarrow> bool \<Rightarrow> transport_error + 'd grpc_service" where
  "grpc_service_start A bound =
     (case grpc_listen A bound of
        Err e \<Rightarrow> Err e
      | Ok accepted \<Rightarrow> Ok \<lparr>gv_accepted = accepted, gv_shutdown = False, gv_serving = True\<rparr>)"

definition grpc_accept :: "(sender_id, 'd, 'q) tokio \<Rightarrow> 'd grpc_service \<Rightarrow> sender_id option \<times> 'd grpc_service" where
  "grpc_accept A g = (case tk_try_recv A (gv_accepted g) of (x, d) \<Rightarrow> (x, g\<lparr>gv_accepted := d\<rparr>))"

definition grpc_listener_shutdown :: "'d grpc_service \<Rightarrow> 'd grpc_service" where
  "grpc_listener_shutdown g = g\<lparr>gv_shutdown := True\<rparr>"

text \<open>Dropping the listener drops the receiver of the backlog, too.\<close>

definition grpc_listener_drop :: "(sender_id, 'd, 'q) tokio \<Rightarrow> 'd grpc_service \<Rightarrow> 'd grpc_service" where
  "grpc_listener_drop A g = g\<lparr>gv_shutdown := True, gv_accepted := tk_close A (gv_accepted g)\<rparr>"

text \<open>Ghost lists: the streams whose \<open>exchange\<close> was answered, and those the listener was given.\<close>

inductive grpc_serving ::
  "(envelope, 'c, 's) tokio \<Rightarrow> (sender_id, 'd, 'q) tokio \<Rightarrow> 'd grpc_service \<Rightarrow> sender_id list \<Rightarrow> sender_id list \<Rightarrow> bool"
  for T A where
  start: "grpc_service_start A bound = Ok g \<Longrightarrow> grpc_serving T A g [] []"
| exchange: "grpc_serving T A g answered given \<Longrightarrow> gv_serving g \<Longrightarrow>
     grpc_exchange T A k (gv_accepted g) = (res, d) \<Longrightarrow>
     grpc_serving T A (g\<lparr>gv_accepted := d\<rparr>) (answered @ (if res = None then [] else [k])) given"
| accept: "grpc_serving T A g answered given \<Longrightarrow> grpc_accept A g = (Some k, g') \<Longrightarrow> grpc_serving T A g' answered (given @ [k])"
| shutdown: "grpc_serving T A g answered given \<Longrightarrow> grpc_serving T A (grpc_listener_shutdown g) answered given"
| dropped: "grpc_serving T A g answered given \<Longrightarrow> grpc_serving T A (grpc_listener_drop A g) answered given"
| stops: "grpc_serving T A g answered given \<Longrightarrow> gv_shutdown g \<Longrightarrow> grpc_serving T A (g\<lparr>gv_serving := False\<rparr>) answered given"

locale stream_backlog = mpsc_contract T queued closed
  for T :: "(sender_id, 'd, 'q) tokio" and queued :: "'d \<Rightarrow> sender_id list" and closed :: "'d \<Rightarrow> bool"
begin

lemma send_appends:
  "tk_try_send T c m = (res, c') \<Longrightarrow> queued c' = queued c @ (if res = Sent then [m] else [])
     \<and> tk_max_capacity T c' = tk_max_capacity T c \<and> closed c' = closed c
     \<and> (length (queued c) \<le> tk_max_capacity T c \<longrightarrow> length (queued c') \<le> tk_max_capacity T c')"
  using try_send_room [of c m] try_send_not_sent [of c m] try_send_Sent_iff [of c m]
  by (cases "res = Sent") auto

lemma recv_takes:
  "tk_try_recv T c = (Some m, c') \<Longrightarrow> queued c = m # queued c' \<and> tk_max_capacity T c' = tk_max_capacity T c \<and> closed c' = closed c"
  using try_recv_empty [of c] try_recv_cons [of c] by (cases "queued c") auto

text \<open>
  Every answered stream is given to the listener once, in order, or waits in the backlog, which holds at
  most 32; and no \<open>exchange\<close> is answered for a listener that is gone.
\<close>

lemma grpc_backlog:
  assumes "grpc_serving T' T g answered given"
  shows "answered = given @ queued (gv_accepted g) \<and> length (queued (gv_accepted g)) \<le> 32
     \<and> tk_max_capacity T (gv_accepted g) = 32"
  using assms
proof (induction rule: grpc_serving.induct)
  case (start bound g)
  then show ?case using channel_new [of 32] by (auto simp: grpc_service_start_def grpc_listen_def split: if_splits)
next
  case (exchange g answered given k res d)
  then obtain r where r: "tk_try_send T (gv_accepted g) k = (r, d)" "res = None \<longleftrightarrow> r \<noteq> Sent"
    by (auto simp: grpc_exchange_def split: prod.splits try_send_result.splits)
  then show ?case using send_appends [OF r(1)] exchange.IH by auto
next
  case (accept g answered given k g')
  then obtain d where d: "tk_try_recv T (gv_accepted g) = (Some k, d)" "g' = g\<lparr>gv_accepted := d\<rparr>"
    by (auto simp: grpc_accept_def split: prod.splits)
  then show ?case using recv_takes [OF d(1)] accept.IH by simp
next
  case (dropped g answered given)
  then show ?case using close_keeps by (simp add: grpc_listener_drop_def)
qed (simp_all add: grpc_listener_shutdown_def)

lemma grpc_dropped_refuses: "fst (grpc_exchange T' T k (gv_accepted (grpc_listener_drop T g))) = None"
  using close_keeps [of "gv_accepted g"] try_send_closed
  by (simp add: grpc_exchange_def grpc_listener_drop_def)

end

interpretation backlog: stream_backlog bounded_tokio bc_queue bc_closed
  by unfold_locales

lemma grpc_backlog_bounded:
  assumes "grpc_serving T bounded_tokio g answered given"
  shows "answered = given @ bc_queue (gv_accepted g) \<and> length (bc_queue (gv_accepted g)) \<le> 32"
  using backlog.grpc_backlog [OF assms] by blast

end
