(* ===== verification/Resolution_Locks.thy ===== *)
theory Resolution_Locks
  imports Cluster_Routing
begin

text \<open>
  The mutex per address under which a Server resolves and releases (\<open>ClusterRouter::resolution_lock\<close> and
  the guard of \<open>ResolvedOwner::Local\<close>, \<open>cluster/routing.rs\<close>).  A task asks the map for the lock of its
  address, waits for it, and holds the guard until the resolution has ended or the Route is in place.
\<close>

section \<open>The map of locks\<close>

type_synonym lock_ref = nat

type_synonym resolver_task = nat

record resolution_locks =
  rl_locks :: "(actor_address, lock_ref) hmap"
  rl_next :: nat

definition resolution_lock :: "actor_address \<Rightarrow> resolution_locks \<Rightarrow> lock_ref \<times> resolution_locks" where
  "resolution_lock address L =
     (case hm_get (rl_locks L) address of
        Some l \<Rightarrow> (l, L)
      | None \<Rightarrow> (rl_next L, \<lparr>rl_locks = hm_insert address (rl_next L) (rl_locks L), rl_next = Suc (rl_next L)\<rparr>))"

section \<open>Tasks\<close>

text \<open>\<open>gw_held\<close>: who holds the guard of a lock, and for which address.  A waiting task may be cancelled.\<close>

record guard_world =
  gw_locks :: resolution_locks
  gw_waiting :: "(resolver_task, actor_address \<times> lock_ref) hmap"
  gw_held :: "(lock_ref, resolver_task \<times> actor_address) hmap"

definition guard_start :: guard_world where
  "guard_start = \<lparr>gw_locks = \<lparr>rl_locks = hm_empty, rl_next = 0\<rparr>, gw_waiting = hm_empty, gw_held = hm_empty\<rparr>"

inductive guard_step :: "guard_world \<Rightarrow> guard_world \<Rightarrow> bool" where
  request: "resolution_lock a (gw_locks w) = (l, L) \<Longrightarrow>
     guard_step w (w\<lparr>gw_locks := L, gw_waiting := hm_insert t (a, l) (gw_waiting w)\<rparr>)"
| acquire: "hm_get (gw_waiting w) t = Some (a, l) \<Longrightarrow> hm_get (gw_held w) l = None \<Longrightarrow>
     guard_step w (w\<lparr>gw_waiting := hm_remove t (gw_waiting w), gw_held := hm_insert l (t, a) (gw_held w)\<rparr>)"
| release: "guard_step w (w\<lparr>gw_held := hm_remove l (gw_held w)\<rparr>)"
| cancel: "guard_step w (w\<lparr>gw_waiting := hm_remove t (gw_waiting w)\<rparr>)"

inductive_cases guard_stepE: "guard_step w w'"

definition guard_reach :: "guard_world \<Rightarrow> bool" where
  "guard_reach w \<longleftrightarrow> guard_step\<^sup>*\<^sup>* guard_start w"

definition locks_ok :: "resolution_locks \<Rightarrow> bool" where
  "locks_ok L \<longleftrightarrow>
     (\<forall>a l. hm_get (rl_locks L) a = Some l \<longrightarrow> l < rl_next L)
     \<and> (\<forall>a b l. hm_get (rl_locks L) a = Some l \<longrightarrow> hm_get (rl_locks L) b = Some l \<longrightarrow> a = b)"

definition guards_ok :: "guard_world \<Rightarrow> bool" where
  "guards_ok w \<longleftrightarrow> locks_ok (gw_locks w)
     \<and> (\<forall>t a l. hm_get (gw_waiting w) t = Some (a, l) \<longrightarrow> hm_get (rl_locks (gw_locks w)) a = Some l)
     \<and> (\<forall>t a l. hm_get (gw_held w) l = Some (t, a) \<longrightarrow> hm_get (rl_locks (gw_locks w)) a = Some l)"

lemma resolution_lock_spec:
  assumes "resolution_lock a L = (l, L')" and "locks_ok L"
  shows "hm_get (rl_locks L') a = Some l" and "locks_ok L'"
    and "hm_get (rl_locks L) b = Some k \<Longrightarrow> hm_get (rl_locks L') b = Some k"
proof -
  have fresh: "hm_get (rl_locks L) c \<noteq> Some (rl_next L)" for c using assms(2) by (auto simp: locks_ok_def)
  show "hm_get (rl_locks L') a = Some l" and "hm_get (rl_locks L) b = Some k \<Longrightarrow> hm_get (rl_locks L') b = Some k"
    using assms(1) by (auto simp: resolution_lock_def split: option.splits if_splits)
  show "locks_ok L'"
    using assms fresh by (auto simp: resolution_lock_def locks_ok_def less_Suc_eq split: option.splits if_splits)
qed

lemma guard_step_ok: "guard_step w w' \<Longrightarrow> guards_ok w \<Longrightarrow> guards_ok w'"
proof (induction rule: guard_step.induct)
  case (request a w l L t)
  have ok: "locks_ok (gw_locks w)" using request.prems by (simp add: guards_ok_def)
  show ?case
    using request.prems resolution_lock_spec [OF request.hyps ok] by (auto simp: guards_ok_def split: if_splits)
qed (auto simp: guards_ok_def split: if_splits)

lemma guard_reach_ok: "guard_reach w \<Longrightarrow> guards_ok w"
  unfolding guard_reach_def
proof (induction rule: rtranclp_induct)
  case base
  then show ?case by (simp add: guard_start_def guards_ok_def locks_ok_def)
qed (rule guard_step_ok)

section \<open>What the locks give\<close>

text \<open>Resolutions of one address are mutually exclusive within a Server, those of different addresses independent.\<close>

lemma resolution_exclusive:
  assumes "guard_reach w" and "hm_get (gw_held w) l = Some (t, a)" and "hm_get (gw_held w) l' = Some (t', a)"
  shows "l = l' \<and> t = t'"
proof -
  have "hm_get (rl_locks (gw_locks w)) a = Some l" "hm_get (rl_locks (gw_locks w)) a = Some l'"
    using guard_reach_ok [OF assms(1)] assms(2,3) unfolding guards_ok_def by blast+
  then show ?thesis using assms(2,3) by simp
qed

lemma resolution_independent:
  assumes "guard_reach w" and "hm_get (gw_waiting w) t = Some (a, l)" and "hm_get (gw_held w) l = Some (t', b)"
  shows "b = a"
  using guard_reach_ok [OF assms(1)] assms(2,3) unfolding guards_ok_def locks_ok_def by blast

text \<open>No lock is ever taken out of the map: it has an entry for every address ever resolved.\<close>

lemma locks_never_removed:
  assumes "guard_step\<^sup>*\<^sup>* w w'" and "guards_ok w" and "hm_get (rl_locks (gw_locks w)) a = Some l"
  shows "hm_get (rl_locks (gw_locks w')) a = Some l"
proof -
  have "guards_ok w' \<and> hm_get (rl_locks (gw_locks w')) a = Some l"
    using assms
  proof (induction rule: rtranclp_induct)
    case (step y z)
    have y: "guards_ok y" "hm_get (rl_locks (gw_locks y)) a = Some l" using step by blast+
    have "locks_ok (gw_locks y)" using y(1) by (simp add: guards_ok_def)
    then have "hm_get (rl_locks (gw_locks z)) a = Some l"
      using step.hyps(2) y(2) by (auto elim!: guard_stepE dest: resolution_lock_spec(3))
    then show ?case using guard_step_ok [OF step.hyps(2) y(1)] by blast
  qed simp
  then show ?thesis ..
qed

end
