(* ===== verification/Chat_Room.thy ===== *)
theory Chat_Room
  imports Actor_Invariants Server_Start
begin

text \<open>
  The Actors of the example Servers: the chat room (\<open>coactor/examples/chat_server.rs\<close>,
  \<open>chat/protocol.rs\<close>) and the counter (\<open>counter_server.rs\<close>), as consumers of the \<open>Actor\<close> trait.
  Text is a list of Unicode scalar values.  The JSON codec is a parameter.
\<close>

section \<open>Text\<close>

type_synonym utext = "nat list"

text \<open>\<open>char::is_whitespace\<close> (the White_Space property) and \<open>char::is_control\<close> (general category Cc).\<close>

definition is_whitespace :: "nat \<Rightarrow> bool" where
  "is_whitespace c \<longleftrightarrow>
     9 \<le> c \<and> c \<le> 13 \<or> c \<in> {0x20, 0x85, 0xA0, 0x1680, 0x2028, 0x2029, 0x202F, 0x205F, 0x3000}
     \<or> 0x2000 \<le> c \<and> c \<le> 0x200A"

definition is_control :: "nat \<Rightarrow> bool" where
  "is_control c \<longleftrightarrow> c \<le> 0x1F \<or> 0x7F \<le> c \<and> c \<le> 0x9F"

definition trim :: "utext \<Rightarrow> utext" where
  "trim s = rev (dropWhile is_whitespace (rev (dropWhile is_whitespace s)))"

definition ascii :: "string \<Rightarrow> utext" where
  "ascii s = map of_char s"

section \<open>Protocol\<close>

datatype chat_action = Join utext | Send utext | Leave

datatype chat_event = Joined utext | Message utext utext | Left utext | ChatError utext

record chat_codec =
  decode_action :: "bytes \<Rightarrow> chat_action option"
  encode_action :: "chat_action \<Rightarrow> bytes"
  decode_event :: "bytes \<Rightarrow> chat_event option"
  encode_event :: "chat_event \<Rightarrow> bytes"

section \<open>Chat room\<close>

record chat_room =
  cr_runtime :: actor_runtime
  cr_members :: "(session_id, utext) hmap"

definition ChatRoom_new :: "actor_runtime \<Rightarrow> chat_room" where
  "ChatRoom_new runtime = \<lparr>cr_runtime = runtime, cr_members = hm_empty\<rparr>"

definition chat_broadcast :: "chat_codec \<Rightarrow> 'w transport \<Rightarrow> registry \<Rightarrow> chat_event \<Rightarrow> chat_room \<Rightarrow> 'w \<Rightarrow> 'w" where
  "chat_broadcast C tx r event room w = actor_broadcast tx (Some r) (cr_runtime room) (encode_event C event) w"

definition chat_reject :: "chat_codec \<Rightarrow> 'w transport \<Rightarrow> registry \<Rightarrow> message_context \<Rightarrow> string \<Rightarrow> 'w \<Rightarrow> 'w" where
  "chat_reject C tx r ctx message w = snd (context_send tx r ctx (encode_event C (ChatError (ascii message))) w)"

text \<open>The text between the spaces, if it has at most \<open>limit\<close> characters and no control character.\<close>

definition printable :: "nat \<Rightarrow> utext \<Rightarrow> bool" where
  "printable limit s \<longleftrightarrow> \<not> (s = [] \<or> limit < length s \<or> list_ex is_control s)"

definition chat_join ::
  "chat_codec \<Rightarrow> 'w transport \<Rightarrow> registry \<Rightarrow> message_context \<Rightarrow> utext \<Rightarrow> chat_room \<Rightarrow> 'w \<Rightarrow> chat_room \<times> 'w" where
  "chat_join C tx r ctx input room w =
     (let sid = sh_session_id (mc_session ctx); username = trim input in
      if \<not> printable 32 username
      then (room, chat_reject C tx r ctx ''username must contain 1-32 printable characters'' w)
      else if hm_get (cr_members room) sid \<noteq> None
      then (room, chat_reject C tx r ctx ''this Session already joined the room'' w)
      else if list_ex (\<lambda>(_, member). member = username) (cr_members room)
      then (room, chat_reject C tx r ctx ''username is already in use'' w)
      else let room' = room\<lparr>cr_members := hm_insert sid username (cr_members room)\<rparr>
           in (room', chat_broadcast C tx r (Joined username) room' w))"

definition chat_send ::
  "chat_codec \<Rightarrow> 'w transport \<Rightarrow> registry \<Rightarrow> message_context \<Rightarrow> utext \<Rightarrow> chat_room \<Rightarrow> 'w \<Rightarrow> chat_room \<times> 'w" where
  "chat_send C tx r ctx input room w =
     (case hm_get (cr_members room) (sh_session_id (mc_session ctx)) of
        None \<Rightarrow> (room, chat_reject C tx r ctx ''join the room before sending messages'' w)
      | Some username \<Rightarrow>
          let t = trim input in
          if \<not> printable 1000 t
          then (room, chat_reject C tx r ctx ''message must contain 1-1000 printable characters'' w)
          else (room, chat_broadcast C tx r (Message username t) room w))"

text \<open>\<open>Leave\<close> and the end of a Session.\<close>

definition chat_leave ::
  "chat_codec \<Rightarrow> 'w transport \<Rightarrow> registry \<Rightarrow> session_id \<Rightarrow> chat_room \<Rightarrow> 'w \<Rightarrow> chat_room \<times> 'w" where
  "chat_leave C tx r sid room w =
     (case hm_get (cr_members room) sid of
        None \<Rightarrow> (room, w)
      | Some username \<Rightarrow>
          let room' = room\<lparr>cr_members := hm_remove sid (cr_members room)\<rparr>
          in (room', chat_broadcast C tx r (Left username) room' w))"

definition chat_on_message ::
  "chat_codec \<Rightarrow> 'w transport \<Rightarrow> registry \<Rightarrow> message_context \<Rightarrow> bytes \<Rightarrow> chat_room \<Rightarrow> 'w \<Rightarrow> chat_room \<times> 'w" where
  "chat_on_message C tx r ctx message room w =
     (case decode_action C message of
        None \<Rightarrow> (room, chat_reject C tx r ctx ''invalid chat Action'' w)
      | Some (Join username) \<Rightarrow> chat_join C tx r ctx username room w
      | Some (Send t) \<Rightarrow> chat_send C tx r ctx t room w
      | Some Leave \<Rightarrow> chat_leave C tx r (sh_session_id (mc_session ctx)) room w)"

definition chat_actor :: "chat_codec \<Rightarrow> 'w transport \<Rightarrow> (chat_room, 'w) actor_impl" where
  "chat_actor C tx =
     (actor_defaults (\<lambda>runtime. Returned (ChatRoom_new runtime))
        (\<lambda>r ctx message room w. (Returned (), chat_on_message C tx r ctx message room w)))
      \<lparr>on_session_closed := (\<lambda>r ctx room w.
         (Returned (), chat_leave C tx r (sh_session_id (mc_session ctx)) room w))\<rparr>"

section \<open>Counter\<close>

text \<open>\<open>self.value += 1\<close> panics on overflow when overflow checks are compiled in, and wraps otherwise.\<close>

definition counter_on_message ::
  "bool \<Rightarrow> 'w transport \<Rightarrow> registry \<Rightarrow> message_context \<Rightarrow> bytes \<Rightarrow> u64 \<Rightarrow> 'w \<Rightarrow> unit caught \<times> u64 \<times> 'w" where
  "counter_on_message overflow_checks tx r ctx message v w =
     (if overflow_checks \<and> v = - 1 then (Unwound, v, w)
      else (Returned (), v + 1,
            snd (context_send tx r ctx (map byte_of_char (show_nat (unat (v + 1)))) w)))"

definition counter_actor :: "bool \<Rightarrow> 'w transport \<Rightarrow> (u64, 'w) actor_impl" where
  "counter_actor overflow_checks tx =
     actor_defaults (\<lambda>_. Returned 0) (counter_on_message overflow_checks tx)"

section \<open>Types and Servers\<close>

text \<open>The values of the two example types, and the Server \<open>main\<close> of the chat example configures.\<close>

datatype example_value = ChatValue (chat_value: chat_room) | CounterValue (counter_value: u64)

definition chat_type :: "(chat_room, example_value) rust_type" where
  "chat_type = \<lparr>ty_id = 1, ty_up = ChatValue, ty_down = chat_value\<rparr>"

definition counter_type :: "(u64, example_value) rust_type" where
  "counter_type = \<lparr>ty_id = 2, ty_up = CounterValue, ty_down = counter_value\<rparr>"

definition chat_registration ::
  "(string \<Rightarrow> string) \<Rightarrow> chat_codec \<Rightarrow> 'w transport \<Rightarrow> (example_value any_box, 'w) registration" where
  "chat_registration debug C tx = erased_registration (erased_impl debug chat_type (chat_actor C tx))"

definition chat_server :: "(string \<Rightarrow> string) \<Rightarrow> chat_codec \<Rightarrow> 'w transport \<Rightarrow> (example_value any_box, 'w) server_builder" where
  "chat_server debug C tx =
     builder_actor (chat_registration debug C tx)
       \<lparr>ac_name = ''chat-room'', ac_mailbox_capacity = None, ac_idle_timeout = None\<rparr>
       (builder_node_id ''chat-server'' (builder_advertised_endpoint ''127.0.0.1:7000'' Server_builder))"

definition chat_registrations ::
  "(string \<Rightarrow> string) \<Rightarrow> chat_codec \<Rightarrow> 'w transport \<Rightarrow> (string, (example_value any_box, 'w) registration) hmap" where
  "chat_registrations debug C tx =
     registrations (initial_server bounded_tokio (sb_core (chat_server debug C tx)) None None)"

section \<open>The room's invariant\<close>

text \<open>Every name is printable and trimmed, and no two Sessions have the same one.\<close>

definition room_ok :: "actor_address \<Rightarrow> chat_room \<Rightarrow> bool" where
  "room_ok a room \<longleftrightarrow>
     cr_runtime room = make_actor_runtime a \<and> hm_ok (cr_members room)
     \<and> (\<forall>s u. hm_get (cr_members room) s = Some u \<longrightarrow> printable 32 u \<and> trim u = u)
     \<and> (\<forall>s s' u. hm_get (cr_members room) s = Some u \<longrightarrow> hm_get (cr_members room) s' = Some u \<longrightarrow> s = s')"

lemma dropWhile_idem: "dropWhile P (dropWhile P xs) = dropWhile P xs"
  by (induction xs) simp_all

lemma trim_trim [simp]: "trim (trim s) = trim s"
proof -
  define a where "a = dropWhile is_whitespace s"
  have a: "a = [] \<or> \<not> is_whitespace (hd a)"
    unfolding a_def using hd_dropWhile [of is_whitespace s] by blast
  have "dropWhile is_whitespace (trim s) = trim s"
  proof (cases "trim s")
    case (Cons c cs)
    obtain ws where "rev a = ws @ rev (trim s)"
      using takeWhile_dropWhile_id [of is_whitespace "rev a"] by (metis a_def rev_rev_ident trim_def)
    then have "a = trim s @ rev ws" by (metis rev_append rev_rev_ident)
    then have "hd a = c" "a \<noteq> []" using Cons by auto
    then show ?thesis using a Cons by simp
  qed simp
  then show ?thesis by (simp add: trim_def dropWhile_idem)
qed

lemma no_member: "\<not> list_ex (\<lambda>(_, u'). u' = u) m \<Longrightarrow> hm_get m s \<noteq> Some u"
  by (induction m) (auto split: if_splits)

lemma room_ok_join:
  assumes "room_ok a room" and "chat_join C tx r ctx input room w = (room', w')"
  shows "room_ok a room'"
proof -
  let ?sid = "sh_session_id (mc_session ctx)"
  consider "room' = room" | "room' = room\<lparr>cr_members := hm_insert ?sid (trim input) (cr_members room)\<rparr>"
      "printable 32 (trim input)" "\<not> list_ex (\<lambda>(_, member). member = trim input) (cr_members room)"
    using assms(2) by (auto simp: chat_join_def Let_def split: if_splits)
  then show ?thesis
  proof cases
    case 2
    have "hm_get (cr_members room) s \<noteq> Some (trim input)" for s
      by (rule no_member [OF 2(3)])
    then show ?thesis using assms(1) 2(1,2) by (auto simp: room_ok_def split: if_splits)
  qed (use assms(1) in simp)
qed

lemma room_ok_leave:
  assumes "room_ok a room" and "chat_leave C tx r sid room w = (room', w')"
  shows "room_ok a room'"
  using assms by (auto simp: chat_leave_def room_ok_def Let_def split: option.splits if_splits)

lemma room_ok_message:
  assumes "room_ok a room" and "chat_on_message C tx r ctx message room w = (room', w')"
  shows "room_ok a room'"
  using assms room_ok_join [OF assms(1)] room_ok_leave [OF assms(1)]
  by (auto simp: chat_on_message_def chat_send_def Let_def split: option.splits chat_action.splits if_splits)

lemma chat_registrations_get:
  "hm_get (chat_registrations debug C tx) name =
     (if name = ''chat-room'' then Some ((chat_registration debug C tx)
        \<lparr>reg_name := ''chat-room'', mailbox_capacity := Some 32, idle_timeout := Some (from_secs 60)\<rparr>) else None)"
  by (simp add: chat_registrations_def chat_server_def builder_actor_def builder_node_id_def
      builder_advertised_endpoint_def Server_builder_def add_actor_def Registration_of_def configured_def
      ServerBuilderCore_base_def Let_def)

interpretation chat: hosted_actor chat_type "chat_actor C tx" room_ok "''chat-room''" "chat_registrations debug C tx"
  for debug C tx
proof
  show "type_ok chat_type" by (simp add: type_ok_def chat_type_def)
  show "generated_as chat_type (chat_actor C tx) reg" if "hm_get (chat_registrations debug C tx) ''chat-room'' = Some reg" for reg
    using that by (auto simp: generated_as_def expand_actor_def chat_registrations_get chat_registration_def)
  fix a r x w x' w'
  show "room_ok a x'" if "actor_new (chat_actor C tx) (make_actor_runtime a) = Returned x'"
    using that by (auto simp: chat_actor_def actor_defaults_def ChatRoom_new_def room_ok_def)
  assume x: "room_ok a x"
  show "room_ok a x'" if "on_activate (chat_actor C tx) r x w = (o1, x', w')" for o1
    using that x by (simp add: chat_actor_def actor_defaults_def)
  show "room_ok a x'" if "on_deactivate (chat_actor C tx) r reason x w = (o1, x', w')" for reason o1
    using that x by (simp add: chat_actor_def actor_defaults_def)
  show "room_ok a x'" if "on_message (chat_actor C tx) r (make_message_context a sid) payload x w = (o1, x', w')"
    for sid payload o1
    using that room_ok_message [OF x] by (auto simp: chat_actor_def actor_defaults_def)
  show "room_ok a x'" if "on_session_opened (chat_actor C tx) r (make_message_context a sid) x w = (o1, x', w')" for sid o1
    using that x by (simp add: chat_actor_def actor_defaults_def)
  show "room_ok a x'" if "on_session_closed (chat_actor C tx) r (make_message_context a sid) x w = (o1, x', w')" for sid o1
    using that room_ok_leave [OF x] by (auto simp: chat_actor_def actor_defaults_def)
qed

end
