(* ===== verification/Chat_Properties.thy ===== *)
theory Chat_Properties
  imports Chat_Room Runtime_Properties
begin

text \<open>
  What holds of the chat room on a running Server: its membership in every state, and what it
  costs that the end of a Session is announced with \<open>try_send\<close>.
\<close>

section \<open>Lost announcements\<close>

text \<open>The mailbox is full: the Session goes, and its Actor is not told.\<close>

context mailbox_tokio
begin

lemma session_closed_lost_when_full:
  assumes "hm_get (actors srv) a = Some route" and "rt_state route = Active"
    and "hm_get (tasks srv) (rt_task route) = Some t"
    and "\<not> closed (mailbox t)" and "tk_max_capacity T (mailbox t) \<le> length (queued (mailbox t))"
  shows "hm_get (tasks (close_local_session T a sid srv)) k = hm_get (tasks srv) k"
    and "sink (sessions (close_local_session T a sid srv)) a sid = None"
proof -
  obtain removed r where u: "unregister_actor (sessions srv) a sid = (removed, r)" by fastforce
  have full: "mailbox_try_send T t (rt_task route) (SessionClosed sid) (srv\<lparr>sessions := r\<rparr>) =
      (SendFull (SessionClosed sid), srv\<lparr>sessions := r, tasks := hm_insert (rt_task route) t (tasks srv)\<rparr>)"
    using try_send_full [OF assms(4,5)] by (simp add: mailbox_try_send_def)
  have "sink r a sid = None" using sink_unregister [of "sessions srv" a sid a sid] u by simp
  then show "hm_get (tasks (close_local_session T a sid srv)) k = hm_get (tasks srv) k"
    and "sink (sessions (close_local_session T a sid srv)) a sid = None"
    using assms(1-3) by (simp_all add: close_local_session_def dispatch_message_if_active_def u full Let_def)
qed

end

lemma unregistered_close_silent:
  "sink (sessions srv) a sid = None \<Longrightarrow> tasks (close_local_session T a sid srv) = tasks srv"
  using unregister_present_iff [of "sessions srv" a sid]
  by (cases "unregister_actor (sessions srv) a sid") (simp add: close_local_session_def Let_def)

text \<open>The room's callbacks on a sequence of messages, each with the Sessions registered at the time.\<close>

fun message_session :: "mailbox_message \<Rightarrow> session_id" where
  "message_session (Action sid _) = sid"
| "message_session (SessionOpened sid _) = sid"
| "message_session (SessionClosed sid) = sid"

definition room_serves ::
  "chat_codec \<Rightarrow> 'w transport \<Rightarrow> actor_address \<Rightarrow> registry \<times> mailbox_message \<Rightarrow> chat_room \<times> 'w \<Rightarrow> chat_room \<times> 'w" where
  "room_serves C tx a = (\<lambda>(r, message) (cr, w).
     case message of
       Action sid payload \<Rightarrow> snd (on_message (chat_actor C tx) r (make_message_context a sid) payload cr w)
     | SessionOpened sid _ \<Rightarrow> snd (on_session_opened (chat_actor C tx) r (make_message_context a sid) cr w)
     | SessionClosed sid \<Rightarrow> snd (on_session_closed (chat_actor C tx) r (make_message_context a sid) cr w))"

lemma room_serves_keeps:
  assumes "message_session (snd x) \<noteq> sid"
  shows "hm_get (cr_members (fst (room_serves C tx a x (cr, w)))) sid = hm_get (cr_members cr) sid"
proof -
  obtain r m where x: "x = (r, m)" by fastforce
  show ?thesis
    using assms by (cases m)
      (auto simp: x room_serves_def chat_actor_def actor_defaults_def make_message_context_def chat_on_message_def
        chat_join_def chat_send_def chat_leave_def Let_def split: option.splits chat_action.splits)
qed

lemma room_serves_all_keeps:
  "\<forall>x \<in> set ms. message_session (snd x) \<noteq> sid \<Longrightarrow>
   hm_get (cr_members (fst (fold (room_serves C tx a) ms (cr, w)))) sid = hm_get (cr_members cr) sid"
proof (induction ms arbitrary: cr w)
  case (Cons x ms)
  obtain cr' w' where s: "room_serves C tx a x (cr, w) = (cr', w')" by fastforce
  then show ?case using Cons room_serves_keeps [of x sid C tx a cr w] by simp
qed simp

section \<open>A Server with one member\<close>

text \<open>A codec for the demonstration: the first byte is the tag.\<close>

definition byte_codec :: chat_codec where
  "byte_codec =
     \<lparr>decode_action = (\<lambda>b. case b of [] \<Rightarrow> None | k # s \<Rightarrow>
        if k = 0 then Some (Join (map unat s)) else if k = 1 then Some (Send (map unat s))
        else if k = 2 then Some Leave else None),
      encode_action = (\<lambda>x. case x of Join u \<Rightarrow> 0 # map word_of_nat u | Send t \<Rightarrow> 1 # map word_of_nat t | Leave \<Rightarrow> [2]),
      decode_event = (\<lambda>b. case b of [] \<Rightarrow> None | k # s \<Rightarrow>
        if k = 0 then Some (Joined (map unat s)) else if k = 1 then Some (Left (map unat s))
        else if k = 2 then Some (ChatError (map unat s)) else None),
      encode_event = (\<lambda>x. case x of Joined u \<Rightarrow> 0 # map word_of_nat u | Left u \<Rightarrow> 1 # map word_of_nat u
        | ChatError m \<Rightarrow> 2 # map word_of_nat m | Message u t \<Rightarrow> 3 # map word_of_nat (u @ t))\<rparr>"

abbreviation lobby :: actor_address where
  "lobby \<equiv> \<lparr>actor_type = ''chat-room'', actor_id = ''1''\<rparr>"

definition empty_chat :: "(example_value any_box, sent, mailbox_message bounded_channel, nat) server" where
  "empty_chat = initial_server mbox_tokio (sb_core (chat_server id byte_codec record_tx)) None None"

text \<open>One Session is open; \<open>cr\<close> and \<open>queue\<close> are the state of the Actor and what it has to do.\<close>

definition lobby_task :: "chat_room \<Rightarrow> mailbox_message list \<Rightarrow> (example_value any_box, mailbox_message bounded_channel) actor_task" where
  "lobby_task cr queue =
     \<lparr>task_address = lobby, task_generation = 1, task_actor = box_any chat_type cr,
      mailbox = \<lparr>bc_queue = queue, bc_max = 32, bc_closed = False\<rparr>,
      shutdown_flag = False, shutdown_changed = False, task_aborted = False, task_completed = False\<rparr>"

definition lobby_server ::
  "chat_room \<Rightarrow> mailbox_message list \<Rightarrow> (oneshot_id \<times> (send_error + unit)) list
     \<Rightarrow> (example_value any_box, sent, mailbox_message bounded_channel, nat) server" where
  "lobby_server cr queue done =
     empty_chat\<lparr>actors := [(lobby, \<lparr>rt_generation = 1, rt_state = Active, rt_task = 0\<rparr>)],
       sessions := [(lobby, [(sid0, Remote 7)])], capacity := 9999, next_generation := 2,
       tasks := [(0, lobby_task cr queue)], next_task := 1, answers := done\<rparr>"

lemma empty_chat_eq:
  "empty_chat =
     \<lparr>registrations = chat_registrations id byte_codec record_tx, actors = [], sessions = [], capacity = 10000,
      max_active_actors = 10000, deactivation_timeout = from_secs 5, next_generation = 1, status = 0,
      shutdown_timeout = from_secs 30, transport_protocol_version = TRANSPORT_PROTOCOL_VERSION,
      authority = None, cluster = None, inbound_tasks = [], tasks = [], next_task = 0, answers = []\<rparr>"
  by (simp add: empty_chat_def chat_registrations_def initial_server_def chat_server_def builder_actor_def
      builder_node_id_def builder_advertised_endpoint_def Server_builder_def add_actor_def ServerBuilderCore_base_def
      Let_def SessionRegistry_new_def hm_empty_def RUNNING_def)

lemma lobby_valid: "valid_address lobby"
  by code_simp

lemma lobby_decode [simp]:
  "SessionId_from_bytes (replicate 16 0) = Some sid0"
  "actor_address_from_envelope ''chat-room'' (as_bytes_str ''1'') = Some lobby"
  using SessionId_bytes_inverse [of sid0] address_from_own_bytes [OF lobby_valid] by (simp_all add: valid_session_id_def)

definition lobby_reg :: "(example_value any_box, sent) registration" where
  "lobby_reg = (chat_registration id byte_codec record_tx)
     \<lparr>reg_name := ''chat-room'', mailbox_capacity := Some 32, idle_timeout := Some (from_secs 60)\<rparr>"

lemma lobby_registered:
  "hm_get (chat_registrations id byte_codec record_tx) ''chat-room'' = Some lobby_reg"
  by (simp add: lobby_reg_def chat_registrations_get)

lemma lobby_callbacks:
  "mailbox_capacity lobby_reg = Some 32" "idle_timeout lobby_reg = Some (from_secs 60)"
  "reg_create lobby_reg a = Returned (box_any chat_type (ChatRoom_new (make_actor_runtime a)))"
  "reg_session_opened lobby_reg r a sid (box_any chat_type cr) w = (Returned (), box_any chat_type cr, w)"
  "reg_handle lobby_reg r a sid payload (box_any chat_type cr) w =
     (case chat_on_message byte_codec record_tx r (make_message_context a sid) payload cr w of
        (cr', w') \<Rightarrow> (Returned Completed, box_any chat_type cr', w'))"
  by (simp_all add: lobby_reg_def chat_registration_def erased_registration_def erased_impl_def chat_actor_def
      actor_defaults_def with_downcast_box_any chat.type_ok split: prod.splits)

lemmas lobby_exec = lobby_task_def lobby_server_def empty_chat_eq lobby_registered lobby_callbacks RUNNING_def hm_exec_simps Let_def

lemma lobby_opened:
  "handler_step mbox_tokio nowhere record_tx (empty_chat, w)
     (lobby_server (ChatRoom_new (make_actor_runtime lobby)) [SessionOpened sid0 0] [], w)"
  by (rule handler_step.inbound [where now = 0 and complete = 0 and env = "envelope_session_open lobby sid0"
        and reply = "Some 7" and p = "InboundAwaiting lobby sid0 0"])
    (simp add: dispatch_inbound_def envelope_session_open_def inbound_session_open_def open_local_session_begin_def
      inbound_opening_def register_actor_def dispatch_message_def dispatch_admission_def dispatch_commit_def
      activate_route_def spawn_actor_def bounded_try_send_def try_send_error_def lobby_exec MAX_PERMITS_def)

lemma lobby_serves_open:
  "handler_step mbox_tokio nowhere record_tx (lobby_server cr [SessionOpened sid0 0] [], w)
     (lobby_server cr [] [(0, Ok ())], w)"
  by (rule handler_step.internal [OF internal_step.serve [where tid = 0 and p = TaskContinues and reg = lobby_reg
        and t = "lobby_task cr [SessionOpened sid0 0]"]])
    (simp_all add: task_registration_def serve_once_def route_names_task_def receive_def
      bounded_try_recv_def execute_message_def set_actor_def update_task_def answer_def lobby_exec)

lemma lobby_action:
  "handler_step mbox_tokio nowhere record_tx (lobby_server cr [] done, w)
     (lobby_server cr [Action sid0 payload] done, w)"
  by (rule handler_step.inbound [where now = 0 and complete = 0 and env = "envelope_action lobby sid0 payload"
        and reply = "Some 7" and p = InboundDone])
    (simp add: dispatch_inbound_def envelope_action_def bound_reply_def is_bound_to_def dispatch_remote_message_def
      dispatch_message_def dispatch_admission_def dispatch_commit_def sink_def mailbox_try_send_def drop_reservation_def
      bounded_try_send_def lobby_exec)

lemma lobby_serves_action:
  assumes "chat_on_message byte_codec record_tx [(lobby, [(sid0, Remote 7)])] (make_message_context lobby sid0)
     payload cr w = (cr', w')"
  shows "handler_step mbox_tokio nowhere record_tx (lobby_server cr [Action sid0 payload] done, w)
     (lobby_server cr' [] done, w')"
  by (rule handler_step.internal [OF internal_step.serve [where tid = 0 and p = TaskContinues and reg = lobby_reg
        and t = "lobby_task cr [Action sid0 payload]"]])
    (simp_all add: task_registration_def serve_once_def route_names_task_def receive_def
      bounded_try_recv_def execute_message_def set_actor_def update_task_def assms lobby_exec)

abbreviation ada :: chat_room where
  "ada \<equiv> \<lparr>cr_runtime = make_actor_runtime lobby, cr_members = [(sid0, [97])]\<rparr>"

lemma lobby_join:
  "\<exists>w'. chat_on_message byte_codec record_tx [(lobby, [(sid0, Remote 7)])] (make_message_context lobby sid0)
     [0, 97] (ChatRoom_new (make_actor_runtime lobby)) w = (ada, w')"
  by (simp add: chat_on_message_def byte_codec_def chat_join_def printable_def trim_def is_whitespace_def
      is_control_def make_message_context_def ChatRoom_new_def Let_def hm_exec_simps)

lemma ada_reached: "\<exists>w. handler_reach mbox_tokio nowhere record_tx (empty_chat, []) (lobby_server ada [] [(0, Ok ())], w)"
proof -
  let ?new = "ChatRoom_new (make_actor_runtime lobby)"
  obtain w' where j: "chat_on_message byte_codec record_tx [(lobby, [(sid0, Remote 7)])] (make_message_context lobby sid0)
     [0, 97] ?new [] = (ada, w')" using lobby_join by blast
  note [intro] = rtranclp.rtrancl_into_rtrancl
  have "handler_reach mbox_tokio nowhere record_tx (empty_chat, []) (lobby_server ?new [SessionOpened sid0 0] [], [])"
    unfolding handler_reach_def using lobby_opened by blast
  then have "handler_reach mbox_tokio nowhere record_tx (empty_chat, []) (lobby_server ?new [] [(0, Ok ())], [])"
    unfolding handler_reach_def using lobby_serves_open by blast
  then have "handler_reach mbox_tokio nowhere record_tx (empty_chat, [])
      (lobby_server ?new [Action sid0 [0, 97]] [(0, Ok ())], [])"
    unfolding handler_reach_def using lobby_action by blast
  then show ?thesis
    unfolding handler_reach_def using lobby_serves_action [OF j] by blast
qed

section \<open>Properties\<close>

text \<open>
  C23. In every state the handlers of a chat Server reach, whatever envelopes, panics, shutdowns and
  fences there were, the Actor of a chat room is a \<open>ChatRoom\<close>; each member's name is trimmed,
  has 1 to 32 characters and no control character, and no two Sessions have the same name.
\<close>

theorem chat_names_unique:
  assumes "build_with_authority T (sb_core (chat_server debug C tx)) au cl = Some (Ok srv)"
    and "handler_reach T S tx (srv, w) (srv', w')"
    and "hm_get (tasks srv') tid = Some t" and "actor_type (task_address t) = ''chat-room''"
  shows "\<exists>cr. task_actor t = box_any chat_type cr
     \<and> (\<forall>s u. hm_get (cr_members cr) s = Some u \<longrightarrow>
          trim u = u \<and> u \<noteq> [] \<and> length u \<le> 32 \<and> (\<forall>c \<in> set u. \<not> is_control c))
     \<and> (\<forall>s s' u. hm_get (cr_members cr) s = Some u \<longrightarrow> hm_get (cr_members cr) s' = Some u \<longrightarrow> s = s')"
proof -
  have "registrations srv = chat_registrations debug C tx" and "tasks srv = hm_empty"
    using assms(1) by (auto simp: build_Ok_iff chat_registrations_def)
  then obtain cr where cr: "task_actor t = box_any chat_type cr" "room_ok (task_address t) cr"
    using chat.boxed [OF assms(2) _ _ assms(3,4)] by blast
  show ?thesis
    by (intro exI [of _ cr] conjI cr(1)) (use cr(2) in \<open>auto simp: room_ok_def printable_def list_ex_iff not_less\<close>)
qed

text \<open>
  C16. The end of a Session is announced to the Actor with \<open>try_send\<close> and the result is dropped.
  When the mailbox of a chat room is full, the closed Session is gone from the registry while every
  mailbox and every Actor is as before, and closing it again announces nothing either.  The room, whatever
  messages of other Sessions it is given from then on, keeps the Session as a member and turns
  away every other Session that tries to join under its name.
\<close>

theorem chat_ghost_member:
  assumes "mailbox_tokio T queued shut"
    and "hm_get (actors srv) a = Some route" and "rt_state route = Active"
    and "hm_get (tasks srv) (rt_task route) = Some t" and "task_actor t = box_any chat_type cr"
    and "\<not> shut (mailbox t)" and "tk_max_capacity T (mailbox t) \<le> length (queued (mailbox t))"
    and "hm_get (cr_members cr) sid = Some u" and "printable 32 u"
    and "\<forall>x \<in> set ms. message_session (snd x) \<noteq> sid"
    and "fold (room_serves C tx a) ms (cr, w) = (cr', w')"
    and "trim input = u" and "hm_get (cr_members cr') (sh_session_id (mc_session ctx)) = None"
  shows "sink (sessions (close_local_session T a sid srv)) a sid = None
     \<and> hm_get (tasks (close_local_session T a sid srv)) (rt_task route) = Some t
     \<and> tasks (close_local_session T a sid (close_local_session T a sid srv)) = tasks (close_local_session T a sid srv)
     \<and> hm_get (cr_members cr') sid = Some u
     \<and> chat_join C tx r ctx input cr' w' =
         (cr', chat_reject C tx r ctx ''username is already in use'' w')"
proof -
  have member: "hm_get (cr_members cr') sid = Some u"
    using room_serves_all_keeps [OF assms(10), of C tx a cr w] assms(8,11) by simp
  then have "list_ex (\<lambda>(_, member). member = u) (cr_members cr')"
    using no_member [of u "cr_members cr'" sid] by blast
  then have "chat_join C tx r ctx input cr' w' = (cr', chat_reject C tx r ctx ''username is already in use'' w')"
    using assms(9,12,13) by (simp add: chat_join_def)
  moreover note lost = mailbox_tokio.session_closed_lost_when_full [OF assms(1-4,6,7)]
  ultimately show ?thesis
    using assms(4) member unregistered_close_silent [OF lost(2)] by (simp add: lost)
qed

section \<open>Witnesses\<close>

lemma chat_built: "build_with_authority mbox_tokio (sb_core (chat_server id byte_codec record_tx)) None None = Some (Ok empty_chat)"
proof -
  have "is_dns_label ''chat-room''" by code_simp
  then have "builder_ok (sb_core (chat_server id byte_codec record_tx))"
    "unat (bc_max_active_actors (sb_core (chat_server id byte_codec record_tx))) \<le> MAX_PERMITS"
    by (simp_all add: MAX_PERMITS_def builder_ok_def chat_server_def builder_actor_def builder_node_id_def builder_advertised_endpoint_def
        Server_builder_def add_actor_def Registration_of_def ServerBuilderCore_base_def Let_def from_secs_def)
  then show ?thesis by (simp add: build_Ok_iff empty_chat_def)
qed

lemma ada_task: "hm_get (tasks (lobby_server cr q d)) 0 = Some (lobby_task cr q)"
  "task_address (lobby_task cr q) = lobby" "task_actor (lobby_task cr q) = box_any chat_type cr"
  by (simp_all add: lobby_server_def lobby_task_def)

theorem chat_names_unique_witness:
  "\<exists>cr. task_actor (lobby_task ada []) = box_any chat_type cr \<and> hm_get (cr_members cr) sid0 = Some [97]
     \<and> (\<forall>s. hm_get (cr_members cr) s = Some [97] \<longrightarrow> s = sid0)"
proof -
  obtain w where "handler_reach mbox_tokio nowhere record_tx (empty_chat, []) (lobby_server ada [] [(0, Ok ())], w)"
    using ada_reached by blast
  then obtain cr where cr: "task_actor (lobby_task ada []) = box_any chat_type cr"
    and u: "\<forall>s s' u. hm_get (cr_members cr) s = Some u \<longrightarrow> hm_get (cr_members cr) s' = Some u \<longrightarrow> s = s'"
    using chat_names_unique [OF chat_built _ ada_task(1)] by (metis ada_task(2) actor_address.select_convs(1))
  have "cr = ada" using cr by (simp add: ada_task box_any_def chat_type_def)
  then have "hm_get (cr_members cr) sid0 = Some [97]" by simp
  then show ?thesis using cr u by blast
qed

text \<open>A room of one member with thirty-two messages of another Session, which sends blanks, before it.\<close>

abbreviation sid1 :: session_id where
  "sid1 \<equiv> SessionId (replicate 16 1)"

lemma sid1_not_sid0 [simp]: "sid1 \<noteq> sid0" "sid0 \<noteq> sid1"
  by (simp_all add: numeral_eq_Suc)

lemma ada_undisturbed:
  "\<exists>w'. fold (room_serves byte_codec record_tx lobby) (replicate n ([], Action sid1 [1])) (ada, w) = (ada, w')"
proof (induction n arbitrary: w)
  case (Suc n)
  have "\<exists>w'. room_serves byte_codec record_tx lobby ([], Action sid1 [1]) (ada, w) = (ada, w')"
    by (simp add: room_serves_def chat_actor_def actor_defaults_def make_message_context_def chat_on_message_def
        byte_codec_def chat_send_def)
  then show ?case using Suc by auto
qed simp

theorem chat_ghost_member_witness:
  "\<exists>w'. fold (room_serves byte_codec record_tx lobby) (replicate 32 ([], Action sid1 [1])) (ada, []) = (ada, w')
     \<and> sink (sessions (close_local_session mbox_tokio lobby sid0 (lobby_server ada (replicate 32 (Action sid1 [1])) []))) lobby sid0 = None
     \<and> chat_join byte_codec record_tx [] (make_message_context lobby sid1) [32, 97] ada w' =
         (ada, chat_reject byte_codec record_tx [] (make_message_context lobby sid1) ''username is already in use'' w')"
proof -
  obtain w' where w': "fold (room_serves byte_codec record_tx lobby) (replicate 32 ([], Action sid1 [1])) (ada, []) = (ada, w')"
    using ada_undisturbed by blast
  have "hm_get (cr_members ada) (sh_session_id (mc_session (make_message_context lobby sid1))) = None"
    by (simp add: make_message_context_def)
  moreover have "trim [32, 97] = [97]" "printable 32 [97]"
    by (simp_all add: trim_def printable_def is_whitespace_def is_control_def)
  ultimately show ?thesis
    using chat_ghost_member [OF bm.mailbox_tokio_axioms, where srv = "lobby_server ada (replicate 32 (Action sid1 [1])) []"
        and a = lobby and route = "\<lparr>rt_generation = 1, rt_state = Active, rt_task = 0\<rparr>"
        and t = "lobby_task ada (replicate 32 (Action sid1 [1]))" and sid = sid0 and u = "[97]"
        and cr = ada and input = "[32, 97]" and ctx = "make_message_context lobby sid1"
        and C = byte_codec and tx = record_tx and r = "[]" and ms = "replicate 32 ([], Action sid1 [1])", OF _ _ _ _ _ _ _ _ _ w'] w'
    by (intro exI [of _ w']) (simp add: lobby_server_def lobby_task_def)
qed

theorem erased_actor_keeps_type_witness:
  "\<exists>x. task_actor (lobby_task ada []) = box_any chat_type x
     \<and> reg_session_opened lobby_reg [] lobby sid0 (task_actor (lobby_task ada [])) [] = (Returned (), box_any chat_type x, [])"
proof -
  obtain w where reach: "handler_reach mbox_tokio nowhere record_tx (empty_chat, []) (lobby_server ada [] [(0, Ok ())], w)"
    using ada_reached by blast
  have reg: "hm_get (registrations empty_chat) ''chat-room'' = Some lobby_reg" and "tasks empty_chat = hm_empty"
    by (simp_all add: empty_chat_eq lobby_registered hm_empty_def)
  moreover have gen: "generated_as chat_type (chat_actor byte_codec record_tx) lobby_reg"
    using chat.generated lobby_registered by blast
  ultimately obtain x where "task_actor (lobby_task ada []) = box_any chat_type x"
    using erased_actor_keeps_type [OF chat.type_ok reg gen _ reach ada_task(1), of "[]" lobby sid0 "[]" "[]" Idle]
    by (auto simp: ada_task(2))
  then show ?thesis by (auto simp: lobby_callbacks)
qed

end
