(* ===== verification/Chat_Client.thy ===== *)
theory Chat_Client
  imports Chat_Properties Client_Connections
begin

text \<open>
  The command-line chat client (\<open>coactor/examples/chat_client.rs\<close>).  What \<open>recv\<close> returns, time after
  time, is a list; a function that would wait for an item past its end has the result \<open>None\<close>.  The
  other branches of the \<open>select!\<close> are items of the list of \<open>run_chat\<close>.  \<open>send\<close> is the \<open>send\<close> of the
  Session on a world.  Each function gives back what it printed.
\<close>

section \<open>Events\<close>

datatype chat_failure =
    SessionFailure send_error
  | SessionEnded
  | BadPayload
  | Rejected utext
  | LeaveTimedOut
  | SignalFailure
  | InputFailure

type_synonym received = "session_item option"

datatype printed = Stdout utext | Stderr utext

definition receive_event :: "chat_codec \<Rightarrow> received \<Rightarrow> chat_failure + chat_event" where
  "receive_event C item =
     (case item of
        Some (Ok payload) \<Rightarrow> (case decode_event C payload of Some event \<Rightarrow> Ok event | None \<Rightarrow> Err BadPayload)
      | Some (Err error) \<Rightarrow> Err (SessionFailure error)
      | None \<Rightarrow> Err SessionEnded)"

definition print_event :: "chat_event \<Rightarrow> printed" where
  "print_event event =
     (case event of
        Joined username \<Rightarrow> Stdout (ascii ''* '' @ username @ ascii '' joined'')
      | Message username t \<Rightarrow> Stdout (ascii ''<'' @ username @ ascii ''> '' @ t)
      | Left username \<Rightarrow> Stdout (ascii ''* '' @ username @ ascii '' left'')
      | ChatError message \<Rightarrow> Stderr (ascii ''! '' @ message))"

section \<open>Joining\<close>

fun join_events :: "chat_codec \<Rightarrow> utext \<Rightarrow> received list \<Rightarrow> (chat_failure + unit) option \<times> printed list" where
  "join_events C username [] = (None, [])"
| "join_events C username (item # items) =
     (case receive_event C item of
        Err e \<Rightarrow> (Some (Err e), [])
      | Ok event \<Rightarrow>
          if event = Joined username then (Some (Ok ()), [])
          else (case event of
                  ChatError message \<Rightarrow> (Some (Err (Rejected message)), [])
                | _ \<Rightarrow> (case join_events C username items of (res, out) \<Rightarrow> (res, print_event event # out))))"

definition chat_client_join ::
  "chat_codec \<Rightarrow> (bytes \<Rightarrow> 'w \<Rightarrow> (send_error + unit) \<times> 'w) \<Rightarrow> utext \<Rightarrow> received list \<Rightarrow> 'w
     \<Rightarrow> (chat_failure + unit) option \<times> printed list \<times> 'w" where
  "chat_client_join C send username items w =
     (case send (encode_action C (Join username)) w of
        (Err e, w') \<Rightarrow> (Some (Err (SessionFailure e)), [], w')
      | (Ok _, w') \<Rightarrow> (case join_events C username items of (res, out) \<Rightarrow> (res, out, w')))"

section \<open>Leaving\<close>

fun wait_for_leave_event :: "chat_codec \<Rightarrow> utext \<Rightarrow> received list \<Rightarrow> (chat_failure + unit) option \<times> printed list" where
  "wait_for_leave_event C username [] = (None, [])"
| "wait_for_leave_event C username (item # items) =
     (case receive_event C item of
        Err e \<Rightarrow> (Some (Err e), [])
      | Ok event \<Rightarrow>
          if event = Left username then (Some (Ok ()), [print_event event])
          else (case wait_for_leave_event C username items of (res, out) \<Rightarrow> (res, print_event event # out)))"

text \<open>\<open>items\<close> is what \<open>recv\<close> returns within the three seconds.\<close>

definition chat_client_leave ::
  "chat_codec \<Rightarrow> (bytes \<Rightarrow> 'w \<Rightarrow> (send_error + unit) \<times> 'w) \<Rightarrow> utext \<Rightarrow> received list \<Rightarrow> 'w
     \<Rightarrow> (chat_failure + unit) \<times> printed list \<times> 'w" where
  "chat_client_leave C send username items w =
     (case send (encode_action C Leave) w of
        (Err e, w') \<Rightarrow> (Err (SessionFailure e), [], w')
      | (Ok _, w') \<Rightarrow>
          (case wait_for_leave_event C username items of
             (Some res, out) \<Rightarrow> (res, out, w')
           | (None, out) \<Rightarrow> (Err LeaveTimedOut, out, w')))"

section \<open>The loop\<close>

datatype chat_branch =
    EventBranch received
  | CtrlC bool
  | LineBranch "(unit + utext) option"

text \<open>\<open>after\<close> is what \<open>recv\<close> returns in the seconds after the client has asked to leave.\<close>

fun run_chat ::
  "chat_codec \<Rightarrow> (bytes \<Rightarrow> 'w \<Rightarrow> (send_error + unit) \<times> 'w) \<Rightarrow> utext \<Rightarrow> received list \<Rightarrow> chat_branch list \<Rightarrow> 'w
     \<Rightarrow> (chat_failure + unit) option \<times> printed list \<times> 'w" where
  "run_chat C send username after [] w = (None, [], w)"
| "run_chat C send username after (b # bs) w =
     (let leave = (case chat_client_leave C send username after w of (res, out, w') \<Rightarrow> (Some res, out, w'))
      in case b of
           EventBranch item \<Rightarrow>
             (case receive_event C item of
                Err e \<Rightarrow> (Some (Err e), [], w)
              | Ok event \<Rightarrow>
                  (case run_chat C send username after bs w of (res, out, w') \<Rightarrow> (res, print_event event # out, w')))
         | CtrlC ok \<Rightarrow> if ok then leave else (Some (Err SignalFailure), [], w)
         | LineBranch None \<Rightarrow> leave
         | LineBranch (Some (Err _)) \<Rightarrow> (Some (Err InputFailure), [], w)
         | LineBranch (Some (Ok line)) \<Rightarrow>
             if trim line = ascii ''/quit'' then leave
             else if trim line = [] then run_chat C send username after bs w
             else (case send (encode_action C (Send line)) w of
                     (Err e, w') \<Rightarrow> (Some (Err (SessionFailure e)), [], w')
                   | (Ok _, w') \<Rightarrow> run_chat C send username after bs w'))"

section \<open>What a Session is sent\<close>

text \<open>The Events sent to one Session, oldest first, over a transport that records what it is given.\<close>

definition event_for :: "session_id \<Rightarrow> sender_id \<times> envelope \<Rightarrow> bytes option" where
  "event_for sid m =
     (if env_session_id (snd m) = SessionId_as_bytes sid
      then (case env_kind (snd m) of Some (Kind_Event payload) \<Rightarrow> Some payload | _ \<Rightarrow> None) else None)"

definition events_for :: "session_id \<Rightarrow> sent \<Rightarrow> bytes list" where
  "events_for sid w = rev (List.map_filter (event_for sid) w)"

lemma as_bytes_inj [simp]: "SessionId_as_bytes a = SessionId_as_bytes b \<longleftrightarrow> a = b"
  by (cases a; cases b) simp

lemma events_for_deliver:
  "events_for sid (snd (deliver_event record_tx r a s payload w)) =
     events_for sid w @ (if s = sid \<and> sink r a s \<noteq> None then [payload] else [])"
  by (auto simp: deliver_event_def record_tx_def events_for_def event_for_def reply_envelope_def
      List.map_filter_simps split: option.splits event_sink.splits)

lemma events_for_broadcast_to:
  "distinct sids \<Longrightarrow> events_for sid (broadcast_to record_tx r a payload sids w) =
     events_for sid w @ (if sid \<in> set sids \<and> sink r a sid \<noteq> None then [payload] else [])"
  by (induction sids arbitrary: w) (auto simp: events_for_deliver)

lemma events_for_broadcast:
  "registry_ok r \<Longrightarrow> events_for sid (actor_broadcast record_tx (Some r) runtime payload w) =
     events_for sid w @ (if sink r (ar_address runtime) sid \<noteq> None then [payload] else [])"
  by (simp add: actor_broadcast_def events_for_broadcast_to snapshot_distinct snapshot_mem)

section \<open>Properties\<close>

text \<open>
  The client takes the \<open>Joined\<close> Event of another Session for its own.  When Session \<open>b\<close> joins
  under a free name and Session \<open>a\<close>, already open, then asks for the same name, \<open>a\<close> is sent
  \<open>b\<close>'s announcement followed by the rejection.  The room has \<open>b\<close> as a member and not \<open>a\<close>, but the
  \<open>join\<close> of \<open>a\<close>'s client returns successfully at the first of the two.
\<close>

theorem chat_join_misled:
  assumes "registry_ok r" and "cr_runtime cr = make_actor_runtime address"
    and "sink r address a \<noteq> None" and "sink r address b \<noteq> None" and "a \<noteq> b"
    and "printable 32 u" and "trim u = u"
    and "hm_get (cr_members cr) a = None" and "hm_get (cr_members cr) b = None"
    and "\<not> list_ex (\<lambda>(_, member). member = u) (cr_members cr)"
    and "decode_action C (encode_action C (Join u)) = Some (Join u)"
    and "decode_event C (encode_event C (Joined u)) = Some (Joined u)"
    and "chat_on_message C record_tx r (make_message_context address b) (encode_action C (Join u)) cr w = (cr1, w1)"
    and "chat_on_message C record_tx r (make_message_context address a) (encode_action C (Join u)) cr1 w1 = (cr2, w2)"
  shows "events_for a w2 = events_for a w @
           [encode_event C (Joined u), encode_event C (ChatError (ascii ''username is already in use''))]
     \<and> hm_get (cr_members cr2) b = Some u \<and> hm_get (cr_members cr2) a = None
     \<and> join_events C u (map (\<lambda>e. Some (Ok e)) (drop (length (events_for a w)) (events_for a w2))) = (Some (Ok ()), [])"
proof -
  let ?m = "hm_insert b u (cr_members cr)"
  have one: "cr1 = cr\<lparr>cr_members := ?m\<rparr>" "w1 = chat_broadcast C record_tx r (Joined u) cr1 w"
    using assms(6,7,9,10,11,13) by (auto simp: chat_on_message_def chat_join_def make_message_context_def Let_def)
  have "list_ex (\<lambda>(_, member). member = u) ?m" using no_member [of u ?m b] by auto
  then have two: "cr2 = cr1"
      "w2 = chat_reject C record_tx r (make_message_context address a) ''username is already in use'' w1"
    using assms(5-8,11,14) one(1) by (auto simp: chat_on_message_def chat_join_def make_message_context_def Let_def)
  have "events_for a w1 = events_for a w @ [encode_event C (Joined u)]"
    using assms(1-3) one by (simp add: chat_broadcast_def events_for_broadcast make_actor_runtime_def)
  then have ev: "events_for a w2 = events_for a w @
      [encode_event C (Joined u), encode_event C (ChatError (ascii ''username is already in use''))]"
    using assms(3) two(2)
    by (simp add: chat_reject_def context_send_def session_handle_send_def make_message_context_def events_for_deliver)
  show ?thesis
    using assms(5,8,12) ev one(1) two(1) by (simp add: receive_event_def)
qed

text \<open>The lobby has two open Sessions and nobody has joined.\<close>

abbreviation sid1 :: session_id where
  "sid1 \<equiv> SessionId (replicate 16 1)"

theorem chat_join_misled_witness:
  "\<exists>w. fst (join_events byte_codec [97] (map (\<lambda>e. Some (Ok e)) (events_for sid0 w))) = Some (Ok ())
     \<and> length (events_for sid0 w) = 2"
proof -
  let ?r = "[(lobby, [(sid0, Remote 7), (sid1, Remote 8)])]"
  let ?cr = "ChatRoom_new (make_actor_runtime lobby)"
  let ?ctx = "\<lambda>s. make_message_context lobby s"
  have ne: "replicate 16 (0 :: u8) \<noteq> replicate 16 1" by (simp add: numeral_eq_Suc)
  obtain cr1 w1 where j1: "chat_on_message byte_codec record_tx ?r (?ctx sid1) (encode_action byte_codec (Join [97])) ?cr [] = (cr1, w1)"
    by fastforce
  obtain cr2 w2 where j2: "chat_on_message byte_codec record_tx ?r (?ctx sid0) (encode_action byte_codec (Join [97])) cr1 w1 = (cr2, w2)"
    by fastforce
  have "events_for sid0 [] = []" by (simp add: events_for_def List.map_filter_simps)
  moreover have "registry_ok ?r" using ne by (simp add: registry_ok_def hm_ok_def hm_keys_def)
  moreover have "printable 32 [97]" "trim [97] = [97]"
    by (simp_all add: trim_def printable_def is_whitespace_def is_control_def)
  moreover have "decode_action byte_codec (encode_action byte_codec (Join [97])) = Some (Join [97])"
      "decode_event byte_codec (encode_event byte_codec (Joined [97])) = Some (Joined [97])"
    by (simp_all add: byte_codec_def)
  ultimately have ev: "events_for sid0 w2 =
      [encode_event byte_codec (Joined [97]), encode_event byte_codec (ChatError (ascii ''username is already in use''))]"
    and "join_events byte_codec [97] (map (\<lambda>e. Some (Ok e)) (events_for sid0 w2)) = (Some (Ok ()), [])"
    using chat_join_misled [OF _ _ _ _ _ _ _ _ _ _ _ _ j1 j2] ne
    by (simp_all add: ChatRoom_new_def sink_def hm_empty_def receive_event_def)
  then have "fst (join_events byte_codec [97] (map (\<lambda>e. Some (Ok e)) (events_for sid0 w2))) = Some (Ok ())"
    by (metis fst_conv)
  moreover have "length (events_for sid0 w2) = 2" using ev by simp
  ultimately show ?thesis by blast
qed

end
