(* ===== verification/Example_Programs.thy ===== *)
theory Example_Programs
  imports Chat_Client Client_Open S3_Store
begin

text \<open>
  The \<open>main\<close> functions of the example clients (\<open>coactor/examples/chat_client.rs\<close>, \<open>counter_client.rs\<close>) and the
  Server of \<open>counter_server.rs\<close>.  The Client's \<open>open\<close>, a Session's \<open>send\<close> and the Client's \<open>shutdown\<close> are
  operations on a world; what \<open>recv\<close> returns is a list, as in \<open>Chat_Client\<close>.
  The clients' \<open>main\<close> start where the Coordination Store and the Client have been built; the section on
  storage has what comes before.
\<close>

section \<open>Text as bytes\<close>

text \<open>UTF-8, as the bytes of a Rust \<open>String\<close>.\<close>

definition utf8_char :: "nat \<Rightarrow> nat list" where
  "utf8_char c =
     (if c < 0x80 then [c]
      else if c < 0x800 then [0xC0 + c div 64, 0x80 + c mod 64]
      else if c < 0x10000 then [0xE0 + c div 4096, 0x80 + c div 64 mod 64, 0x80 + c mod 64]
      else [0xF0 + c div 262144, 0x80 + c div 4096 mod 64, 0x80 + c div 64 mod 64, 0x80 + c mod 64])"

definition utf8 :: "utext \<Rightarrow> string" where
  "utf8 s = map char_of (concat (map utf8_char s))"

section \<open>Storage\<close>

text \<open>
  Where the examples keep their records.  The SDK's client is a parameter of the store's operations; what
  the programs choose is the bucket and the prefix.  \<open>env\<close> is \<open>std::env::var\<close>, \<open>None\<close> its error.
\<close>

datatype setup_failure = VarMissing string | BadStore s3_config_error

definition chat_coordination_store :: "s3_config_error + s3_store" where
  "chat_coordination_store = S3CoordinationStore_new ''coactor'' ''coactor/chat''"

definition counter_store :: "(string \<Rightarrow> string option) \<Rightarrow> string \<Rightarrow> setup_failure + s3_store" where
  "counter_store env bucket =
     (case S3CoordinationStore_new bucket (case env ''COACTOR_S3_PREFIX'' of Some p \<Rightarrow> p | None \<Rightarrow> []) of
        Err e \<Rightarrow> Err (BadStore e)
      | Ok store \<Rightarrow> Ok store)"

definition counter_client_setup :: "(string \<Rightarrow> string option) \<Rightarrow> setup_failure + s3_store" where
  "counter_client_setup env =
     (case env ''COACTOR_S3_BUCKET'' of
        None \<Rightarrow> Err (VarMissing ''COACTOR_S3_BUCKET'')
      | Some bucket \<Rightarrow> counter_store env bucket)"

definition counter_server_setup :: "(string \<Rightarrow> string option) \<Rightarrow> setup_failure + s3_store \<times> string \<times> string" where
  "counter_server_setup env =
     (case env ''COACTOR_S3_BUCKET'' of
        None \<Rightarrow> Err (VarMissing ''COACTOR_S3_BUCKET'')
      | Some bucket \<Rightarrow>
          (case env ''COACTOR_BIND'' of
             None \<Rightarrow> Err (VarMissing ''COACTOR_BIND'')
           | Some bind \<Rightarrow>
               (case env ''COACTOR_ADVERTISED_ENDPOINT'' of
                  None \<Rightarrow> Err (VarMissing ''COACTOR_ADVERTISED_ENDPOINT'')
                | Some advertised \<Rightarrow>
                    (case counter_store env bucket of
                       Err e \<Rightarrow> Err e
                     | Ok store \<Rightarrow> Ok (store, bind, advertised)))))"

text \<open>The chat Server and client always agree on a valid store; the counter's do in one environment.\<close>

lemma chat_store_keys:
  "\<exists>store. chat_coordination_store = Ok store
     \<and> actor_key store \<lparr>actor_type = ''chat-room'', actor_id = x\<rparr> = ''coactor/chat/actors/chat-room/'' @ x @ ''/ownership.json''"
proof -
  have "\<not> trim_is_empty ''coactor''" "valid_prefix ''coactor/chat''" by code_simp+
  then show ?thesis by (simp add: chat_coordination_store_def S3CoordinationStore_new_def actor_key_def s3_key_def)
qed

lemma counter_setups_agree:
  "counter_server_setup env = Ok (store, bind, advertised) \<Longrightarrow> counter_client_setup env = Ok store"
  by (auto simp: counter_server_setup_def counter_client_setup_def split: option.splits sum.splits)

section \<open>Chat client\<close>

datatype main_failure =
    Usage
  | AddressFailure actor_address_error
  | OpenFailure open_error
  | ChatFailure chat_failure
  | SendFailure send_error
  | NotText

text \<open>\<open>std::env::args().skip(1)\<close>: a room and a user name, which is trimmed.\<close>

fun chat_client_arguments :: "utext list \<Rightarrow> main_failure + utext \<times> utext" where
  "chat_client_arguments [chat_name, username] = Ok (chat_name, trim username)"
| "chat_client_arguments _ = Err Usage"

record ('h, 'w) client_ops =
  co_open :: "actor_address \<Rightarrow> 'w \<Rightarrow> (open_error + 'h) \<times> 'w"
  co_send :: "'h \<Rightarrow> bytes \<Rightarrow> 'w \<Rightarrow> (send_error + unit) \<times> 'w"
  co_shutdown :: "'w \<Rightarrow> 'w"

text \<open>\<open>None\<close>: the program still waits for a \<open>recv\<close> or a branch.\<close>

definition chat_client_main ::
  "chat_codec \<Rightarrow> ('h, 'w) client_ops \<Rightarrow> utext list \<Rightarrow> received list \<Rightarrow> received list \<Rightarrow> chat_branch list \<Rightarrow> 'w
     \<Rightarrow> (main_failure + unit) option \<times> printed list \<times> 'w" where
  "chat_client_main C Ops args joining leaving branches w =
     (case chat_client_arguments args of
        Err e \<Rightarrow> (Some (Err e), [], w)
      | Ok (chat_name, username) \<Rightarrow>
          (case ActorAddress_new ''chat-room'' (utf8 chat_name) of
             Err e \<Rightarrow> (Some (Err (AddressFailure e)), [], w)
           | Ok address \<Rightarrow>
               (case co_open Ops address w of
                  (Err e, w1) \<Rightarrow> (Some (Err (OpenFailure e)), [], w1)
                | (Ok session, w1) \<Rightarrow>
                    (case chat_client_join C (co_send Ops session) username joining w1 of
                       (None, shown, w2) \<Rightarrow> (None, shown, w2)
                     | (Some (Err e), shown, w2) \<Rightarrow> (Some (Err (ChatFailure e)), shown, w2)
                     | (Some (Ok _), shown, w2) \<Rightarrow>
                         let banner = Stdout (ascii ''Connected to '' @ ascii (ActorAddress_display address)
                                        @ ascii ''. Type /quit or press Ctrl+C to leave.'')
                         in (case run_chat C (co_send Ops session) username leaving branches w2 of
                               (None, said, w3) \<Rightarrow> (None, shown @ [banner] @ said, w3)
                             | (Some res, said, w3) \<Rightarrow>
                                 (Some (map_sum ChatFailure id res), shown @ [banner] @ said, co_shutdown Ops w3))))))"


text \<open>The Client is shut down exactly when the chat loop has ended, however it ended.\<close>

lemma chat_client_main_shuts_down:
  assumes "chat_client_main C Ops args joining leaving branches w = (Some res, shown, w')"
    and "chat_client_arguments args = Ok (chat_name, username)" and "ActorAddress_new ''chat-room'' (utf8 chat_name) = Ok address"
    and "co_open Ops address w = (Ok session, w1)"
    and "chat_client_join C (co_send Ops session) username joining w1 = (Some (Ok ()), out, w2)"
  shows "fst (run_chat C (co_send Ops session) username leaving branches w2) \<noteq> None
     \<and> w' = co_shutdown Ops (snd (snd (run_chat C (co_send Ops session) username leaving branches w2)))"
  using assms by (auto simp: chat_client_main_def Let_def split: prod.splits option.splits)

section \<open>Counter\<close>

definition counter_server :: "(string \<Rightarrow> string) \<Rightarrow> bool \<Rightarrow> 'w transport \<Rightarrow> string \<Rightarrow> (example_value any_box, 'w) server_builder" where
  "counter_server debug overflow_checks tx advertised =
     builder_actor (erased_registration (erased_impl debug counter_type (counter_actor overflow_checks tx)))
       \<lparr>ac_name = ''counter'', ac_mailbox_capacity = None, ac_idle_timeout = None\<rparr>
       (builder_node_id ''counter-server'' (builder_advertised_endpoint advertised Server_builder))"

text \<open>\<open>item\<close> is what \<open>recv\<close> returns.\<close>

definition counter_client_main ::
  "('h, 'w) client_ops \<Rightarrow> received \<Rightarrow> 'w \<Rightarrow> (main_failure + unit) \<times> string list \<times> 'w" where
  "counter_client_main Ops item w =
     (case ActorAddress_new ''counter'' ''counter-7'' of
        Err e \<Rightarrow> (Err (AddressFailure e), [], w)
      | Ok address \<Rightarrow>
          (case co_open Ops address w of
             (Err e, w1) \<Rightarrow> (Err (OpenFailure e), [], w1)
           | (Ok session, w1) \<Rightarrow>
               (case co_send Ops session (as_bytes_str ''increment'') w1 of
                  (Err e, w2) \<Rightarrow> (Err (SendFailure e), [], w2)
                | (Ok _, w2) \<Rightarrow>
                    (case item of
                       Some (Ok event) \<Rightarrow>
                         (case String_from_utf8 event of
                            None \<Rightarrow> (Err NotText, [], w2)
                          | Some t \<Rightarrow> (Ok (), [t], co_shutdown Ops w2))
                     | Some (Err error) \<Rightarrow> (Err (SendFailure error), [], w2)
                     | None \<Rightarrow> (Ok (), [''the Session ended before an Event arrived''], co_shutdown Ops w2)))))"


text \<open>The client prints the count in the Event the Actor sends.\<close>

lemma counter_client_prints:
  assumes "co_open Ops \<lparr>actor_type = ''counter'', actor_id = ''counter-7''\<rparr> w = (Ok session, w1)"
    and "co_send Ops session (as_bytes_str ''increment'') w1 = (Ok (), w2)"
  shows "counter_client_main Ops (Some (Ok (map byte_of_char (show_nat (unat (v :: u64)))))) w =
     (Ok (), [show_nat (unat v)], co_shutdown Ops w2)"
proof -
  have "ActorAddress_new ''counter'' ''counter-7'' = Ok \<lparr>actor_type = ''counter'', actor_id = ''counter-7''\<rparr>" by code_simp
  moreover have "(of_char c :: nat) < 128" if "c \<in> set (show_nat n)" for c n
    using that show_nat_digits [of n] by (auto simp: list_all_iff is_ascii_digit_def)
  then have "String_from_utf8 (as_bytes_str (show_nat n)) = Some (show_nat n)" for n by (rule from_utf8_ascii)
  ultimately show ?thesis using assms by (simp add: counter_client_main_def as_bytes_str_def)
qed

end
