(* ===== verification/Error_Texts.thy ===== *)
theory Error_Texts
  imports Client_Connections Server_Builder
begin

text \<open>
  The texts of the errors (\<open>Display\<close>: \<open>coactor/src/actor.rs\<close>, \<open>cluster/authority.rs\<close>, \<open>transport/mod.rs\<close>), which a
  consumer logs.  A text identifies its error, except that the errors of \<open>ServerError\<close> with a source do not
  show it.
\<close>

section \<open>Texts\<close>

fun show_actor_address_error :: "actor_address_error \<Rightarrow> string" where
  "show_actor_address_error InvalidActorType = ''Actor Type must be a Kubernetes DNS label''"
| "show_actor_address_error InvalidActorId = ''Actor ID must be a Kubernetes DNS label''"

fun show_remote_protocol_error :: "remote_protocol_error \<Rightarrow> string" where
  "show_remote_protocol_error VersionMismatch = ''runtime protocol mismatch''"
| "show_remote_protocol_error ActorTypeNotRegistered_remote = ''Actor Type is not registered''"
| "show_remote_protocol_error MalformedMessage = ''malformed session message''"

fun show_send_error :: "send_error \<Rightarrow> string" where
  "show_send_error (ActorTypeNotRegistered s) = ''Actor Type `'' @ s @ ''` is not registered''"
| "show_send_error NotOwner = ''the node does not own this Actor Address''"
| "show_send_error MailboxFull = ''the Active Actor mailbox is full''"
| "show_send_error ActivationFailed = ''the Active Actor failed to activate''"
| "show_send_error ActorDeactivating = ''the Active Actor is deactivating''"
| "show_send_error RuntimeAtCapacity = ''the runtime has reached its Active Actor limit''"
| "show_send_error RuntimeShuttingDown = ''the runtime is shutting down''"
| "show_send_error ActorStopped = ''the Active Actor stopped''"
| "show_send_error RuntimeStopped = ''the CoActor runtime stopped''"
| "show_send_error NodeFenced = ''the CoActor runtime lost Node authority''"
| "show_send_error RemoteUnavailable = ''the remote runtime is unavailable''"
| "show_send_error DirectoryUnavailable = ''the Node Directory is unavailable''"
| "show_send_error OwnershipUnavailable = ''distributed ownership is unavailable''"
| "show_send_error (RemoteProtocol e) = ''the remote runtime rejected the protocol: '' @ show_remote_protocol_error e"

fun show_open_error :: "open_error \<Rightarrow> string" where
  "show_open_error RuntimeStopped_open = ''the Client runtime stopped''"
| "show_open_error DirectoryUnavailable_open = ''the Node Directory is unavailable''"
| "show_open_error AttemptsExhausted = ''the Client exhausted its SessionOpen messages sent to Servers''"
| "show_open_error RemoteUnavailable_open = ''the remote runtime is unavailable''"
| "show_open_error ActorTypeNotRegistered_open = ''the Actor Type is not registered''"
| "show_open_error RuntimeAtCapacity_open = ''the runtime has reached its Active Actor limit''"
| "show_open_error OwnershipUnavailable_open = ''distributed ownership is unavailable''"
| "show_open_error RemoteProtocol_open = ''the remote runtime rejected the protocol''"

fun show_server_error :: "server_error \<Rightarrow> string" where
  "show_server_error InvalidListenAddress = ''listen address must be `:port`, an IPv4 socket address, or a bracketed IPv6 socket address''"
| "show_server_error MissingAdvertisedEndpoint = ''advertised endpoint is required''"
| "show_server_error (InvalidActorType_server s) = ''Actor Type `'' @ s @ ''` is invalid''"
| "show_server_error (DuplicateActorType s) = ''Actor Type `'' @ s @ ''` was registered more than once''"
| "show_server_error InvalidMailboxCapacity = ''mailbox capacity must be greater than zero''"
| "show_server_error InvalidMaxActiveActors = ''max_active_actors must be greater than zero''"
| "show_server_error InvalidNodeId = ''Node ID must be a Kubernetes DNS label''"
| "show_server_error InvalidAdvertisedEndpoint = ''advertised endpoint must be a canonical host:port without a scheme or path''"
| "show_server_error InvalidNodeLeaseTtl = ''Node Lease TTL must be greater than zero''"
| "show_server_error InvalidCoordinationTimeout = ''Coordination operation timeout must be greater than zero''"
| "show_server_error InvalidDeactivationTimeout = ''deactivation timeout must be greater than zero''"
| "show_server_error InvalidShutdownTimeout = ''shutdown timeout must be greater than zero''"
| "show_server_error BindFailed_server = ''the transport listener could not bind''"
| "show_server_error LeaseConflict = ''Node Lease is already owned''"
| "show_server_error LeaseUnconfirmed = ''Node Lease acquisition could not be confirmed''"
| "show_server_error (Coordination_failed e) = ''Coordination Store is unavailable during startup''"
| "show_server_error ServiceStopped = ''an internal Server service stopped unexpectedly''"
| "show_server_error Fenced = ''the Server self-fenced after losing Node authority''"
| "show_server_error ShutdownTimedOut = ''the Server forced Active Actors to stop after graceful shutdown timed out''"

fun show_client_build_error :: "client_build_error \<Rightarrow> string" where
  "show_client_build_error InvalidOpenTimeout = ''open timeout must be greater than zero''"
| "show_client_build_error InvalidTransportConnectTimeout = ''transport connection timeout must be greater than zero''"
| "show_client_build_error InvalidMaxOpenAttempts = ''max_open_attempts must be greater than zero''"
| "show_client_build_error InvalidMaxConnectionsPerEndpoint = ''max_connections_per_endpoint must be greater than zero''"

fun show_coordination_error :: "coordination_error \<Rightarrow> string" where
  "show_coordination_error Unavailable = ''coordination store is unavailable''"
| "show_coordination_error PermissionDenied = ''coordination store permission denied''"
| "show_coordination_error InvalidData = ''coordination store returned invalid data''"

fun show_transport_error :: "transport_error \<Rightarrow> string" where
  "show_transport_error (ConnectFailed detail) = ''connect failed: '' @ detail"
| "show_transport_error (BindFailed detail) = ''bind failed: '' @ detail"
| "show_transport_error TransportClosed = ''stream closed''"
| "show_transport_error TransportFull = ''send buffer full''"

section \<open>Texts identify errors\<close>

lemma show_remote_protocol_error_inj: "show_remote_protocol_error x = show_remote_protocol_error y \<Longrightarrow> x = y"
  by (cases x; cases y) simp_all

lemma show_send_error_inj: "show_send_error x = show_send_error y \<Longrightarrow> x = y"
  by (cases x; cases y) (auto dest: show_remote_protocol_error_inj)

lemma show_open_error_inj: "show_open_error x = show_open_error y \<Longrightarrow> x = y"
  by (cases x; cases y) simp_all

lemma show_server_error_inj:
  "show_server_error x = show_server_error y \<Longrightarrow>
   x = y \<or> (\<exists>e e'. x = Coordination_failed e \<and> y = Coordination_failed e')"
  by (cases x; cases y) auto

lemma show_client_build_error_inj: "show_client_build_error x = show_client_build_error y \<Longrightarrow> x = y"
  by (cases x; cases y) simp_all

lemma show_coordination_error_inj: "show_coordination_error x = show_coordination_error y \<Longrightarrow> x = y"
  by (cases x; cases y) simp_all

lemma show_transport_error_inj: "show_transport_error x = show_transport_error y \<Longrightarrow> x = y"
  by (cases x; cases y) simp_all

end
