(* ===== verification/Spec2Isabelle.thy ===== *)
theory Spec2Isabelle
  imports Lifecycle_Properties Ownership_Protocol Client_Properties S3_Leases Lease_Protocol
    Node_Properties Transports Delivery_Runs Stale_Process Owner_Takeover Broadcast Inmem_Queries
    Server_Config Grpc_Listener Resolution_Locks Example_Programs Error_Texts
begin

text \<open>
  CoActor (\<open>src/coactor\<close>) is a runtime for virtual actors.  A Client opens Sessions with Actors
  named by an address; a Server hosts Actors, at most one task per address, activated on demand
  and deactivated when idle.  Servers of one deployment share a Coordination Store, normally an S3
  bucket, which holds a Node Lease per Server and an ownership record per Actor.

  \<^bold>\<open>Parts and theories\<close>

  \<^item> Shared vocabulary.  \<open>Coactor_Prelude\<close>: words, results, hash maps (locale \<open>hash_map\<close>), collections
    of rules.  \<open>Decimal_Text\<close>, \<open>Float64\<close>, \<open>Socket_Address\<close>, \<open>Socket_Roundtrip\<close>: what the source uses of
    Rust's standard library (integers as text, binary64 arithmetic on durations and ratios, socket
    addresses).  \<open>Tokio_Interface\<close>: bounded channels and semaphores as a record of operations with
    contracts \<open>mpsc_contract\<close> and \<open>semaphore_contract\<close>; the model never fixes an implementation.

  \<^item> Names, errors, envelopes (\<open>actor.rs\<close>, \<open>runtime/session.rs\<close>, \<open>transport_protocol\<close>).  \<open>Actor_Address\<close>,
    \<open>Runtime_Errors\<close>, \<open>Wire_Protocol\<close>: DNS labels, error values and their wire codes, the envelopes a
    Client builds and a Server reads, with round trips.  \<open>Error_Texts\<close>: the texts of the errors, and
    that they tell the errors apart.

  \<^item> One Server (\<open>runtime.rs\<close>, \<open>runtime/*.rs\<close>).  \<open>Session_Registry\<close> (refines a finite map),
    \<open>Actor_Routes\<close>, \<open>Runtime_Core\<close> (the dispatcher), \<open>Actor_Lifecycle\<close> (the Actor task),
    \<open>Runtime_Shutdown\<close>, \<open>Server_Builder\<close>, \<open>Server_Config\<close> (Actor configurations, App State,
    the faults tests inject).  A Server is the record \<open>server\<close>; a handler is a function
    on it and on a world \<open>'w\<close> that stands for store, transport and other tasks.  A handler that
    waits for an Actor is cut there: \<open>dispatch_inbound\<close> goes up to the \<open>oneshot\<close> of an open and
    \<open>inbound_opened\<close> is the rest.  \<open>inbound_session_open\<close>, \<open>shutdown_finish\<close> and \<open>fence_finish\<close> run
    their sections without a pause; \<open>internal_step\<close> of \<open>Actor_Invariants\<close> has the sections as steps
    of their own too (\<open>resolved\<close>, \<open>clears\<close>, \<open>terminates\<close>, \<open>stops\<close>).  \<open>Runtime_Safety\<close> has one rule of \<open>rt_step\<close> per critical section, with
    the invariant by rule induction; \<open>Handler_Invariants\<close> shows that every whole handler keeps it.
    \<open>Runtime_Properties\<close> and \<open>Lifecycle_Properties\<close> state what follows: capacity is conserved,
    deactivation loses nothing, dispatch is all or nothing, Sessions of different connections are
    isolated, no inbound envelope panics, drain equals its reference fold, shutdown leaves nothing.

  \<^item> Ownership (\<open>cluster/routing.rs\<close>, \<open>cluster/authority.rs\<close>).  \<open>Coordination\<close>: records, outcomes, the
    store as a record of operations, and the locale \<open>owner_store\<close>: a linearizable store with
    conditional writes, seen through the history of each address's record.  \<open>Cluster_Routing\<close>:
    \<open>resolve\<close>, \<open>claim\<close>, \<open>release_local_owner\<close> over any such store.  \<open>Memory_Store\<close>: the test store of
    \<open>test_support.rs\<close>, an instance.  \<open>Ownership_Protocol\<close>: what any number of Servers write, and that
    no two of them own one address under one epoch.  \<open>Resolution_Locks\<close>: the mutexes that make the
    resolutions of one address exclude each other.  \<open>Owner_Takeover\<close>: a takeover, which follows from
    a lookup that finds no lease, happens after the previous owner's authority has ended unless a
    renewal lands after the lookup.  \<open>Stale_Process\<close>: a process that has lost its Node ID to a
    successor can still take the successor's records.

  \<^item> S3 (\<open>cluster/s3.rs\<close>).  \<open>S3_Store\<close>: keys, objects, requests, error classification, the directory
    with its pages and cache.  \<open>S3_Refinement\<close>: it implements \<open>owner_store\<close> over a bucket with the
    documented conditional writes (locale \<open>s3_objects\<close>) in which only nodes write ownership objects
    (\<open>s3_owners\<close>; the prefix is the deployment's own and no code deletes them).  ETags may repeat.  \<open>S3_Leases\<close>: acquiring,
    renewing and releasing a Node Lease.

  \<^item> A node (\<open>cluster/node.rs\<close>, \<open>cluster/authority.rs\<close>, \<open>runtime.rs\<close>).  \<open>Node_Authority\<close>: the local view of
    the lease.  \<open>Lease_Protocol\<close>: competing sessions of one Node ID, each with its clocks.
    \<open>Node_Lease\<close>: confirmation of ambiguous writes and the renewal task, verified once in the locale
    \<open>renewal_rely\<close>, which is what the task relies on from clock, store and other tasks.
    \<open>Endpoint_Names\<close>, \<open>Server_Start\<close>: builder to running node, shutdown, the accept loop, the
    connection task.
    \<open>Node_World\<close>: a world of the model's own operations on which the locale is interpreted.
    \<open>Node_Properties\<close>: the properties.

  \<^item> Placement and Client (\<open>cluster/placement.rs\<close>, \<open>client/*.rs\<close>).  \<open>Placement\<close>: power of two choices
    with in-flight accounting.  \<open>Client_Connections\<close>, \<open>Client_Open\<close>: state, pools, receive loop, the
    open loop.  Pools and connections are objects behind references; \<open>bind\<close> and \<open>unbind\<close> are two
    sections each, the set and the counter.  \<open>Client_Safety\<close>: \<open>cl_step\<close>, one rule per section of the
    Client's tasks, \<open>shutdown\<close> included.
    \<open>Client_Open_Safety\<close>, \<open>Client_Attempts\<close>, \<open>Client_References\<close>: locales \<open>target_search\<close>,
    \<open>round_search\<close>, \<open>client_rely\<close>, \<open>session_open_meter\<close> with the open loop proved once against any
    interference.  \<open>Client_Progress\<close>: locales \<open>listed_directory\<close> (where a Placement can go) and
    \<open>open_progress\<close> (why the retries end).
    \<open>Client_Wire\<close>: a world on which they are interpreted.  \<open>Client_Properties\<close>: the properties.

  \<^item> Transports (\<open>transport/*.rs\<close>).  \<open>Transports\<close>: the outbound half of gRPC and the whole in-memory
    transport, with order of delivery over every interleaving.  \<open>Grpc_Listener\<close>: the listening side of
    gRPC and its bounded backlog (locale \<open>stream_backlog\<close>).  \<open>Inmem_Queries\<close>: the registry's queries.
    \<open>Broadcast\<close>: what both transports promise the runtime (locales \<open>message_transport\<close>,
    \<open>envelope_channels\<close>), and that a broadcast reaches every Session whose transport has room.

  \<^item> The consumer's side (\<open>runtime/actor.rs\<close>, \<open>runtime/message.rs\<close>, \<open>src/coactor-macros\<close>).  \<open>Actor_Interface\<close>:
    the \<open>Actor\<close> trait, the handles given to an Actor, and what \<open>#[actor]\<close> generates, with the downcasts
    of \<open>Box<dyn Any>\<close> written out.  \<open>Actor_Invariants\<close>: \<open>handler_step\<close>, one rule per handler of the
    Server, and the locales \<open>actor_invariant\<close> and \<open>hosted_actor\<close>, by which an invariant of an Actor Type
    that its constructor gives and its callbacks keep holds of every Actor in every reachable state;
    no downcast ever fails.

  \<^item> The examples (\<open>coactor/examples\<close>).  \<open>Chat_Room\<close>, \<open>Chat_Properties\<close>: the chat Server and the counter as
    instances of \<open>hosted_actor\<close>; names in a room are unique, and a member can outlive its Session.
    \<open>Chat_Client\<close>: the command-line client.  \<open>Example_Programs\<close>: their
    storage and \<open>main\<close> functions.

  \<^item> Delivery.  \<open>Action_Delivery\<close>: over any run of the Server's handlers the Actions an Actor is given
    are a subsequence of those that arrived, shown with Actors that record what they are given
    (locales \<open>recorded_actors\<close>, \<open>recorded_mailboxes\<close>; \<open>recording\<close> turns any Actor Type into one).
    \<open>Test_Server\<close>: \<open>TestServer\<close> of \<open>test_support.rs\<close> and \<open>network_run\<close>, the Server's stream tasks on the
    in-memory transport, with the statement from the Client's send to the Actor.  \<open>Event_Delivery\<close>:
    the way back, from the Server's send to the consumer's \<open>recv\<close> (locale \<open>event_channels\<close>).
    \<open>Delivery_Runs\<close>: concrete runs of both.

  This theory composes ownership resolution with the S3 store.

  \<^bold>\<open>Bounds and fuel\<close>

  The loops of \<open>resolve\<close> and of the confirmations are bounded in the source, with the same bounds
  here.  \<open>Client::open\<close> and the renewal task may run for ever: \<open>open_loop\<close> and \<open>renewal_loop\<close> take
  fuel and answer \<open>None\<close> without it.  \<open>open_returns\<close> gives the fuel that suffices for an open
  (two rounds per handover of the address, one per endpoint the directory lists, one per allowed
  attempt, and two more); \<open>renewal_fences_when_cut_off\<close> gives six rounds for a
  node without its store; for the rest of its life the renewal task runs until it is told to stop,
  and its safety holds for any fuel.  The pages of an S3 listing and the redraws of Placement take
  fuel too; \<open>pick_returns\<close> says when the redraw ends.  Integers of the source are words where
  they can wrap or saturate (epochs, identifiers, capacities); durations and instants are natural
  numbers of nanoseconds.

  \<^bold>\<open>Findings\<close>

  Some theorems record behaviour that a reader may not expect: \<open>stale_commit_revives_fenced_server\<close>,
  \<open>session_error_lost_when_full\<close>, \<open>steady_traffic_never_expires\<close>, \<open>takeover_before_fence\<close>,
  \<open>duplicate_listen_cuts_off_first\<close>, \<open>opened_ack_lost_behind_envelope\<close>,
  \<open>late_stream_outlives_shutdown\<close>, \<open>chat_ghost_member\<close>, \<open>chat_join_misled\<close>,
  \<open>stale_process_splits_ownership\<close>, \<open>renewal_outlives_takeover\<close>, \<open>locks_never_removed\<close>,
  \<open>oversized_mailbox_panics\<close>, \<open>build_panics_iff\<close>; and \<open>session_isolation\<close> says what the end of a
  failed open removes.

  \<^bold>\<open>Not modelled\<close>

  Debug texts, tracing, re-exports and the build script have no behaviour to verify.  Of the actor
  macro, parsing and quoting of Rust tokens.  \<open>tonic\<close>, the protobuf and JSON codecs, the AWS SDK with
  its configuration, \<open>tokio\<close> and the random source are parameters with their documented behaviour as
  hypotheses.  Sockets and the terminal are inputs.  The end of an in-memory stream by dropping every
  sender of the other side is left out.
\<close>

section \<open>Resolution over S3\<close>

text \<open>
  C25. A Server that runs on the S3 store and whose \<open>resolve\<close> answers \<open>Local\<close> was the owner named
  by the ownership object in the bucket at some moment while it ran, whatever other nodes wrote
  and also when S3 did not confirm its own write.  The bucket's reads and conditional writes are
  linearizable and its ownership objects are written by nodes only; its ETags may repeat.
\<close>

theorem resolve_over_s3_was_owner:
  assumes "s3_owners C H ok fits J s" and "ok w"
    and "resolve T (s3_coordination_store fuel C J K s) r a cap w = (Ok (Local b), cap', w')"
  shows "was_owner r (owner_hist J s H w a) (owner_hist J s H w' a)"
  using assms(3) unfolding resolve_def
  by (rule owner_store.resolve_rounds_owner [OF s3_owners.implements [OF assms(1)] _ assms(2)])

text \<open>An empty bucket that loses the answer to the first write.\<close>

definition quiet_bucket :: bucket_world where
  "quiet_bucket = \<lparr>bw_objects = hm_empty, bw_foreign = [], bw_lost = [True]\<rparr>"

abbreviation demo_owners :: "bucket_world coordination_store" where
  "demo_owners \<equiv> s3_coordination_store 1 (demo_client demo_store) demo_codec still_clocks demo_store"

lemma quiet_bucket_ok: "bucket_ok s quiet_bucket"
  by (simp add: bucket_ok_def quiet_bucket_def bucket_hist_def)

definition claimed_bucket :: bucket_world where
  "claimed_bucket = quiet_bucket\<lparr>bw_objects := hm_insert (s3_bucket demo_store, actor_key demo_store room_1)
     [Some (enc_owner (local_claim node_a 1), etag_of (enc_owner (local_claim node_a 1)))] hm_empty, bw_lost := []\<rparr>"

lemmas bucket_exec = quiet_bucket_def claimed_bucket_def s3_coordination_store_def with_timeout_def still_clocks_def
  demo_client_def run_foreign_def bucket_hist_def object_now_def write_object_def pre_holds.simps Let_def demo_codec_def
  read_actor_key_def get_object_def s3_compare_exchange_actor_owner_def put_object_def as_precondition_def
  classify_read_error_def classify_write_error_def

lemma quiet_read: "cs_read_actor_owner demo_owners d room_1 quiet_bucket = (Done (Ok None), quiet_bucket)"
  by (simp add: bucket_exec)

lemma quiet_claim:
  "\<exists>e. cs_compare_exchange_actor_owner demo_owners d room_1 (local_claim node_a 1) None quiet_bucket
     = (Done (Ok (Indeterminate e)), claimed_bucket)"
  by (simp add: bucket_exec)

lemma claimed_read:
  "\<exists>v. cs_read_actor_owner demo_owners d room_1 claimed_bucket = (Done (Ok (Some v)), claimed_bucket)
     \<and> vr_record v = local_claim node_a 1"
  by (simp add: bucket_exec)

lemma resolve_quiet_bucket:
  "\<exists>cap. resolve tokio_nat demo_owners node_a room_1 1 quiet_bucket = (Ok (Local True), cap, claimed_bucket)"
proof -
  obtain e where c: "cs_compare_exchange_actor_owner demo_owners 5 room_1 (local_claim node_a 1) None quiet_bucket
      = (Done (Ok (Indeterminate e)), claimed_bucket)"
    using quiet_claim by blast
  obtain v where v: "cs_read_actor_owner demo_owners 5 room_1 claimed_bucket = (Done (Ok (Some v)), claimed_bucket)"
    "vr_record v = local_claim node_a 1"
    using claimed_read by blast
  have "confirm_claim 3 demo_owners node_a room_1 (local_claim node_a 1) claimed_bucket = (Confirmed, claimed_bucket)"
    using v by (simp add: numeral_3_eq_3)
  then have "take_ownership tokio_nat demo_owners node_a room_1 None 1 quiet_bucket
      = Inl (Ok (Local True), 0, claimed_bucket)"
    using c by (simp add: take_ownership_def next_epoch_def)
  then have "resolve_round tokio_nat demo_owners node_a room_1 1 quiet_bucket
      = Inl (Ok (Local True), 0, claimed_bucket)"
    by (simp add: resolve_round_def quiet_read del: One_nat_def)
  then show ?thesis by (simp add: resolve_def numeral_3_eq_3)
qed

theorem resolve_over_s3_was_owner_witness:
  "was_owner node_a [] (owner_hist demo_codec demo_store bucket_hist claimed_bucket room_1)"
proof -
  obtain cap where r: "resolve tokio_nat demo_owners node_a room_1 1 quiet_bucket = (Ok (Local True), cap, claimed_bucket)"
    using resolve_quiet_bucket by blast
  have "owner_hist demo_codec demo_store bucket_hist quiet_bucket room_1 = []"
    by (simp add: owner_hist_def bucket_hist_def quiet_bucket_def List.map_filter_def)
  then show ?thesis
    using resolve_over_s3_was_owner [OF demo.s3_owners_axioms quiet_bucket_ok r] by simp
qed

end
